(* ===== verification/Harjus_Prelude.thy ===== *)
theory Harjus_Prelude
  imports Main "HOL-Library.Signed_Division" "HOL-Library.Multiset"
begin

text \<open>
  What the components share: the collections of facts the proofs of the development are
  driven by, the C++ integer division (truncating, as in \<^verbatim>\<open>mpz_int\<close> and in the machine
  integers), and the few operations of \<^verbatim>\<open>std::unordered_map\<close> the program uses, on maps.
\<close>

named_theorems pn_simps \<open>arithmetic of PreciseNumber, read off its smallest unit\<close>
named_theorems trade_simps \<open>how the accessors of a trade follow its position\<close>
named_theorems worker_defs \<open>the steps of the worker, unfolded\<close>

section \<open>Truncating division\<close>

text \<open>
  \<^theory_text>\<open>sdiv\<close> and \<^theory_text>\<open>smod\<close> of the library round towards zero, as \<open>/\<close> and \<open>%\<close> do on
  the integers of C++ and of GMP.
\<close>

lemma sdiv_nonneg_eq: "0 \<le> a \<Longrightarrow> 0 \<le> b \<Longrightarrow> a sdiv b = a div b" for a b :: int
  by (cases "a = 0"; cases "b = 0") (auto simp: signed_divide_int_def)

lemma sdiv_mult_smod_eq: "(a sdiv b) * b + a smod b = a" for a b :: int
proof -
  have "sgn a * (\<bar>a\<bar> div \<bar>b\<bar> * \<bar>b\<bar> + \<bar>a\<bar> mod \<bar>b\<bar>) = a"
    by (simp only: div_mult_mod_eq) (simp add: sgn_mult_abs)
  then show ?thesis
    by (simp add: signed_divide_int_def signed_modulo_int_def algebra_simps abs_sgn [of b])
qed

lemma smod_nonneg_eq:
  fixes a b :: int
  assumes "0 \<le> a" and "0 \<le> b"
  shows "a smod b = a mod b"
proof -
  have "(a div b) * b + a smod b = a"
    using sdiv_mult_smod_eq [of a b] sdiv_nonneg_eq [OF assms] by simp
  moreover have "(a div b) * b + a mod b = a"
    by (rule div_mult_mod_eq)
  ultimately show ?thesis by linarith
qed

lemma sdiv_nonneg: "0 \<le> a \<Longrightarrow> 0 \<le> b \<Longrightarrow> 0 \<le> a sdiv b" for a b :: int
  by (simp add: sdiv_nonneg_eq div_int_pos_iff)

lemma sdiv_mult_le:
  fixes a b :: int
  assumes "0 \<le> a" and "0 \<le> b"
  shows "(a sdiv b) * b \<le> a"
proof (cases "b = 0")
  case False
  with assms have "0 \<le> a mod b" by simp
  moreover have "(a div b) * b + a mod b = a"
    by (rule div_mult_mod_eq)
  ultimately have "(a div b) * b \<le> a" by linarith
  then show ?thesis by (simp add: sdiv_nonneg_eq [OF assms])
qed (use assms in simp)

lemma sdiv_uminus: "(- a) sdiv b = - (a sdiv b)" for a b :: int
  by (simp add: signed_divide_int_def)

lemma smod_uminus: "(- a) smod b = - (a smod b)" for a b :: int
  using sdiv_mult_smod_eq [of a b] sdiv_mult_smod_eq [of "- a" b] by (simp add: sdiv_uminus)

lemma smod_bounds: "- b < a smod b \<and> a smod b < b" if "0 < b" for a b :: int
proof (cases "0 \<le> a")
  case True
  moreover have "- b < a mod b" using that pos_mod_sign [of b a] by linarith
  ultimately show ?thesis using that pos_mod_bound [of b a] by (simp add: smod_nonneg_eq)
next
  case False
  then have "(- a) smod b = (- a) mod b" using that by (intro smod_nonneg_eq) simp_all
  with smod_uminus [of "- a" b] have "a smod b = - ((- a) mod b)" by (simp only: minus_minus)
  then show ?thesis using that pos_mod_bound [of b "- a"] pos_mod_sign [of b "- a"] by linarith
qed

lemma sdiv_mono:
  fixes a b :: int
  assumes "a \<le> a'" and "0 \<le> b"
  shows "a sdiv b \<le> a' sdiv b"
proof -
  have pos: "x sdiv b \<le> y sdiv b" if "x \<le> y" "0 \<le> x" for x y
    using that assms(2) by (cases "b = 0") (auto simp: sdiv_nonneg_eq zdiv_mono1)
  consider "0 \<le> a" | "a < 0" "0 \<le> a'" | "a' < 0"
    using assms(1) by linarith
  then show ?thesis
  proof cases
    case 2
    then show ?thesis
      using sdiv_nonneg [of "- a" b] sdiv_nonneg [of a' b] assms(2) by (simp add: sdiv_uminus)
  next
    case 3
    then show ?thesis
      using pos [of "- a'" "- a"] assms(1) by (simp add: sdiv_uminus)
  qed (use pos assms(1) in simp)
qed

lemma sdiv_mult_self:
  fixes a b :: int
  assumes "b \<noteq> 0"
  shows "(a * b) sdiv b = a"
proof -
  have "sgn b * sgn b = 1"
    using assms by (simp flip: sgn_mult)
  then have "(a * b) sdiv b = sgn a * \<bar>a\<bar>"
    using assms by (simp add: signed_divide_int_def sgn_mult abs_mult mult.assoc)
  then show ?thesis by (simp add: sgn_mult_abs)
qed

section \<open>Maps as the program uses them\<close>

text \<open>
  \<open>m[k] += v\<close> on a \<^verbatim>\<open>std::unordered_map\<close> of numbers: \<open>operator[]\<close> inserts a
  value-initialised zero first when the key is missing.
\<close>

definition map_add_at :: "('k \<rightharpoonup> 'v::{plus,zero}) \<Rightarrow> 'k \<Rightarrow> 'v \<Rightarrow> ('k \<rightharpoonup> 'v)" where
  "map_add_at m k v = m(k \<mapsto> (case m k of None \<Rightarrow> 0 | Some w \<Rightarrow> w) + v)"

definition value_at :: "('k \<rightharpoonup> 'v::zero) \<Rightarrow> 'k \<Rightarrow> 'v" where
  "value_at m k = (case m k of None \<Rightarrow> 0 | Some v \<Rightarrow> v)"

lemma value_at_simps [simp]:
  "m k = None \<Longrightarrow> value_at m k = 0"
  "m k = Some v \<Longrightarrow> value_at m k = v"
  by (simp_all add: value_at_def)

lemma value_at_upd: "value_at (m(k \<mapsto> v)) j = (if j = k then v else value_at m j)"
  by (simp add: value_at_def)

lemma value_at_empty [simp]: "value_at Map.empty k = 0"
  by simp

lemma value_at_add:
  "value_at (map_add_at m k v) j = (if j = k then value_at m k + v else value_at m j)"
  by (simp add: map_add_at_def value_at_def)

lemma dom_map_add_at [simp]: "dom (map_add_at m k v) = insert k (dom m)"
  by (simp add: map_add_at_def)

text \<open>\<open>emplace\<close> and \<open>insert\<close> keep the value a key already has.\<close>

definition map_emplace :: "('k \<rightharpoonup> 'v) \<Rightarrow> 'k \<Rightarrow> 'v \<Rightarrow> ('k \<rightharpoonup> 'v)" where
  "map_emplace m k v = (case m k of None \<Rightarrow> m(k \<mapsto> v) | Some _ \<Rightarrow> m)"

lemma map_emplace_fresh [simp]: "k \<notin> dom m \<Longrightarrow> map_emplace m k v = m(k \<mapsto> v)"
  by (simp add: map_emplace_def domIff)

lemma dom_map_emplace [simp]: "dom (map_emplace m k v) = insert k (dom m)"
  by (auto simp: map_emplace_def split: option.splits)

text \<open>\<open>m[k] -= v\<close>, and the loop that adds every entry of one map to another.\<close>

definition map_sub_at :: "('k \<rightharpoonup> 'v::{minus,zero}) \<Rightarrow> 'k \<Rightarrow> 'v \<Rightarrow> ('k \<rightharpoonup> 'v)" where
  "map_sub_at m k v = m(k \<mapsto> (case m k of None \<Rightarrow> 0 | Some w \<Rightarrow> w) - v)"

definition map_add_all :: "('k \<rightharpoonup> 'v::{plus,zero}) \<Rightarrow> ('k \<rightharpoonup> 'v) \<Rightarrow> ('k \<rightharpoonup> 'v)" where
  "map_add_all m d = (\<lambda>k. case d k of None \<Rightarrow> m k
     | Some v \<Rightarrow> Some ((case m k of None \<Rightarrow> 0 | Some w \<Rightarrow> w) + v))"

lemma value_at_sub:
  "value_at (map_sub_at m k v) j = (if j = k then value_at m k - v else value_at m j)"
  by (simp add: map_sub_at_def value_at_def)

lemma value_at_add_all:
  fixes m :: "'k \<rightharpoonup> 'v::monoid_add"
  shows "value_at (map_add_all m d) j = value_at m j + value_at d j"
  by (auto simp: map_add_all_def value_at_def split: option.splits)

text \<open>
  The loop runs over the entries in an order the library does not specify. Whatever the
  order, the outcome is the one above.
\<close>

lemma map_add_all_insert:
  assumes "d k = None"
  shows "map_add_all m (d(k \<mapsto> v)) = map_add_all (map_add_at m k v) d"
  by (rule ext) (auto simp: map_add_all_def map_add_at_def assms split: option.splits)

lemma map_add_all_foldl:
  "distinct (map fst es) \<Longrightarrow>
   foldl (\<lambda>m e. map_add_at m (fst e) (snd e)) m es = map_add_all m (map_of es)"
proof (induction es arbitrary: m)
  case Nil
  then show ?case by (simp add: map_add_all_def)
next
  case (Cons e es)
  then have "map_of es (fst e) = None"
    by (simp add: map_of_eq_None_iff)
  moreover have "map_of (e # es) = (map_of es)(fst e \<mapsto> snd e)"
    by (cases e) simp
  ultimately show ?case
    using Cons by (simp only: map_add_all_insert) simp
qed

lemma map_add_all_order:
  assumes "mset es = mset es'" and "distinct (map fst es)"
  shows "foldl (\<lambda>m e. map_add_at m (fst e) (snd e)) m es =
    foldl (\<lambda>m e. map_add_at m (fst e) (snd e)) m es'"
proof -
  have "mset (map fst es) = mset (map fst es')"
    using assms(1) by simp
  then have d: "distinct (map fst es')"
    using assms(2) mset_eq_imp_distinct_iff by blast
  have "map_of es = map_of es'"
    using map_of_inject_set [OF assms(2) d] mset_eq_setD [OF assms(1)] by simp
  with assms(2) d show ?thesis
    by (simp add: map_add_all_foldl)
qed

section \<open>Fallible steps\<close>

text \<open>A step that may throw: \<open>Inl\<close> the exception, \<open>Inr\<close> the state it leaves.\<close>

definition and_then :: "'e + 'a \<Rightarrow> ('a \<Rightarrow> 'e + 'b) \<Rightarrow> 'e + 'b" where
  "and_then r f = (case r of Inl e \<Rightarrow> Inl e | Inr a \<Rightarrow> f a)"

lemma and_then_simps [simp]:
  "and_then (Inl e) f = Inl e" "and_then (Inr a) f = f a"
  by (simp_all add: and_then_def)

lemma and_then_Inr: "and_then r f = Inr b \<longleftrightarrow> (\<exists>a. r = Inr a \<and> f a = Inr b)"
  by (cases r) auto

end
