(* ===== verification/Precise_Number.thy ===== *)
theory Precise_Number
  imports Decimal_Text
begin

text \<open>
  \<^verbatim>\<open>PreciseNumber\<close> (include/PreciseNumber.h, src/PreciseNumber.cpp): an amount of currency
  held as an unbounded integer (\<^verbatim>\<open>mpz_int\<close>) of ten-billionths. Addition and subtraction are
  exact; multiplication and division round towards zero. The type is made an ordered
  group, so that sums of amounts are reasoned about with the library's algebra.
\<close>

section \<open>The type and its operators\<close>

datatype precise_number = PreciseNumber (smallestUnit: int)

definition kPrecision :: int where
  "kPrecision = 10000000000"

definition PreciseNumber_default :: precise_number where
  "PreciseNumber_default = PreciseNumber 0"

definition PreciseNumber_add :: "precise_number \<Rightarrow> precise_number \<Rightarrow> precise_number" where
  "PreciseNumber_add this other = PreciseNumber (smallestUnit this + smallestUnit other)"

definition PreciseNumber_sub :: "precise_number \<Rightarrow> precise_number \<Rightarrow> precise_number" where
  "PreciseNumber_sub this other = PreciseNumber (smallestUnit this - smallestUnit other)"

definition PreciseNumber_sub_assign :: "precise_number \<Rightarrow> precise_number \<Rightarrow> precise_number" where
  "PreciseNumber_sub_assign this other = PreciseNumber (smallestUnit this - smallestUnit other)"

definition PreciseNumber_add_assign :: "precise_number \<Rightarrow> precise_number \<Rightarrow> precise_number" where
  "PreciseNumber_add_assign this other = PreciseNumber (smallestUnit this + smallestUnit other)"

definition PreciseNumber_mul :: "precise_number \<Rightarrow> precise_number \<Rightarrow> precise_number" where
  "PreciseNumber_mul this other =
     PreciseNumber ((smallestUnit this * smallestUnit other) sdiv kPrecision)"

definition PreciseNumber_mul_assign :: "precise_number \<Rightarrow> precise_number \<Rightarrow> precise_number" where
  "PreciseNumber_mul_assign this other =
     PreciseNumber ((smallestUnit this * smallestUnit other) sdiv kPrecision)"

definition PreciseNumber_div :: "precise_number \<Rightarrow> precise_number \<Rightarrow> precise_number" where
  "PreciseNumber_div this other =
     (if smallestUnit other = 0 then PreciseNumber 0
      else PreciseNumber ((smallestUnit this * kPrecision) sdiv smallestUnit other))"

definition PreciseNumber_div_assign :: "precise_number \<Rightarrow> precise_number \<Rightarrow> precise_number" where
  "PreciseNumber_div_assign this other =
     (if smallestUnit other = 0 then this
      else PreciseNumber ((smallestUnit this * kPrecision) sdiv smallestUnit other))"

definition PreciseNumber_fmod :: "precise_number \<Rightarrow> precise_number \<Rightarrow> precise_number" where
  "PreciseNumber_fmod a b =
     (if smallestUnit b = 0 then PreciseNumber 0
      else PreciseNumber (smallestUnit a smod smallestUnit b))"

definition PreciseNumber_eq :: "precise_number \<Rightarrow> precise_number \<Rightarrow> bool" where
  "PreciseNumber_eq this other \<longleftrightarrow> smallestUnit this = smallestUnit other"

definition PreciseNumber_less :: "precise_number \<Rightarrow> precise_number \<Rightarrow> bool" where
  "PreciseNumber_less this other \<longleftrightarrow> smallestUnit this < smallestUnit other"

definition PreciseNumber_greater :: "precise_number \<Rightarrow> precise_number \<Rightarrow> bool" where
  "PreciseNumber_greater this other \<longleftrightarrow> smallestUnit this > smallestUnit other"

definition PreciseNumber_ge :: "precise_number \<Rightarrow> precise_number \<Rightarrow> bool" where
  "PreciseNumber_ge this other \<longleftrightarrow> smallestUnit this \<ge> smallestUnit other"

definition PreciseNumber_min :: "precise_number \<Rightarrow> precise_number \<Rightarrow> precise_number" where
  "PreciseNumber_min a b = (if smallestUnit a < smallestUnit b then a else b)"

text \<open>
  The constants the trading code writes as \<^verbatim>\<open>PreciseNumber{"0"}\<close>, \<^verbatim>\<open>PreciseNumber{"1"}\<close>,
  \<^verbatim>\<open>PreciseNumber{"-1"}\<close> and \<^verbatim>\<open>PreciseNumber{std::to_string(n)}\<close>: a whole number of units
  (\<open>ofString_of_int\<close> below relates it to the constructor from text).
\<close>

definition PreciseNumber_of_int :: "int \<Rightarrow> precise_number" where
  "PreciseNumber_of_int n = PreciseNumber (n * kPrecision)"

lemma kPrecision_pos [simp]: "0 < kPrecision" "kPrecision \<noteq> 0" "0 \<le> kPrecision"
  by (simp_all add: kPrecision_def)

section \<open>An ordered group\<close>

instantiation precise_number :: linordered_ab_group_add
begin

definition "0 = PreciseNumber_default"

definition "(a :: precise_number) + b = PreciseNumber_add a b"

definition "(a :: precise_number) - b = PreciseNumber_sub a b"

definition "- a = PreciseNumber (- smallestUnit a)"

definition "(a :: precise_number) < b \<longleftrightarrow> PreciseNumber_less a b"

definition "(a :: precise_number) \<le> b \<longleftrightarrow> smallestUnit a \<le> smallestUnit b"

instance
  by standard
    (auto simp: zero_precise_number_def plus_precise_number_def minus_precise_number_def
      uminus_precise_number_def less_precise_number_def less_eq_precise_number_def
      PreciseNumber_default_def PreciseNumber_add_def PreciseNumber_sub_def
      PreciseNumber_less_def intro: precise_number.expand)

end

instantiation precise_number :: "{times, divide}"
begin

definition "(a :: precise_number) * b = PreciseNumber_mul a b"

definition "(a :: precise_number) div b = PreciseNumber_div a b"

instance ..

end

lemma smallestUnit_simps [simp, pn_simps]:
  "smallestUnit 0 = 0"
  "smallestUnit (a + b) = smallestUnit a + smallestUnit b"
  "smallestUnit (a - b) = smallestUnit a - smallestUnit b"
  "smallestUnit (- a) = - smallestUnit a"
  by (simp_all add: zero_precise_number_def plus_precise_number_def minus_precise_number_def
      uminus_precise_number_def PreciseNumber_default_def PreciseNumber_add_def
      PreciseNumber_sub_def)

lemma smallestUnit_mul [pn_simps]:
  "smallestUnit (a * b) = (smallestUnit a * smallestUnit b) sdiv kPrecision"
  by (simp add: times_precise_number_def PreciseNumber_mul_def)

lemma smallestUnit_div [pn_simps]:
  "smallestUnit (a div b) =
     (if smallestUnit b = 0 then 0 else (smallestUnit a * kPrecision) sdiv smallestUnit b)"
  by (simp add: divide_precise_number_def PreciseNumber_div_def)

lemma pn_eq_iff: "a = b \<longleftrightarrow> smallestUnit a = smallestUnit b"
  by (auto intro: precise_number.expand)

lemma pn_less_iff [pn_simps]: "a < b \<longleftrightarrow> smallestUnit a < smallestUnit b"
  by (simp add: less_precise_number_def PreciseNumber_less_def)

lemma pn_le_iff [pn_simps]: "a \<le> b \<longleftrightarrow> smallestUnit a \<le> smallestUnit b"
  by (simp add: less_eq_precise_number_def)

lemma smallestUnit_of_int [simp, pn_simps]:
  "smallestUnit (PreciseNumber_of_int n) = n * kPrecision"
  by (simp add: PreciseNumber_of_int_def)

text \<open>The operators of the class are the operators of the group and of its order.\<close>

lemma PreciseNumber_operators:
  "PreciseNumber_default = 0"
  "PreciseNumber_add a b = a + b" "PreciseNumber_add_assign a b = a + b"
  "PreciseNumber_sub a b = a - b" "PreciseNumber_sub_assign a b = a - b"
  "PreciseNumber_mul a b = a * b" "PreciseNumber_mul_assign a b = a * b"
  "PreciseNumber_div a b = a div b"
  "PreciseNumber_eq a b \<longleftrightarrow> a = b" "PreciseNumber_less a b \<longleftrightarrow> a < b"
  "PreciseNumber_greater a b \<longleftrightarrow> b < a" "PreciseNumber_ge a b \<longleftrightarrow> b \<le> a"
  "PreciseNumber_min a b = min a b"
  by (auto simp: zero_precise_number_def plus_precise_number_def minus_precise_number_def
      times_precise_number_def divide_precise_number_def PreciseNumber_mul_def
      PreciseNumber_mul_assign_def PreciseNumber_add_def PreciseNumber_add_assign_def
      PreciseNumber_sub_def PreciseNumber_sub_assign_def PreciseNumber_eq_def
      PreciseNumber_less_def PreciseNumber_greater_def PreciseNumber_ge_def
      PreciseNumber_min_def min_def pn_simps intro: precise_number.expand)

section \<open>Arithmetic on non-negative amounts\<close>

lemma pn_mul_nonneg: "0 \<le> a \<Longrightarrow> 0 \<le> b \<Longrightarrow> 0 \<le> a * b" for a b :: precise_number
  by (simp add: pn_simps sdiv_nonneg)

lemma pn_mul_mono: "a \<le> a' \<Longrightarrow> 0 \<le> b \<Longrightarrow> a * b \<le> a' * b" for a b :: precise_number
  by (simp add: pn_simps sdiv_mono mult_right_mono)

lemma pn_div_nonneg: "0 \<le> a \<Longrightarrow> 0 \<le> b \<Longrightarrow> 0 \<le> a div b" for a b :: precise_number
  by (simp add: pn_simps sdiv_nonneg)

lemma pn_div_mono: "a \<le> a' \<Longrightarrow> 0 \<le> b \<Longrightarrow> a div b \<le> a' div b" for a b :: precise_number
  by (simp add: pn_simps sdiv_mono)

lemma pn_zero_mul [simp]: "0 * b = 0" "b * 0 = 0" for b :: precise_number
  by (simp_all add: pn_eq_iff pn_simps)

lemma pn_zero_div [simp]: "0 div b = 0" "b div 0 = 0" for b :: precise_number
  by (simp_all add: pn_eq_iff pn_simps)

lemma pn_mul_one: "a * PreciseNumber_of_int 1 = a"
  by (simp add: pn_eq_iff pn_simps sdiv_mult_self)

lemma pn_mul_minus_one: "a * PreciseNumber_of_int (-1) = - a"
  using sdiv_mult_self [of kPrecision "- smallestUnit a"] by (simp add: pn_eq_iff pn_simps)

lemma pn_mul_comm: "a * b = b * a" for a b :: precise_number
  by (simp add: pn_eq_iff pn_simps mult.commute)

lemma div_assign_eq: "b \<noteq> 0 \<Longrightarrow> PreciseNumber_div_assign a b = a div b"
  by (simp add: pn_eq_iff pn_simps PreciseNumber_div_assign_def)

text \<open>Selling what was bought, at the same price, never returns more than was paid.\<close>

lemma pn_div_mul_le:
  fixes a p :: precise_number
  assumes "0 \<le> a" and "0 \<le> p"
  shows "(a div p) * p \<le> a"
proof (cases "smallestUnit p = 0")
  case True
  then show ?thesis using assms by (simp add: pn_simps)
next
  case False
  let ?a = "smallestUnit a" and ?p = "smallestUnit p"
  have nn: "0 \<le> ?a * kPrecision" "0 \<le> ?p"
    using assms by (simp_all add: pn_simps)
  have "((?a * kPrecision) sdiv ?p * ?p) sdiv kPrecision \<le> (?a * kPrecision) sdiv kPrecision"
    by (rule sdiv_mono [OF sdiv_mult_le [OF nn]]) simp
  then show ?thesis
    using False by (simp add: pn_simps sdiv_mult_self)
qed

lemma pn_mul_div_le:
  fixes a p :: precise_number
  assumes "0 \<le> a" and "0 \<le> p"
  shows "(a * p) div p \<le> a"
proof (cases "smallestUnit p = 0")
  case True
  then show ?thesis using assms by (simp add: pn_simps)
next
  case False
  let ?a = "smallestUnit a" and ?p = "smallestUnit p"
  have nn: "0 \<le> ?a * ?p" "0 \<le> ?p"
    using assms by (simp_all add: pn_simps)
  have "(?a * ?p) sdiv kPrecision * kPrecision \<le> ?a * ?p"
    by (rule sdiv_mult_le) (simp_all add: nn)
  then have "((?a * ?p) sdiv kPrecision * kPrecision) sdiv ?p \<le> (?a * ?p) sdiv ?p"
    by (rule sdiv_mono) (simp_all add: nn sdiv_nonneg)
  then show ?thesis
    using False by (simp add: pn_simps sdiv_mult_self)
qed

lemma pn_fmod_le: "0 \<le> a \<Longrightarrow> 0 \<le> b \<Longrightarrow> 0 \<le> PreciseNumber_fmod a b \<and> PreciseNumber_fmod a b \<le> a"
  by (auto simp: PreciseNumber_fmod_def pn_simps smod_nonneg_eq zmod_le_nonneg_dividend)

end
