(* ===== verification/Precise_Text.thy ===== *)
theory Precise_Text
  imports Precise_Number
begin

text \<open>
  Amounts as text: the constructor of \<^verbatim>\<open>PreciseNumber\<close> from a string and
  \<^verbatim>\<open>PreciseNumber::toString\<close>, through the decimal type and the integer type of
  Boost.Multiprecision, which are not part of the repository: their operations are the
  fields of \<open>decimal_lib\<close>, and what the code relies on is \<open>decimal_laws\<close>.
\<close>

text \<open>A string that goes through \<^verbatim>\<open>c_str()\<close>.\<close>

definition c_str :: "string \<Rightarrow> string" where
  "c_str s = takeWhile (\<lambda>c. c \<noteq> CHR 0x00) s"

section \<open>The operations of the multiprecision library\<close>

record 'd decimal_lib =
  dec_of_string :: "string \<Rightarrow> 'd option"  \<comment> \<open>\<^verbatim>\<open>cpp_dec_float_50 d{s}\<close>; throws on bad text\<close>
  dec_mul :: "'d \<Rightarrow> int \<Rightarrow> 'd"
  dec_div :: "'d \<Rightarrow> int \<Rightarrow> 'd"
  dec_str :: "'d \<Rightarrow> string"  \<comment> \<open>\<^verbatim>\<open>d.str()\<close>\<close>
  dec_fixed :: "nat \<Rightarrow> 'd \<Rightarrow> string"  \<comment> \<open>\<^verbatim>\<open>std::fixed << std::setprecision(n) << d\<close>\<close>
  mpz_of_string :: "string \<Rightarrow> int option"  \<comment> \<open>\<^verbatim>\<open>mpz_int{s}\<close>; throws on bad text\<close>
  mpz_str :: "int \<Rightarrow> string"

section \<open>From and to text\<close>

definition PreciseNumber_ofString :: "'d decimal_lib \<Rightarrow> string \<Rightarrow> precise_number option" where
  "PreciseNumber_ofString L amount =
     (case dec_of_string L amount of
        None \<Rightarrow> None
      | Some decimal \<Rightarrow>
          map_option PreciseNumber (mpz_of_string L (dec_str L (dec_mul L decimal kPrecision))))"

text \<open>
  \<^verbatim>\<open>str.erase(str.find_last_not_of('0') + 1, npos)\<close>: when every character is a \<^verbatim>\<open>0\<close> the
  search returns \<^verbatim>\<open>npos\<close>, the sum wraps to 0 and everything is erased.
\<close>

definition erase_trailing_zeros :: "string \<Rightarrow> string" where
  "erase_trailing_zeros s = rev (dropWhile (\<lambda>c. c = CHR ''0'') (rev s))"

definition pop_back_point :: "string \<Rightarrow> string" where
  "pop_back_point s = (if s \<noteq> [] \<and> last s = CHR ''.'' then butlast s else s)"

definition PreciseNumber_toString :: "'d decimal_lib \<Rightarrow> precise_number \<Rightarrow> string option" where
  "PreciseNumber_toString L this =
     (case dec_of_string L (mpz_str L (smallestUnit this)) of
        None \<Rightarrow> None
      | Some val \<Rightarrow>
          Some (pop_back_point (erase_trailing_zeros (dec_fixed L 10 (dec_div L val kPrecision)))))"

section \<open>What the code relies on\<close>

definition fixed10 :: "int \<Rightarrow> string" where
  "fixed10 n = (if n < 0 then ''-'' else []) @ nat_digits (nat \<bar>n\<bar> div 10 ^ 10) @ ''.'' @
     pad_digits 10 (nat \<bar>n\<bar> mod 10 ^ 10)"

definition decimal_text :: "bool \<Rightarrow> string \<Rightarrow> string \<Rightarrow> string" where
  "decimal_text neg ip fp =
     (if neg then ''-'' else []) @ ip @ (if fp = [] then [] else CHR ''.'' # fp)"

definition decimal_val :: "bool \<Rightarrow> string \<Rightarrow> string \<Rightarrow> int" where
  "decimal_val neg ip fp =
     (if neg then -1 else 1) * int (digits_val ip * 10 ^ 10 + digits_val fp * 10 ^ (10 - length fp))"

text \<open>
  \<^verbatim>\<open>cpp_dec_float_50\<close> computes exactly on numbers of at most 50 significant decimal digits
  and prints them so; \<^verbatim>\<open>mpz_int\<close> reads the text of an integer.
\<close>

definition decimal_laws :: "'d decimal_lib \<Rightarrow> bool" where
  "decimal_laws L \<longleftrightarrow>
     (\<forall>n. \<bar>n\<bar> < 10 ^ 50 \<longrightarrow>
        (\<exists>d. dec_of_string L (mpz_str L n) = Some d \<and>
             dec_fixed L 10 (dec_div L d kPrecision) = fixed10 n)) \<and>
     (\<forall>neg ip fp. all_digits ip \<and> ip \<noteq> [] \<and> all_digits fp \<and> length fp \<le> 10 \<and>
        \<bar>decimal_val neg ip fp\<bar> < 10 ^ 50 \<longrightarrow>
        (\<exists>d. dec_of_string L (decimal_text neg ip fp) = Some d \<and>
             mpz_of_string L (dec_str L (dec_mul L d kPrecision)) = Some (decimal_val neg ip fp)))"

lemma ofString_decimal_text:
  assumes "decimal_laws L" "all_digits ip" "ip \<noteq> []" "all_digits fp" "length fp \<le> 10"
    "\<bar>decimal_val neg ip fp\<bar> < 10 ^ 50"
  shows "PreciseNumber_ofString L (decimal_text neg ip fp) = Some (PreciseNumber (decimal_val neg ip fp))"
  using assms unfolding decimal_laws_def PreciseNumber_ofString_def by fastforce

text \<open>The whole-number constants of the code are what the constructor reads from their text.\<close>

lemma ofString_of_int:
  assumes "decimal_laws L" "\<bar>n\<bar> < 10 ^ 40"
  shows "PreciseNumber_ofString L (decimal_text (n < 0) (nat_digits (nat \<bar>n\<bar>)) []) =
    Some (PreciseNumber_of_int n)"
proof -
  have v: "decimal_val (n < 0) (nat_digits (nat \<bar>n\<bar>)) [] = n * kPrecision"
    by (auto simp: decimal_val_def kPrecision_def)
  moreover have "\<bar>n * kPrecision\<bar> < 10 ^ 50"
    using assms(2) by (simp add: abs_mult kPrecision_def)
  ultimately show ?thesis
    using ofString_decimal_text [of L "nat_digits (nat \<bar>n\<bar>)" "[]" "n < 0"] assms(1)
    by (simp add: PreciseNumber_of_int_def)
qed

section \<open>Stripping zeros keeps the value\<close>

lemma erase_zeros_prefix:
  "c \<noteq> CHR ''0'' \<Longrightarrow> erase_trailing_zeros (s @ c # t) = s @ c # erase_trailing_zeros t"
  by (induction t rule: rev_induct) (auto simp: erase_trailing_zeros_def)

lemma erase_zeros_split:
  "\<exists>k. s = erase_trailing_zeros s @ replicate k CHR ''0''"
proof (induction s rule: rev_induct)
  case (snoc c s)
  then obtain k where k: "s = erase_trailing_zeros s @ replicate k CHR ''0''" by blast
  show ?case
  proof (cases "c = CHR ''0''")
    case True
    then have "erase_trailing_zeros (s @ [c]) = erase_trailing_zeros s"
      by (simp add: erase_trailing_zeros_def)
    moreover have "s @ [c] = (erase_trailing_zeros s @ replicate k CHR ''0'') @ [c]"
      by (rule arg_cong [OF k, of "\<lambda>x. x @ [c]"])
    ultimately have "s @ [c] = erase_trailing_zeros (s @ [c]) @ replicate (Suc k) CHR ''0''"
      by (simp add: True replicate_append_same)
    then show ?thesis by blast
  next
    case False
    then have "s @ [c] = erase_trailing_zeros (s @ [c]) @ replicate 0 CHR ''0''"
      by (simp add: erase_trailing_zeros_def)
    then show ?thesis by blast
  qed
qed (simp add: erase_trailing_zeros_def)

lemma strip_fixed10:
  "\<exists>fp. pop_back_point (erase_trailing_zeros (fixed10 n)) =
      decimal_text (n < 0) (nat_digits (nat \<bar>n\<bar> div 10 ^ 10)) fp \<and>
    all_digits fp \<and> length fp \<le> 10 \<and>
    decimal_val (n < 0) (nat_digits (nat \<bar>n\<bar> div 10 ^ 10)) fp = n"
proof -
  let ?frac = "nat \<bar>n\<bar> mod 10 ^ 10" and ?ip = "nat_digits (nat \<bar>n\<bar> div 10 ^ 10)"
  let ?pre = "(if n < 0 then ''-'' else []) @ ?ip"
  let ?fp = "erase_trailing_zeros (pad_digits 10 ?frac)"
  obtain k where k: "pad_digits 10 ?frac = ?fp @ replicate k CHR ''0''"
    using erase_zeros_split by blast
  have len: "length ?fp + k = 10"
    using arg_cong [OF k, of length] length_pad [of ?frac 10] by simp
  have rem: "10 - length ?fp = k"
    using len by simp
  have val: "digits_val ?fp * 10 ^ (10 - length ?fp) = ?frac"
    using arg_cong [OF k, of digits_val] rem by simp
  have digs: "all_digits ?fp"
    using all_digits_pad [of 10 ?frac] by (subst (asm) k) simp
  have "erase_trailing_zeros (fixed10 n) = ?pre @ CHR ''.'' # ?fp"
    using erase_zeros_prefix [of "CHR ''.''" ?pre] by (simp add: fixed10_def)
  moreover have "last (?pre @ CHR ''.'' # ?fp) \<noteq> CHR ''.''" if "?fp \<noteq> []"
  proof -
    have "last ?fp \<in> set ?fp" using that by simp
    then have "is_digit (last ?fp)" using digs by (auto simp: all_digits_def)
    then show ?thesis using that by auto
  qed
  ultimately have "pop_back_point (erase_trailing_zeros (fixed10 n)) = decimal_text (n < 0) ?ip ?fp"
    by (simp add: pop_back_point_def decimal_text_def butlast_append)
  moreover have "decimal_val (n < 0) ?ip ?fp = n"
    using div_mult_mod_eq [of "nat \<bar>n\<bar>" "10 ^ 10"]
    by (simp only: decimal_val_def val digits_val_nat_digits) simp
  ultimately show ?thesis
    using digs len by (intro exI [of _ ?fp]) simp
qed

section \<open>A decimal library that satisfies the laws\<close>

definition parse_decimal :: "string \<Rightarrow> int option" where
  "parse_decimal s =
     (let neg = (s \<noteq> [] \<and> hd s = CHR ''-''); r = (if neg then tl s else s);
          ip = takeWhile is_digit r; rest = dropWhile is_digit r; fp = tl rest
      in if ip \<noteq> [] \<and> (rest = [] \<or> hd rest = CHR ''.'') \<and> all_digits fp \<and> length fp \<le> 10
         then Some (decimal_val neg ip fp) else None)"

definition int_text :: "int \<Rightarrow> string" where
  "int_text n = decimal_text (n < 0) (nat_digits (nat \<bar>n\<bar>)) []"

definition decimal_ref :: "int decimal_lib" where
  "decimal_ref =
     \<lparr>dec_of_string = parse_decimal, dec_mul = (*), dec_div = (div),
      dec_str = (\<lambda>d. int_text (d div kPrecision)), dec_fixed = (\<lambda>_. fixed10),
      mpz_of_string = (\<lambda>s. map_option (\<lambda>v. v div kPrecision) (parse_decimal s)),
      mpz_str = int_text\<rparr>"

lemma parse_decimal_text:
  assumes "all_digits ip" "ip \<noteq> []" "all_digits fp" "length fp \<le> 10"
  shows "parse_decimal (decimal_text neg ip fp) = Some (decimal_val neg ip fp)"
proof -
  have all: "\<forall>c \<in> set ip. is_digit c"
    using assms(1) by (simp add: all_digits_def)
  have tw: "takeWhile is_digit (ip @ CHR ''.'' # t) = ip" "takeWhile is_digit ip = ip"
      "dropWhile is_digit (ip @ CHR ''.'' # t) = CHR ''.'' # t" "dropWhile is_digit ip = []" for t
    using all by (simp_all add: takeWhile_append dropWhile_append)
  have sg: "hd (ip @ t) \<noteq> CHR ''-''" for t
    using all assms(2) by (cases ip) auto
  then have dt: "(let s = decimal_text neg ip fp in s \<noteq> [] \<and> hd s = CHR ''-'') = neg"
    using assms(2) sg [of "[]"] by (auto simp: decimal_text_def Let_def)
  have r: "(if neg then tl (decimal_text neg ip fp) else decimal_text neg ip fp) =
      ip @ (if fp = [] then [] else CHR ''.'' # fp)"
    by (simp add: decimal_text_def)
  show ?thesis
    unfolding parse_decimal_def dt [unfolded Let_def] r Let_def
    using assms all by (cases "fp = []") (simp_all add: tw)
qed

lemma parse_int_text: "parse_decimal (int_text n) = Some (n * kPrecision)"
  using parse_decimal_text [of "nat_digits (nat \<bar>n\<bar>)" "[]" "n < 0"]
  by (auto simp: int_text_def decimal_val_def kPrecision_def)

lemma decimal_laws_ref: "decimal_laws decimal_ref"
  unfolding decimal_laws_def decimal_ref_def by (simp add: parse_int_text parse_decimal_text)

text \<open>C27. An amount of at most 50 digits printed by \<^verbatim>\<open>toString\<close>, as it is put into the quantity
  and price of an order, reads back as the same amount: stripping the trailing zeros and the
  point loses nothing.\<close>
theorem toString_roundtrip:
  assumes "decimal_laws L" and "\<bar>smallestUnit n\<bar> < 10 ^ 50"
  shows "\<exists>s. PreciseNumber_toString L n = Some s \<and> PreciseNumber_ofString L s = Some n"
proof -
  obtain d where d: "dec_of_string L (mpz_str L (smallestUnit n)) = Some d"
    and f: "dec_fixed L 10 (dec_div L d kPrecision) = fixed10 (smallestUnit n)"
    using assms unfolding decimal_laws_def by blast
  obtain fp where fp: "pop_back_point (erase_trailing_zeros (fixed10 (smallestUnit n))) =
      decimal_text (smallestUnit n < 0) (nat_digits (nat \<bar>smallestUnit n\<bar> div 10 ^ 10)) fp"
    and "all_digits fp" "length fp \<le> 10"
    and "decimal_val (smallestUnit n < 0) (nat_digits (nat \<bar>smallestUnit n\<bar> div 10 ^ 10)) fp = smallestUnit n"
    using strip_fixed10 by blast
  then show ?thesis
    using d f assms ofString_decimal_text [OF assms(1), of _ fp]
    by (auto simp: PreciseNumber_toString_def)
qed

theorem toString_roundtrip_witness:
  "decimal_laws decimal_ref \<and> \<bar>smallestUnit (PreciseNumber (- 12500000000))\<bar> < 10 ^ 50 \<and>
   (\<exists>s. PreciseNumber_toString decimal_ref (PreciseNumber (- 12500000000)) = Some s \<and>
        PreciseNumber_ofString decimal_ref s = Some (PreciseNumber (- 12500000000)))"
proof -
  have "\<bar>smallestUnit (PreciseNumber (- 12500000000))\<bar> < 10 ^ 50" by simp
  with toString_roundtrip [OF decimal_laws_ref this] decimal_laws_ref show ?thesis by blast
qed

end
