(* ===== verification/Trade_Model.thy ===== *)
theory Trade_Model
  imports Precise_Number
begin

text \<open>
  Symbols, trades and frozen trades (include/Symbol.h, Position.h, Trade.h, StaticTrade.h,
  src/Trade.cpp, src/StaticTrade.cpp). A \<^verbatim>\<open>Trade\<close> holds a pointer to a \<^verbatim>\<open>Symbol\<close> of the symbol
  map and reads prices and offers through it, so a price update reaches every trade on the
  symbol: pointers are keys of the map, and the map's content is the store \<open>market\<close>, an
  argument of everything that reads through a pointer. (The null pointer of a
  default-constructed \<^verbatim>\<open>Trade\<close> is never read: such a trade only initialises the edge
  properties of the graph before they are assigned.)
\<close>

section \<open>Symbols and the store they live in\<close>

datatype Position = LONG | SHORT

record Symbol =
  symbol :: string
  baseAsset :: string
  quoteAsset :: string
  minNotional :: precise_number
  baseAssetIncrement :: precise_number
  quoteAssetIncrement :: precise_number
  baseAssetPrecision :: int
  quoteAssetPrecision :: int
  bidPrice :: precise_number
  askPrice :: precise_number
  bidQty :: precise_number
  askQty :: precise_number

type_synonym symbol_ref = string
type_synonym market = "symbol_ref \<Rightarrow> Symbol"

text \<open>What an exchange publishes: prices, quantities and steps are never negative.\<close>

definition quotes_ok :: "Symbol \<Rightarrow> bool" where
  "quotes_ok s \<longleftrightarrow> 0 \<le> bidPrice s \<and> 0 \<le> askPrice s \<and> 0 \<le> bidQty s \<and> 0 \<le> askQty s \<and>
     0 \<le> baseAssetIncrement s"

definition market_ok :: "market \<Rightarrow> bool" where
  "market_ok m \<longleftrightarrow> (\<forall>r. quotes_ok (m r))"

section \<open>Trade\<close>

record Trade =
  t_symbol :: symbol_ref
  t_position :: Position
  t_orderQty :: precise_number
  t_recvCurrency :: string
  t_usedCurrency :: string

definition Trade_offerQty :: "market \<Rightarrow> Trade \<Rightarrow> precise_number" where
  "Trade_offerQty m t =
     (if t_position t = LONG then askQty (m (t_symbol t)) else bidQty (m (t_symbol t)))"

definition Trade_orderPrice :: "market \<Rightarrow> Trade \<Rightarrow> precise_number" where
  "Trade_orderPrice m t =
     (if t_position t = LONG then askPrice (m (t_symbol t)) else bidPrice (m (t_symbol t)))"

definition Trade_new :: "market \<Rightarrow> symbol_ref \<Rightarrow> Position \<Rightarrow> Trade" where
  "Trade_new m r position =
     \<lparr>t_symbol = r, t_position = position,
      t_orderQty = (if position = LONG then askQty (m r) else bidQty (m r)),
      t_recvCurrency = (if position = LONG then baseAsset (m r) else quoteAsset (m r)),
      t_usedCurrency = (if position = LONG then quoteAsset (m r) else baseAsset (m r))\<rparr>"

definition Trade_resetOrderQty :: "market \<Rightarrow> Trade \<Rightarrow> Trade" where
  "Trade_resetOrderQty m t = t\<lparr>t_orderQty := Trade_offerQty m t\<rparr>"

definition Trade_recalculateOrderQty :: "market \<Rightarrow> Trade \<Rightarrow> precise_number \<Rightarrow> Trade" where
  "Trade_recalculateOrderQty m t budget =
     (let budgetOrderQty = (if t_position t = LONG then budget div Trade_orderPrice m t else budget);
          budgetOrderQty = budgetOrderQty -
            PreciseNumber_fmod budgetOrderQty (baseAssetIncrement (m (t_symbol t)));
          maxOrderQty = PreciseNumber_min budgetOrderQty (Trade_offerQty m t)
      in if maxOrderQty * Trade_orderPrice m t < minNotional (m (t_symbol t))
         then t\<lparr>t_orderQty := PreciseNumber_of_int 0\<rparr>
         else t\<lparr>t_orderQty := maxOrderQty\<rparr>)"

definition Trade_recvQty :: "market \<Rightarrow> Trade \<Rightarrow> precise_number" where
  "Trade_recvQty m t =
     (if t_position t = LONG then t_orderQty t else t_orderQty t * Trade_orderPrice m t)"

definition Trade_usedQty :: "market \<Rightarrow> Trade \<Rightarrow> precise_number" where
  "Trade_usedQty m t =
     (if t_position t = LONG then t_orderQty t * Trade_orderPrice m t else t_orderQty t)"

definition Trade_eq :: "market \<Rightarrow> Trade \<Rightarrow> Trade \<Rightarrow> bool" where
  "Trade_eq m a b \<longleftrightarrow> symbol (m (t_symbol a)) = symbol (m (t_symbol b)) \<and>
     t_position a = t_position b \<and> t_orderQty a = t_orderQty b"

section \<open>StaticTrade\<close>

record StaticTrade =
  st_symbol :: string
  st_position :: Position
  st_orderQty :: precise_number
  st_orderPrice :: precise_number
  st_recvCurrency :: string
  st_usedCurrency :: string

definition StaticTrade_of :: "market \<Rightarrow> Trade \<Rightarrow> StaticTrade" where
  "StaticTrade_of m t =
     \<lparr>st_symbol = symbol (m (t_symbol t)), st_position = t_position t,
      st_orderQty = t_orderQty t, st_orderPrice = Trade_orderPrice m t,
      st_recvCurrency = t_recvCurrency t, st_usedCurrency = t_usedCurrency t\<rparr>"

definition StaticTrade_eq :: "StaticTrade \<Rightarrow> StaticTrade \<Rightarrow> bool" where
  "StaticTrade_eq a b \<longleftrightarrow> st_symbol a = st_symbol b \<and> st_position a = st_position b \<and>
     st_orderQty a = st_orderQty b \<and> st_orderPrice a = st_orderPrice b \<and>
     st_recvCurrency a = st_recvCurrency b \<and> st_usedCurrency a = st_usedCurrency b"

section \<open>Frame facts\<close>

lemma Trade_recalculate_frame [simp, trade_simps]:
  "t_symbol (Trade_recalculateOrderQty m t b) = t_symbol t"
  "t_position (Trade_recalculateOrderQty m t b) = t_position t"
  "t_recvCurrency (Trade_recalculateOrderQty m t b) = t_recvCurrency t"
  "t_usedCurrency (Trade_recalculateOrderQty m t b) = t_usedCurrency t"
  by (simp_all add: Trade_recalculateOrderQty_def Let_def)

lemma Trade_reset_frame [simp, trade_simps]:
  "t_symbol (Trade_resetOrderQty m t) = t_symbol t"
  "t_position (Trade_resetOrderQty m t) = t_position t"
  "t_recvCurrency (Trade_resetOrderQty m t) = t_recvCurrency t"
  "t_usedCurrency (Trade_resetOrderQty m t) = t_usedCurrency t"
  "t_orderQty (Trade_resetOrderQty m t) = Trade_offerQty m t"
  by (simp_all add: Trade_resetOrderQty_def)

lemma Trade_prices_depend [simp, trade_simps]:
  "Trade_orderPrice m (Trade_recalculateOrderQty m t b) = Trade_orderPrice m t"
  "Trade_orderPrice m (Trade_resetOrderQty m t) = Trade_orderPrice m t"
  "Trade_offerQty m (Trade_recalculateOrderQty m t b) = Trade_offerQty m t"
  by (simp_all add: Trade_orderPrice_def Trade_offerQty_def)

lemma StaticTrade_eq_iff [simp]: "StaticTrade_eq a b \<longleftrightarrow> a = b"
  by (cases a; cases b) (simp add: StaticTrade_eq_def)

lemma StaticTrade_of_simps [simp]:
  "st_symbol (StaticTrade_of m t) = symbol (m (t_symbol t))"
  "st_position (StaticTrade_of m t) = t_position t"
  "st_orderQty (StaticTrade_of m t) = t_orderQty t"
  "st_orderPrice (StaticTrade_of m t) = Trade_orderPrice m t"
  "st_recvCurrency (StaticTrade_of m t) = t_recvCurrency t"
  "st_usedCurrency (StaticTrade_of m t) = t_usedCurrency t"
  by (simp_all add: StaticTrade_of_def)

lemma market_okD:
  assumes "market_ok m"
  shows "0 \<le> Trade_orderPrice m t" "0 \<le> Trade_offerQty m t"
    "0 \<le> baseAssetIncrement (m (t_symbol t))"
  using assms by (auto simp: market_ok_def quotes_ok_def Trade_orderPrice_def Trade_offerQty_def)

section \<open>The order quantity chosen for a budget\<close>

text \<open>The quantity the budget pays for, rounded down to the step of the symbol.\<close>

definition step_qty :: "market \<Rightarrow> Trade \<Rightarrow> precise_number \<Rightarrow> precise_number" where
  "step_qty m t budget =
     (let q = (if t_position t = LONG then budget div Trade_orderPrice m t else budget)
      in q - PreciseNumber_fmod q (baseAssetIncrement (m (t_symbol t))))"

lemma recalculate_cases:
  "t_orderQty (Trade_recalculateOrderQty m t b) =
     (if min (step_qty m t b) (Trade_offerQty m t) * Trade_orderPrice m t < minNotional (m (t_symbol t))
      then 0 else min (step_qty m t b) (Trade_offerQty m t))"
  by (simp add: Trade_recalculateOrderQty_def step_qty_def Let_def PreciseNumber_operators
      pn_eq_iff)

lemma step_qty_bounds:
  assumes "market_ok m" and "0 \<le> b"
  shows "0 \<le> step_qty m t b"
    and "t_position t = LONG \<Longrightarrow> step_qty m t b * Trade_orderPrice m t \<le> b"
    and "t_position t = SHORT \<Longrightarrow> step_qty m t b \<le> b"
proof -
  let ?p = "Trade_orderPrice m t" and ?i = "baseAssetIncrement (m (t_symbol t))"
  let ?q = "if t_position t = LONG then b div ?p else b"
  note ok = market_okD [OF assms(1), of t]
  have q: "0 \<le> ?q"
    using ok assms(2) by (simp add: pn_div_nonneg)
  have f: "0 \<le> PreciseNumber_fmod ?q ?i \<and> PreciseNumber_fmod ?q ?i \<le> ?q"
    by (rule pn_fmod_le [OF q ok(3)])
  have sq: "step_qty m t b = ?q - PreciseNumber_fmod ?q ?i"
    by (simp add: step_qty_def Let_def)
  show nn: "0 \<le> step_qty m t b"
    using f by (simp add: sq)
  have le: "step_qty m t b \<le> ?q"
    using f by (simp add: sq)
  show "step_qty m t b * ?p \<le> b" if "t_position t = LONG"
  proof -
    have "step_qty m t b * ?p \<le> (b div ?p) * ?p"
      using le that by (intro pn_mul_mono ok) simp
    also have "\<dots> \<le> b"
      using assms(2) ok by (intro pn_div_mul_le)
    finally show ?thesis .
  qed
  show "step_qty m t b \<le> b" if "t_position t = SHORT"
    using le that by simp
qed

lemma recalculate_within:
  assumes "market_ok m" and "0 \<le> b"
  shows "0 \<le> t_orderQty (Trade_recalculateOrderQty m t b)"
    and "t_orderQty (Trade_recalculateOrderQty m t b) \<le> Trade_offerQty m t"
    and "Trade_usedQty m (Trade_recalculateOrderQty m t b) \<le> b"
    and "0 \<le> Trade_usedQty m (Trade_recalculateOrderQty m t b)"
    and "0 \<le> Trade_recvQty m (Trade_recalculateOrderQty m t b)"
proof -
  let ?t = "Trade_recalculateOrderQty m t b" and ?s = "step_qty m t b"
  note ok = market_okD [OF assms(1), of t] and sq = step_qty_bounds [OF assms, of t]
  show q0: "0 \<le> t_orderQty ?t" and "t_orderQty ?t \<le> Trade_offerQty m t"
    using ok sq(1) by (auto simp: recalculate_cases min_le_iff_disj)
  have qs: "t_orderQty ?t \<le> ?s"
    using sq(1) by (auto simp: recalculate_cases)
  show "Trade_usedQty m ?t \<le> b"
  proof (cases "t_position t")
    case LONG
    have "t_orderQty ?t * Trade_orderPrice m t \<le> ?s * Trade_orderPrice m t"
      by (intro pn_mul_mono qs ok)
    with LONG sq(2) show ?thesis by (auto simp: Trade_usedQty_def)
  next
    case SHORT
    with qs sq(3) show ?thesis by (auto simp: Trade_usedQty_def)
  qed
  show "0 \<le> Trade_usedQty m ?t" "0 \<le> Trade_recvQty m ?t"
    using q0 ok by (auto simp: Trade_usedQty_def Trade_recvQty_def pn_mul_nonneg)
qed

text \<open>C25. Whatever the budget, the order chosen by \<^verbatim>\<open>recalculateOrderQty\<close> buys or sells no
  more than is on offer, spends no more than the budget, and is either nothing or worth at
  least the minimum notional of the symbol.\<close>

theorem recalculate_spends_within_budget:
  assumes "market_ok m" and "0 \<le> budget"
  shows "let t' = Trade_recalculateOrderQty m t budget in
    0 \<le> t_orderQty t' \<and> t_orderQty t' \<le> Trade_offerQty m t \<and>
    Trade_usedQty m t' \<le> budget \<and>
    (t_orderQty t' = 0 \<or> minNotional (m (t_symbol t)) \<le> t_orderQty t' * Trade_orderPrice m t)"
  by (auto simp: Let_def recalculate_within [OF assms]) (auto simp: recalculate_cases)

definition example_symbol :: Symbol where
  "example_symbol =
     \<lparr>symbol = ''ETHBTC'', baseAsset = ''ETH'', quoteAsset = ''BTC'',
      minNotional = PreciseNumber 1000000, baseAssetIncrement = PreciseNumber 10000000,
      quoteAssetIncrement = PreciseNumber 1, baseAssetPrecision = 8, quoteAssetPrecision = 8,
      bidPrice = PreciseNumber 400000000, askPrice = PreciseNumber 500000000,
      bidQty = PreciseNumber 20000000000, askQty = PreciseNumber 30005000000\<rparr>"

lemma example_market_ok: "market_ok (\<lambda>_. example_symbol)"
  by (simp add: market_ok_def quotes_ok_def example_symbol_def pn_simps)

theorem recalculate_spends_within_budget_witness:
  "Trade_usedQty (\<lambda>_. example_symbol)
     (Trade_recalculateOrderQty (\<lambda>_. example_symbol)
       (Trade_new (\<lambda>_. example_symbol) ''ETHBTC'' LONG) (PreciseNumber_of_int 1))
   \<le> PreciseNumber_of_int 1"
  using recalculate_spends_within_budget [OF example_market_ok,
      of "PreciseNumber_of_int 1" "Trade_new (\<lambda>_. example_symbol) ''ETHBTC'' LONG"]
  by (simp add: Let_def pn_le_iff)

section \<open>The largest admissible order\<close>

lemma multiple_le_round_down:
  fixes q s i :: int
  assumes "0 < i" and "i dvd q" and "q \<le> s" and "0 \<le> s"
  shows "q \<le> s - s smod i"
proof -
  obtain k where k: "q = i * k" using assms(2) ..
  have "k \<le> s div i"
    using assms(1,3) by (simp add: k zdiv_mono1 [of "i * k" s i, simplified])
  then have "i * k \<le> i * (s div i)"
    using assms(1) by simp
  also have "\<dots> = s - s mod i"
    by (simp add: minus_mod_eq_mult_div)
  finally show ?thesis
    using assms by (simp add: k smod_nonneg_eq)
qed

text \<open>C26. The order is also the largest admissible one: any whole number of steps that is on offer, that
  the budget pays for exactly, and that is worth at least the minimum notional, is at most the quantity
  chosen.\<close>

theorem recalculate_maximal:
  assumes "market_ok m" and "0 \<le> budget"
    and "0 < smallestUnit (baseAssetIncrement (m (t_symbol t)))"
    and "smallestUnit (baseAssetIncrement (m (t_symbol t))) dvd smallestUnit q"
    and "q \<le> Trade_offerQty m t"
    and "t_position t = LONG \<Longrightarrow> 0 < Trade_orderPrice m t \<and>
      smallestUnit q * smallestUnit (Trade_orderPrice m t) \<le> smallestUnit budget * kPrecision"
    and "t_position t = SHORT \<Longrightarrow> q \<le> budget"
    and "minNotional (m (t_symbol t)) \<le> q * Trade_orderPrice m t"
  shows "q \<le> t_orderQty (Trade_recalculateOrderQty m t budget)"
proof -
  let ?p = "smallestUnit (Trade_orderPrice m t)"
  let ?i = "smallestUnit (baseAssetIncrement (m (t_symbol t)))"
  let ?b = "if t_position t = LONG then budget div Trade_orderPrice m t else budget"
  have nn: "0 \<le> ?b"
    using market_okD [OF assms(1), of t] assms(2) by (simp add: pn_div_nonneg)
  have "smallestUnit q \<le> smallestUnit ?b"
  proof (cases "t_position t")
    case LONG
    with assms(6) have p: "0 < ?p" and le: "smallestUnit q * ?p \<le> smallestUnit budget * kPrecision"
      by (simp_all add: pn_simps)
    from assms(2) have b: "0 \<le> smallestUnit budget * kPrecision"
      by (simp add: pn_simps)
    have "smallestUnit q \<le> (smallestUnit budget * kPrecision) div ?p"
      using zdiv_mono1 [OF le p] p by simp
    with LONG p b show ?thesis
      by (simp add: pn_simps sdiv_nonneg_eq)
  next
    case SHORT
    with assms(7) show ?thesis by (simp add: pn_le_iff)
  qed
  then have "smallestUnit q \<le> smallestUnit ?b - smallestUnit ?b smod ?i"
    using nn by (intro multiple_le_round_down assms(3,4)) (simp_all add: pn_le_iff)
  then have "q \<le> step_qty m t budget"
    using assms(3) by (simp add: step_qty_def Let_def PreciseNumber_fmod_def pn_le_iff)
  then have q: "q \<le> min (step_qty m t budget) (Trade_offerQty m t)" using assms(5) by simp
  have worth: "q * Trade_orderPrice m t \<le> min (step_qty m t budget) (Trade_offerQty m t) * Trade_orderPrice m t"
    using market_okD [OF assms(1), of t] by (intro pn_mul_mono q) simp_all
  with assms(8) have "\<not> min (step_qty m t budget) (Trade_offerQty m t) * Trade_orderPrice m t < minNotional (m (t_symbol t))"
    using order_trans [OF assms(8) worth] by (simp only: not_less)
  with q show ?thesis
    by (simp add: recalculate_cases)
qed

theorem recalculate_maximal_witness:
  "PreciseNumber 20000000000 \<le> t_orderQty (Trade_recalculateOrderQty (\<lambda>_. example_symbol)
       (Trade_new (\<lambda>_. example_symbol) ''ETHBTC'' LONG) (PreciseNumber_of_int 1))"
  by (rule recalculate_maximal [OF example_market_ok])
    (simp_all add: Trade_new_def example_symbol_def Trade_offerQty_def Trade_orderPrice_def
      pn_simps kPrecision_def sdiv_nonneg_eq)

text \<open>
  What the order is not: a whole number of steps. The minimum with the offered quantity is
  taken after the rounding, so an offer between two steps is taken as it is.
\<close>

lemma recalculate_may_leave_the_grid:
  "\<not> smallestUnit (baseAssetIncrement example_symbol) dvd
     smallestUnit (t_orderQty (Trade_recalculateOrderQty (\<lambda>_. example_symbol)
       (Trade_new (\<lambda>_. example_symbol) ''ETHBTC'' LONG) (PreciseNumber_of_int 1)))"
  by (simp add: recalculate_cases step_qty_def PreciseNumber_fmod_def Trade_new_def
      Trade_offerQty_def Trade_orderPrice_def example_symbol_def pn_simps kPrecision_def
      min_def smod_nonneg_eq sdiv_nonneg_eq)

end
