(* ===== verification/Opportunity_Model.thy ===== *)
theory Opportunity_Model
  imports Trade_Model
begin

text \<open>
  \<^verbatim>\<open>Opportunity\<close> (include/Opportunity.h, src/Opportunity.cpp): a cycle of trades that starts and
  ends in one asset. \<open>update\<close> sizes the trades for a budget: a pass forward that bounds what
  the cycle can return, a pass backward that turns the bound into a starting quantity, and
  a pass forward that sizes each order with what the one before it brings in.
  The object holds a pointer to its own path of the trading paths; no two opportunities
  share one, so the trades are a field of the record.
\<close>

section \<open>The three passes\<close>

record Opportunity =
  o_trades :: "Trade list"
  o_startingAsset :: string
  o_commission :: precise_number
  o_relativeValue :: precise_number
  o_totalProfit :: precise_number

definition Opportunity_new ::
  "Trade list \<Rightarrow> precise_number \<Rightarrow> precise_number \<Rightarrow> Opportunity" where
  "Opportunity_new trades relativeValue commission =
     \<lparr>o_trades = trades, o_startingAsset = t_usedCurrency (hd trades), o_commission = commission,
      o_relativeValue = relativeValue, o_totalProfit = PreciseNumber_default\<rparr>"

text \<open>
  The loop resets the order quantity of each trade it visits; at a price of zero it returns
  with the trades behind that one untouched. The result is the trades as the loop leaves
  them and the returned quantity.
\<close>

fun calculateMaxQtyAfterTrades ::
  "market \<Rightarrow> Trade list \<Rightarrow> precise_number \<Rightarrow> Trade list \<times> precise_number" where
  "calculateMaxQtyAfterTrades m [] acc = ([], acc)"
| "calculateMaxQtyAfterTrades m (trade # trades) acc =
     (let trade = Trade_resetOrderQty m trade in
      if t_position trade = LONG then
        if PreciseNumber_eq (Trade_orderPrice m trade) (PreciseNumber_of_int 0)
        then (trade # trades, PreciseNumber_default)
        else let acc = PreciseNumber_min acc (Trade_usedQty m trade * Trade_orderPrice m trade)
                         div Trade_orderPrice m trade;
                 r = calculateMaxQtyAfterTrades m trades acc
             in (trade # fst r, snd r)
      else let acc = PreciseNumber_min acc (Trade_usedQty m trade) * Trade_orderPrice m trade;
               r = calculateMaxQtyAfterTrades m trades acc
           in (trade # fst r, snd r))"

text \<open>The loop over the reversed trades, and the function that starts it.\<close>

fun startingAssetQty_loop :: "market \<Rightarrow> Trade list \<Rightarrow> precise_number \<Rightarrow> precise_number" where
  "startingAssetQty_loop m [] acc = acc"
| "startingAssetQty_loop m (trade # trades) acc =
     (if t_position trade = LONG
      then startingAssetQty_loop m trades (PreciseNumber_mul_assign acc (Trade_orderPrice m trade))
      else if PreciseNumber_eq (Trade_orderPrice m trade) (PreciseNumber_of_int 0)
           then PreciseNumber_default
           else startingAssetQty_loop m trades
                  (PreciseNumber_div_assign acc (Trade_orderPrice m trade)))"

definition calculateStartingAssetQty :: "market \<Rightarrow> Trade list \<Rightarrow> precise_number \<Rightarrow> precise_number" where
  "calculateStartingAssetQty m trades qty = startingAssetQty_loop m (rev trades) qty"

fun update_trades :: "market \<Rightarrow> Trade list \<Rightarrow> precise_number \<Rightarrow> Trade list" where
  "update_trades m [] acc = []"
| "update_trades m (trade # trades) acc =
     (let trade = Trade_recalculateOrderQty m trade acc
      in trade # update_trades m trades (Trade_recvQty m trade))"

definition Opportunity_update :: "market \<Rightarrow> Opportunity \<Rightarrow> precise_number \<Rightarrow> Opportunity" where
  "Opportunity_update m opp startingAssetBudget =
     (let forward = calculateMaxQtyAfterTrades m (o_trades opp) startingAssetBudget;
          startingAssetQty = calculateStartingAssetQty m (fst forward) (snd forward);
          trades = update_trades m (fst forward) startingAssetQty;
          recvQty = Trade_recvQty m (last trades);
          usedQty = Trade_usedQty m (hd trades)
      in opp\<lparr>o_trades := trades,
             o_totalProfit :=
               (recvQty * (PreciseNumber_of_int 1 -
                  o_commission opp * PreciseNumber_of_int (int (length trades))) - usedQty)
               * o_relativeValue opp\<rparr>)"

definition Opportunity_getTotalProfit :: "Opportunity \<Rightarrow> precise_number" where
  "Opportunity_getTotalProfit opp = o_totalProfit opp"

definition Opportunity_getStartingAsset :: "Opportunity \<Rightarrow> string" where
  "Opportunity_getStartingAsset opp = o_startingAsset opp"

definition Opportunity_getCapacity :: "market \<Rightarrow> Opportunity \<Rightarrow> precise_number" where
  "Opportunity_getCapacity m opp = Trade_usedQty m (hd (o_trades opp))"

definition Opportunity_getTrades :: "Opportunity \<Rightarrow> Trade list" where
  "Opportunity_getTrades opp = o_trades opp"

section \<open>What the passes keep of a trade\<close>

text \<open>The passes only write order quantities.\<close>

definition same_trade :: "Trade \<Rightarrow> Trade \<Rightarrow> bool" where
  "same_trade a b \<longleftrightarrow> t_symbol a = t_symbol b \<and> t_position a = t_position b \<and>
     t_recvCurrency a = t_recvCurrency b \<and> t_usedCurrency a = t_usedCurrency b"

lemma same_trade_refl [simp]: "same_trade t t"
  by (simp add: same_trade_def)

lemma same_trade_update [simp]:
  "same_trade (Trade_recalculateOrderQty m t b) t" "same_trade (Trade_resetOrderQty m t) t"
  by (simp_all add: same_trade_def)

lemma same_trade_trans: "same_trade a b \<Longrightarrow> same_trade b c \<Longrightarrow> same_trade a c"
  by (simp add: same_trade_def)

lemma same_trades_refl [simp]: "list_all2 same_trade ts ts"
  by (simp add: list_all2_refl)

lemma same_trades_trans:
  "list_all2 same_trade as bs \<Longrightarrow> list_all2 same_trade bs cs \<Longrightarrow> list_all2 same_trade as cs"
  by (rule list_all2_trans [of same_trade same_trade same_trade]) (rule same_trade_trans)

lemma same_trade_price:
  "same_trade a b \<Longrightarrow> Trade_orderPrice m a = Trade_orderPrice m b"
  by (simp add: same_trade_def Trade_orderPrice_def)

lemma same_trades_map:
  "list_all2 same_trade as bs \<Longrightarrow> (\<And>a b. same_trade a b \<Longrightarrow> f a = f b) \<Longrightarrow> map f as = map f bs"
  by (induction rule: list_all2_induct) auto

lemma forward_same: "list_all2 same_trade (fst (calculateMaxQtyAfterTrades m ts acc)) ts"
  by (induction m ts acc rule: calculateMaxQtyAfterTrades.induct) (auto simp: Let_def)

lemma update_trades_same: "list_all2 same_trade (update_trades m ts acc) ts"
  by (induction m ts acc rule: update_trades.induct) (auto simp: Let_def)

lemma update_trades_simps [simp]:
  "length (update_trades m ts acc) = length ts" "update_trades m ts acc = [] \<longleftrightarrow> ts = []"
  by (induction m ts acc rule: update_trades.induct) (auto simp: Let_def)

section \<open>The bound of the backward pass\<close>

lemma startingAssetQty_mono:
  assumes "market_ok m" and "0 \<le> a" and "a \<le> b"
  shows "0 \<le> startingAssetQty_loop m ts a \<and> startingAssetQty_loop m ts a \<le> startingAssetQty_loop m ts b"
  using assms(2,3)
proof (induction ts arbitrary: a b)
  case (Cons t ts)
  let ?p = "Trade_orderPrice m t"
  have p: "0 \<le> ?p" by (rule market_okD [OF assms(1)])
  have "0 \<le> a * ?p" "a * ?p \<le> b * ?p" "0 \<le> a div ?p" "a div ?p \<le> b div ?p"
    using Cons.prems p by (auto intro: pn_mul_nonneg pn_mul_mono pn_div_nonneg pn_div_mono)
  with Cons.IH show ?case
    by (auto simp: PreciseNumber_operators div_assign_eq pn_eq_iff)
qed simp

lemma startingAssetQty_append:
  "startingAssetQty_loop m (ts @ [t]) a =
     (if (\<exists>s\<in>set ts. t_position s \<noteq> LONG \<and> Trade_orderPrice m s = 0) then 0
      else startingAssetQty_loop m [t] (startingAssetQty_loop m ts a))"
proof (induction ts arbitrary: a)
  case (Cons s ts)
  then show ?case
    by (cases "t_position s = LONG") (auto simp: PreciseNumber_operators pn_eq_iff)
qed simp

lemma startingAssetQty_zero [simp]: "startingAssetQty_loop m ts 0 = 0"
proof (induction ts)
  case (Cons t ts)
  have "PreciseNumber_div_assign 0 p = 0" for p
    by (simp add: PreciseNumber_div_assign_def pn_eq_iff)
  with Cons show ?case by (simp add: PreciseNumber_operators)
qed simp

lemma forward_nonneg:
  assumes "market_ok m" and "0 \<le> acc"
  shows "0 \<le> snd (calculateMaxQtyAfterTrades m ts acc)"
  using assms(2)
proof (induction ts arbitrary: acc)
  case (Cons t ts)
  have ok: "0 \<le> Trade_orderPrice m t" "0 \<le> Trade_usedQty m (Trade_resetOrderQty m t)"
    using market_okD [OF assms(1), of t] by (auto simp: Trade_usedQty_def pn_mul_nonneg)
  with Cons show ?case
    by (auto simp: Let_def PreciseNumber_operators pn_mul_nonneg pn_div_nonneg)
qed simp

text \<open>What one trade of the forward pass does to the accumulator.\<close>

definition forward_acc :: "market \<Rightarrow> Trade \<Rightarrow> precise_number \<Rightarrow> precise_number" where
  "forward_acc m t acc =
     (if t_position t = LONG
      then min acc (Trade_usedQty m (Trade_resetOrderQty m t) * Trade_orderPrice m t)
             div Trade_orderPrice m t
      else min acc (Trade_usedQty m (Trade_resetOrderQty m t)) * Trade_orderPrice m t)"

lemma forward_Cons:
  "calculateMaxQtyAfterTrades m (t # ts) acc =
     (if t_position t = LONG \<and> Trade_orderPrice m t = 0 then (Trade_resetOrderQty m t # ts, 0)
      else let r = calculateMaxQtyAfterTrades m ts (forward_acc m t acc)
           in (Trade_resetOrderQty m t # fst r, snd r))"
  by (auto simp: Let_def PreciseNumber_operators forward_acc_def pn_eq_iff)

text \<open>A pass backward never needs more of the starting asset than the pass forward spent.\<close>

lemma backward_forward_le:
  assumes "market_ok m" and "0 \<le> acc"
  shows "calculateStartingAssetQty m (fst (calculateMaxQtyAfterTrades m ts acc))
      (snd (calculateMaxQtyAfterTrades m ts acc)) \<le> acc"
  using assms(2)
proof (induction ts arbitrary: acc)
  case Nil
  then show ?case by (simp add: calculateStartingAssetQty_def)
next
  case (Cons t ts)
  let ?t = "Trade_resetOrderQty m t"
  let ?p = "Trade_orderPrice m t"
  let ?u = "Trade_usedQty m ?t"
  have ok: "0 \<le> ?p" "0 \<le> ?u"
    using market_okD [OF assms(1), of t] by (auto simp: Trade_usedQty_def pn_mul_nonneg)
  let ?acc' = "forward_acc m t acc"
  let ?f = "calculateMaxQtyAfterTrades m ts ?acc'"
  have nn: "0 \<le> min acc (?u * ?p)" "0 \<le> min acc ?u" "0 \<le> ?acc'"
    using ok Cons.prems by (auto simp: forward_acc_def pn_mul_nonneg pn_div_nonneg min_le_iff_disj)
  let ?b = "startingAssetQty_loop m (rev (fst ?f)) (snd ?f)"
  have IH: "?b \<le> ?acc'"
    using Cons.IH [OF nn(3)] by (simp add: calculateStartingAssetQty_def)
  have b0: "0 \<le> ?b"
    using startingAssetQty_mono [OF assms(1) forward_nonneg [OF assms(1) nn(3)] order_refl] by simp
  show ?case
  proof (cases "t_position t = LONG \<and> ?p = 0 \<or>
      (\<exists>s\<in>set (fst ?f). t_position s \<noteq> LONG \<and> Trade_orderPrice m s = 0)")
    case True
    with Cons.prems show ?thesis
      by (auto simp: calculateStartingAssetQty_def Let_def forward_Cons startingAssetQty_append
          simp del: calculateMaxQtyAfterTrades.simps)
  next
    case False
    have "startingAssetQty_loop m [?t] ?b \<le> acc"
    proof (cases "t_position t = LONG")
      case True
      with False have p: "?p \<noteq> 0" by simp
      have "?b * ?p \<le> ?acc' * ?p"
        by (intro pn_mul_mono IH ok)
      also have "\<dots> \<le> min acc (?u * ?p)"
        using True pn_div_mul_le [OF nn(1) ok(1)] by (simp add: forward_acc_def)
      finally show ?thesis using True by (simp add: PreciseNumber_operators)
    next
      case short: False
      have "?b div ?p \<le> ?acc' div ?p"
        by (intro pn_div_mono IH ok)
      also have "\<dots> \<le> min acc ?u"
        using short pn_mul_div_le [OF nn(2) ok(1)] by (simp add: forward_acc_def)
      finally show ?thesis using short Cons.prems
        by (auto simp: PreciseNumber_operators div_assign_eq pn_eq_iff)
    qed
    with False Cons.prems show ?thesis
      by (simp add: calculateStartingAssetQty_def Let_def forward_Cons startingAssetQty_append
          del: calculateMaxQtyAfterTrades.simps startingAssetQty_loop.simps)
  qed
qed


lemma backward_nonneg:
  assumes "market_ok m" and "0 \<le> acc"
  shows "0 \<le> calculateStartingAssetQty m (fst (calculateMaxQtyAfterTrades m ts acc))
      (snd (calculateMaxQtyAfterTrades m ts acc))"
  using startingAssetQty_mono [OF assms(1) forward_nonneg [OF assms] order_refl]
  by (simp add: calculateStartingAssetQty_def)

section \<open>The chain of orders\<close>

text \<open>
  \<open>chained m qty ts\<close>: the first trade spends at most \<open>qty\<close>, every other one at most what
  the trade before it brings in, and no order exceeds the offer it takes.
\<close>

fun chained :: "market \<Rightarrow> precise_number \<Rightarrow> Trade list \<Rightarrow> bool" where
  "chained m qty [] \<longleftrightarrow> True"
| "chained m qty (t # ts) \<longleftrightarrow> 0 \<le> t_orderQty t \<and> t_orderQty t \<le> Trade_offerQty m t \<and>
     Trade_usedQty m t \<le> qty \<and> chained m (Trade_recvQty m t) ts"

lemma update_trades_chained:
  assumes "market_ok m" and "0 \<le> acc"
  shows "chained m acc (update_trades m ts acc)"
  using assms(2)
  by (induction ts arbitrary: acc) (auto simp: Let_def recalculate_within [OF assms(1)])

lemma chained_mono: "chained m a ts \<Longrightarrow> a \<le> b \<Longrightarrow> chained m b ts"
  by (cases ts) auto

lemma chained_recv_nonneg:
  assumes "market_ok m" and "chained m b ts" and "t \<in> set ts"
  shows "0 \<le> Trade_recvQty m t"
  using assms(2,3)
  by (induction ts arbitrary: b)
    (auto simp: Trade_recvQty_def pn_mul_nonneg market_okD [OF assms(1)])

lemma Opportunity_update_same:
  "list_all2 same_trade (o_trades (Opportunity_update m opp b)) (o_trades opp)"
  by (simp add: Opportunity_update_def Let_def same_trades_trans [OF update_trades_same forward_same])

lemma Opportunity_update_length [simp]:
  "length (o_trades (Opportunity_update m opp b)) = length (o_trades opp)"
  "o_trades (Opportunity_update m opp b) = [] \<longleftrightarrow> o_trades opp = []"
  using list_all2_lengthD [OF Opportunity_update_same [of m opp b]] by auto

lemma Opportunity_update_frame [simp]:
  "o_startingAsset (Opportunity_update m opp b) = o_startingAsset opp"
  "o_commission (Opportunity_update m opp b) = o_commission opp"
  "o_relativeValue (Opportunity_update m opp b) = o_relativeValue opp"
  by (simp_all add: Opportunity_update_def Let_def)

lemma Opportunity_update_trades:
  "o_trades (Opportunity_update m opp b) =
     update_trades m (fst (calculateMaxQtyAfterTrades m (o_trades opp) b))
       (calculateStartingAssetQty m (fst (calculateMaxQtyAfterTrades m (o_trades opp) b))
         (snd (calculateMaxQtyAfterTrades m (o_trades opp) b)))"
  by (simp add: Opportunity_update_def Let_def)

text \<open>C20. After an update the orders of a cycle can be executed one after the other: the
  first spends at most the budget, and each later one at most what the trade before it
  brings in, within the quantities on offer.\<close>

theorem update_orders_chained:
  assumes "market_ok m" and "0 \<le> budget"
  shows "chained m budget (o_trades (Opportunity_update m opp budget))"
  unfolding Opportunity_update_trades
  by (rule chained_mono [OF update_trades_chained [OF assms(1) backward_nonneg [OF assms]]
        backward_forward_le [OF assms]])

definition example_cycle :: Opportunity where
  "example_cycle = Opportunity_new
     [Trade_new (\<lambda>_. example_symbol) ''ETHBTC'' LONG, Trade_new (\<lambda>_. example_symbol) ''ETHBTC'' SHORT]
     (PreciseNumber_of_int 1) (PreciseNumber 7500000)"

theorem update_orders_chained_witness:
  "chained (\<lambda>_. example_symbol) (PreciseNumber_of_int 1)
     (o_trades (Opportunity_update (\<lambda>_. example_symbol) example_cycle (PreciseNumber_of_int 1)))"
  by (rule update_orders_chained [OF example_market_ok]) (simp add: pn_le_iff)

lemma capacity_bounds:
  assumes "market_ok m" and "0 \<le> budget" and "o_trades opp \<noteq> []"
  shows "0 \<le> Opportunity_getCapacity m (Opportunity_update m opp budget) \<and>
    Opportunity_getCapacity m (Opportunity_update m opp budget) \<le> budget"
proof -
  let ?f = "calculateMaxQtyAfterTrades m (o_trades opp) budget"
  let ?q = "calculateStartingAssetQty m (fst ?f) (snd ?f)"
  have "fst ?f \<noteq> []"
    using assms(3) forward_same [of m "o_trades opp" budget] by auto
  then obtain t ts where ts: "fst ?f = t # ts"
    by (cases "fst ?f") auto
  have q: "0 \<le> ?q" "?q \<le> budget"
    by (rule backward_nonneg [OF assms(1,2)] backward_forward_le [OF assms(1,2)])+
  have "Opportunity_getCapacity m (Opportunity_update m opp budget)
      = Trade_usedQty m (Trade_recalculateOrderQty m t ?q)"
    by (simp add: Opportunity_getCapacity_def Opportunity_update_trades ts Let_def)
  with recalculate_within(3,4) [OF assms(1) q(1), of t] q(2) show ?thesis
    by simp
qed

section \<open>Profit\<close>

lemma pn_mul_pos_cases:
  fixes a b :: precise_number
  assumes "0 < a * b" and "0 \<le> b"
  shows "0 < a"
proof (rule ccontr)
  assume "\<not> 0 < a"
  then have "0 \<le> - smallestUnit a * smallestUnit b"
    using assms(2) by (intro mult_nonneg_nonneg) (simp_all add: pn_simps)
  then have "0 \<le> (- smallestUnit a * smallestUnit b) sdiv kPrecision"
    by (rule sdiv_nonneg) simp
  with assms(1) show False
    by (simp add: pn_simps)
qed

text \<open>C21. A cycle that an update reports as profitable brings in more of the starting asset
  than it spends, even before the commission on its trades is taken off.\<close>

theorem update_profit_is_real:
  assumes "market_ok m" and "0 \<le> budget" and "o_trades opp \<noteq> []"
    and "0 \<le> o_commission opp" and "0 \<le> o_relativeValue opp"
    and "0 < Opportunity_getTotalProfit (Opportunity_update m opp budget)"
  shows "Trade_usedQty m (hd (o_trades (Opportunity_update m opp budget)))
    < Trade_recvQty m (last (o_trades (Opportunity_update m opp budget)))"
proof -
  let ?ts = "o_trades (Opportunity_update m opp budget)"
  let ?recv = "Trade_recvQty m (last ?ts)" and ?used = "Trade_usedQty m (hd ?ts)"
  let ?rate = "PreciseNumber_of_int 1 - o_commission opp * PreciseNumber_of_int (int (length ?ts))"
  have "0 < (?recv * ?rate - ?used) * o_relativeValue opp"
    using assms(6) by (simp add: Opportunity_getTotalProfit_def Opportunity_update_def Let_def)
  then have "0 < ?recv * ?rate - ?used"
    by (rule pn_mul_pos_cases) (rule assms(5))
  then have less: "?used < ?recv * ?rate" by simp
  have rate: "?rate \<le> PreciseNumber_of_int 1"
    using pn_mul_nonneg [OF assms(4), of "PreciseNumber_of_int (int (length ?ts))"]
    by (simp add: pn_le_iff)
  have recv: "0 \<le> ?recv"
  proof (rule chained_recv_nonneg [OF assms(1)])
    show "chained m budget ?ts"
      unfolding Opportunity_update_trades
      by (rule chained_mono [OF update_trades_chained [OF assms(1) backward_nonneg [OF assms(1,2)]]
            backward_forward_le [OF assms(1,2)]])
    have "?ts \<noteq> []"
      using assms(3) Opportunity_update_same [of m opp budget] by auto
    then show "last ?ts \<in> set ?ts" by simp
  qed
  have "?recv * ?rate \<le> ?recv * PreciseNumber_of_int 1"
    using pn_mul_mono [OF rate recv] by (simp add: pn_mul_comm)
  with less show ?thesis by (simp add: pn_mul_one)
qed


definition rich_bid :: Symbol where
  "rich_bid = example_symbol\<lparr>bidPrice := PreciseNumber 600000000\<rparr>"

lemma rich_bid_ok: "market_ok (\<lambda>_. rich_bid)"
  by (simp add: market_ok_def quotes_ok_def rich_bid_def example_symbol_def pn_simps)

theorem update_profit_is_real_witness:
  "Trade_usedQty (\<lambda>_. rich_bid)
     (hd (o_trades (Opportunity_update (\<lambda>_. rich_bid) example_cycle (PreciseNumber_of_int 1))))
   < Trade_recvQty (\<lambda>_. rich_bid)
     (last (o_trades (Opportunity_update (\<lambda>_. rich_bid) example_cycle (PreciseNumber_of_int 1))))"
proof (rule update_profit_is_real [OF rich_bid_ok])
  show "0 < Opportunity_getTotalProfit
      (Opportunity_update (\<lambda>_. rich_bid) example_cycle (PreciseNumber_of_int 1))"
    by code_simp
  show "0 \<le> o_commission example_cycle" "0 \<le> o_relativeValue example_cycle"
    "(0 :: precise_number) \<le> PreciseNumber_of_int 1" "o_trades example_cycle \<noteq> []"
    by code_simp+
qed

section \<open>An update forgets the past\<close>

lemma same_tradeE:
  assumes "same_trade a b"
  obtains q where "a = b\<lparr>t_orderQty := q\<rparr>"
proof
  show "a = b\<lparr>t_orderQty := t_orderQty a\<rparr>"
    using assms by (simp add: same_trade_def)
qed

lemma qty_irrelevant:
  "Trade_resetOrderQty m (b\<lparr>t_orderQty := q\<rparr>) = Trade_resetOrderQty m b"
  "Trade_recalculateOrderQty m (b\<lparr>t_orderQty := q\<rparr>) x = Trade_recalculateOrderQty m b x"
  by (simp_all add: Trade_resetOrderQty_def Trade_offerQty_def Trade_recalculateOrderQty_def
      Trade_orderPrice_def Let_def)

lemma same_trade_reset: "same_trade a b \<Longrightarrow> Trade_resetOrderQty m a = Trade_resetOrderQty m b"
  by (elim same_tradeE) (simp only: qty_irrelevant)

lemma same_trade_recalculate:
  "same_trade a b \<Longrightarrow> Trade_recalculateOrderQty m a x = Trade_recalculateOrderQty m b x"
  by (elim same_tradeE) (simp only: qty_irrelevant)

lemma forward_cong:
  "list_all2 same_trade ts us \<Longrightarrow>
   snd (calculateMaxQtyAfterTrades m ts acc) = snd (calculateMaxQtyAfterTrades m us acc)"
proof (induction arbitrary: acc rule: list_all2_induct)
  case (Cons t ts u us)
  have "Trade_resetOrderQty m t = Trade_resetOrderQty m u"
    by (rule same_trade_reset) (rule Cons)
  with Cons.IH show ?case by (simp add: Let_def)
qed simp

lemma backward_cong:
  "list_all2 same_trade ts us \<Longrightarrow> calculateStartingAssetQty m ts a = calculateStartingAssetQty m us a"
proof -
  have loop: "startingAssetQty_loop m ts a = startingAssetQty_loop m us a"
    if "list_all2 same_trade ts us" for ts us a
    using that
  proof (induction arbitrary: a rule: list_all2_induct)
    case (Cons t ts u us)
    have "Trade_orderPrice m t = Trade_orderPrice m u"
      by (rule same_trade_price) (rule Cons)
    moreover have "t_position t = t_position u"
      using Cons(1) by (simp add: same_trade_def)
    ultimately show ?case using Cons.IH by simp
  qed simp
  assume "list_all2 same_trade ts us"
  then have "list_all2 same_trade (rev ts) (rev us)" by simp
  then show ?thesis by (simp add: calculateStartingAssetQty_def loop)
qed

lemma update_trades_cong:
  "list_all2 same_trade ts us \<Longrightarrow> update_trades m ts a = update_trades m us a"
proof (induction arbitrary: a rule: list_all2_induct)
  case (Cons t ts u us)
  have "Trade_recalculateOrderQty m t a = Trade_recalculateOrderQty m u a"
    by (rule same_trade_recalculate) (rule Cons)
  with Cons.IH show ?case by (simp add: Let_def)
qed simp

lemma same_trades_sym: "list_all2 same_trade ts us \<Longrightarrow> list_all2 same_trade us ts"
  by (auto simp: list_all2_conv_all_nth same_trade_def)

lemma Opportunity_update_cong:
  assumes "list_all2 same_trade ts (o_trades opp)"
  shows "Opportunity_update m (opp\<lparr>o_trades := ts, o_totalProfit := p\<rparr>) b = Opportunity_update m opp b"
proof -
  let ?f = "calculateMaxQtyAfterTrades m ts b" and ?g = "calculateMaxQtyAfterTrades m (o_trades opp) b"
  have fg: "list_all2 same_trade (fst ?f) (fst ?g)"
    using same_trades_trans [OF forward_same same_trades_trans [OF assms same_trades_sym [OF forward_same]]] .
  have "update_trades m (fst ?f) (calculateStartingAssetQty m (fst ?f) (snd ?f)) =
      update_trades m (fst ?g) (calculateStartingAssetQty m (fst ?g) (snd ?g))"
    by (simp add: update_trades_cong [OF fg] backward_cong [OF fg] forward_cong [OF assms])
  then show ?thesis by (simp add: Opportunity_update_def Let_def list_all2_lengthD [OF fg])
qed

lemma update_idem:
  "Opportunity_update m (Opportunity_update m' opp b') b = Opportunity_update m opp b"
proof -
  let ?o = "Opportunity_update m' opp b'"
  have "?o = opp\<lparr>o_trades := o_trades ?o, o_totalProfit := o_totalProfit ?o\<rparr>"
    by (simp add: Opportunity_update_def Let_def)
  then show ?thesis
    using Opportunity_update_cong [OF Opportunity_update_same] by metis
qed

text \<open>C22. The outcome of an update depends on the prices and the budget of that update only: no
  order quantity or profit left behind by an earlier one, under other prices, survives.\<close>

theorem update_forgets_history:
  "Opportunity_update m (Opportunity_update m' opp budget') budget = Opportunity_update m opp budget"
  by (rule update_idem)

section \<open>Where the forward pass is not a bound\<close>

text \<open>
  For a LONG trade the pass caps the accumulator with \<^verbatim>\<open>usedQty() * orderPrice()\<close>, and \<^verbatim>\<open>usedQty()\<close>
  is already in units of the quote asset: at a price above one the result exceeds what is on
  offer, at a price below one it leaves part of the offer unused.
\<close>

lemma forward_exceeds_offer:
  fixes m defines "m \<equiv> \<lambda>_. example_symbol\<lparr>askPrice := PreciseNumber_of_int 2, askQty := PreciseNumber_of_int 1\<rparr>"
  shows "Trade_offerQty m (Trade_new m ''ETHBTC'' LONG) <
    snd (calculateMaxQtyAfterTrades m [Trade_new m ''ETHBTC'' LONG] (PreciseNumber_of_int 10))"
  unfolding m_def by code_simp

end
