(* ===== verification/Bookkeeping.thy ===== *)
theory Bookkeeping
  imports Opportunity_Model
begin

text \<open>
  What the worker keeps its books with: the balance (include/Balance.h, src/Balance.cpp), the
  reserved symbols (ReservedTrades), the frozen opportunity (Execution) and the reports
  of the exchange (ExecutionReport, TradeExecutionStatus). The worker uses the first two
  through the two interfaces stated here as locales.
\<close>

section \<open>Interfaces\<close>

text \<open>An account that can be credited one asset at a time or by a whole statement.\<close>

locale ledger =
  fixes read :: "'b \<Rightarrow> 'k \<Rightarrow> 'v::ab_group_add"
    and credit :: "'b \<Rightarrow> 'k \<Rightarrow> 'v \<Rightarrow> 'b"
    and credit_all :: "'b \<Rightarrow> ('k \<rightharpoonup> 'v) \<Rightarrow> 'b"
  assumes read_credit: "read (credit b k v) j = read b j + (if j = k then v else 0)"
    and read_credit_all: "read (credit_all b d) j = read b j + value_at d j"
begin

lemma escrow_returns: "read (credit_all (credit b k (- v)) [k \<mapsto> v]) j = read b j"
  by (simp add: read_credit read_credit_all value_at_upd)

lemma escrow_total: "read (credit b k (- v)) j + value_at [k \<mapsto> v] j = read b j"
  by (simp add: read_credit value_at_upd)

lemma credit_other: "j \<noteq> k \<Longrightarrow> read (credit b k v) j = read b j"
  by (simp add: read_credit)

end

text \<open>
  A table of the names that are taken. What reserves a name and what releases it may be
  different objects (a live trade and its frozen copy), each with a name of its own.
\<close>

locale reservation =
  fixes name_in :: "'a \<Rightarrow> 'n"
    and name_out :: "'b \<Rightarrow> 'n"
    and reserve :: "'n set \<Rightarrow> 'a list \<Rightarrow> 'n set"
    and release :: "'n set \<Rightarrow> 'b list \<Rightarrow> 'n set"
  assumes taken_reserve: "reserve r as = r \<union> name_in ` set as"
    and taken_release: "release r bs = r - name_out ` set bs"
begin

lemma reserve_release:
  assumes "name_out ` set bs = name_in ` set as" and "r \<inter> name_in ` set as = {}"
  shows "release (reserve r as) bs = r"
  using assms by (auto simp: taken_reserve taken_release)

lemma release_one_of_many:
  assumes "\<And>j. j \<in> J \<Longrightarrow> j \<noteq> i \<Longrightarrow> S j \<inter> S i = {}" and "name_out ` set bs = S i"
  shows "release (\<Union>j\<in>J. S j) bs = (\<Union>j\<in>J - {i}. S j)"
  using assms by (fastforce simp: taken_release)

end

section \<open>Balance\<close>

type_synonym Balance = "string \<rightharpoonup> precise_number"

definition Balance_updateBalance :: "Balance \<Rightarrow> string \<Rightarrow> precise_number \<Rightarrow> Balance" where
  "Balance_updateBalance balanceMap currency amount = map_add_at balanceMap currency amount"

definition Balance_updateBalance_all :: "Balance \<Rightarrow> (string \<rightharpoonup> precise_number) \<Rightarrow> Balance" where
  "Balance_updateBalance_all balanceMap assetDelta = map_add_all balanceMap assetDelta"

definition Balance_getBalances :: "Balance \<Rightarrow> (string \<rightharpoonup> precise_number)" where
  "Balance_getBalances balanceMap = balanceMap"

interpretation bal: ledger value_at Balance_updateBalance Balance_updateBalance_all
  by unfold_locales
    (auto simp: Balance_updateBalance_def Balance_updateBalance_all_def value_at_add
      value_at_add_all)

section \<open>ReservedTrades\<close>

type_synonym ReservedTrades = "string set"

definition ReservedTrades_reserveAll ::
  "market \<Rightarrow> ReservedTrades \<Rightarrow> Trade list \<Rightarrow> ReservedTrades" where
  "ReservedTrades_reserveAll m reservedTrades trades =
     foldl (\<lambda>r trade. insert (symbol (m (t_symbol trade))) r) reservedTrades trades"

definition ReservedTrades_releaseAll ::
  "ReservedTrades \<Rightarrow> StaticTrade list \<Rightarrow> ReservedTrades" where
  "ReservedTrades_releaseAll reservedTrades trades =
     foldl (\<lambda>r staticTrade. r - {st_symbol staticTrade}) reservedTrades trades"

lemma foldl_insert: "foldl (\<lambda>r x. insert (f x) r) A xs = A \<union> f ` set xs"
  by (induction xs arbitrary: A) auto

lemma foldl_remove: "foldl (\<lambda>r x. r - {f x}) A xs = A - f ` set xs"
  by (induction xs arbitrary: A) auto

lemma reserveAll_eq:
  "ReservedTrades_reserveAll m r trades = r \<union> (\<lambda>t. symbol (m (t_symbol t))) ` set trades"
  by (simp add: ReservedTrades_reserveAll_def foldl_insert)

lemma releaseAll_eq: "ReservedTrades_releaseAll r trades = r - st_symbol ` set trades"
  by (simp add: ReservedTrades_releaseAll_def foldl_remove)

interpretation res: reservation
    "\<lambda>t. symbol (m (t_symbol t))" st_symbol "ReservedTrades_reserveAll m" ReservedTrades_releaseAll
    for m
  by unfold_locales (simp_all add: reserveAll_eq releaseAll_eq)

definition ReservedTrades_getReservedTrades :: "ReservedTrades \<Rightarrow> string set" where
  "ReservedTrades_getReservedTrades reservedTrades = reservedTrades"

section \<open>Execution\<close>

record Execution =
  ex_trades :: "StaticTrade list"
  ex_tradesVector :: "StaticTrade list"
  ex_startingAsset :: string
  ex_totalProfit :: precise_number
  ex_capacity :: precise_number

definition Execution_new :: "market \<Rightarrow> Opportunity \<Rightarrow> Execution" where
  "Execution_new m opportunity =
     \<lparr>ex_trades = foldl (\<lambda>q trade. q @ [StaticTrade_of m trade]) [] (Opportunity_getTrades opportunity),
      ex_tradesVector =
        foldl (\<lambda>v trade. v @ [StaticTrade_of m trade]) [] (Opportunity_getTrades opportunity),
      ex_startingAsset = Opportunity_getStartingAsset opportunity,
      ex_totalProfit = Opportunity_getTotalProfit opportunity,
      ex_capacity = Opportunity_getCapacity m opportunity\<rparr>"

definition Execution_update :: "Execution \<Rightarrow> precise_number \<Rightarrow> Execution" where
  "Execution_update execution startingAssetBudget = execution"

definition Execution_eq :: "Execution \<Rightarrow> Execution \<Rightarrow> bool" where
  "Execution_eq this other \<longleftrightarrow>
     list_all2 StaticTrade_eq (ex_tradesVector this) (ex_tradesVector other)"

lemma foldl_push: "foldl (\<lambda>q x. q @ [f x]) q xs = q @ map f xs"
  by (induction xs arbitrary: q) auto

lemma Execution_new_simps [simp]:
  "ex_trades (Execution_new m opp) = map (StaticTrade_of m) (o_trades opp)"
  "ex_tradesVector (Execution_new m opp) = map (StaticTrade_of m) (o_trades opp)"
  "ex_startingAsset (Execution_new m opp) = o_startingAsset opp"
  "ex_totalProfit (Execution_new m opp) = o_totalProfit opp"
  "ex_capacity (Execution_new m opp) = Trade_usedQty m (hd (o_trades opp))"
  by (simp_all add: Execution_new_def foldl_push Opportunity_getTrades_def
      Opportunity_getStartingAsset_def Opportunity_getTotalProfit_def Opportunity_getCapacity_def)

lemma Execution_eq_iff [simp]: "Execution_eq a b \<longleftrightarrow> ex_tradesVector a = ex_tradesVector b"
proof -
  have "StaticTrade_eq = (=)" by (simp add: fun_eq_iff)
  then show ?thesis by (simp add: Execution_eq_def list.rel_eq)
qed

section \<open>Execution reports\<close>

datatype TradeExecutionStatus = NEW | FILLED | EXPIRED | REJECTED | UNKNOWN

record ExecutionReport =
  er_id :: string
  er_status :: TradeExecutionStatus
  er_usedQty :: precise_number
  er_recvQty :: precise_number
  er_feeDelta :: "string \<rightharpoonup> precise_number"

end
