(* ===== verification/Worker_Model.thy ===== *)
theory Worker_Model
  imports Bookkeeping
begin

text \<open>
  \<^verbatim>\<open>Worker\<close> (include/Worker.h, src/Worker.cpp), the trading thread: it takes price updates, sizes
  the cycles that trade the updated symbol, starts at most one execution per update, and
  settles executions as the reports of their orders come in. The maps, the reserved
  symbols and the balance are its state; what it hands to the application
  (\<^verbatim>\<open>submitOrder\<close>) is kept as the list of orders submitted so far.
\<close>

section \<open>State\<close>

record PriceUpdate =
  pu_symbol :: symbol_ref
  pu_bidPrice :: precise_number
  pu_askPrice :: precise_number
  pu_bidQty :: precise_number
  pu_askQty :: precise_number

record submitted_order =
  so_id :: string
  so_symbol :: string
  so_qty :: precise_number
  so_price :: precise_number
  so_position :: Position

record Worker =
  w_market :: market
  w_opportunities :: "(string \<times> nat) list"
  w_opportunityList :: "Opportunity list"
  w_relativeValues :: "string \<rightharpoonup> precise_number"
  w_balance :: Balance
  w_reservedTrades :: ReservedTrades
  w_executionsMap :: "string \<rightharpoonup> Execution \<times> (string \<rightharpoonup> precise_number)"
  w_executionIdMap :: "string \<rightharpoonup> StaticTrade \<times> string"
  w_pendingOrdersCount :: "string \<rightharpoonup> int"
  w_failedExecutions :: "string set"
  w_rng :: nat
  w_submitted :: "submitted_order list"

text \<open>\<^verbatim>\<open>std::out_of_range\<close> of the two \<^verbatim>\<open>at()\<close> calls, \<^verbatim>\<open>std::runtime_error\<close> of an unknown status.\<close>

datatype worker_error = Out_of_range | Unknown_status

text \<open>
  What the standard library leaves open: the numbers the generator draws, and the order in
  which \<^verbatim>\<open>equal_range\<close> of the \<^verbatim>\<open>unordered_multimap\<close> visits the entries of a key.
\<close>

record worker_env =
  env_draw :: "nat \<Rightarrow> nat"
  env_order :: "nat list \<Rightarrow> nat list"

definition env_ok :: "worker_env \<Rightarrow> bool" where
  "env_ok env \<longleftrightarrow> (\<forall>i. env_draw env i < 36) \<and> (\<forall>is. mset (env_order env is) = mset is)"

section \<open>Construction\<close>

definition Worker_add_path :: "precise_number \<Rightarrow> Worker \<Rightarrow> Trade list \<Rightarrow> Worker" where
  "Worker_add_path commission w path =
     (let startingAsset = t_usedCurrency (hd path);
          opp = Opportunity_new path (value_at (w_relativeValues w) startingAsset) commission;
          opportunityList = w_opportunityList w @ [opp];
          index = length opportunityList - 1
      in w\<lparr>w_relativeValues := map_emplace (w_relativeValues w) startingAsset 0,
           w_opportunityList := opportunityList,
           w_opportunities := foldl (\<lambda>os trade. os @ [(symbol (w_market w (t_symbol trade)), index)])
             (w_opportunities w) path\<rparr>)"

definition Worker_new ::
  "market \<Rightarrow> Trade list list \<Rightarrow> (string \<rightharpoonup> precise_number) \<Rightarrow> Balance \<Rightarrow> precise_number \<Rightarrow> Worker" where
  "Worker_new m tradingPaths relativeValues balance commission =
     foldl (Worker_add_path commission)
       \<lparr>w_market = m, w_opportunities = [], w_opportunityList = [],
        w_relativeValues = relativeValues, w_balance = balance, w_reservedTrades = {},
        w_executionsMap = Map.empty, w_executionIdMap = Map.empty,
        w_pendingOrdersCount = Map.empty, w_failedExecutions = {}, w_rng = 0, w_submitted = []\<rparr>
       tradingPaths"

section \<open>Price updates\<close>

definition charset :: string where
  "charset = ''abcdefghijklmnopqrstuvwxyz0123456789''"

definition generateId :: "(nat \<Rightarrow> nat) \<Rightarrow> nat \<Rightarrow> string \<times> nat" where
  "generateId draw rng = (map (\<lambda>i. charset ! draw (rng + i)) [0..<8], rng + 8)"

definition Worker_reserveBudgetAndSymbols :: "Opportunity \<Rightarrow> Worker \<Rightarrow> Worker" where
  "Worker_reserveBudgetAndSymbols opp w =
     w\<lparr>w_reservedTrades :=
         ReservedTrades_reserveAll (w_market w) (w_reservedTrades w) (Opportunity_getTrades opp),
       w_balance := Balance_updateBalance (w_balance w) (Opportunity_getStartingAsset opp)
         (Opportunity_getCapacity (w_market w) opp * PreciseNumber_of_int (-1))\<rparr>"

definition update_symbol :: "PriceUpdate \<Rightarrow> market \<Rightarrow> market" where
  "update_symbol update m =
     m(pu_symbol update := (m (pu_symbol update))\<lparr>askPrice := pu_askPrice update,
       bidPrice := pu_bidPrice update, askQty := pu_askQty update, bidQty := pu_bidQty update\<rparr>)"

text \<open>
  The loop over the affected opportunities. \<open>best\<close> is a pointer into the list, so what it
  points to is read from the list as it then is.
\<close>

fun scan_opportunities ::
  "market \<Rightarrow> (string \<rightharpoonup> precise_number) \<Rightarrow> string set \<Rightarrow> nat list \<Rightarrow> Opportunity list \<Rightarrow> nat option \<Rightarrow>
   worker_error + Opportunity list \<times> nat option" where
  "scan_opportunities m balanceMap reservedSymbols [] opps best = Inr (opps, best)"
| "scan_opportunities m balanceMap reservedSymbols (i # affected) opps best =
     (if \<not> i < length opps then Inl Out_of_range
      else case balanceMap (Opportunity_getStartingAsset (opps ! i)) of
        None \<Rightarrow> scan_opportunities m balanceMap reservedSymbols affected opps best
      | Some funds \<Rightarrow>
          if PreciseNumber_ge (PreciseNumber_of_int 0) funds
          then scan_opportunities m balanceMap reservedSymbols affected opps best
          else
            let opp = Opportunity_update m (opps ! i) funds;
                opps = opps[i := opp];
                trades = Opportunity_getTrades opp
            in if PreciseNumber_ge (PreciseNumber_of_int 0) (Opportunity_getTotalProfit opp) \<or>
                  list_ex (\<lambda>t. st_symbol (StaticTrade_of m t) \<in> reservedSymbols) trades
               then scan_opportunities m balanceMap reservedSymbols affected opps best
               else if (case best of None \<Rightarrow> True
                        | Some b \<Rightarrow> PreciseNumber_greater (Opportunity_getTotalProfit opp)
                            (Opportunity_getTotalProfit (opps ! b)))
               then scan_opportunities m balanceMap reservedSymbols affected opps (Some i)
               else scan_opportunities m balanceMap reservedSymbols affected opps best)"

definition order_for :: "string \<Rightarrow> StaticTrade \<Rightarrow> submitted_order" where
  "order_for orderId trade = \<lparr>so_id = orderId, so_symbol = st_symbol trade,
     so_qty = st_orderQty trade, so_price = st_orderPrice trade, so_position = st_position trade\<rparr>"

fun submit_orders :: "worker_env \<Rightarrow> string \<Rightarrow> StaticTrade list \<Rightarrow> Worker \<Rightarrow> Worker" where
  "submit_orders env executionId [] w = w"
| "submit_orders env executionId (trade # trades) w =
     (let (orderId, rng) = generateId (env_draw env) (w_rng w) in
      submit_orders env executionId trades
        (w\<lparr>w_rng := rng,
           w_executionIdMap := map_emplace (w_executionIdMap w) orderId (trade, executionId),
           w_submitted := w_submitted w @ [order_for orderId trade]\<rparr>))"

definition Worker_execute :: "worker_env \<Rightarrow> Opportunity \<Rightarrow> Worker \<Rightarrow> Worker" where
  "Worker_execute env best w =
     (let w = Worker_reserveBudgetAndSymbols best w;
          execution = Execution_new (w_market w) best;
          (executionId, rng) = generateId (env_draw env) (w_rng w);
          delta = [ex_startingAsset execution \<mapsto> ex_capacity execution];
          w = submit_orders env executionId (ex_trades execution) (w\<lparr>w_rng := rng\<rparr>)
      in w\<lparr>w_executionsMap := map_emplace (w_executionsMap w) executionId (execution, delta),
           w_pendingOrdersCount := (w_pendingOrdersCount w)
             (executionId \<mapsto> int (length (ex_trades execution)))\<rparr>)"

definition equal_range :: "(string \<times> nat) list \<Rightarrow> string \<Rightarrow> nat list" where
  "equal_range entries key = map snd (filter (\<lambda>e. fst e = key) entries)"

definition Worker_processPriceUpdate ::
  "worker_env \<Rightarrow> PriceUpdate \<Rightarrow> Worker \<Rightarrow> worker_error + Worker" where
  "Worker_processPriceUpdate env update w =
     (let w = w\<lparr>w_market := update_symbol update (w_market w)\<rparr>;
          balanceMap = Balance_getBalances (w_balance w);
          reservedSymbols = ReservedTrades_getReservedTrades (w_reservedTrades w);
          affected = env_order env
            (equal_range (w_opportunities w) (symbol (w_market w (pu_symbol update))))
      in and_then (scan_opportunities (w_market w) balanceMap reservedSymbols affected
                    (w_opportunityList w) None)
           (\<lambda>(opps, best).
              let w = w\<lparr>w_opportunityList := opps\<rparr> in
              case best of None \<Rightarrow> Inr w | Some b \<Rightarrow> Inr (Worker_execute env (opps ! b) w)))"

section \<open>Execution reports\<close>

definition Worker_finish_order :: "string \<Rightarrow> string \<Rightarrow> Execution \<Rightarrow> (string \<rightharpoonup> precise_number) \<Rightarrow>
   Worker \<Rightarrow> Worker" where
  "Worker_finish_order orderId executionId execution delta w =
     (let w = w\<lparr>w_executionIdMap := (w_executionIdMap w)(orderId := None),
               w_pendingOrdersCount := map_add_at (w_pendingOrdersCount w) executionId (- 1)\<rparr>
      in if value_at (w_pendingOrdersCount w) executionId = 0
         then w\<lparr>w_executionsMap := (w_executionsMap w)(executionId := None),
                w_pendingOrdersCount := (w_pendingOrdersCount w)(executionId := None),
                w_failedExecutions := w_failedExecutions w - {executionId},
                w_balance := Balance_updateBalance_all (w_balance w) delta,
                w_reservedTrades :=
                  ReservedTrades_releaseAll (w_reservedTrades w) (ex_tradesVector execution)\<rparr>
         else w)"

definition Worker_processReport :: "ExecutionReport \<Rightarrow> Worker \<Rightarrow> worker_error + Worker" where
  "Worker_processReport execReport w =
     (case w_executionIdMap w (er_id execReport) of
        None \<Rightarrow> Inr w
      | Some (oldTrade, executionId) \<Rightarrow>
          case w_executionsMap w executionId of
            None \<Rightarrow> Inl Out_of_range
          | Some (execution, delta) \<Rightarrow>
              case er_status execReport of
                NEW \<Rightarrow> Inr w
              | REJECTED \<Rightarrow>
                  Inr (Worker_finish_order (er_id execReport) executionId execution delta
                    (w\<lparr>w_failedExecutions := insert executionId (w_failedExecutions w)\<rparr>))
              | EXPIRED \<Rightarrow>
                  Inr (Worker_finish_order (er_id execReport) executionId execution delta
                    (w\<lparr>w_failedExecutions := insert executionId (w_failedExecutions w)\<rparr>))
              | FILLED \<Rightarrow>
                  let delta = map_add_all delta (er_feeDelta execReport);
                      compareQty = (if st_position oldTrade = LONG then er_recvQty execReport
                                    else er_usedQty execReport)
                  in if PreciseNumber_less compareQty (st_orderQty oldTrade) then Inr w
                     else let delta = map_sub_at delta (st_usedCurrency oldTrade) (er_usedQty execReport);
                              delta = map_add_at delta (st_recvCurrency oldTrade) (er_recvQty execReport)
                          in Inr (Worker_finish_order (er_id execReport) executionId execution delta
                               (w\<lparr>w_executionsMap := (w_executionsMap w)(executionId \<mapsto> (execution, delta))\<rparr>))
              | UNKNOWN \<Rightarrow> Inl Unknown_status)"

section \<open>The thread\<close>

text \<open>
  One turn of the first loop: what the two queues held when they were polled. After the stop
  request the second loop only takes reports, until no execution is left.
\<close>

definition Worker_turn ::
  "worker_env \<Rightarrow> PriceUpdate option \<times> ExecutionReport option \<Rightarrow> Worker \<Rightarrow> worker_error + Worker" where
  "Worker_turn env polled w =
     and_then (case fst polled of None \<Rightarrow> Inr w | Some u \<Rightarrow> Worker_processPriceUpdate env u w)
       (\<lambda>w. case snd polled of None \<Rightarrow> Inr w | Some r \<Rightarrow> Worker_processReport r w)"

fun Worker_loop ::
  "worker_env \<Rightarrow> (PriceUpdate option \<times> ExecutionReport option) list \<Rightarrow> Worker \<Rightarrow> worker_error + Worker" where
  "Worker_loop env [] w = Inr w"
| "Worker_loop env (polled # rest) w = and_then (Worker_turn env polled w) (Worker_loop env rest)"

text \<open>\<open>None\<close>: the polls given do not end the loop.\<close>

fun Worker_drain :: "ExecutionReport option list \<Rightarrow> Worker \<Rightarrow> (worker_error + Worker) option" where
  "Worker_drain [] w = (if w_executionsMap w = Map.empty then Some (Inr w) else None)"
| "Worker_drain (polled # polls) w =
     (if w_executionsMap w = Map.empty then Some (Inr w)
      else case polled of
        None \<Rightarrow> Worker_drain polls w
      | Some r \<Rightarrow> (case Worker_processReport r w of
            Inl e \<Rightarrow> Some (Inl e)
          | Inr w \<Rightarrow> Worker_drain polls w))"

definition Worker_run :: "worker_env \<Rightarrow> (PriceUpdate option \<times> ExecutionReport option) list \<Rightarrow>
   ExecutionReport option list \<Rightarrow> Worker \<Rightarrow> (worker_error + Worker) option" where
  "Worker_run env turns polls w =
     (case Worker_loop env turns w of Inl e \<Rightarrow> Some (Inl e) | Inr w \<Rightarrow> Worker_drain polls w)"

end
