(* ===== verification/Worker_Invariant.thy ===== *)
theory Worker_Invariant
  imports Worker_Model
begin

text \<open>
  The books of the worker are always in order: the invariant that ties its four maps, the
  failed set and the reserved symbols together, and that every price update and every report
  keeps it.
\<close>

section \<open>The invariant\<close>

definition live_orders :: "Worker \<Rightarrow> string \<Rightarrow> string set" where
  "live_orders w e = {oid. \<exists>t. w_executionIdMap w oid = Some (t, e)}"

definition exec_symbols :: "Worker \<Rightarrow> string \<Rightarrow> string set" where
  "exec_symbols w e = (case w_executionsMap w e of None \<Rightarrow> {}
     | Some (execution, delta) \<Rightarrow> st_symbol ` set (ex_tradesVector execution))"

definition opportunities_ok :: "Worker \<Rightarrow> bool" where
  "opportunities_ok w \<longleftrightarrow> (\<forall>opp\<in>set (w_opportunityList w). o_trades opp \<noteq> []) \<and>
     (\<forall>e\<in>set (w_opportunities w). snd e < length (w_opportunityList w))"

definition books_ok :: "Worker \<Rightarrow> bool" where
  "books_ok w \<longleftrightarrow>
     finite (dom (w_executionsMap w)) \<and>
     finite (dom (w_executionIdMap w)) \<and>
     dom (w_pendingOrdersCount w) = dom (w_executionsMap w) \<and>
     (\<forall>e\<in>dom (w_executionsMap w). live_orders w e \<noteq> {} \<and>
        w_pendingOrdersCount w e = Some (int (card (live_orders w e)))) \<and>
     (\<forall>oid t e. w_executionIdMap w oid = Some (t, e) \<longrightarrow> e \<in> dom (w_executionsMap w)) \<and>
     w_failedExecutions w \<subseteq> dom (w_executionsMap w) \<and>
     w_reservedTrades w = (\<Union>e\<in>dom (w_executionsMap w). exec_symbols w e) \<and>
     (\<forall>e e'. e \<noteq> e' \<longrightarrow> exec_symbols w e \<inter> exec_symbols w e' = {})"

definition worker_inv :: "Worker \<Rightarrow> bool" where
  "worker_inv w \<longleftrightarrow> opportunities_ok w \<and> books_ok w"

section \<open>Construction\<close>

lemma foldl_push_pair:
  "foldl (\<lambda>os x. os @ [(f x, i)]) os xs = os @ map (\<lambda>x. (f x, i)) xs"
  by (induction xs arbitrary: os) auto

lemma Worker_add_path_books:
  "w_executionsMap (Worker_add_path c w p) = w_executionsMap w"
  "w_executionIdMap (Worker_add_path c w p) = w_executionIdMap w"
  "w_pendingOrdersCount (Worker_add_path c w p) = w_pendingOrdersCount w"
  "w_failedExecutions (Worker_add_path c w p) = w_failedExecutions w"
  "w_reservedTrades (Worker_add_path c w p) = w_reservedTrades w"
  "w_balance (Worker_add_path c w p) = w_balance w"
  "w_market (Worker_add_path c w p) = w_market w"
  by (simp_all add: Worker_add_path_def Let_def)

lemma Worker_add_path_ok:
  "opportunities_ok w \<Longrightarrow> p \<noteq> [] \<Longrightarrow> opportunities_ok (Worker_add_path c w p)"
  by (auto simp: opportunities_ok_def Worker_add_path_def Let_def foldl_push_pair
      Opportunity_new_def intro: less_SucI)

lemma books_ok_cong:
  assumes "w_executionsMap v = w_executionsMap w" "w_executionIdMap v = w_executionIdMap w"
    "w_pendingOrdersCount v = w_pendingOrdersCount w"
    "w_failedExecutions v = w_failedExecutions w" "w_reservedTrades v = w_reservedTrades w"
  shows "books_ok v \<longleftrightarrow> books_ok w"
  by (simp add: books_ok_def live_orders_def exec_symbols_def assms)

lemma Worker_new_inv:
  assumes "\<forall>p\<in>set paths. p \<noteq> []"
  shows "worker_inv (Worker_new m paths rv b c)"
proof -
  have base: "worker_inv (foldl (Worker_add_path c) w paths)" if "worker_inv w" for w
    using that assms
  proof (induction paths arbitrary: w)
    case (Cons p paths)
    have "books_ok (Worker_add_path c w p) \<longleftrightarrow> books_ok w"
      by (rule books_ok_cong) (simp_all add: Worker_add_path_books)
    with Cons show ?case
      by (simp add: worker_inv_def Worker_add_path_ok)
  qed simp
  show ?thesis
    unfolding Worker_new_def
    by (intro base) (simp add: worker_inv_def opportunities_ok_def books_ok_def live_orders_def
        exec_symbols_def)
qed

section \<open>The scan of the affected opportunities\<close>

lemma update_symbols:
  "(\<lambda>t. symbol (m (t_symbol t))) ` set (o_trades (Opportunity_update m opp b)) =
   (\<lambda>t. symbol (m (t_symbol t))) ` set (o_trades opp)"
proof -
  have "map (\<lambda>t. symbol (m (t_symbol t))) (o_trades (Opportunity_update m opp b)) =
      map (\<lambda>t. symbol (m (t_symbol t))) (o_trades opp)"
    by (rule same_trades_map [OF Opportunity_update_same]) (simp add: same_trade_def)
  then show ?thesis by (metis list.set_map)
qed

text \<open>What a visit of the loop leaves in the list.\<close>

definition visited :: "market \<Rightarrow> (string \<rightharpoonup> precise_number) \<Rightarrow> Opportunity \<Rightarrow> Opportunity" where
  "visited m bal opp = (case bal (o_startingAsset opp) of None \<Rightarrow> opp
     | Some funds \<Rightarrow> if 0 < funds then Opportunity_update m opp funds else opp)"

lemma visited_idem [simp]: "visited m bal (visited m bal opp) = visited m bal opp"
  by (simp add: visited_def update_idem split: option.splits)

lemma visited_frame [simp]:
  "o_startingAsset (visited m bal opp) = o_startingAsset opp"
  by (simp add: visited_def split: option.splits)

lemma visited_trades_empty [simp]: "o_trades (visited m bal opp) = [] \<longleftrightarrow> o_trades opp = []"
  by (simp add: visited_def split: option.splits)

lemma pn_zero_literal: "PreciseNumber_of_int 0 = 0"
  by (simp add: pn_eq_iff)

definition wins :: "market \<Rightarrow> (string \<rightharpoonup> precise_number) \<Rightarrow> string set \<Rightarrow> Opportunity \<Rightarrow> bool" where
  "wins m bal reserved opp \<longleftrightarrow> (\<exists>funds. bal (o_startingAsset opp) = Some funds \<and> 0 < funds) \<and>
     0 < o_totalProfit (visited m bal opp) \<and>
     (\<forall>t\<in>set (o_trades opp). symbol (m (t_symbol t)) \<notin> reserved)"

lemma list_ex_reserved:
  "list_ex (\<lambda>t. symbol (m (t_symbol t)) \<in> R) (o_trades (Opportunity_update m opp b)) \<longleftrightarrow>
   (\<exists>t\<in>set (o_trades opp). symbol (m (t_symbol t)) \<in> R)"
proof -
  have "(\<exists>s\<in>(\<lambda>t. symbol (m (t_symbol t))) ` set (o_trades (Opportunity_update m opp b)). s \<in> R)
      \<longleftrightarrow> (\<exists>s\<in>(\<lambda>t. symbol (m (t_symbol t))) ` set (o_trades opp). s \<in> R)"
    by (simp only: update_symbols)
  then show ?thesis by (simp add: list_ex_iff)
qed

lemma scan_Cons:
  assumes "i < length opps"
  shows "scan_opportunities m bal R (i # is) opps best =
    (let opp = visited m bal (opps ! i); opps' = opps[i := opp] in
     if wins m bal R (opps ! i) \<and>
        (case best of None \<Rightarrow> True | Some b \<Rightarrow> o_totalProfit (opps' ! b) < o_totalProfit opp)
     then scan_opportunities m bal R is opps' (Some i)
     else scan_opportunities m bal R is opps' best)"
  using assms
  by (auto simp: Let_def visited_def wins_def PreciseNumber_operators pn_zero_literal
      Opportunity_getTrades_def Opportunity_getTotalProfit_def Opportunity_getStartingAsset_def
      list_ex_reserved not_le split: option.splits)

lemma wins_visited [simp]: "wins m bal R (visited m bal opp) \<longleftrightarrow> wins m bal R opp"
proof -
  have "(\<forall>s\<in>(\<lambda>t. symbol (m (t_symbol t))) ` set (o_trades (visited m bal opp)). s \<notin> R) \<longleftrightarrow>
      (\<forall>s\<in>(\<lambda>t. symbol (m (t_symbol t))) ` set (o_trades opp). s \<notin> R)"
    by (simp only: visited_def update_symbols split: option.splits if_splits) simp
  then show ?thesis by (simp add: wins_def)
qed

text \<open>What the loop returns: the list with the affected entries visited, and a best winner.\<close>

definition scan_post :: "market \<Rightarrow> (string \<rightharpoonup> precise_number) \<Rightarrow> string set \<Rightarrow> nat list \<Rightarrow>
   Opportunity list \<Rightarrow> nat option \<Rightarrow> Opportunity list \<Rightarrow> nat option \<Rightarrow> bool" where
  "scan_post m bal R is opps best opps' best' \<longleftrightarrow>
     length opps' = length opps \<and>
     (\<forall>j<length opps. opps' ! j = (if j \<in> set is then visited m bal (opps ! j) else opps ! j)) \<and>
     (case best' of
        None \<Rightarrow> best = None \<and> (\<forall>i\<in>set is. \<not> wins m bal R (opps ! i))
      | Some b \<Rightarrow> b < length opps \<and> (b \<in> set is \<or> best = Some b) \<and> wins m bal R (opps ! b) \<and>
          opps' ! b = visited m bal (opps ! b) \<and>
          (\<forall>i\<in>set is. wins m bal R (opps ! i) \<longrightarrow> o_totalProfit (opps' ! i) \<le> o_totalProfit (opps' ! b)) \<and>
          (\<forall>b0. best = Some b0 \<longrightarrow> o_totalProfit (opps' ! b0) \<le> o_totalProfit (opps' ! b)))"

lemma scan_post_SomeD:
  assumes "scan_post m bal R is opps best opps' (Some b)"
  shows "b < length opps" "b \<in> set is \<or> best = Some b" "wins m bal R (opps ! b)"
    "opps' ! b = visited m bal (opps ! b)"
    "\<And>i. i \<in> set is \<Longrightarrow> wins m bal R (opps ! i) \<Longrightarrow> o_totalProfit (opps' ! i) \<le> o_totalProfit (opps' ! b)"
    "\<And>b0. best = Some b0 \<Longrightarrow> o_totalProfit (opps' ! b0) \<le> o_totalProfit (opps' ! b)"
  using assms unfolding scan_post_def option.case by blast+

lemma scan_post_NoneD:
  assumes "scan_post m bal R is opps best opps' None"
  shows "best = None" "\<And>i. i \<in> set is \<Longrightarrow> \<not> wins m bal R (opps ! i)"
  using assms unfolding scan_post_def option.case by blast+

lemma scan_post_list:
  assumes "scan_post m bal R is opps best opps' best'"
  shows "length opps' = length opps" "\<And>j. j < length opps \<Longrightarrow>
    opps' ! j = (if j \<in> set is then visited m bal (opps ! j) else opps ! j)"
  using assms unfolding scan_post_def by blast+

lemma scan_post_step:
  assumes "i < length opps"
    and bound: "\<forall>k\<in>set is. k < length opps"
    and best: "\<And>b. best = Some b \<Longrightarrow> b < length opps \<and> visited m bal (opps ! b) = opps ! b"
    and "scan_post m bal R is (opps[i := visited m bal (opps ! i)])
      (if wins m bal R (opps ! i) \<and> (case best of None \<Rightarrow> True
         | Some b \<Rightarrow> o_totalProfit (opps[i := visited m bal (opps ! i)] ! b)
             < o_totalProfit (visited m bal (opps ! i))) then Some i else best) opps' best'"
  shows "scan_post m bal R (i # is) opps best opps' best'"
proof -
  let ?o = "visited m bal (opps ! i)"
  let ?L = "opps[i := ?o]"
  let ?take = "wins m bal R (opps ! i) \<and> (case best of None \<Rightarrow> True
     | Some b \<Rightarrow> o_totalProfit (?L ! b) < o_totalProfit ?o)"
  let ?nb = "if ?take then Some i else best"
  note post = scan_post_list [OF assms(4)]
  have some: "scan_post m bal R is ?L ?nb opps' (Some b)" if "best' = Some b" for b
    using assms(4) that by simp
  note postS = scan_post_SomeD [OF some]
  have L: "visited m bal (?L ! j) = visited m bal (opps ! j)" "wins m bal R (?L ! j) = wins m bal R (opps ! j)"
    if "j < length opps" for j
    using assms(1) by (simp_all add: nth_list_update)
  have el: "opps' ! j = (if j \<in> set (i # is) then visited m bal (opps ! j) else opps ! j)"
    if "j < length opps" for j
    using that post(2) [of j] L(1) assms(1) by (auto simp: nth_list_update)
  have old: "opps' ! b = ?L ! b" if "best = Some b" for b
    using best [OF that] el [of b] assms(1) by (auto simp: nth_list_update)
  have chosen: "o_totalProfit (opps' ! b0) \<le> o_totalProfit (opps' ! b)"
    if "?nb = Some b0" "best' = Some b" for b b0
    by (rule postS(6) [OF that(2,1)])
  have all: "o_totalProfit (opps' ! k) \<le> o_totalProfit (opps' ! b)"
    if "k \<in> set (i # is)" "k < length opps" "wins m bal R (opps ! k)" "best' = Some b" for k b
  proof (cases "k \<in> set is")
    case True
    with that L(2) [of k] show ?thesis by (intro postS(5)) simp_all
  next
    case False
    with that have k: "k = i" by simp
    show ?thesis
    proof (cases ?take)
      case True
      with chosen [of i b] k that show ?thesis by simp
    next
      case no: False
      with k that obtain b0 where b0: "best = Some b0" "o_totalProfit ?o \<le> o_totalProfit (?L ! b0)"
        by (cases best) auto
      have "?nb = Some b0"
        by (rule trans [OF if_not_P [OF no] b0(1)])
      then have "o_totalProfit (?L ! b0) \<le> o_totalProfit (opps' ! b)"
        using chosen [OF _ that(4)] old [OF b0(1)] by simp
      with b0(2) el [OF assms(1)] k show ?thesis by simp
    qed
  qed
  have before: "o_totalProfit (opps' ! b0) \<le> o_totalProfit (opps' ! b)"
    if "best = Some b0" "best' = Some b" for b b0
  proof (cases ?take)
    case True
    with that have "o_totalProfit (opps' ! b0) < o_totalProfit (opps' ! i)"
      using old [OF that(1)] el [OF assms(1)] by simp
    also have "\<dots> \<le> o_totalProfit (opps' ! b)"
      by (rule chosen [OF _ that(2)]) (simp add: True)
    finally show ?thesis by simp
  next
    case False
    show ?thesis
      by (rule chosen [OF trans [OF if_not_P [OF False] that(1)] that(2)])
  qed
  show ?thesis
    unfolding scan_post_def
  proof (intro conjI)
    show "length opps' = length opps" using post(1) by simp
    show "\<forall>j<length opps. opps' ! j = (if j \<in> set (i # is) then visited m bal (opps ! j) else opps ! j)"
      using el by blast
    show "case best' of
        None \<Rightarrow> best = None \<and> (\<forall>i\<in>set (i # is). \<not> wins m bal R (opps ! i))
      | Some b \<Rightarrow> b < length opps \<and> (b \<in> set (i # is) \<or> best = Some b) \<and> wins m bal R (opps ! b) \<and>
          opps' ! b = visited m bal (opps ! b) \<and>
          (\<forall>i\<in>set (i # is). wins m bal R (opps ! i) \<longrightarrow> o_totalProfit (opps' ! i) \<le> o_totalProfit (opps' ! b)) \<and>
          (\<forall>b0. best = Some b0 \<longrightarrow> o_totalProfit (opps' ! b0) \<le> o_totalProfit (opps' ! b))"
    proof (cases best')
      case None
      with assms(4) have none: "scan_post m bal R is ?L ?nb opps' None" by simp
      have "?nb = None" "\<forall>k\<in>set is. \<not> wins m bal R (?L ! k)"
        using scan_post_NoneD [OF none] by blast+
      with L(2) bound show ?thesis by (auto simp: None split: if_splits)
    next
      case (Some b)
      have b: "b < length opps" "b \<in> set is \<or> ?nb = Some b" "wins m bal R (?L ! b)"
        "opps' ! b = visited m bal (?L ! b)"
        using postS(1-4) [OF Some] by simp_all
      with L show ?thesis
        using all [OF _ _ _ Some] before [OF _ Some] bound assms(1)
        by (auto simp: Some split: if_splits)
    qed
  qed
qed

lemma scan_correct:
  assumes "\<forall>i\<in>set is. i < length opps"
    and "\<And>b. best = Some b \<Longrightarrow> b < length opps \<and> visited m bal (opps ! b) = opps ! b \<and> wins m bal R (opps ! b)"
  shows "\<exists>opps' best'. scan_opportunities m bal R is opps best = Inr (opps', best') \<and>
    scan_post m bal R is opps best opps' best'"
  using assms
proof (induction "is" arbitrary: opps best)
  case Nil
  then show ?case by (auto simp: scan_post_def split: option.splits)
next
  case (Cons i "is")
  let ?o = "visited m bal (opps ! i)"
  let ?L = "opps[i := ?o]"
  let ?b = "if wins m bal R (opps ! i) \<and> (case best of None \<Rightarrow> True
      | Some b \<Rightarrow> o_totalProfit (?L ! b) < o_totalProfit ?o) then Some i else best"
  have i: "i < length opps" using Cons.prems by simp
  have "\<exists>opps' best'. scan_opportunities m bal R is ?L ?b = Inr (opps', best') \<and>
      scan_post m bal R is ?L ?b opps' best'"
    by (rule Cons.IH) (use Cons.prems in \<open>auto simp: nth_list_update split: if_splits\<close>)
  then obtain opps' best' where r: "scan_opportunities m bal R is ?L ?b = Inr (opps', best')"
    and post: "scan_post m bal R is ?L ?b opps' best'"
    by blast
  have "scan_opportunities m bal R (i # is) opps best = scan_opportunities m bal R is ?L ?b"
    by (simp only: scan_Cons [OF i] Let_def if_distrib [of "scan_opportunities m bal R is ?L"])
  moreover have "scan_post m bal R (i # is) opps best opps' best'"
    by (rule scan_post_step [OF i _ _ post]) (use Cons.prems in auto)
  ultimately show ?case
    by (intro exI [of _ opps'] exI [of _ best'] conjI) (simp_all only: r)
qed

section \<open>Starting an execution\<close>

definition id_at :: "worker_env \<Rightarrow> nat \<Rightarrow> string" where
  "id_at env n = fst (generateId (env_draw env) n)"

fun ids_from :: "worker_env \<Rightarrow> nat \<Rightarrow> nat \<Rightarrow> string list" where
  "ids_from env n 0 = []"
| "ids_from env n (Suc k) = id_at env n # ids_from env (n + 8) k"

text \<open>
  Identifiers are eight random characters and nothing checks that one is new. The invariant
  needs that the next ones do not clash with those in use: a new execution id with no live
  execution, new order ids with no live order and not with each other.
\<close>

definition ids_fresh :: "worker_env \<Rightarrow> Worker \<Rightarrow> nat \<Rightarrow> bool" where
  "ids_fresh env w k \<longleftrightarrow> w_executionsMap w (id_at env (w_rng w)) = None \<and>
     distinct (ids_from env (w_rng w + 8) k) \<and>
     (\<forall>oid\<in>set (ids_from env (w_rng w + 8) k). w_executionIdMap w oid = None)"

lemma length_ids_from [simp]: "length (ids_from env n k) = k"
  by (induction k arbitrary: n) auto

lemma generateId_eq: "generateId (env_draw env) n = (id_at env n, n + 8)"
  by (simp add: id_at_def generateId_def)

lemma submit_orders_frame [simp]:
  "w_market (submit_orders env e ts w) = w_market w"
  "w_opportunities (submit_orders env e ts w) = w_opportunities w"
  "w_opportunityList (submit_orders env e ts w) = w_opportunityList w"
  "w_relativeValues (submit_orders env e ts w) = w_relativeValues w"
  "w_balance (submit_orders env e ts w) = w_balance w"
  "w_reservedTrades (submit_orders env e ts w) = w_reservedTrades w"
  "w_executionsMap (submit_orders env e ts w) = w_executionsMap w"
  "w_pendingOrdersCount (submit_orders env e ts w) = w_pendingOrdersCount w"
  "w_failedExecutions (submit_orders env e ts w) = w_failedExecutions w"
  by (induction ts arbitrary: w) (auto simp: generateId_eq Let_def)

lemma submit_orders_ids:
  assumes "distinct (ids_from env (w_rng w) (length ts))"
    and "\<forall>oid\<in>set (ids_from env (w_rng w) (length ts)). w_executionIdMap w oid = None"
  shows "w_executionIdMap (submit_orders env e ts w) oid =
    (case map_of (zip (ids_from env (w_rng w) (length ts)) ts) oid of
       Some t \<Rightarrow> Some (t, e) | None \<Rightarrow> w_executionIdMap w oid)"
  using assms
proof (induction ts arbitrary: w)
  case (Cons t ts)
  let ?w = "w\<lparr>w_rng := w_rng w + 8,
    w_executionIdMap := map_emplace (w_executionIdMap w) (id_at env (w_rng w)) (t, e),
    w_submitted := w_submitted w @ [order_for (id_at env (w_rng w)) t]\<rparr>"
  have new: "map_emplace (w_executionIdMap w) (id_at env (w_rng w)) (t, e)
      = (w_executionIdMap w)(id_at env (w_rng w) \<mapsto> (t, e))"
    using Cons.prems by (simp add: map_emplace_def)
  have step: "submit_orders env e (t # ts) w = submit_orders env e ts ?w"
    by (simp add: generateId_eq)
  have "w_executionIdMap (submit_orders env e ts ?w) oid =
      (case map_of (zip (ids_from env (w_rng ?w) (length ts)) ts) oid of
         Some t \<Rightarrow> Some (t, e) | None \<Rightarrow> w_executionIdMap ?w oid)"
    by (rule Cons.IH) (use Cons.prems in \<open>auto simp: new\<close>)
  then have rest: "w_executionIdMap (submit_orders env e (t # ts) w) oid =
      (case map_of (zip (ids_from env (w_rng w + 8) (length ts)) ts) oid of
         Some t \<Rightarrow> Some (t, e)
       | None \<Rightarrow> ((w_executionIdMap w)(id_at env (w_rng w) \<mapsto> (t, e))) oid)"
    by (simp add: step new del: submit_orders.simps cong: option.case_cong)
  have "map_of (zip (ids_from env (w_rng w + 8) (length ts)) ts) (id_at env (w_rng w)) = None"
    using Cons.prems by (auto simp: map_of_eq_None_iff dest: set_zip_leftD)
  then show ?case
    unfolding rest by (cases "oid = id_at env (w_rng w)") (simp_all del: map_of_zip_is_None cong: option.case_cong)
qed simp

lemma submit_orders_cong:
  "w_rng v = w_rng w \<Longrightarrow> w_executionIdMap v = w_executionIdMap w \<Longrightarrow>
   w_executionIdMap (submit_orders env e ts v) = w_executionIdMap (submit_orders env e ts w)"
  by (induction ts arbitrary: v w) (simp_all add: generateId_eq)

lemma submit_orders_submitted:
  "w_submitted (submit_orders env e ts w) = w_submitted w @
     map2 order_for (ids_from env (w_rng w) (length ts)) ts"
  by (induction ts arbitrary: w) (auto simp: generateId_eq Let_def)

lemma Worker_execute_fields [simp]:
  "w_market (Worker_execute env best w) = w_market w"
  "w_opportunities (Worker_execute env best w) = w_opportunities w"
  "w_opportunityList (Worker_execute env best w) = w_opportunityList w"
  "w_failedExecutions (Worker_execute env best w) = w_failedExecutions w"
  "w_reservedTrades (Worker_execute env best w) = w_reservedTrades w \<union>
     (\<lambda>t. symbol (w_market w (t_symbol t))) ` set (o_trades best)"
  "w_balance (Worker_execute env best w) = Balance_updateBalance (w_balance w) (o_startingAsset best)
     (- Opportunity_getCapacity (w_market w) best)"
  "w_executionsMap (Worker_execute env best w) = map_emplace (w_executionsMap w) (id_at env (w_rng w))
     (Execution_new (w_market w) best, [o_startingAsset best \<mapsto> Opportunity_getCapacity (w_market w) best])"
  "w_pendingOrdersCount (Worker_execute env best w) =
     (w_pendingOrdersCount w)(id_at env (w_rng w) \<mapsto> int (length (o_trades best)))"
  by (simp_all add: Worker_execute_def Worker_reserveBudgetAndSymbols_def Let_def generateId_eq
      submit_orders_submitted reserveAll_eq Opportunity_getTrades_def
      Opportunity_getStartingAsset_def Opportunity_getCapacity_def pn_mul_minus_one)

lemma Worker_execute_submitted:
  "w_submitted (Worker_execute env best w) = w_submitted w @
     map2 order_for (ids_from env (w_rng w + 8) (length (o_trades best)))
     (map (StaticTrade_of (w_market w)) (o_trades best))"
  by (simp add: Worker_execute_def Worker_reserveBudgetAndSymbols_def Let_def generateId_eq
      submit_orders_submitted)

lemma Worker_execute_ids:
  "w_executionIdMap (Worker_execute env best w) =
     w_executionIdMap (submit_orders env (id_at env (w_rng w))
       (map (StaticTrade_of (w_market w)) (o_trades best)) (w\<lparr>w_rng := w_rng w + 8\<rparr>))"
  unfolding Worker_execute_def Worker_reserveBudgetAndSymbols_def Let_def generateId_eq
  by simp (rule submit_orders_cong; simp)


lemma live_orders_after_execute:
  assumes "ids_fresh env w (length (o_trades best))"
  shows "live_orders (Worker_execute env best w) e =
    live_orders w e \<union> (if e = id_at env (w_rng w)
      then set (ids_from env (w_rng w + 8) (length (o_trades best))) else {})"
proof -
  let ?ids = "ids_from env (w_rng w + 8) (length (o_trades best))"
  let ?ts = "map (StaticTrade_of (w_market w)) (o_trades best)"
  have lookup: "w_executionIdMap (Worker_execute env best w) oid =
      (case map_of (zip ?ids ?ts) oid of Some t \<Rightarrow> Some (t, id_at env (w_rng w))
        | None \<Rightarrow> w_executionIdMap w oid)" for oid
    using assms by (simp add: Worker_execute_ids submit_orders_ids ids_fresh_def cong: option.case_cong)
  have dom: "map_of (zip ?ids ?ts) oid = None \<longleftrightarrow> oid \<notin> set ?ids" for oid
    by simp
  show ?thesis
  proof (intro set_eqI)
    fix oid
    show "oid \<in> live_orders (Worker_execute env best w) e \<longleftrightarrow>
      oid \<in> live_orders w e \<union> (if e = id_at env (w_rng w) then set ?ids else {})"
      using dom [of oid] assms
      by (cases "map_of (zip ?ids ?ts) oid")
        (auto simp: live_orders_def lookup ids_fresh_def simp del: map_of_zip_is_None)
  qed
qed

lemma exec_symbols_after_execute:
  assumes "w_executionsMap w (id_at env (w_rng w)) = None"
  shows "exec_symbols (Worker_execute env best w) e =
    (if e = id_at env (w_rng w) then (\<lambda>t. symbol (w_market w (t_symbol t))) ` set (o_trades best)
     else exec_symbols w e)"
  using assms by (simp add: exec_symbols_def map_emplace_def image_image)

lemma exec_symbols_reserved: "books_ok w \<Longrightarrow> exec_symbols w e \<subseteq> w_reservedTrades w"
proof (cases "w_executionsMap w e = None")
  case True
  then show ?thesis by (simp add: exec_symbols_def)
next
  case False
  moreover assume "books_ok w"
  then have "w_reservedTrades w = (\<Union>e\<in>dom (w_executionsMap w). exec_symbols w e)"
    by (simp add: books_ok_def)
  ultimately show ?thesis by blast
qed

lemma execute_books_ok:
  assumes inv: "books_ok w" and ne: "o_trades best \<noteq> []"
    and free: "\<forall>t\<in>set (o_trades best). symbol (w_market w (t_symbol t)) \<notin> w_reservedTrades w"
    and fresh: "ids_fresh env w (length (o_trades best))"
  shows "books_ok (Worker_execute env best w)"
proof -
  let ?e = "id_at env (w_rng w)" and ?w = "Worker_execute env best w"
  let ?ids = "ids_from env (w_rng w + 8) (length (o_trades best))"
  have new: "w_executionsMap w ?e = None"
    using fresh by (simp add: ids_fresh_def)
  note lo = live_orders_after_execute [OF fresh] and es = exec_symbols_after_execute [OF new]
  have dom: "dom (w_executionsMap ?w) = insert ?e (dom (w_executionsMap w))" by simp
  have none: "live_orders w ?e = {}"
    using inv new by (force simp: books_ok_def live_orders_def)
  have card: "card (set ?ids) = length (o_trades best)" and nonempty: "set ?ids \<noteq> {}"
    using fresh ne distinct_card [of ?ids] by (auto simp: ids_fresh_def neq_Nil_conv)
  show ?thesis
    unfolding books_ok_def
  proof (intro conjI)
    show "finite (dom (w_executionsMap ?w))" using inv by (simp add: dom books_ok_def)
    have "dom (w_executionIdMap ?w) \<subseteq> dom (w_executionIdMap w) \<union> set ?ids"
    proof
      fix oid assume "oid \<in> dom (w_executionIdMap ?w)"
      then obtain t e where "w_executionIdMap ?w oid = Some (t, e)" by auto
      then have "oid \<in> live_orders ?w e" by (auto simp: live_orders_def)
      then have "oid \<in> live_orders w e \<or> oid \<in> set ?ids"
        unfolding lo by (simp split: if_splits)
      then show "oid \<in> dom (w_executionIdMap w) \<union> set ?ids"
        by (auto simp: live_orders_def)
    qed
    then show "finite (dom (w_executionIdMap ?w))"
      using inv by (auto simp: books_ok_def intro: finite_subset)
    show "dom (w_pendingOrdersCount ?w) = dom (w_executionsMap ?w)"
      using inv by (simp add: books_ok_def)
    show "\<forall>e\<in>dom (w_executionsMap ?w). live_orders ?w e \<noteq> {} \<and>
        w_pendingOrdersCount ?w e = Some (int (card (live_orders ?w e)))"
      using inv card nonempty none by (auto simp: books_ok_def lo)
    show "\<forall>oid t e. w_executionIdMap ?w oid = Some (t, e) \<longrightarrow> e \<in> dom (w_executionsMap ?w)"
    proof (intro allI impI)
      fix oid t e assume "w_executionIdMap ?w oid = Some (t, e)"
      then have "oid \<in> live_orders ?w e" by (auto simp: live_orders_def)
      then show "e \<in> dom (w_executionsMap ?w)"
        using inv unfolding lo dom by (auto simp: books_ok_def live_orders_def split: if_splits)
    qed
    show "w_failedExecutions ?w \<subseteq> dom (w_executionsMap ?w)"
      using inv by (auto simp: books_ok_def)
    have res: "w_reservedTrades w = (\<Union>e\<in>dom (w_executionsMap w). exec_symbols w e)"
      using inv by (simp add: books_ok_def)
    have "(\<Union>e\<in>dom (w_executionsMap w). exec_symbols ?w e) = (\<Union>e\<in>dom (w_executionsMap w). exec_symbols w e)"
      using new by (intro SUP_cong) (auto simp: es)
    then have "(\<Union>e\<in>dom (w_executionsMap ?w). exec_symbols ?w e) = exec_symbols ?w ?e \<union> w_reservedTrades w"
      unfolding dom UN_insert res by (rule arg_cong)
    then show "w_reservedTrades ?w = (\<Union>e\<in>dom (w_executionsMap ?w). exec_symbols ?w e)"
      by (rule trans [OF _ sym, rotated]) (simp add: es Un_commute)
    show "\<forall>e e'. e \<noteq> e' \<longrightarrow> exec_symbols ?w e \<inter> exec_symbols ?w e' = {}"
    proof (intro allI impI)
      fix e e' :: string assume "e \<noteq> e'"
      moreover have "exec_symbols w e \<inter> exec_symbols w e' = {}"
        using inv \<open>e \<noteq> e'\<close> by (simp add: books_ok_def)
      moreover have "exec_symbols w a \<subseteq> w_reservedTrades w" for a
        by (rule exec_symbols_reserved [OF inv])
      ultimately show "exec_symbols ?w e \<inter> exec_symbols ?w e' = {}"
        using free unfolding es by (auto split: if_splits)
    qed
  qed
qed


section \<open>Every price update keeps the books\<close>

lemma scan_on_worker:
  assumes "opportunities_ok w" and "env_ok env"
  shows "\<exists>opps best. scan_opportunities m bal R (env_order env (equal_range (w_opportunities w) s))
      (w_opportunityList w) None = Inr (opps, best) \<and>
    scan_post m bal R (env_order env (equal_range (w_opportunities w) s)) (w_opportunityList w) None
      opps best"
proof (rule scan_correct)
  have "mset (env_order env (equal_range (w_opportunities w) s)) = mset (equal_range (w_opportunities w) s)"
    using assms(2) by (simp add: env_ok_def)
  then have "set (env_order env (equal_range (w_opportunities w) s)) = set (equal_range (w_opportunities w) s)"
    by (rule mset_eq_setD)
  then show "\<forall>i\<in>set (env_order env (equal_range (w_opportunities w) s)). i < length (w_opportunityList w)"
    using assms(1) by (auto simp: opportunities_ok_def equal_range_def)
qed simp

text \<open>
  The outcome of a price update: nothing started, or the execution of a best winner among the
  opportunities on the symbol.
\<close>

lemma processPriceUpdate_cases:
  fixes w u env
  defines "m \<equiv> update_symbol u (w_market w)"
  defines "affected \<equiv> env_order env (equal_range (w_opportunities w) (symbol (m (pu_symbol u))))"
  assumes "opportunities_ok w" and "env_ok env"
  obtains opps best where
    "scan_post m (w_balance w) (w_reservedTrades w) affected (w_opportunityList w) None opps best"
    "Worker_processPriceUpdate env u w = Inr (case best of
       None \<Rightarrow> w\<lparr>w_market := m, w_opportunityList := opps\<rparr>
     | Some b \<Rightarrow> Worker_execute env (opps ! b) (w\<lparr>w_market := m, w_opportunityList := opps\<rparr>))"
proof -
  obtain opps best where scan: "scan_opportunities m (w_balance w) (w_reservedTrades w) affected
      (w_opportunityList w) None = Inr (opps, best)"
    and post: "scan_post m (w_balance w) (w_reservedTrades w) affected (w_opportunityList w) None opps best"
    using scan_on_worker [OF assms(3,4)] unfolding affected_def by metis
  show ?thesis
  proof
    show "scan_post m (w_balance w) (w_reservedTrades w) affected (w_opportunityList w) None opps best"
      by (rule post)
    show "Worker_processPriceUpdate env u w = Inr (case best of
       None \<Rightarrow> w\<lparr>w_market := m, w_opportunityList := opps\<rparr>
     | Some b \<Rightarrow> Worker_execute env (opps ! b) (w\<lparr>w_market := m, w_opportunityList := opps\<rparr>))"
      using scan by (simp add: Worker_processPriceUpdate_def Let_def m_def affected_def
          Balance_getBalances_def ReservedTrades_getReservedTrades_def split: option.split)
  qed
qed

text \<open>The length of the longest cycle bounds how many identifiers an update draws.\<close>

definition update_ids_fresh :: "worker_env \<Rightarrow> Worker \<Rightarrow> bool" where
  "update_ids_fresh env w \<longleftrightarrow> (\<forall>opp\<in>set (w_opportunityList w). ids_fresh env w (length (o_trades opp)))"

lemma visited_length [simp]: "length (o_trades (visited m bal opp)) = length (o_trades opp)"
  by (simp add: visited_def split: option.split)

lemma visited_symbols:
  "(\<lambda>t. symbol (m (t_symbol t))) ` set (o_trades (visited m bal opp)) =
   (\<lambda>t. symbol (m (t_symbol t))) ` set (o_trades opp)"
  by (simp add: visited_def update_symbols split: option.split)

lemma processPriceUpdate_inv:
  assumes inv: "worker_inv w" and env: "env_ok env" and fresh: "update_ids_fresh env w"
  obtains w' where "Worker_processPriceUpdate env u w = Inr w'" "worker_inv w'"
proof -
  let ?m = "update_symbol u (w_market w)"
  have ok: "opportunities_ok w" and books: "books_ok w"
    using inv by (simp_all add: worker_inv_def)
  obtain opps best where post: "scan_post ?m (w_balance w) (w_reservedTrades w)
      (env_order env (equal_range (w_opportunities w) (symbol (?m (pu_symbol u)))))
      (w_opportunityList w) None opps best"
    and res: "Worker_processPriceUpdate env u w = Inr (case best of
       None \<Rightarrow> w\<lparr>w_market := ?m, w_opportunityList := opps\<rparr>
     | Some b \<Rightarrow> Worker_execute env (opps ! b) (w\<lparr>w_market := ?m, w_opportunityList := opps\<rparr>))"
    by (rule processPriceUpdate_cases [OF ok env])
  let ?v = "w\<lparr>w_market := ?m, w_opportunityList := opps\<rparr>"
  have bv: "books_ok ?v"
    using books books_ok_cong [of ?v w] by simp
  have ov: "opportunities_ok ?v"
  proof -
    have "o_trades (opps ! j) \<noteq> []" if "j < length (w_opportunityList w)" for j
      using ok scan_post_list(2) [OF post that] that by (simp add: opportunities_ok_def)
    then show ?thesis
      using ok scan_post_list(1) [OF post] by (auto simp: opportunities_ok_def in_set_conv_nth)
  qed
  show thesis
  proof (cases best)
    case None
    with res bv ov show thesis by (intro that) (auto simp: worker_inv_def)
  next
    case (Some b)
    note win = scan_post_SomeD [OF post [unfolded Some]]
    have opp: "opps ! b = visited ?m (w_balance w) (w_opportunityList w ! b)"
      by (rule win(4))
    have len: "length (o_trades (opps ! b)) = length (o_trades (w_opportunityList w ! b))"
      by (simp add: opp)
    have fr: "ids_fresh env w (length (o_trades (opps ! b)))"
      using fresh win(1) by (simp add: update_ids_fresh_def len)
    have "books_ok (Worker_execute env (opps ! b) ?v)"
    proof (rule execute_books_ok [OF bv])
      show "o_trades (opps ! b) \<noteq> []"
        using ok win(1) by (simp add: opp opportunities_ok_def)
      show "ids_fresh env ?v (length (o_trades (opps ! b)))"
        using fr by (simp add: ids_fresh_def)
      have "\<forall>s\<in>(\<lambda>t. symbol (?m (t_symbol t))) ` set (o_trades (opps ! b)). s \<notin> w_reservedTrades w"
        unfolding opp visited_symbols using win(3) by (simp add: wins_def)
      then show "\<forall>t\<in>set (o_trades (opps ! b)). symbol (w_market ?v (t_symbol t)) \<notin> w_reservedTrades ?v"
        by simp
    qed
    moreover have "opportunities_ok (Worker_execute env (opps ! b) ?v)"
      using ov by (simp add: opportunities_ok_def)
    ultimately show thesis
      using res by (intro that) (auto simp: Some worker_inv_def)
  qed
qed


section \<open>Every report keeps the books\<close>

lemma finish_order_frame [simp]:
  "w_opportunityList (Worker_finish_order oid e ex d w) = w_opportunityList w"
  "w_opportunities (Worker_finish_order oid e ex d w) = w_opportunities w"
  "w_executionIdMap (Worker_finish_order oid e ex d w) = (w_executionIdMap w)(oid := None)"
  "w_submitted (Worker_finish_order oid e ex d w) = w_submitted w"
  "w_market (Worker_finish_order oid e ex d w) = w_market w"
  "w_rng (Worker_finish_order oid e ex d w) = w_rng w"
  by (simp_all add: Worker_finish_order_def Let_def)

lemma live_orders_finish:
  "live_orders (Worker_finish_order oid e ex d w) e' = live_orders w e' - {oid}"
  by (auto simp: live_orders_def)

lemma finish_order_pending:
  assumes "w_pendingOrdersCount w e = Some n"
  shows "Worker_finish_order oid e ex d w =
    (if n = 1
     then w\<lparr>w_executionIdMap := (w_executionIdMap w)(oid := None),
            w_executionsMap := (w_executionsMap w)(e := None),
            w_pendingOrdersCount := (w_pendingOrdersCount w)(e := None),
            w_failedExecutions := w_failedExecutions w - {e},
            w_balance := Balance_updateBalance_all (w_balance w) d,
            w_reservedTrades := ReservedTrades_releaseAll (w_reservedTrades w) (ex_tradesVector ex)\<rparr>
     else w\<lparr>w_executionIdMap := (w_executionIdMap w)(oid := None),
            w_pendingOrdersCount := (w_pendingOrdersCount w)(e \<mapsto> n - 1)\<rparr>)"
  using assms by (simp add: Worker_finish_order_def Let_def map_add_at_def)

text \<open>The last order of an execution releases its symbols and nothing else.\<close>

lemma finish_order_books:
  assumes inv: "books_ok w" and oid: "w_executionIdMap w oid = Some (t, e)"
    and ex: "w_executionsMap w e = Some (ex, d0)"
  shows "books_ok (Worker_finish_order oid e ex d w)"
proof -
  let ?w = "Worker_finish_order oid e ex d w"
  have e: "e \<in> dom (w_executionsMap w)" using ex by auto
  have pend: "w_pendingOrdersCount w e = Some (int (card (live_orders w e)))"
    using inv e by (simp add: books_ok_def)
  have mem: "oid \<in> live_orders w e" using oid by (auto simp: live_orders_def)
  have other: "oid \<notin> live_orders w e'" if "e' \<noteq> e" for e'
    using oid that by (auto simp: live_orders_def)
  have fin: "finite (live_orders w e)"
    using inv by (auto simp: books_ok_def live_orders_def dom_def intro: finite_subset [rotated])
  have lo: "live_orders ?w e' = (if e' = e then live_orders w e - {oid} else live_orders w e')" for e'
    using other by (auto simp: live_orders_finish)
  have card: "card (live_orders w e - {oid}) = card (live_orders w e) - 1"
    using fin mem by simp
  have es_e: "exec_symbols w e = st_symbol ` set (ex_tradesVector ex)"
    by (simp add: exec_symbols_def ex)
  have res: "w_reservedTrades w = (\<Union>e\<in>dom (w_executionsMap w). exec_symbols w e)"
    and disj: "\<And>a b. a \<noteq> b \<Longrightarrow> exec_symbols w a \<inter> exec_symbols w b = {}"
    using inv by (simp_all add: books_ok_def)
  show ?thesis
  proof (cases "card (live_orders w e) = 1")
    case True
    have fields: "w_executionsMap ?w = (w_executionsMap w)(e := None)"
      "w_pendingOrdersCount ?w = (w_pendingOrdersCount w)(e := None)"
      "w_failedExecutions ?w = w_failedExecutions w - {e}"
      "w_reservedTrades ?w = ReservedTrades_releaseAll (w_reservedTrades w) (ex_tradesVector ex)"
      using True by (simp_all add: finish_order_pending [OF pend])
    have dom: "dom (w_executionsMap ?w) = dom (w_executionsMap w) - {e}"
      by (simp add: fields)
    have es: "exec_symbols ?w e' = (if e' = e then {} else exec_symbols w e')" for e'
      by (simp add: exec_symbols_def fields)
    have "card (live_orders w e - {oid}) = 0"
      using True card by simp
    then have empty: "live_orders w e - {oid} = {}"
      by (rule iffD1 [OF card_0_eq [OF finite_Diff [OF fin]]])
    have released: "w_reservedTrades ?w = (\<Union>e\<in>dom (w_executionsMap ?w). exec_symbols ?w e)"
    proof -
      have "w_reservedTrades ?w = (\<Union>j\<in>dom (w_executionsMap w) - {e}. exec_symbols w j)"
        unfolding fields(4) res
      proof (rule res.release_one_of_many)
        show "exec_symbols w j \<inter> exec_symbols w e = {}" if "j \<noteq> e" for j
          by (rule disj [OF that])
        show "st_symbol ` set (ex_tradesVector ex) = exec_symbols w e"
          by (simp only: es_e)
      qed
      also have "\<dots> = (\<Union>e\<in>dom (w_executionsMap ?w). exec_symbols ?w e)"
        by (intro SUP_cong) (auto simp: dom es)
      finally show ?thesis .
    qed
    show ?thesis
      unfolding books_ok_def
    proof (intro conjI)
      show "finite (dom (w_executionsMap ?w))" "finite (dom (w_executionIdMap ?w))"
        using inv by (auto simp: books_ok_def dom)
      show "dom (w_pendingOrdersCount ?w) = dom (w_executionsMap ?w)"
        using inv by (simp add: books_ok_def fields)
      show "\<forall>e\<in>dom (w_executionsMap ?w). live_orders ?w e \<noteq> {} \<and>
          w_pendingOrdersCount ?w e = Some (int (card (live_orders ?w e)))"
        using inv unfolding dom lo by (simp add: books_ok_def fields(2))
      show "\<forall>oid t e. w_executionIdMap ?w oid = Some (t, e) \<longrightarrow> e \<in> dom (w_executionsMap ?w)"
      proof (intro allI impI)
        fix oid' t' e' assume "w_executionIdMap ?w oid' = Some (t', e')"
        then have "oid' \<in> live_orders ?w e'" by (auto simp: live_orders_def)
        then have "e' \<noteq> e" "oid' \<in> live_orders w e'"
          unfolding lo using empty by (auto split: if_splits)
        then show "e' \<in> dom (w_executionsMap ?w)"
          using inv by (auto simp: dom books_ok_def live_orders_def)
      qed
      show "w_failedExecutions ?w \<subseteq> dom (w_executionsMap ?w)"
        using inv by (auto simp: dom fields(3) books_ok_def)
      show "w_reservedTrades ?w = (\<Union>e\<in>dom (w_executionsMap ?w). exec_symbols ?w e)"
        by (rule released)
      show "\<forall>e e'. e \<noteq> e' \<longrightarrow> exec_symbols ?w e \<inter> exec_symbols ?w e' = {}"
        using disj unfolding es by simp
    qed
  next
    case False
    have fields: "w_executionsMap ?w = w_executionsMap w"
      "w_pendingOrdersCount ?w = (w_pendingOrdersCount w)(e \<mapsto> int (card (live_orders w e)) - 1)"
      "w_failedExecutions ?w = w_failedExecutions w"
      "w_reservedTrades ?w = w_reservedTrades w"
      using False by (simp_all add: finish_order_pending [OF pend])
    have es: "exec_symbols ?w = exec_symbols w"
      by (simp add: exec_symbols_def fields fun_eq_iff)
    have pos: "card (live_orders w e) > 1"
    proof -
      have "card (live_orders w e) \<noteq> 0" using mem fin by auto
      with False show ?thesis by linarith
    qed
    have nonempty: "live_orders w e - {oid} \<noteq> {}"
    proof
      assume "live_orders w e - {oid} = {}"
      then have "card (live_orders w e - {oid}) = 0" by (simp only: card.empty)
      with card pos show False by linarith
    qed
    show ?thesis
      unfolding books_ok_def
    proof (intro conjI)
      show "finite (dom (w_executionsMap ?w))" "finite (dom (w_executionIdMap ?w))"
        using inv by (auto simp: books_ok_def fields)
      show "dom (w_pendingOrdersCount ?w) = dom (w_executionsMap ?w)"
        using inv e by (auto simp: books_ok_def fields)
      show "\<forall>e\<in>dom (w_executionsMap ?w). live_orders ?w e \<noteq> {} \<and>
          w_pendingOrdersCount ?w e = Some (int (card (live_orders ?w e)))"
      proof
        fix a assume a: "a \<in> dom (w_executionsMap ?w)"
        show "live_orders ?w a \<noteq> {} \<and> w_pendingOrdersCount ?w a = Some (int (card (live_orders ?w a)))"
        proof (cases "a = e")
          case True
          have "int (card (live_orders w e)) - 1 = int (card (live_orders w e) - 1)"
            using pos by simp
          with True nonempty card show ?thesis by (simp only: lo fields(2) if_True fun_upd_same simp_thms)
        next
          case False
          with a inv show ?thesis unfolding lo by (simp add: books_ok_def fields)
        qed
      qed
      show "\<forall>oid t e. w_executionIdMap ?w oid = Some (t, e) \<longrightarrow> e \<in> dom (w_executionsMap ?w)"
        using inv by (simp add: books_ok_def fields)
      show "w_failedExecutions ?w \<subseteq> dom (w_executionsMap ?w)"
        using inv by (simp add: books_ok_def fields)
      show "w_reservedTrades ?w = (\<Union>e\<in>dom (w_executionsMap ?w). exec_symbols ?w e)"
        by (simp only: fields es res)
      show "\<forall>e e'. e \<noteq> e' \<longrightarrow> exec_symbols ?w e \<inter> exec_symbols ?w e' = {}"
        unfolding es using disj by blast
    qed
  qed
qed


text \<open>The branches of the handler that return normally.\<close>

lemma processReport_cases:
  assumes "Worker_processReport r w = Inr w'"
  obtains (ignored) "w' = w" "w_executionIdMap w (er_id r) = None \<or> er_status r = NEW"
  | (partial) t e where "w' = w" "w_executionIdMap w (er_id r) = Some (t, e)" "er_status r = FILLED"
      "(if st_position t = LONG then er_recvQty r else er_usedQty r) < st_orderQty t"
  | (finished) t e ex d v d' where "w_executionIdMap w (er_id r) = Some (t, e)"
      "w_executionsMap w e = Some (ex, d)" "w' = Worker_finish_order (er_id r) e ex d' v"
      "er_status r = REJECTED \<or> er_status r = EXPIRED"
      "v = w\<lparr>w_failedExecutions := insert e (w_failedExecutions w)\<rparr>" "d' = d"
  | (filled) t e ex d v d' where "w_executionIdMap w (er_id r) = Some (t, e)"
      "w_executionsMap w e = Some (ex, d)" "w' = Worker_finish_order (er_id r) e ex d' v"
      "er_status r = FILLED"
      "\<not> (if st_position t = LONG then er_recvQty r else er_usedQty r) < st_orderQty t"
      "v = w\<lparr>w_executionsMap := (w_executionsMap w)(e \<mapsto> (ex, d'))\<rparr>"
      "d' = map_add_at (map_sub_at (map_add_all d (er_feeDelta r)) (st_usedCurrency t) (er_usedQty r))
         (st_recvCurrency t) (er_recvQty r)"
proof (cases "w_executionIdMap w (er_id r)")
  case None
  with assms show ?thesis by (intro ignored) (simp_all add: Worker_processReport_def)
next
  case (Some te)
  obtain t e where te: "te = (t, e)" by (cases te)
  show ?thesis
  proof (cases "w_executionsMap w e")
    case None
    with assms Some te show ?thesis by (simp add: Worker_processReport_def)
  next
    case ex: (Some exd)
    obtain ex d where exd: "exd = (ex, d)" by (cases exd)
    note eq = assms [unfolded Worker_processReport_def Some te option.case prod.case ex exd]
    show ?thesis
    proof (cases "er_status r")
      case NEW
      with eq show ?thesis by (intro ignored) simp_all
    next
      case FILLED
      let ?short = "(if st_position t = LONG then er_recvQty r else er_usedQty r) < st_orderQty t"
      show ?thesis
      proof (cases ?short)
        case True
        with eq FILLED have "w' = w" by (simp add: Let_def PreciseNumber_operators)
        then show ?thesis by (rule partial [OF _ Some [unfolded te] FILLED True])
      next
        case False
        let ?d = "map_add_at (map_sub_at (map_add_all d (er_feeDelta r)) (st_usedCurrency t) (er_usedQty r))
           (st_recvCurrency t) (er_recvQty r)"
        have "w' = Worker_finish_order (er_id r) e ex ?d
            (w\<lparr>w_executionsMap := (w_executionsMap w)(e \<mapsto> (ex, ?d))\<rparr>)"
          using eq FILLED False by (simp add: Let_def PreciseNumber_operators)
        then show ?thesis
          by (rule filled [OF Some [unfolded te] ex [unfolded exd] _ FILLED False refl refl])
      qed
    next
      case EXPIRED
      with eq show ?thesis by (intro finished [OF Some [unfolded te] ex [unfolded exd] _ _ refl refl]) simp_all
    next
      case REJECTED
      with eq show ?thesis by (intro finished [OF Some [unfolded te] ex [unfolded exd] _ _ refl refl]) simp_all
    next
      case UNKNOWN
      with eq show ?thesis by simp
    qed
  qed
qed

lemma books_ok_failed: "books_ok w \<Longrightarrow> e \<in> dom (w_executionsMap w) \<Longrightarrow>
   books_ok (w\<lparr>w_failedExecutions := insert e (w_failedExecutions w)\<rparr>)"
  by (simp add: books_ok_def live_orders_def exec_symbols_def)

lemma books_ok_delta:
  assumes "books_ok w" and "w_executionsMap w e = Some (ex, d)"
  shows "books_ok (w\<lparr>w_executionsMap := (w_executionsMap w)(e \<mapsto> (ex, d'))\<rparr>)"
proof -
  let ?w = "w\<lparr>w_executionsMap := (w_executionsMap w)(e \<mapsto> (ex, d'))\<rparr>"
  have "dom (w_executionsMap ?w) = dom (w_executionsMap w)"
    using assms(2) by auto
  moreover have "exec_symbols ?w = exec_symbols w" "live_orders ?w = live_orders w"
    using assms(2) by (simp_all add: exec_symbols_def live_orders_def fun_eq_iff)
  moreover have "w_executionIdMap ?w = w_executionIdMap w"
    "w_pendingOrdersCount ?w = w_pendingOrdersCount w"
    "w_failedExecutions ?w = w_failedExecutions w" "w_reservedTrades ?w = w_reservedTrades w"
    by simp_all
  ultimately show ?thesis
    using assms(1) by (simp only: books_ok_def simp_thms) (elim conjE, intro conjI)
qed

lemma processReport_inv:
  assumes inv: "worker_inv w" and res: "Worker_processReport r w = Inr w'"
  shows "worker_inv w'"
proof -
  have books: "books_ok w" and ok: "opportunities_ok w"
    using inv by (simp_all add: worker_inv_def)
  from res show ?thesis
  proof (cases rule: processReport_cases)
    case ignored
    with inv show ?thesis by simp
  next
    case (partial t e)
    with inv show ?thesis by simp
  next
    case (finished t e ex d v d')
    have "books_ok v"
      unfolding finished by (rule books_ok_failed [OF books]) (use finished in auto)
    then have "books_ok w'"
      unfolding finished(3) by (rule finish_order_books) (simp_all add: finished)
    with ok show ?thesis by (simp add: worker_inv_def opportunities_ok_def finished)
  next
    case (filled t e ex d v d')
    have "books_ok v"
      unfolding filled(6) by (rule books_ok_delta [OF books filled(2)])
    then have "books_ok w'"
      unfolding filled(3) by (rule finish_order_books) (simp_all add: filled)
    with ok show ?thesis by (simp add: worker_inv_def opportunities_ok_def filled)
  qed
qed

lemma processReport_no_out_of_range:
  assumes "worker_inv w"
  shows "Worker_processReport r w \<noteq> Inl Out_of_range"
  using assms
  by (force simp: worker_inv_def books_ok_def Worker_processReport_def Let_def
      split: option.splits prod.splits TradeExecutionStatus.splits if_splits)

end
