(* ===== verification/Worker_Properties.thy ===== *)
theory Worker_Properties
  imports Worker_Invariant
begin

text \<open>
  What the worker promises: reachable states have their books in order, no exception of a
  lookup escapes, the best cycle is started on symbols nobody holds, money is neither made nor
  lost, and a stopped worker drains.
\<close>

section \<open>Reachable states\<close>

text \<open>
  The worker takes a price update or a report, in any interleaving of the two queues. New
  identifiers are taken to be new (\<open>update_ids_fresh\<close>).
\<close>

inductive worker_step :: "worker_env \<Rightarrow> Worker \<Rightarrow> Worker \<Rightarrow> bool" for env where
  step_price: "update_ids_fresh env w \<Longrightarrow> Worker_processPriceUpdate env u w = Inr w' \<Longrightarrow>
     worker_step env w w'"
| step_report: "Worker_processReport r w = Inr w' \<Longrightarrow> worker_step env w w'"

inductive worker_reach :: "worker_env \<Rightarrow> Worker \<Rightarrow> Worker \<Rightarrow> bool" for env w0 where
  reach_init: "worker_reach env w0 w0"
| reach_step: "worker_reach env w0 w \<Longrightarrow> worker_step env w w' \<Longrightarrow> worker_reach env w0 w'"

lemma step_inv:
  assumes "worker_step env w w'" and "worker_inv w" and "env_ok env"
  shows "worker_inv w'"
  using assms(1)
proof cases
  case (step_price u)
  obtain v where "Worker_processPriceUpdate env u w = Inr v" "worker_inv v"
    by (rule processPriceUpdate_inv [OF assms(2,3) step_price(1)])
  with step_price show ?thesis by simp
next
  case (step_report r)
  then show ?thesis by (rule processReport_inv [OF assms(2)])
qed

lemma reach_inv:
  assumes "worker_reach env (Worker_new m paths rv b c) w" and "env_ok env"
    and "\<forall>p\<in>set paths. p \<noteq> []"
  shows "worker_inv w"
  using assms(1)
  by induction (auto intro: Worker_new_inv [OF assms(3)] step_inv [OF _ _ assms(2)])

text \<open>A market with two cycles in it, and price updates that make each of them profitable.\<close>

definition example_market :: market where
  "example_market r = example_symbol\<lparr>symbol := r\<rparr>"

definition example_paths :: "Trade list list" where
  "example_paths = map (\<lambda>r. [Trade_new example_market r LONG, Trade_new example_market r SHORT])
     [''ETHBTC'', ''LTCBTC'']"

definition example_env :: worker_env where
  "example_env = \<lparr>env_draw = (\<lambda>i. i mod 36), env_order = id\<rparr>"

definition example_worker :: Worker where
  "example_worker = Worker_new example_market example_paths
     [''BTC'' \<mapsto> PreciseNumber_of_int 1] [''BTC'' \<mapsto> PreciseNumber_of_int 1] (PreciseNumber 7500000)"

definition example_update :: "string \<Rightarrow> PriceUpdate" where
  "example_update r = \<lparr>pu_symbol = r, pu_bidPrice = PreciseNumber 600000000,
     pu_askPrice = PreciseNumber 500000000, pu_bidQty = PreciseNumber 20000000000,
     pu_askQty = PreciseNumber 30005000000\<rparr>"

lemma example_env_ok: "env_ok example_env"
  by (simp add: env_ok_def example_env_def)

lemma example_paths_ok: "\<forall>p\<in>set example_paths. p \<noteq> []"
  by (simp add: example_paths_def)

lemma example_fresh: "update_ids_fresh example_env example_worker"
  by code_simp

text \<open>After one update there is one execution with two orders; the second starts another.\<close>

lemma example_starts:
  "(case Worker_processPriceUpdate example_env (example_update ''ETHBTC'') example_worker of
      Inl _ \<Rightarrow> False
    | Inr w \<Rightarrow> length (w_submitted w) = 2 \<and> update_ids_fresh example_env w \<and>
        w_executionsMap w (id_at example_env 0) \<noteq> None \<and>
        (case Worker_processPriceUpdate example_env (example_update ''LTCBTC'') w of
           Inl _ \<Rightarrow> False | Inr w' \<Rightarrow> length (w_submitted w') = 4))"
  by code_simp

text \<open>C1. In every state the worker can reach, its maps agree: each live execution has a positive
  count of pending orders equal to the number of its order ids, every order id belongs to a
  live execution, the failed executions are live, and the reserved symbols are exactly those
  of the live executions, no two of which share one.\<close>

theorem reachable_books_ok:
  assumes "worker_reach env (Worker_new m paths rv b c) w" and "env_ok env"
    and "\<forall>p\<in>set paths. p \<noteq> []"
  shows "worker_inv w"
  by (rule reach_inv [OF assms])

lemma example_runs:
  obtains w w' where
    "Worker_processPriceUpdate example_env (example_update ''ETHBTC'') example_worker = Inr w"
    "worker_reach example_env example_worker w" "length (w_submitted w) = 2"
    "id_at example_env 0 \<in> dom (w_executionsMap w)"
    "Worker_processPriceUpdate example_env (example_update ''LTCBTC'') w = Inr w'"
    "length (w_submitted w') = 4"
proof -
  obtain w where w: "Worker_processPriceUpdate example_env (example_update ''ETHBTC'') example_worker = Inr w"
    using example_starts by (auto split: sum.splits)
  obtain w' where w': "Worker_processPriceUpdate example_env (example_update ''LTCBTC'') w = Inr w'"
    using example_starts w by (auto split: sum.splits)
  have "worker_reach example_env example_worker w"
    by (rule reach_step [OF reach_init step_price [OF example_fresh w]])
  then show thesis
    using example_starts w w' by (intro that [of w w']) auto
qed

theorem reachable_books_ok_witness:
  "\<exists>w. worker_reach example_env example_worker w \<and> length (w_submitted w) = 2 \<and> worker_inv w"
proof -
  obtain w where w: "worker_reach example_env example_worker w" "length (w_submitted w) = 2"
    by (rule example_runs)
  have "worker_inv w"
    by (rule reachable_books_ok [OF w(1) [unfolded example_worker_def] example_env_ok example_paths_ok])
  with w show ?thesis by blast
qed

section \<open>Exceptions\<close>

text \<open>C16. In a reachable state neither handler fails a lookup: a price update always completes,
  and a report only throws on a status it does not know.\<close>

theorem reachable_no_failed_lookup:
  assumes "worker_reach env (Worker_new m paths rv b c) w" and "env_ok env"
    and "\<forall>p\<in>set paths. p \<noteq> []"
  shows "(\<exists>w'. Worker_processPriceUpdate env u w = Inr w') \<and>
    (Worker_processReport r w = Inl err \<longrightarrow> err = Unknown_status \<and> er_status r = UNKNOWN)"
proof -
  have inv: "worker_inv w" by (rule reach_inv [OF assms])
  then have "\<exists>w'. Worker_processPriceUpdate env u w = Inr w'"
    by (auto simp: worker_inv_def intro: processPriceUpdate_cases [OF _ assms(2), of w u])
  moreover have "err = Unknown_status" if "Worker_processReport r w = Inl err"
    using processReport_no_out_of_range [OF inv, of r] that by (cases err) auto
  moreover have "er_status r = UNKNOWN" if "Worker_processReport r w = Inl Unknown_status"
    using that by (auto simp: Worker_processReport_def Let_def
        split: option.splits prod.splits TradeExecutionStatus.splits if_splits)
  ultimately show ?thesis by blast
qed

theorem reachable_no_failed_lookup_witness:
  "\<exists>w. length (w_submitted w) = 2 \<and>
    (\<exists>w'. Worker_processPriceUpdate example_env (example_update ''LTCBTC'') w = Inr w')"
proof -
  obtain w where w: "worker_reach example_env example_worker w" "length (w_submitted w) = 2"
    by (rule example_runs)
  have "\<exists>w'. Worker_processPriceUpdate example_env (example_update ''LTCBTC'') w = Inr w'"
    using reachable_no_failed_lookup [OF w(1) [unfolded example_worker_def] example_env_ok example_paths_ok]
    by blast
  with w show ?thesis by blast
qed

section \<open>What an update starts\<close>

text \<open>The cycles an update is about, which of them qualify, and what they promise.\<close>

definition cycle_wins :: "PriceUpdate \<Rightarrow> Worker \<Rightarrow> nat \<Rightarrow> bool" where
  "cycle_wins u w i \<longleftrightarrow> (let m = update_symbol u (w_market w) in
     i \<in> set (equal_range (w_opportunities w) (symbol (m (pu_symbol u)))) \<and>
     wins m (w_balance w) (w_reservedTrades w) (w_opportunityList w ! i))"

definition updated_cycle :: "PriceUpdate \<Rightarrow> Worker \<Rightarrow> nat \<Rightarrow> Opportunity" where
  "updated_cycle u w i =
     visited (update_symbol u (w_market w)) (w_balance w) (w_opportunityList w ! i)"

lemma env_order_set: "env_ok env \<Longrightarrow> set (env_order env is) = set is"
  by (rule mset_eq_setD) (simp add: env_ok_def)

lemma processPriceUpdate_best:
  assumes "opportunities_ok w" and env: "env_ok env"
  obtains (none) opps where
      "Worker_processPriceUpdate env u w =
         Inr (w\<lparr>w_market := update_symbol u (w_market w), w_opportunityList := opps\<rparr>)"
      "\<And>i. \<not> cycle_wins u w i"
    | (some) opps b where
      "Worker_processPriceUpdate env u w = Inr (Worker_execute env (updated_cycle u w b)
         (w\<lparr>w_market := update_symbol u (w_market w), w_opportunityList := opps\<rparr>))"
      "cycle_wins u w b" "b < length (w_opportunityList w)"
      "\<And>i. cycle_wins u w i \<Longrightarrow> o_totalProfit (updated_cycle u w i) \<le> o_totalProfit (updated_cycle u w b)"
proof -
  let ?m = "update_symbol u (w_market w)"
  let ?is = "equal_range (w_opportunities w) (symbol (?m (pu_symbol u)))"
  obtain opps best where post: "scan_post ?m (w_balance w) (w_reservedTrades w) (env_order env ?is)
      (w_opportunityList w) None opps best"
    and res: "Worker_processPriceUpdate env u w = Inr (case best of
       None \<Rightarrow> w\<lparr>w_market := ?m, w_opportunityList := opps\<rparr>
     | Some b \<Rightarrow> Worker_execute env (opps ! b) (w\<lparr>w_market := ?m, w_opportunityList := opps\<rparr>))"
    by (rule processPriceUpdate_cases [OF assms])
  have wins: "cycle_wins u w i \<longleftrightarrow> i \<in> set (env_order env ?is) \<and>
      wins ?m (w_balance w) (w_reservedTrades w) (w_opportunityList w ! i)" for i
    by (simp add: cycle_wins_def Let_def env_order_set [OF env])
  have len: "i < length (w_opportunityList w)" if "cycle_wins u w i" for i
    using assms(1) that by (auto simp: cycle_wins_def Let_def equal_range_def opportunities_ok_def)
  have upd: "opps ! i = updated_cycle u w i" if "cycle_wins u w i" for i
    using scan_post_list(2) [OF post len [OF that]] that by (simp add: wins updated_cycle_def)
  show thesis
  proof (cases best)
    case None
    then show thesis
      using res scan_post_NoneD [OF post [unfolded None]] by (intro none) (auto simp: wins)
  next
    case (Some b)
    note win = scan_post_SomeD [OF post [unfolded Some]]
    have b: "cycle_wins u w b" using win(2,3) by (simp add: wins)
    show thesis
    proof (rule some)
      show "Worker_processPriceUpdate env u w = Inr (Worker_execute env (updated_cycle u w b)
          (w\<lparr>w_market := ?m, w_opportunityList := opps\<rparr>))"
        using res by (simp add: Some upd [OF b])
      show "cycle_wins u w b" "b < length (w_opportunityList w)" by (rule b win(1))+
      fix i assume i: "cycle_wins u w i"
      then have "o_totalProfit (opps ! i) \<le> o_totalProfit (opps ! b)"
        by (intro win(5)) (simp_all add: wins)
      then show "o_totalProfit (updated_cycle u w i) \<le> o_totalProfit (updated_cycle u w b)"
        by (simp only: upd [OF i] upd [OF b])
    qed
  qed
qed

lemma map_so_symbol_map2:
  "length ids = length ts \<Longrightarrow> map so_symbol (map2 order_for ids ts) = map st_symbol ts"
  by (induction rule: list_induct2) (simp_all add: order_for_def)

lemma map_so_symbol_started:
  "map so_symbol (w_submitted (Worker_execute env best w)) =
     map so_symbol (w_submitted w) @ map (\<lambda>t. symbol (w_market w (t_symbol t))) (o_trades best)"
proof -
  let ?ids = "ids_from env (w_rng w + 8) (length (o_trades best))"
  let ?ts = "map (StaticTrade_of (w_market w)) (o_trades best)"
  have "map so_symbol (map2 order_for ?ids ?ts) = map st_symbol ?ts"
    by (rule map_so_symbol_map2) simp
  then show ?thesis
    by (simp only: Worker_execute_submitted map_append) (simp add: comp_def)
qed

text \<open>C4. A price update starts the best cycle or none. If it starts one, the cycle is one the
  updated symbol takes part in, its starting asset has funds, it is profitable under the new
  prices, its symbols are free, and no other such cycle promises more; if it starts none, no
  cycle on the symbol qualifies.\<close>

theorem update_starts_best:
  assumes "worker_inv w" and "env_ok env"
  shows "\<exists>w'. Worker_processPriceUpdate env u w = Inr w' \<and>
    (w_submitted w' = w_submitted w \<and> (\<forall>i. \<not> cycle_wins u w i) \<or>
     (\<exists>b. cycle_wins u w b \<and>
        (\<forall>i. cycle_wins u w i \<longrightarrow> o_totalProfit (updated_cycle u w i) \<le> o_totalProfit (updated_cycle u w b)) \<and>
        map so_symbol (w_submitted w') = map so_symbol (w_submitted w) @
          map (\<lambda>t. symbol (update_symbol u (w_market w) (t_symbol t))) (o_trades (updated_cycle u w b))))"
proof -
  have "opportunities_ok w" using assms(1) by (simp add: worker_inv_def)
  then show ?thesis
  proof (rule processPriceUpdate_best [OF _ assms(2), of w u])
    fix opps
    assume "Worker_processPriceUpdate env u w =
        Inr (w\<lparr>w_market := update_symbol u (w_market w), w_opportunityList := opps\<rparr>)"
      and "\<And>i. \<not> cycle_wins u w i"
    then show ?thesis by simp
  next
    fix opps b
    let ?v = "w\<lparr>w_market := update_symbol u (w_market w), w_opportunityList := opps\<rparr>"
    assume "Worker_processPriceUpdate env u w = Inr (Worker_execute env (updated_cycle u w b) ?v)"
      and "cycle_wins u w b"
      and "\<And>i. cycle_wins u w i \<Longrightarrow> o_totalProfit (updated_cycle u w i) \<le> o_totalProfit (updated_cycle u w b)"
    moreover have "map so_symbol (w_submitted (Worker_execute env (updated_cycle u w b) ?v)) =
        map so_symbol (w_submitted w) @
        map (\<lambda>t. symbol (update_symbol u (w_market w) (t_symbol t))) (o_trades (updated_cycle u w b))"
      by (simp add: map_so_symbol_started)
    ultimately show ?thesis by blast
  qed
qed

lemma example_inv: "worker_inv example_worker"
  unfolding example_worker_def by (rule Worker_new_inv [OF example_paths_ok])

theorem update_starts_best_witness: "\<exists>b. cycle_wins (example_update ''ETHBTC'') example_worker b"
proof -
  obtain w w' where w: "Worker_processPriceUpdate example_env (example_update ''ETHBTC'') example_worker = Inr w"
    "length (w_submitted w) = 2"
    by (rule example_runs)
  have "w_submitted example_worker = []" by code_simp
  with update_starts_best [OF example_inv example_env_ok, of "example_update ''ETHBTC''"] w show ?thesis
    by auto
qed

text \<open>C14. No two live executions ever trade one symbol: every order a price update submits in a
  reachable state is for a symbol that no live execution holds.\<close>

theorem orders_only_on_free_symbols:
  assumes "worker_inv w" and "env_ok env" and "Worker_processPriceUpdate env u w = Inr w'"
    and "e \<in> dom (w_executionsMap w)"
  shows "\<forall>so\<in>set (drop (length (w_submitted w)) (w_submitted w')). so_symbol so \<notin> exec_symbols w e"
proof -
  have ok: "opportunities_ok w" and books: "books_ok w"
    using assms(1) by (simp_all add: worker_inv_def)
  from ok show ?thesis
  proof (rule processPriceUpdate_best [OF _ assms(2), of w u])
    fix opps
    assume "Worker_processPriceUpdate env u w =
      Inr (w\<lparr>w_market := update_symbol u (w_market w), w_opportunityList := opps\<rparr>)"
    with assms(3) show ?thesis by auto
  next
    fix opps b
    let ?v = "w\<lparr>w_market := update_symbol u (w_market w), w_opportunityList := opps\<rparr>"
    let ?best = "updated_cycle u w b"
    assume res: "Worker_processPriceUpdate env u w = Inr (Worker_execute env ?best ?v)"
      and b: "cycle_wins u w b"
    have w': "w' = Worker_execute env ?best ?v" using assms(3) res by simp
    have "so_symbol ` set (drop (length (w_submitted w)) (w_submitted w')) =
        set (drop (length (w_submitted w)) (map so_symbol (w_submitted w')))"
      by (simp add: drop_map)
    also have "\<dots> = (\<lambda>t. symbol (w_market ?v (t_symbol t))) ` set (o_trades ?best)"
      unfolding w' map_so_symbol_started by simp
    finally have eq: "so_symbol ` set (drop (length (w_submitted w)) (w_submitted w')) =
        (\<lambda>t. symbol (w_market ?v (t_symbol t))) ` set (o_trades ?best)" .
    have free: "(\<lambda>t. symbol (w_market ?v (t_symbol t))) ` set (o_trades ?best) \<inter> w_reservedTrades w = {}"
      using b by (auto simp: updated_cycle_def visited_symbols cycle_wins_def Let_def wins_def)
    show ?thesis
      using exec_symbols_reserved [OF books, of e] free eq by blast
  qed
qed

theorem orders_only_on_free_symbols_witness:
  "\<exists>(w::Worker) (w'::Worker). length (w_submitted w) = 2 \<and> length (w_submitted w') = 4 \<and>
    (\<forall>so\<in>set (drop 2 (w_submitted w')). so_symbol so \<notin> exec_symbols w (id_at example_env 0))"
proof -
  obtain w w' where w: "worker_reach example_env example_worker w" "length (w_submitted w) = 2"
    "id_at example_env 0 \<in> dom (w_executionsMap w)"
    "Worker_processPriceUpdate example_env (example_update ''LTCBTC'') w = Inr w'"
    "length (w_submitted w') = 4"
    by (rule example_runs)
  have "worker_inv w"
    by (rule reach_inv [OF w(1) [unfolded example_worker_def] example_env_ok example_paths_ok])
  from orders_only_on_free_symbols [OF this example_env_ok w(4,3)]
  have "\<forall>so\<in>set (drop 2 (w_submitted w')). so_symbol so \<notin> exec_symbols w (id_at example_env 0)"
    by (simp only: w(2))
  with w show ?thesis by blast
qed


section \<open>Money is accounted for\<close>

text \<open>
  What the worker owns of an asset: what is booked in the balance and what the live executions
  still hold for it.
\<close>

definition delta_of :: "Worker \<Rightarrow> string \<Rightarrow> (string \<rightharpoonup> precise_number)" where
  "delta_of w e = (case w_executionsMap w e of None \<Rightarrow> Map.empty | Some (execution, delta) \<Rightarrow> delta)"

definition holdings :: "Worker \<Rightarrow> string \<Rightarrow> precise_number" where
  "holdings w asset = value_at (w_balance w) asset +
     (\<Sum>e\<in>dom (w_executionsMap w). value_at (delta_of w e) asset)"

text \<open>What a report changes: the fees, and the trade of the order, once it is filled in full.\<close>

definition report_effect :: "Worker \<Rightarrow> ExecutionReport \<Rightarrow> string \<Rightarrow> precise_number" where
  "report_effect w r asset =
     (case w_executionIdMap w (er_id r) of
        None \<Rightarrow> 0
      | Some (t, e) \<Rightarrow>
          if er_status r = FILLED \<and>
             st_orderQty t \<le> (if st_position t = LONG then er_recvQty r else er_usedQty r)
          then value_at (er_feeDelta r) asset
             - (if asset = st_usedCurrency t then er_usedQty r else 0)
             + (if asset = st_recvCurrency t then er_recvQty r else 0)
          else 0)"

lemma holdings_execute:
  assumes books: "books_ok w" and new: "w_executionsMap w (id_at env (w_rng w)) = None"
  shows "holdings (Worker_execute env best w) asset = holdings w asset"
proof -
  let ?e = "id_at env (w_rng w)" and ?w = "Worker_execute env best w"
  let ?cap = "Opportunity_getCapacity (w_market w) best"
  have fin: "finite (dom (w_executionsMap w))" and notin: "?e \<notin> dom (w_executionsMap w)"
    using books new by (auto simp: books_ok_def)
  have delta: "delta_of ?w e = (if e = ?e then [o_startingAsset best \<mapsto> ?cap] else delta_of w e)" for e
    using new by (simp add: delta_of_def map_emplace_def)
  have "(\<Sum>e\<in>dom (w_executionsMap w). value_at (delta_of ?w e) asset) =
      (\<Sum>e\<in>dom (w_executionsMap w). value_at (delta_of w e) asset)"
    using notin by (intro sum.cong) (auto simp: delta)
  moreover have "dom (w_executionsMap ?w) = insert ?e (dom (w_executionsMap w))"
    by simp
  moreover have "value_at (w_balance ?w) asset + value_at [o_startingAsset best \<mapsto> ?cap] asset
      = value_at (w_balance w) asset"
    unfolding Worker_execute_fields by (rule bal.escrow_total)
  moreover have "value_at (delta_of ?w ?e) asset = value_at [o_startingAsset best \<mapsto> ?cap] asset"
    by (simp add: delta)
  ultimately show ?thesis
    unfolding holdings_def by (simp only: sum.insert [OF fin notin]) (simp add: algebra_simps)
qed

lemma processPriceUpdate_fresh:
  assumes "update_ids_fresh env w" and "b < length (w_opportunityList w)"
  shows "w_executionsMap w (id_at env (w_rng w)) = None"
proof -
  have "ids_fresh env w (length (o_trades (w_opportunityList w ! b)))"
    using assms(1) nth_mem [OF assms(2)] unfolding update_ids_fresh_def by blast
  then show ?thesis by (simp add: ids_fresh_def)
qed

text \<open>C3. A price update moves money but makes none: for every asset, the balance and the amounts
  held by live executions add up to the same as before.\<close>

theorem update_conserves_holdings:
  assumes "worker_inv w" and "env_ok env" and "update_ids_fresh env w"
    and "Worker_processPriceUpdate env u w = Inr w'"
  shows "holdings w' asset = holdings w asset"
proof -
  have ok: "opportunities_ok w" and books: "books_ok w"
    using assms(1) by (simp_all add: worker_inv_def)
  from ok show ?thesis
  proof (rule processPriceUpdate_best [OF _ assms(2), of w u])
    fix opps
    assume "Worker_processPriceUpdate env u w =
        Inr (w\<lparr>w_market := update_symbol u (w_market w), w_opportunityList := opps\<rparr>)"
    with assms(4) show ?thesis by (auto simp: holdings_def delta_of_def)
  next
    fix opps b
    let ?v = "w\<lparr>w_market := update_symbol u (w_market w), w_opportunityList := opps\<rparr>"
    assume res: "Worker_processPriceUpdate env u w = Inr (Worker_execute env (updated_cycle u w b) ?v)"
      and b: "b < length (w_opportunityList w)"
    have "books_ok ?v" using books books_ok_cong [of ?v w] by simp
    then have "holdings (Worker_execute env (updated_cycle u w b) ?v) asset = holdings ?v asset"
      by (rule holdings_execute) (simp add: processPriceUpdate_fresh [OF assms(3) b])
    also have "\<dots> = holdings w asset" by (simp add: holdings_def delta_of_def)
    finally show ?thesis using assms(4) res by simp
  qed
qed

theorem update_conserves_holdings_witness:
  "\<exists>w. length (w_submitted w) = 2 \<and> holdings w ''BTC'' = holdings example_worker ''BTC''"
proof -
  obtain w where w: "Worker_processPriceUpdate example_env (example_update ''ETHBTC'') example_worker = Inr w"
    "length (w_submitted w) = 2"
    by (rule example_runs)
  from update_conserves_holdings [OF example_inv example_env_ok example_fresh w(1)] w(2)
  show ?thesis by blast
qed

lemma holdings_finish:
  assumes books: "books_ok w" and ex: "w_executionsMap w e = Some (ex, d)"
  shows "holdings (Worker_finish_order oid e ex d w) asset = holdings w asset"
proof -
  have fin: "finite (dom (w_executionsMap w))" and e: "e \<in> dom (w_executionsMap w)"
    using books ex by (auto simp: books_ok_def)
  obtain n where n: "w_pendingOrdersCount w e = Some n"
    using books e by (auto simp: books_ok_def)
  have d: "delta_of w e = d" by (simp add: delta_of_def ex)
  show ?thesis
  proof (cases "n = 1")
    case True
    let ?w = "Worker_finish_order oid e ex d w"
    have "(\<Sum>e\<in>dom (w_executionsMap w). value_at (delta_of w e) asset) =
        value_at d asset + (\<Sum>e\<in>dom (w_executionsMap w) - {e}. value_at (delta_of w e) asset)"
      using sum.remove [OF fin e, of "\<lambda>e. value_at (delta_of w e) asset"] by (simp add: d)
    moreover have "(\<Sum>e\<in>dom (w_executionsMap ?w). value_at (delta_of ?w e) asset) =
        (\<Sum>e\<in>dom (w_executionsMap w) - {e}. value_at (delta_of w e) asset)"
      using True by (intro sum.cong) (auto simp: finish_order_pending [OF n] delta_of_def)
    moreover have "value_at (w_balance ?w) asset = value_at (w_balance w) asset + value_at d asset"
      using True by (simp add: finish_order_pending [OF n] bal.read_credit_all)
    ultimately show ?thesis by (simp add: holdings_def algebra_simps)
  next
    case False
    then show ?thesis by (simp add: finish_order_pending [OF n] holdings_def delta_of_def)
  qed
qed

text \<open>C2. A report changes what the worker owns by exactly what it reports: a full fill adds the
  fees, takes the quantity used and adds the quantity received; every other report changes
  nothing, and settling an execution into the balance changes nothing either.\<close>

theorem report_changes_holdings:
  assumes "worker_inv w" and "Worker_processReport r w = Inr w'"
  shows "holdings w' asset = holdings w asset + report_effect w r asset"
  using assms(2)
proof (cases rule: processReport_cases)
  case ignored
  then show ?thesis by (auto simp: report_effect_def split: option.split)
next
  case (partial t e)
  have "\<not> st_orderQty t \<le> (if st_position t = LONG then er_recvQty r else er_usedQty r)"
    using partial(4) by (simp only: not_le)
  then have "report_effect w r asset = 0"
    by (simp only: report_effect_def partial(2,3) option.case prod.case simp_thms if_False)
  with partial(1) show ?thesis by simp
next
  case (finished t e ex d v d')
  have books: "books_ok w" using assms(1) by (simp add: worker_inv_def)
  have "books_ok v"
    unfolding finished by (rule books_ok_failed [OF books]) (use finished in auto)
  then have "holdings w' asset = holdings v asset"
    unfolding finished(3) by (rule holdings_finish) (simp add: finished)
  also have "\<dots> = holdings w asset" by (simp add: finished holdings_def delta_of_def)
  finally show ?thesis using finished by (auto simp: report_effect_def)
next
  case (filled t e ex d v d')
  have books: "books_ok w" using assms(1) by (simp add: worker_inv_def)
  then have fin: "finite (dom (w_executionsMap w))" and e: "e \<in> dom (w_executionsMap w)"
    using filled by (auto simp: books_ok_def)
  have "books_ok v"
    unfolding filled(6) by (rule books_ok_delta [OF books filled(2)])
  then have "holdings w' asset = holdings v asset"
    unfolding filled(3) by (rule holdings_finish) (simp add: filled)
  also have "holdings v asset = holdings w asset + (value_at d' asset - value_at d asset)"
  proof -
    have dom: "dom (w_executionsMap v) = dom (w_executionsMap w)"
      using e by (auto simp: filled(6))
    have "(\<Sum>e\<in>dom (w_executionsMap w) - {e}. value_at (delta_of v e) asset) =
        (\<Sum>e\<in>dom (w_executionsMap w) - {e}. value_at (delta_of w e) asset)"
      by (intro sum.cong) (auto simp: filled(6) delta_of_def)
    moreover have "delta_of v e = d'" "delta_of w e = d"
      by (simp_all add: delta_of_def filled(2,6))
    moreover have "w_balance v = w_balance w" by (simp add: filled(6))
    ultimately show ?thesis
      unfolding holdings_def dom
      using sum.remove [OF fin e, of "\<lambda>e. value_at (delta_of v e) asset"]
        sum.remove [OF fin e, of "\<lambda>e. value_at (delta_of w e) asset"]
      by (simp add: algebra_simps)
  qed
  also have "value_at d' asset - value_at d asset = report_effect w r asset"
    using filled(1,4,5) by (simp add: filled(7) report_effect_def value_at_add value_at_sub
        value_at_add_all not_less)
  finally show ?thesis .
qed

definition example_report :: "nat \<Rightarrow> TradeExecutionStatus \<Rightarrow> ExecutionReport" where
  "example_report n status = \<lparr>er_id = id_at example_env n, er_status = status,
     er_usedQty = PreciseNumber_of_int 1, er_recvQty = PreciseNumber_of_int 5,
     er_feeDelta = [''BNB'' \<mapsto> PreciseNumber (- 100)]\<rparr>"

lemma example_report_effect:
  "(case Worker_processPriceUpdate example_env (example_update ''ETHBTC'') example_worker of
      Inl _ \<Rightarrow> False
    | Inr w \<Rightarrow> report_effect w (example_report 8 FILLED) ''ETH'' = PreciseNumber_of_int 5 \<and>
        (case Worker_processReport (example_report 8 FILLED) w of Inl _ \<Rightarrow> False | Inr _ \<Rightarrow> True))"
  by code_simp

theorem report_changes_holdings_witness:
  "\<exists>w w'. Worker_processReport (example_report 8 FILLED) w = Inr w' \<and>
    holdings w' ''ETH'' = holdings w ''ETH'' + PreciseNumber_of_int 5"
proof -
  obtain w where w: "Worker_processPriceUpdate example_env (example_update ''ETHBTC'') example_worker = Inr w"
    "worker_reach example_env example_worker w"
    by (rule example_runs)
  have inv: "worker_inv w"
    by (rule reach_inv [OF w(2) [unfolded example_worker_def] example_env_ok example_paths_ok])
  obtain w' where w': "Worker_processReport (example_report 8 FILLED) w = Inr w'"
    using example_report_effect w(1) by (auto split: sum.splits)
  have "report_effect w (example_report 8 FILLED) ''ETH'' = PreciseNumber_of_int 5"
    using example_report_effect w(1) by simp
  with report_changes_holdings [OF inv w', of "''ETH''"] w' show ?thesis by auto
qed

text \<open>
  The fees of a partial fill are the exception the theorem shows: they are added to a copy of
  the delta that the early return throws away.
\<close>

lemma partial_fill_loses_fees:
  "(case Worker_processPriceUpdate example_env (example_update ''ETHBTC'') example_worker of
      Inl _ \<Rightarrow> False
    | Inr w \<Rightarrow> (case Worker_processReport ((example_report 8 FILLED)\<lparr>er_recvQty := 0\<rparr>) w of
        Inl _ \<Rightarrow> False
      | Inr w' \<Rightarrow> value_at (er_feeDelta (example_report 8 FILLED)) ''BNB'' < 0 \<and>
          value_at (delta_of w' (id_at example_env 0)) ''BNB'' = 0))"
  by code_simp

text \<open>C15. Funds are only committed when they are there: a price update that finds no balance
  negative leaves none negative.\<close>

theorem update_keeps_balances_nonneg:
  assumes "worker_inv w" and "env_ok env" and "market_ok (update_symbol u (w_market w))"
    and "\<forall>asset. 0 \<le> value_at (w_balance w) asset"
    and "Worker_processPriceUpdate env u w = Inr w'"
  shows "0 \<le> value_at (w_balance w') asset"
proof -
  let ?m = "update_symbol u (w_market w)"
  have ok: "opportunities_ok w" using assms(1) by (simp add: worker_inv_def)
  from ok show ?thesis
  proof (rule processPriceUpdate_best [OF _ assms(2), of w u])
    fix opps
    assume "Worker_processPriceUpdate env u w = Inr (w\<lparr>w_market := ?m, w_opportunityList := opps\<rparr>)"
    with assms(4,5) show ?thesis by auto
  next
    fix opps b
    let ?opp = "w_opportunityList w ! b"
    assume res: "Worker_processPriceUpdate env u w =
        Inr (Worker_execute env (updated_cycle u w b) (w\<lparr>w_market := ?m, w_opportunityList := opps\<rparr>))"
      and b: "cycle_wins u w b" "b < length (w_opportunityList w)"
    obtain funds where funds: "w_balance w (o_startingAsset ?opp) = Some funds" "0 < funds"
      using b(1) by (auto simp: cycle_wins_def Let_def wins_def)
    have cyc: "updated_cycle u w b = Opportunity_update ?m ?opp funds"
      using funds by (simp add: updated_cycle_def visited_def)
    have "o_trades ?opp \<noteq> []"
      using ok nth_mem [OF b(2)] by (simp add: opportunities_ok_def)
    then have cap: "Opportunity_getCapacity ?m (updated_cycle u w b) \<le> funds"
      unfolding cyc using capacity_bounds [OF assms(3)] funds(2) by (simp add: order_less_imp_le)
    have "value_at (w_balance w') asset = value_at (w_balance w) asset +
        (if asset = o_startingAsset ?opp then - Opportunity_getCapacity ?m (updated_cycle u w b) else 0)"
    proof -
      have "w' = Worker_execute env (updated_cycle u w b) (w\<lparr>w_market := ?m, w_opportunityList := opps\<rparr>)"
        using assms(5) res by simp
      then show ?thesis by (simp only: Worker_execute_fields bal.read_credit) (simp add: cyc)
    qed
    then show ?thesis
      using assms(4) cap funds(1) by auto
  qed
qed

theorem update_keeps_balances_nonneg_witness:
  "\<exists>w::Worker. length (w_submitted w) = 2 \<and> 0 \<le> value_at (w_balance w) ''BTC''"
proof -
  obtain w where w: "Worker_processPriceUpdate example_env (example_update ''ETHBTC'') example_worker = Inr w"
    "length (w_submitted w) = 2"
    by (rule example_runs)
  have "w_market example_worker = example_market" "w_balance example_worker = [''BTC'' \<mapsto> PreciseNumber_of_int 1]"
    by (simp_all add: example_worker_def Worker_new_def example_paths_def Worker_add_path_books)
  then have "0 \<le> value_at (w_balance w) ''BTC''"
    by (intro update_keeps_balances_nonneg [OF example_inv example_env_ok _ _ w(1)])
      (auto simp: market_ok_def quotes_ok_def update_symbol_def example_market_def example_update_def
        example_symbol_def value_at_def pn_le_iff)
  with w(2) show ?thesis by blast
qed


section \<open>A stopped worker drains\<close>

text \<open>A report that ends its order: expired, rejected, or filled in full.\<close>

definition final_report :: "Worker \<Rightarrow> ExecutionReport \<Rightarrow> bool" where
  "final_report w r \<longleftrightarrow> (case w_executionIdMap w (er_id r) of None \<Rightarrow> True
     | Some (t, e) \<Rightarrow> er_status r = EXPIRED \<or> er_status r = REJECTED \<or>
         er_status r = FILLED \<and>
         st_orderQty t \<le> (if st_position t = LONG then er_recvQty r else er_usedQty r))"

definition idle :: "Worker \<Rightarrow> bool" where
  "idle w \<longleftrightarrow> w_executionsMap w = Map.empty \<and> w_executionIdMap w = Map.empty \<and>
     w_pendingOrdersCount w = Map.empty \<and> w_failedExecutions w = {} \<and> w_reservedTrades w = {}"

lemma no_executions_idle:
  assumes "books_ok w" and "w_executionsMap w = Map.empty"
  shows "idle w"
proof -
  have "w_executionIdMap w oid = None" for oid
    using assms by (cases "w_executionIdMap w oid") (auto simp: books_ok_def)
  then show ?thesis
    using assms by (auto simp: idle_def books_ok_def)
qed

lemma no_orders_idle:
  assumes "books_ok w" and "w_executionIdMap w = Map.empty"
  shows "w_executionsMap w = Map.empty"
proof -
  have "live_orders w e = {}" for e using assms(2) by (simp add: live_orders_def)
  then have "dom (w_executionsMap w) = {}" using assms(1) by (auto simp: books_ok_def)
  then show ?thesis by simp
qed

lemma processReport_final:
  assumes "books_ok w" and "final_report w r"
  shows "\<exists>w'. Worker_processReport r w = Inr w' \<and> w_executionIdMap w' = (w_executionIdMap w)(er_id r := None)"
proof (cases "w_executionIdMap w (er_id r)")
  case None
  then show ?thesis by (auto simp: Worker_processReport_def)
next
  case (Some te)
  obtain t e where te: "te = (t, e)" by (cases te)
  obtain ex d where ex: "w_executionsMap w e = Some (ex, d)"
  proof -
    have "\<forall>oid t e. w_executionIdMap w oid = Some (t, e) \<longrightarrow> e \<in> dom (w_executionsMap w)"
      using assms(1) by (simp add: books_ok_def)
    then have "e \<in> dom (w_executionsMap w)"
      using Some te by simp
    then show thesis using that by auto
  qed
  have "er_status r = EXPIRED \<or> er_status r = REJECTED \<or> er_status r = FILLED \<and>
      st_orderQty t \<le> (if st_position t = LONG then er_recvQty r else er_usedQty r)"
    using assms(2) by (simp only: final_report_def Some te option.case prod.case)
  then show ?thesis
    using Some te ex
    by (auto simp: Worker_processReport_def Let_def PreciseNumber_operators not_less [symmetric]
        simp del: not_less)
qed

lemma processReport_other:
  assumes "books_ok w" and "\<not> final_report w r" and "er_status r \<noteq> UNKNOWN"
  shows "Worker_processReport r w = Inr w"
proof -
  obtain t e where te: "w_executionIdMap w (er_id r) = Some (t, e)"
    using assms(2) by (auto simp: final_report_def split: option.splits)
  have "\<forall>oid t e. w_executionIdMap w oid = Some (t, e) \<longrightarrow> e \<in> dom (w_executionsMap w)"
    using assms(1) by (simp add: books_ok_def)
  then have "e \<in> dom (w_executionsMap w)" using te by simp
  then obtain ex d where ex: "w_executionsMap w e = Some (ex, d)" by auto
  show ?thesis
    using assms(2,3) te ex
    by (cases "er_status r") (auto simp: final_report_def Worker_processReport_def Let_def PreciseNumber_operators not_le)
qed

text \<open>That the order has come to its end with one of the reports.\<close>

definition ends_with :: "Worker \<Rightarrow> ExecutionReport option list \<Rightarrow> string \<Rightarrow> bool" where
  "ends_with w polls oid \<longleftrightarrow> list_ex (\<lambda>p. case p of None \<Rightarrow> False | Some r \<Rightarrow> er_id r = oid \<and> final_report w r) polls"

lemma ends_with_simps [simp]:
  "\<not> ends_with w [] oid" "ends_with w (None # polls) oid = ends_with w polls oid"
  "ends_with w (Some r # polls) oid \<longleftrightarrow> er_id r = oid \<and> final_report w r \<or> ends_with w polls oid"
  by (simp_all add: ends_with_def)

lemma ends_with_other: "oid \<noteq> i \<Longrightarrow> w_executionIdMap v = (w_executionIdMap w)(i := None) \<Longrightarrow> ends_with v polls oid = ends_with w polls oid"
  unfolding ends_with_def list_ex_iff
  by (intro bex_cong refl) (auto simp: final_report_def split: option.split)

text \<open>C13. A stopped worker drains: whatever reports the polls bring in, new, partial and final ones in any
  order and for any orders, as long as none for a live order has an unknown status, the second loop of
  \<^verbatim>\<open>run\<close> returns if and only if every live order gets its final report among them. Then
  it returns an idle worker, with no symbol reserved and nothing pending.\<close>

theorem drain_terminates:
  assumes "worker_inv w"
    and "\<forall>r. Some r \<in> set polls \<longrightarrow> w_executionIdMap w (er_id r) = None \<or> er_status r \<noteq> UNKNOWN"
  shows "if \<forall>oid\<in>dom (w_executionIdMap w). ends_with w polls oid
    then \<exists>w'. Worker_drain polls w = Some (Inr w') \<and> idle w'
    else Worker_drain polls w = None"
  using assms
proof (induction polls arbitrary: w)
  case Nil
  have "w_executionsMap w = Map.empty \<longleftrightarrow> dom (w_executionIdMap w) = {}"
    using Nil.prems(1) no_orders_idle no_executions_idle by (auto simp: worker_inv_def idle_def)
  then show ?case using Nil.prems(1) no_executions_idle by (auto simp: worker_inv_def)
next
  case (Cons p polls)
  have books: "books_ok w" using Cons.prems(1) by (simp add: worker_inv_def)
  show ?case
  proof (cases "w_executionsMap w = Map.empty")
    case True
    then have "idle w" by (rule no_executions_idle [OF books])
    with True show ?thesis by (simp add: idle_def)
  next
    case live: False
    show ?thesis
    proof (cases p)
      case None
      then show ?thesis using Cons.IH [OF Cons.prems(1)] Cons.prems(2) live by simp
    next
      case (Some r)
      show ?thesis
      proof (cases "final_report w r")
        case final: True
        from processReport_final [OF books this] obtain v
          where v: "Worker_processReport r w = Inr v" and ids: "w_executionIdMap v = (w_executionIdMap w)(er_id r := None)"
          by blast
        have doms: "dom (w_executionIdMap v) = dom (w_executionIdMap w) - {er_id r}" by (simp add: ids)
        have here: "ends_with w (p # polls) oid \<longleftrightarrow> oid = er_id r \<or> ends_with w polls oid" for oid
          using final Some by auto
        have there: "oid \<noteq> er_id r \<Longrightarrow> ends_with w polls oid = ends_with v polls oid" for oid
          using ends_with_other [OF _ ids, of oid] by simp
        have "(\<forall>oid\<in>dom (w_executionIdMap w). ends_with w (p # polls) oid) \<longleftrightarrow>
            (\<forall>oid\<in>dom (w_executionIdMap v). ends_with v polls oid)"
          unfolding doms here using there by blast
        moreover have "worker_inv v" by (rule processReport_inv [OF Cons.prems(1) v])
        moreover have "\<forall>r. Some r \<in> set polls \<longrightarrow> w_executionIdMap v (er_id r) = None \<or> er_status r \<noteq> UNKNOWN"
          using Cons.prems(2) by (auto simp: ids)
        ultimately show ?thesis using Cons.IH [of v] live Some v by simp
      next
        case other: False
        then have "er_status r \<noteq> UNKNOWN" using Cons.prems(2) Some by (auto simp: final_report_def)
        from processReport_other [OF books other this] show ?thesis
          using Cons.IH [OF Cons.prems(1)] Cons.prems(2) live Some other by simp
      qed
    qed
  qed
qed

definition example_running :: Worker where
  "example_running = Worker_execute example_env (hd (w_opportunityList example_worker)) example_worker"

lemma example_running_facts:
  "worker_inv example_running" "dom (w_executionIdMap example_running) = {id_at example_env 8, id_at example_env 16}"
proof -
  let ?best = "hd (w_opportunityList example_worker)"
  have two: "map t_symbol (o_trades ?best) = [''ETHBTC'', ''ETHBTC'']"
    by code_simp
  then obtain t1 t2 where ts: "o_trades ?best = [t1, t2]" "t_symbol t1 = ''ETHBTC''" "t_symbol t2 = ''ETHBTC''"
    by (auto simp: map_eq_Cons_conv)
  have fresh: "ids_fresh example_env example_worker (length (o_trades ?best))"
    by code_simp
  have start: "w_rng example_worker = 0" "w_executionIdMap example_worker = Map.empty"
    "w_reservedTrades example_worker = {}"
    by (simp_all add: example_worker_def Worker_new_def example_paths_def Worker_add_path_def Let_def)
  have "books_ok example_running"
    unfolding example_running_def
    by (rule execute_books_ok) (use example_inv ts fresh start in \<open>auto simp: worker_inv_def\<close>)
  moreover have "opportunities_ok example_running"
    using example_inv by (simp add: example_running_def worker_inv_def opportunities_ok_def)
  ultimately show "worker_inv example_running" by (simp add: worker_inv_def)
  show "dom (w_executionIdMap example_running) = {id_at example_env 8, id_at example_env 16}"
    by (simp add: example_running_def Worker_execute_ids ts start generateId_eq insert_commute)
qed

text \<open>A run in which a report of a new order, a partial fill and one for an order nobody knows come between.\<close>

theorem drain_terminates_witness:
  "\<exists>w'. Worker_drain [Some (example_report 8 NEW), Some (example_report 16 NEW), Some (example_report 16 EXPIRED), None,
        Some ((example_report 8 FILLED)\<lparr>er_recvQty := 0\<rparr>), Some (example_report 16 EXPIRED), Some (example_report 8 FILLED)]
      example_running = Some (Inr w') \<and> idle w'"
proof -
  let ?polls = "[Some (example_report 8 NEW), Some (example_report 16 NEW), Some (example_report 16 EXPIRED), None,
    Some ((example_report 8 FILLED)\<lparr>er_recvQty := 0\<rparr>), Some (example_report 16 EXPIRED), Some (example_report 8 FILLED)]"
  have ends: "ends_with example_running ?polls (id_at example_env 8)" "ends_with example_running ?polls (id_at example_env 16)"
    by code_simp+
  have "\<forall>r. Some r \<in> set ?polls \<longrightarrow> w_executionIdMap example_running (er_id r) = None \<or> er_status r \<noteq> UNKNOWN"
    by (auto simp: example_report_def)
  from drain_terminates [OF example_running_facts(1) this] show ?thesis
    using ends by (simp only: example_running_facts(2) ball_simps if_True simp_thms)
qed

end
