(* ===== verification/Arb_Mapper.thy ===== *)
theory Arb_Mapper
  imports Opportunity_Model
begin

text \<open>
  The search for trading paths (src/Arbmapper.cpp): a directed graph with an edge for each way a
  symbol can be traded, the simple cycles of it, and every rotation of every cycle as a path.
  The graph library is not part of the sources: \<^verbatim>\<open>boost::edge\<close> and
  \<^verbatim>\<open>boost::tiernan_all_cycles\<close> are parameters, with what their documentation promises as
  hypotheses. So is the order in which the hash tables are visited. The largest length is not negative:
  the library takes it as an unsigned number.
\<close>

section \<open>The graph\<close>

record Graph =
  g_vertices :: "string list"
  g_edges :: "(nat \<times> nat \<times> Trade) list"

record graph_lib =
  gl_edge :: "Graph \<Rightarrow> nat \<Rightarrow> nat \<Rightarrow> Trade option"
  gl_cycles :: "Graph \<Rightarrow> nat \<Rightarrow> int \<Rightarrow> nat list list"
  gl_order :: "string list \<Rightarrow> string list"

definition add_vertex :: "string \<Rightarrow> Graph \<Rightarrow> nat \<times> Graph" where
  "add_vertex asset g = (length (g_vertices g), g\<lparr>g_vertices := g_vertices g @ [asset]\<rparr>)"

definition add_edge :: "nat \<Rightarrow> nat \<Rightarrow> Trade \<Rightarrow> Graph \<Rightarrow> Graph" where
  "add_edge u v t g = g\<lparr>g_edges := g_edges g @ [(u, v, t)]\<rparr>"

definition empty_graph :: Graph where
  "empty_graph = \<lparr>g_vertices = [], g_edges = []\<rparr>"

definition unique_assets :: "market \<Rightarrow> symbol_ref list \<Rightarrow> string list" where
  "unique_assets m symbols = foldl (\<lambda>assets s.
     List.insert (quoteAsset (m s)) (List.insert (baseAsset (m s)) assets)) [] symbols"

text \<open>The vertices with their map from assets, then two edges for each symbol.\<close>

definition add_assets :: "string list \<Rightarrow> Graph \<Rightarrow> (string \<rightharpoonup> nat) \<times> Graph" where
  "add_assets assets g = foldl (\<lambda>(vertexMap, g) asset.
     let (vertex, g) = add_vertex asset g in (vertexMap(asset \<mapsto> vertex), g)) (Map.empty, g) assets"

definition add_symbol :: "market \<Rightarrow> (string \<rightharpoonup> nat) \<Rightarrow> Graph \<Rightarrow> symbol_ref \<Rightarrow> Graph" where
  "add_symbol m vertexMap g s =
     (let base = value_at vertexMap (baseAsset (m s));
          quote = value_at vertexMap (quoteAsset (m s));
          g = add_edge quote base (Trade_new m s LONG) g
      in add_edge base quote (Trade_new m s SHORT) g)"

definition buildGraph :: "graph_lib \<Rightarrow> market \<Rightarrow> symbol_ref list \<Rightarrow> Graph" where
  "buildGraph lib m symbolMap =
     (let (vertexMap, g) = add_assets (gl_order lib (unique_assets m symbolMap)) empty_graph
      in foldl (add_symbol m vertexMap) g symbolMap)"

section \<open>Cycles\<close>

definition rotate_copy_with_copy_constructor :: "market \<Rightarrow> nat \<Rightarrow> Trade list \<Rightarrow> Trade list" where
  "rotate_copy_with_copy_constructor m middle trades =
     map (\<lambda>t. Trade_new m (t_symbol t) (t_position t)) (drop middle trades) @
     map (\<lambda>t. Trade_new m (t_symbol t) (t_position t)) (take middle trades)"

definition cycle_trades :: "graph_lib \<Rightarrow> Graph \<Rightarrow> nat list \<Rightarrow> Trade list" where
  "cycle_trades lib g path = foldl (\<lambda>tradePath i.
     case gl_edge lib g (path ! i) (path ! ((i + 1) mod length path)) of
       None \<Rightarrow> tradePath | Some t \<Rightarrow> tradePath @ [t]) [] [0..<length path]"

definition CycleVisitor_cycle ::
  "graph_lib \<Rightarrow> market \<Rightarrow> Graph \<Rightarrow> Trade list list \<Rightarrow> nat list \<Rightarrow> Trade list list" where
  "CycleVisitor_cycle lib m g cycles path =
     (let tradePath = cycle_trades lib g path
      in foldl (\<lambda>cycles i. cycles @ [rotate_copy_with_copy_constructor m i tradePath])
           cycles [0..<length tradePath])"

definition findCycles :: "graph_lib \<Rightarrow> market \<Rightarrow> Graph \<Rightarrow> int \<Rightarrow> Trade list list" where
  "findCycles lib m g maxDepth = foldl (CycleVisitor_cycle lib m g) [] (gl_cycles lib g 3 maxDepth)"

definition outside_assets :: "string list \<Rightarrow> Trade list \<Rightarrow> bool" where
  "outside_assets assets cycle \<longleftrightarrow>
     list_ex (\<lambda>t. t_usedCurrency t \<notin> set assets \<or> t_recvCurrency t \<notin> set assets) cycle"

definition getTradingPaths ::
  "graph_lib \<Rightarrow> market \<Rightarrow> symbol_ref list \<Rightarrow> int \<Rightarrow> string list \<Rightarrow> Trade list list" where
  "getTradingPaths lib m symbolMap maxDepth assets =
     (let cycles = findCycles lib m (buildGraph lib m symbolMap) maxDepth
      in if assets = [] then cycles else filter (\<lambda>c. \<not> outside_assets assets c) cycles)"

section \<open>What the graph library promises\<close>

definition has_edge :: "Graph \<Rightarrow> nat \<Rightarrow> nat \<Rightarrow> bool" where
  "has_edge g u v \<longleftrightarrow> (\<exists>e\<in>set (g_edges g). fst e = u \<and> fst (snd e) = v)"

text \<open>A simple cycle: the vertices in order, without the first one repeated at the end.\<close>

definition simple_cycle :: "Graph \<Rightarrow> nat list \<Rightarrow> bool" where
  "simple_cycle g vs \<longleftrightarrow> vs \<noteq> [] \<and> distinct vs \<and>
     (\<forall>i<length vs. has_edge g (vs ! i) (vs ! ((i + 1) mod length vs)))"

definition graph_lib_ok :: "graph_lib \<Rightarrow> bool" where
  "graph_lib_ok lib \<longleftrightarrow>
     (\<forall>g u v. case gl_edge lib g u v of None \<Rightarrow> \<not> has_edge g u v | Some t \<Rightarrow> (u, v, t) \<in> set (g_edges g)) \<and>
     (\<forall>g lo hi. \<forall>vs\<in>set (gl_cycles lib g lo hi). simple_cycle g vs \<and> lo \<le> length vs \<and> int (length vs) \<le> hi) \<and>
     (\<forall>g lo hi vs. simple_cycle g vs \<longrightarrow> lo \<le> length vs \<longrightarrow> int (length vs) \<le> hi \<longrightarrow>
        (\<exists>vs'\<in>set (gl_cycles lib g lo hi). \<exists>n. vs = rotate n vs')) \<and>
     (\<forall>xs. mset (gl_order lib xs) = mset xs)"

section \<open>The vertices stand for the assets\<close>

lemma unique_assets_props:
  "distinct (unique_assets m symbols) \<and>
   set (unique_assets m symbols) = (\<Union>s\<in>set symbols. {baseAsset (m s), quoteAsset (m s)})"
proof -
  have "distinct (foldl (\<lambda>as s. List.insert (quoteAsset (m s)) (List.insert (baseAsset (m s)) as)) as symbols) \<and>
     set (foldl (\<lambda>as s. List.insert (quoteAsset (m s)) (List.insert (baseAsset (m s)) as)) as symbols)
       = set as \<union> (\<Union>s\<in>set symbols. {baseAsset (m s), quoteAsset (m s)})"
    if "distinct as" for as
    using that by (induction symbols arbitrary: as) auto
  then show ?thesis by (simp add: unique_assets_def)
qed

lemma add_assets_snoc:
  "add_assets (as @ [a]) g =
     (let (vm, g') = add_assets as g
      in (vm(a \<mapsto> length (g_vertices g')), g'\<lparr>g_vertices := g_vertices g' @ [a]\<rparr>))"
  by (simp add: add_assets_def add_vertex_def split_def Let_def)

lemma add_assets_props:
  "g_vertices (snd (add_assets as empty_graph)) = as \<and> g_edges (snd (add_assets as empty_graph)) = [] \<and>
   dom (fst (add_assets as empty_graph)) = set as \<and>
   (\<forall>a i. fst (add_assets as empty_graph) a = Some i \<longrightarrow> i < length as \<and> as ! i = a)"
proof (induction as rule: rev_induct)
  case Nil
  then show ?case by (simp add: add_assets_def empty_graph_def)
next
  case (snoc a as)
  have "dom (fst (add_assets (as @ [a]) empty_graph)) = set (as @ [a])"
    using snoc by (simp add: add_assets_snoc Let_def split_def)
  moreover have "\<forall>b i. fst (add_assets (as @ [a]) empty_graph) b = Some i \<longrightarrow>
      i < length (as @ [a]) \<and> (as @ [a]) ! i = b"
    using snoc by (simp add: add_assets_snoc Let_def split_def nth_append less_SucI)
  moreover have "g_vertices (snd (add_assets (as @ [a]) empty_graph)) = as @ [a] \<and>
      g_edges (snd (add_assets (as @ [a]) empty_graph)) = []"
    using snoc by (simp add: add_assets_snoc Let_def split_def)
  ultimately show ?case by blast
qed

text \<open>An edge of the graph is a trade between the assets its ends stand for.\<close>

definition edge_ok :: "market \<Rightarrow> symbol_ref list \<Rightarrow> string list \<Rightarrow> nat \<times> nat \<times> Trade \<Rightarrow> bool" where
  "edge_ok m symbols as e = (case e of (u, v, t) \<Rightarrow>
     u < length as \<and> as ! u = t_usedCurrency t \<and> v < length as \<and> as ! v = t_recvCurrency t \<and>
     (\<exists>s\<in>set symbols. \<exists>pos. t = Trade_new m s pos))"

lemma add_symbols_edges:
  assumes "\<And>s. s \<in> set symbols \<Longrightarrow> \<exists>i j. vm (baseAsset (m s)) = Some i \<and> i < length as \<and>
      as ! i = baseAsset (m s) \<and> vm (quoteAsset (m s)) = Some j \<and> j < length as \<and> as ! j = quoteAsset (m s)"
    and "\<forall>e\<in>set (g_edges g). edge_ok m S as e" and "set symbols \<subseteq> set S"
  shows "g_vertices (foldl (add_symbol m vm) g symbols) = g_vertices g \<and>
    (\<forall>e\<in>set (g_edges (foldl (add_symbol m vm) g symbols)). edge_ok m S as e)"
  using assms
proof (induction symbols arbitrary: g)
  case (Cons s symbols)
  obtain i j where ij: "vm (baseAsset (m s)) = Some i" "i < length as" "as ! i = baseAsset (m s)"
    "vm (quoteAsset (m s)) = Some j" "j < length as" "as ! j = quoteAsset (m s)"
    using Cons.prems(1) [of s] by auto
  have "edge_ok m S as (j, i, Trade_new m s LONG)" "edge_ok m S as (i, j, Trade_new m s SHORT)"
    using ij Cons.prems(3) by (auto simp: edge_ok_def Trade_new_def)
  then have "\<forall>e\<in>set (g_edges (add_symbol m vm g s)). edge_ok m S as e"
    using Cons.prems(2) ij by (auto simp: add_symbol_def Let_def add_edge_def)
  moreover have "g_vertices (add_symbol m vm g s) = g_vertices g"
    by (simp add: add_symbol_def Let_def add_edge_def)
  ultimately show ?case
    using Cons.IH [of "add_symbol m vm g s"] Cons.prems(1,3) by simp
qed simp

lemma buildGraph_ok:
  fixes lib m symbols
  assumes "graph_lib_ok lib"
  defines "g \<equiv> buildGraph lib m symbols"
  shows "distinct (g_vertices g)" and "\<forall>e\<in>set (g_edges g). edge_ok m symbols (g_vertices g) e"
proof -
  let ?as = "gl_order lib (unique_assets m symbols)"
  let ?r = "add_assets ?as empty_graph"
  have ms: "mset ?as = mset (unique_assets m symbols)"
    using assms(1) by (simp add: graph_lib_ok_def)
  have set: "set ?as = (\<Union>s\<in>set symbols. {baseAsset (m s), quoteAsset (m s)})"
    using mset_eq_setD [OF ms] unique_assets_props by simp
  have dist: "distinct ?as"
    using mset_eq_imp_distinct_iff [OF ms] unique_assets_props by blast
  have g: "g = foldl (add_symbol m (fst ?r)) (snd ?r) symbols"
    by (simp add: g_def buildGraph_def split_def Let_def)
  have found: "\<exists>i. fst ?r a = Some i \<and> i < length ?as \<and> ?as ! i = a" if "a \<in> set ?as" for a
    using add_assets_props [of ?as] that by blast
  have "g_vertices g = g_vertices (snd ?r) \<and> (\<forall>e\<in>set (g_edges g). edge_ok m symbols ?as e)"
    unfolding g
  proof (rule add_symbols_edges)
    fix s assume "s \<in> set symbols"
    then have "baseAsset (m s) \<in> set ?as" "quoteAsset (m s) \<in> set ?as"
      unfolding set by auto
    with found show "\<exists>i j. fst ?r (baseAsset (m s)) = Some i \<and> i < length ?as \<and>
      ?as ! i = baseAsset (m s) \<and> fst ?r (quoteAsset (m s)) = Some j \<and> j < length ?as \<and> ?as ! j = quoteAsset (m s)"
      by blast
  qed (use add_assets_props [of ?as] in simp_all)
  then show "distinct (g_vertices g)" "\<forall>e\<in>set (g_edges g). edge_ok m symbols (g_vertices g) e"
    using dist add_assets_props [of ?as] by simp_all
qed

section \<open>Paths\<close>

text \<open>Every trade spends what the one before it brings in, the first what the last brings in.\<close>

definition closed_path :: "Trade list \<Rightarrow> bool" where
  "closed_path p \<longleftrightarrow> p \<noteq> [] \<and>
     (\<forall>i<length p. t_recvCurrency (p ! i) = t_usedCurrency (p ! ((i + 1) mod length p)))"

lemma closed_path_rotate:
  assumes "closed_path p"
  shows "closed_path (rotate n p)"
proof -
  let ?l = "length p"
  have l: "0 < ?l" using assms by (simp add: closed_path_def)
  have "t_recvCurrency (rotate n p ! i) = t_usedCurrency (rotate n p ! ((i + 1) mod ?l))" if "i < ?l" for i
  proof -
    have "t_recvCurrency (p ! ((n + i) mod ?l)) = t_usedCurrency (p ! (((n + i) mod ?l + 1) mod ?l))"
      using assms l by (simp add: closed_path_def)
    moreover have "((n + i) mod ?l + 1) mod ?l = (n + (i + 1) mod ?l) mod ?l"
      by (simp add: mod_simps ac_simps)
    ultimately show ?thesis
      using that l by (simp add: nth_rotate)
  qed
  then show ?thesis using l by (simp add: closed_path_def)
qed

lemma foldl_collect:
  assumes "\<And>i. i \<in> set is \<Longrightarrow> f i = Some (g i)"
  shows "foldl (\<lambda>acc i. case f i of None \<Rightarrow> acc | Some t \<Rightarrow> acc @ [t]) acc is = acc @ map g is"
  using assms by (induction "is" arbitrary: acc) auto

lemma cycle_trades_eq:
  assumes "graph_lib_ok lib" and "simple_cycle g vs"
  shows "\<exists>t. (\<forall>i<length vs. gl_edge lib g (vs ! i) (vs ! ((i + 1) mod length vs)) = Some (t i) \<and>
      (vs ! i, vs ! ((i + 1) mod length vs), t i) \<in> set (g_edges g)) \<and>
    cycle_trades lib g vs = map t [0..<length vs]"
proof -
  have law: "case gl_edge lib g u v of None \<Rightarrow> \<not> has_edge g u v | Some t \<Rightarrow> (u, v, t) \<in> set (g_edges g)" for u v
    using assms(1) by (simp add: graph_lib_ok_def)
  let ?e = "\<lambda>i. gl_edge lib g (vs ! i) (vs ! ((i + 1) mod length vs))"
  have found: "?e i = Some (the (?e i)) \<and> (vs ! i, vs ! ((i + 1) mod length vs), the (?e i)) \<in> set (g_edges g)"
    if "i < length vs" for i
  proof -
    have "has_edge g (vs ! i) (vs ! ((i + 1) mod length vs))"
      using assms(2) that by (simp add: simple_cycle_def)
    with law [of "vs ! i" "vs ! ((i + 1) mod length vs)"] show ?thesis
      by (simp split: option.splits)
  qed
  moreover have "cycle_trades lib g vs = [] @ map (\<lambda>i. the (?e i)) [0..<length vs]"
    unfolding cycle_trades_def by (rule foldl_collect) (use found in auto)
  ultimately show ?thesis by (intro exI [of _ "\<lambda>i. the (?e i)"]) simp
qed

lemma rotate_copy_eq:
  assumes "\<And>t. t \<in> set ts \<Longrightarrow> \<exists>s pos. t = Trade_new m s pos" and "i < length ts"
  shows "rotate_copy_with_copy_constructor m i ts = rotate i ts"
proof -
  have id: "map (\<lambda>t. Trade_new m (t_symbol t) (t_position t)) us = us" if "set us \<subseteq> set ts" for us
    using assms(1) that by (intro map_idI) (force simp: Trade_new_def)
  have "rotate i ts = drop i ts @ take i ts"
    using assms(2) by (simp add: rotate_drop_take)
  then show ?thesis
    by (simp add: rotate_copy_with_copy_constructor_def id set_drop_subset set_take_subset)
qed

text \<open>What every path offered to the worker is.\<close>

definition trading_path :: "market \<Rightarrow> symbol_ref list \<Rightarrow> int \<Rightarrow> Trade list \<Rightarrow> bool" where
  "trading_path m symbols maxDepth p \<longleftrightarrow>
     3 \<le> length p \<and> int (length p) \<le> maxDepth \<and> closed_path p \<and>
     distinct (map t_usedCurrency p) \<and>
     (\<forall>t\<in>set p. \<exists>s\<in>set symbols. \<exists>pos. t = Trade_new m s pos)"

lemma trading_path_rotate:
  "trading_path m symbols d p \<Longrightarrow> trading_path m symbols d (rotate n p)"
  by (simp add: trading_path_def closed_path_rotate flip: rotate_map)

lemma cycle_trades_path:
  assumes lib: "graph_lib_ok lib" and cyc: "simple_cycle (buildGraph lib m symbols) vs"
    and len: "3 \<le> length vs" "int (length vs) \<le> d"
  shows "trading_path m symbols d (cycle_trades lib (buildGraph lib m symbols) vs)"
proof -
  let ?g = "buildGraph lib m symbols"
  let ?n = "\<lambda>i. (i + 1) mod length vs"
  obtain t where t: "\<And>i. i < length vs \<Longrightarrow> (vs ! i, vs ! ?n i, t i) \<in> set (g_edges ?g)"
    and eq: "cycle_trades lib ?g vs = map t [0..<length vs]"
    using cycle_trades_eq [OF lib cyc] by blast
  have ok: "edge_ok m symbols (g_vertices ?g) (vs ! i, vs ! ?n i, t i)" if "i < length vs" for i
    using buildGraph_ok(2) [OF lib] t [OF that] by blast
  have used: "t_usedCurrency (t i) = g_vertices ?g ! (vs ! i)" "vs ! i < length (g_vertices ?g)"
    and recv: "t_recvCurrency (t i) = g_vertices ?g ! (vs ! ?n i)" if "i < length vs" for i
    using ok [OF that] by (auto simp: edge_ok_def)
  have pos: "0 < length vs" using len(1) by linarith
  then have "closed_path (map t [0..<length vs])"
    using recv used(1) by (auto simp: closed_path_def)
  moreover have "distinct (map t_usedCurrency (map t [0..<length vs]))"
  proof -
    have "map t_usedCurrency (map t [0..<length vs]) = map (\<lambda>v. g_vertices ?g ! v) (map ((!) vs) [0..<length vs])"
      by (simp add: used(1))
    also have "\<dots> = map (\<lambda>v. g_vertices ?g ! v) vs" by (simp only: map_nth)
    finally have "map t_usedCurrency (map t [0..<length vs]) = map (\<lambda>v. g_vertices ?g ! v) vs" .
    moreover have "inj_on (\<lambda>v. g_vertices ?g ! v) (set vs)"
    proof (rule inj_on_subset [of _ "{..<length (g_vertices ?g)}"])
      show "inj_on ((!) (g_vertices ?g)) {..<length (g_vertices ?g)}"
        using buildGraph_ok(1) [OF lib, of m symbols] by (simp add: inj_on_nth)
      show "set vs \<subseteq> {..<length (g_vertices ?g)}"
        using used(2) by (auto simp: in_set_conv_nth)
    qed
    ultimately show ?thesis
      using cyc by (simp add: distinct_map simple_cycle_def)
  qed
  moreover have "\<forall>x\<in>set (map t [0..<length vs]). \<exists>s\<in>set symbols. \<exists>pos. x = Trade_new m s pos"
    using ok by (auto simp: edge_ok_def)
  ultimately show ?thesis
    unfolding eq trading_path_def using len by simp
qed

lemma foldl_append_map: "foldl (\<lambda>acc i. acc @ [f i]) acc is = acc @ map f is"
  by (induction "is" arbitrary: acc) auto

lemma CycleVisitor_eq:
  assumes "trading_path m symbols d (cycle_trades lib g vs)"
  shows "CycleVisitor_cycle lib m g cycles vs =
    cycles @ map (\<lambda>i. rotate i (cycle_trades lib g vs)) [0..<length (cycle_trades lib g vs)]"
proof -
  have "rotate_copy_with_copy_constructor m i (cycle_trades lib g vs) = rotate i (cycle_trades lib g vs)"
    if "i < length (cycle_trades lib g vs)" for i
    using assms that by (intro rotate_copy_eq) (unfold trading_path_def, blast+)
  then show ?thesis
    by (simp add: CycleVisitor_cycle_def Let_def foldl_append_map)
qed

lemma findCycles_eq:
  fixes lib m symbols d
  assumes lib: "graph_lib_ok lib"
  defines "g \<equiv> buildGraph lib m symbols"
  shows "findCycles lib m g d =
    concat (map (\<lambda>vs. map (\<lambda>i. rotate i (cycle_trades lib g vs)) [0..<length (cycle_trades lib g vs)])
      (gl_cycles lib g 3 d))"
proof -
  have "\<forall>vs\<in>set (gl_cycles lib g 3 d). trading_path m symbols d (cycle_trades lib g vs)"
    using lib cycle_trades_path [OF lib, of m symbols] unfolding g_def graph_lib_ok_def by blast
  moreover have "foldl (CycleVisitor_cycle lib m g) acc L = acc @
      concat (map (\<lambda>vs. map (\<lambda>i. rotate i (cycle_trades lib g vs)) [0..<length (cycle_trades lib g vs)]) L)"
    if "\<forall>vs\<in>set L. trading_path m symbols d (cycle_trades lib g vs)" for acc L
    using that by (induction L arbitrary: acc) (auto simp: CycleVisitor_eq)
  ultimately show ?thesis by (simp add: findCycles_def)
qed

lemma findCycles_member:
  assumes lib: "graph_lib_ok lib"
  shows "p \<in> set (findCycles lib m (buildGraph lib m symbols) d) \<longleftrightarrow>
    (\<exists>vs\<in>set (gl_cycles lib (buildGraph lib m symbols) 3 d). \<exists>n.
       p = rotate n (cycle_trades lib (buildGraph lib m symbols) vs))"
proof -
  have "(\<exists>i<length c. p = rotate i c) \<longleftrightarrow> (\<exists>n. p = rotate n c)" if "c \<noteq> []" for c :: "Trade list"
    using that by (metis length_greater_0_conv mod_less_divisor rotate_conv_mod)
  moreover have "cycle_trades lib (buildGraph lib m symbols) vs \<noteq> []"
    if "vs \<in> set (gl_cycles lib (buildGraph lib m symbols) 3 d)" for vs
  proof -
    have "trading_path m symbols d (cycle_trades lib (buildGraph lib m symbols) vs)"
      using lib that cycle_trades_path [OF lib, of m symbols] unfolding graph_lib_ok_def by blast
    then show ?thesis by (auto simp: trading_path_def)
  qed
  moreover have "p \<in> set (map (\<lambda>i. rotate i c) [0..<length c]) \<longleftrightarrow> (\<exists>i<length c. p = rotate i c)"
    for c :: "Trade list" by auto
  ultimately have mem: "p \<in> set (map (\<lambda>i. rotate i (cycle_trades lib (buildGraph lib m symbols) vs))
        [0..<length (cycle_trades lib (buildGraph lib m symbols) vs)]) \<longleftrightarrow>
      (\<exists>n. p = rotate n (cycle_trades lib (buildGraph lib m symbols) vs))"
    if "vs \<in> set (gl_cycles lib (buildGraph lib m symbols) 3 d)" for vs
    using that by simp
  show ?thesis
    unfolding findCycles_eq [OF lib] set_concat set_map [of _ "gl_cycles _ _ _ _"] UN_iff bex_simps(7)
    by (rule bex_cong [OF refl mem])
qed

lemma findCycles_paths:
  assumes lib: "graph_lib_ok lib" and p: "p \<in> set (findCycles lib m (buildGraph lib m symbols) d)"
  shows "trading_path m symbols d p"
proof -
  obtain vs n where vs: "vs \<in> set (gl_cycles lib (buildGraph lib m symbols) 3 d)"
    and p: "p = rotate n (cycle_trades lib (buildGraph lib m symbols) vs)"
    using p findCycles_member [OF lib] by blast
  have "trading_path m symbols d (cycle_trades lib (buildGraph lib m symbols) vs)"
    using lib vs cycle_trades_path [OF lib, of m symbols] unfolding graph_lib_ok_def by blast
  then show ?thesis unfolding p by (rule trading_path_rotate)
qed

text \<open>A graph library that keeps its promises, and a market with one triangle.\<close>

definition graph_lib_ref :: graph_lib where
  "graph_lib_ref =
     \<lparr>gl_edge = (\<lambda>g u v. map_option (snd \<circ> snd) (List.find (\<lambda>e. fst e = u \<and> fst (snd e) = v) (g_edges g))),
      gl_cycles = (\<lambda>g lo hi. filter (simple_cycle g)
        (concat (map (\<lambda>n. List.n_lists n (remdups (map fst (g_edges g)))) [lo..<Suc (nat hi)]))),
      gl_order = (\<lambda>xs. xs)\<rparr>"

definition triangle :: market where
  "triangle r = example_symbol\<lparr>symbol := r,
     baseAsset := (if r = ''ETHBTC'' then ''ETH'' else if r = ''BNBETH'' then ''BNB'' else ''BNB''),
     quoteAsset := (if r = ''ETHBTC'' then ''BTC'' else if r = ''BNBETH'' then ''ETH'' else ''BTC'')\<rparr>"

definition triangle_symbols :: "symbol_ref list" where
  "triangle_symbols = [''ETHBTC'', ''BNBETH'', ''BNBBTC'']"

lemma graph_lib_ref_ok: "graph_lib_ok graph_lib_ref"
proof -
  have edge: "case gl_edge graph_lib_ref g u v of None \<Rightarrow> \<not> has_edge g u v
      | Some t \<Rightarrow> (u, v, t) \<in> set (g_edges g)" for g u v
  proof (cases "List.find (\<lambda>e. fst e = u \<and> fst (snd e) = v) (g_edges g)")
    case None
    then have "\<not> has_edge g u v" by (auto simp: has_edge_def find_None_iff)
    moreover have "gl_edge graph_lib_ref g u v = None"
      by (simp add: graph_lib_ref_def None del: find_None_iff)
    ultimately show ?thesis by simp
  next
    case (Some e)
    then have "e \<in> set (g_edges g)" "fst e = u" "fst (snd e) = v"
      by (auto simp: find_Some_iff)
    with Some show ?thesis by (cases e) (simp add: graph_lib_ref_def)
  qed
  have sound: "simple_cycle g vs \<and> lo \<le> length vs \<and> int (length vs) \<le> hi"
    if "vs \<in> set (gl_cycles graph_lib_ref g lo hi)" for g lo hi vs
  proof -
    from that have "simple_cycle g vs" "lo \<le> length vs" "length vs \<le> nat hi"
      by (auto simp: graph_lib_ref_def set_n_lists)
    moreover from this(1) have "length vs \<noteq> 0" by (simp add: simple_cycle_def)
    ultimately show ?thesis by linarith
  qed
  have complete: "\<exists>vs'\<in>set (gl_cycles graph_lib_ref g lo hi). \<exists>n. vs = rotate n vs'"
    if "simple_cycle g vs" "lo \<le> length vs" "int (length vs) \<le> hi" for g lo hi vs
  proof -
    have "set vs \<subseteq> fst ` set (g_edges g)"
    proof
      fix x assume "x \<in> set vs"
      then obtain i where i: "i < length vs" "x = vs ! i" by (auto simp: in_set_conv_nth)
      then have "has_edge g x (vs ! ((i + 1) mod length vs))"
        using that(1) unfolding simple_cycle_def by blast
      then show "x \<in> fst ` set (g_edges g)" unfolding has_edge_def by blast
    qed
    then have "vs \<in> set (gl_cycles graph_lib_ref g lo hi)"
      using that by (auto simp: graph_lib_ref_def set_n_lists)
    then show ?thesis by (intro bexI [of _ vs] exI [of _ 0]) simp_all
  qed
  show ?thesis
    unfolding graph_lib_ok_def
  proof (intro conjI allI ballI impI)
    fix xs show "mset (gl_order graph_lib_ref xs) = mset xs" by (simp add: graph_lib_ref_def)
  qed (use edge sound complete in blast)+
qed

lemma triangle_facts:
  "length (getTradingPaths graph_lib_ref triangle triangle_symbols 3 []) = 18"
  "simple_cycle (buildGraph graph_lib_ref triangle triangle_symbols) [0, 1, 2]"
  by code_simp+

text \<open>C28. Every path handed to a worker is a closed cycle of at least three and at most the
  configured number of trades on known symbols: each trade spends the asset the one before it
  brings in, no asset is visited twice, and with a list of assets configured, no other asset
  is touched.\<close>

theorem trading_paths_sound:
  assumes "graph_lib_ok lib" and "p \<in> set (getTradingPaths lib m symbols maxDepth assets)"
  shows "trading_path m symbols maxDepth p \<and> (assets = [] \<or> \<not> outside_assets assets p)"
  using assms by (auto simp: getTradingPaths_def Let_def intro: findCycles_paths split: if_splits)

theorem trading_paths_sound_witness:
  "trading_path triangle triangle_symbols 3 (hd (getTradingPaths graph_lib_ref triangle triangle_symbols 3 []))"
proof -
  have "getTradingPaths graph_lib_ref triangle triangle_symbols 3 [] \<noteq> []"
    using triangle_facts(1) by auto
  then show ?thesis
    using trading_paths_sound [OF graph_lib_ref_ok list.set_sel(1)] by blast
qed

lemma cycle_trades_the:
  assumes "graph_lib_ok lib" and "simple_cycle g vs"
  shows "cycle_trades lib g vs =
    map (\<lambda>i. the (gl_edge lib g (vs ! i) (vs ! ((i + 1) mod length vs)))) [0..<length vs]"
proof -
  obtain t where t: "\<forall>i<length vs. gl_edge lib g (vs ! i) (vs ! ((i + 1) mod length vs)) = Some (t i)"
    and eq: "cycle_trades lib g vs = map t [0..<length vs]"
    using cycle_trades_eq [OF assms] by blast
  show ?thesis unfolding eq by (rule map_cong) (use t in auto)
qed

lemma cycle_trades_rotate:
  assumes "graph_lib_ok lib" and "simple_cycle g vs" and "simple_cycle g (rotate k vs)"
  shows "cycle_trades lib g (rotate k vs) = rotate k (cycle_trades lib g vs)"
proof (rule nth_equalityI)
  show "length (cycle_trades lib g (rotate k vs)) = length (rotate k (cycle_trades lib g vs))"
    by (simp add: cycle_trades_the [OF assms(1,2)] cycle_trades_the [OF assms(1,3)])
next
  fix i assume "i < length (cycle_trades lib g (rotate k vs))"
  then have i: "i < length vs" by (simp add: cycle_trades_the [OF assms(1,3)])
  then have pos: "0 < length vs" by linarith
  have "(k + (i + 1) mod length vs) mod length vs = ((k + i) mod length vs + 1) mod length vs"
    by (simp add: mod_simps ac_simps)
  with i pos show "cycle_trades lib g (rotate k vs) ! i = rotate k (cycle_trades lib g vs) ! i"
    by (simp add: cycle_trades_the [OF assms(1,2)] cycle_trades_the [OF assms(1,3)] nth_rotate)
qed

lemma outside_assets_rotate [simp]: "outside_assets assets (rotate n p) \<longleftrightarrow> outside_assets assets p"
  by (simp add: outside_assets_def list_ex_iff)

text \<open>C29. The search misses nothing: for every simple cycle of assets within the bounds, whatever
  asset it is written from, the path of its trades is among the results unless it leaves the
  configured assets; so each cycle is offered from every asset
  it can be started with.\<close>

theorem trading_paths_complete:
  assumes "graph_lib_ok lib" and "simple_cycle (buildGraph lib m symbols) vs"
    and "3 \<le> length vs" and "int (length vs) \<le> maxDepth"
    and "assets = [] \<or> \<not> outside_assets assets (cycle_trades lib (buildGraph lib m symbols) vs)"
  shows "rotate n (cycle_trades lib (buildGraph lib m symbols) vs)
    \<in> set (getTradingPaths lib m symbols maxDepth assets)"
proof -
  let ?g = "buildGraph lib m symbols"
  obtain vs' k where vs': "vs' \<in> set (gl_cycles lib ?g 3 maxDepth)" and vs: "vs = rotate k vs'"
  proof -
    have "\<exists>vs'\<in>set (gl_cycles lib ?g 3 maxDepth). \<exists>n. vs = rotate n vs'"
      using assms(1-4) unfolding graph_lib_ok_def by blast
    then show thesis using that by blast
  qed
  have simple: "simple_cycle ?g vs'"
    using assms(1) vs' by (simp add: graph_lib_ok_def)
  have "cycle_trades lib ?g vs = rotate k (cycle_trades lib ?g vs')"
    unfolding vs by (rule cycle_trades_rotate [OF assms(1) simple]) (use assms(2) vs in simp)
  then have "rotate n (cycle_trades lib ?g vs) = rotate (n + k) (cycle_trades lib ?g vs')"
    by (simp add: rotate_rotate)
  then have "rotate n (cycle_trades lib ?g vs) \<in> set (findCycles lib m ?g maxDepth)"
    unfolding findCycles_member [OF assms(1)] using vs' by blast
  then show ?thesis
    using assms(5) by (auto simp: getTradingPaths_def Let_def)
qed

theorem trading_paths_complete_witness:
  "rotate 2 (cycle_trades graph_lib_ref (buildGraph graph_lib_ref triangle triangle_symbols) [0, 1, 2])
    \<in> set (getTradingPaths graph_lib_ref triangle triangle_symbols 3 [])"
  by (rule trading_paths_complete [OF graph_lib_ref_ok triangle_facts(2)]) simp_all

end
