(* ===== verification/Message_Order.thy ===== *)
theory Message_Order
  imports Main
begin

text \<open>
  The orders in which the fields of a message are kept (flashfix/include/MessageSorters.h,
  flashfix/src/MessageSorters.cpp). A tag is an integer. The array of a group order is a list,
  zero-filled when it is created; a tag indexes it by \<open>nat\<close>. The locale \<open>tag_order\<close> is what the
  field map asks of an order; every mode of \<open>message_order\<close> is shown to provide it.
\<close>

section \<open>The tags the engine names\<close>

abbreviation (input) "TAG_BeginString \<equiv> 8 :: int"
abbreviation (input) "TAG_BodyLength \<equiv> 9 :: int"
abbreviation (input) "TAG_CheckSum \<equiv> 10 :: int"
abbreviation (input) "TAG_MsgType \<equiv> 35 :: int"
abbreviation (input) "TAG_Signature \<equiv> 89 :: int"
abbreviation (input) "TAG_SignatureLength \<equiv> 93 :: int"

section \<open>The comparisons\<close>

definition header_getOrderedPosition :: "int \<Rightarrow> int" where
  "header_getOrderedPosition field =
     (if field = TAG_BeginString then 1 else if field = TAG_BodyLength then 2
      else if field = TAG_MsgType then 3 else 0)"

definition header_compare :: "int \<Rightarrow> int \<Rightarrow> bool" where
  "header_compare x y =
     (let orderedX = header_getOrderedPosition x; orderedY = header_getOrderedPosition y in
      if orderedX \<noteq> 0 \<and> orderedY \<noteq> 0 then orderedX < orderedY
      else if orderedX \<noteq> 0 then True
      else if orderedY \<noteq> 0 then False
      else x < y)"

definition trailer_getOrderedPosition :: "int \<Rightarrow> int" where
  "trailer_getOrderedPosition field =
     (if field = TAG_SignatureLength then 1 else if field = TAG_Signature then 2 else 0)"

definition trailer_compare :: "int \<Rightarrow> int \<Rightarrow> bool" where
  "trailer_compare x y =
     (if x = TAG_CheckSum then False
      else if y = TAG_CheckSum then True
      else
        let orderedX = trailer_getOrderedPosition x; orderedY = trailer_getOrderedPosition y in
        if orderedX \<noteq> 0 \<and> orderedY \<noteq> 0 then orderedX < orderedY
        else if orderedX \<noteq> 0 then True
        else if orderedY \<noteq> 0 then False
        else x < y)"

text \<open>Tags are not negative: with a negative one the code reads in front of its array.\<close>

definition group_compare :: "int \<Rightarrow> int \<Rightarrow> int list \<Rightarrow> int \<Rightarrow> bool" where
  "group_compare x y order largest =
     (if x \<le> largest \<and> y \<le> largest then
        let iX = order ! nat x; iY = order ! nat y in
        if iX = 0 \<and> iY = 0 then x < y
        else if iX = 0 then False
        else if iY = 0 then True
        else iX < iY
      else if x \<le> largest then True
      else if y \<le> largest then False
      else x < y)"

datatype cmp_mode = header_mode | trailer_mode | normal_mode | group_mode

record message_order =
  mo_mode :: cmp_mode
  mo_delim :: int
  mo_groupOrder :: "int list"
  mo_largest :: int

definition message_order_new :: "cmp_mode \<Rightarrow> message_order" where
  "message_order_new mode = \<lparr>mo_mode = mode, mo_delim = 0, mo_groupOrder = [], mo_largest = 0\<rparr>"

definition message_order_less :: "message_order \<Rightarrow> int \<Rightarrow> int \<Rightarrow> bool" where
  "message_order_less mo x y =
     (case mo_mode mo of
        header_mode \<Rightarrow> header_compare x y
      | trailer_mode \<Rightarrow> trailer_compare x y
      | group_mode \<Rightarrow> group_compare x y (mo_groupOrder mo) (mo_largest mo)
      | normal_mode \<Rightarrow> x < y)"

definition message_order_nonempty :: "message_order \<Rightarrow> bool" where
  "message_order_nonempty mo = (mo_groupOrder mo \<noteq> [])"

text \<open>Writing the positions into the array: \<open>i\<close> fields have been written.\<close>

fun write_order :: "int list \<Rightarrow> nat \<Rightarrow> int list \<Rightarrow> int list" where
  "write_order [] i arr = arr"
| "write_order (field # order) i arr = write_order order (i + 1) (arr[nat field := int i + 1])"

definition order_array :: "int list \<Rightarrow> int \<Rightarrow> int list" where
  "order_array order largest = write_order order 0 (replicate (nat (largest + 1)) 0)"

definition message_order_setOrder :: "int list \<Rightarrow> message_order \<Rightarrow> message_order" where
  "message_order_setOrder order mo =
     (if length order < 1 then mo
      else let largest = foldl (\<lambda>m field. if m > field then m else field) (hd order) (tl order) in
        mo\<lparr>mo_largest := largest, mo_delim := hd order, mo_groupOrder := order_array order largest\<rparr>)"

text \<open>The constructors from an array: up to its first zero, or of a given size.\<close>

definition message_order_of :: "int list \<Rightarrow> message_order" where
  "message_order_of order = message_order_setOrder (takeWhile (\<lambda>f. f \<noteq> 0) order) (message_order_new group_mode)"

definition message_order_of_size :: "int list \<Rightarrow> nat \<Rightarrow> message_order" where
  "message_order_of_size order n = message_order_setOrder (take n order) (message_order_new group_mode)"

text \<open>The constructor from an argument list, which a zero ends.\<close>

definition message_order_of_args :: "int \<Rightarrow> int list \<Rightarrow> message_order" where
  "message_order_of_args first args =
     (let order = takeWhile (\<lambda>f. f \<noteq> 0) (first # args);
          largest = foldl (\<lambda>m field. if m > field then m else field) first order
      in if order \<noteq> []
         then \<lparr>mo_mode = group_mode, mo_delim = first, mo_groupOrder = order_array order largest,
               mo_largest = largest\<rparr>
         else \<lparr>mo_mode = group_mode, mo_delim = 0, mo_groupOrder = [], mo_largest = 0\<rparr>)"

section \<open>The interface\<close>

locale tag_order =
  fixes less :: "int \<Rightarrow> int \<Rightarrow> bool"
  assumes irrefl: "\<not> less x x"
    and trans: "less x y \<Longrightarrow> less y z \<Longrightarrow> less x z"
    and total: "x \<noteq> y \<Longrightarrow> less x y \<or> less y x"
begin

lemma asym: "less x y \<Longrightarrow> \<not> less y x"
  using trans irrefl by blast

lemma neither: "\<not> less x y \<Longrightarrow> \<not> less y x \<Longrightarrow> x = y"
  using total by blast

lemma not_less_trans: "\<not> less y x \<Longrightarrow> \<not> less z y \<Longrightarrow> \<not> less z x"
  using trans total by metis

lemma less_not_less: "less x y \<Longrightarrow> \<not> less z y \<Longrightarrow> less x z"
  using trans total by metis

end

text \<open>Every comparison of the engine orders tags by a key.\<close>

lemma tag_order_by_key:
  fixes key :: "int \<Rightarrow> int \<times> int" and cmp :: "int \<Rightarrow> int \<Rightarrow> bool"
  assumes "inj key"
    and "\<And>x y. cmp x y \<longleftrightarrow> fst (key x) < fst (key y) \<or> fst (key x) = fst (key y) \<and> snd (key x) < snd (key y)"
  shows "tag_order cmp"
proof
  fix x y z
  show "\<not> cmp x x" by (simp add: assms(2))
  show "cmp x y \<Longrightarrow> cmp y z \<Longrightarrow> cmp x z" by (auto simp: assms(2))
  assume "x \<noteq> y"
  then have "key x \<noteq> key y" using assms(1) by (auto dest: injD)
  then show "cmp x y \<or> cmp y x"
    by (auto simp: assms(2) prod_eq_iff neq_iff)
qed

interpretation header: tag_order header_compare
  by (rule tag_order_by_key [where key = "\<lambda>x.
        (if header_getOrderedPosition x \<noteq> 0 then (0, header_getOrderedPosition x) else (1, x))"])
    (auto simp: inj_def header_compare_def header_getOrderedPosition_def Let_def split: if_splits)

interpretation trailer: tag_order trailer_compare
  by (rule tag_order_by_key [where key = "\<lambda>x. (if x = TAG_CheckSum then (2, 0)
        else if trailer_getOrderedPosition x \<noteq> 0 then (0, trailer_getOrderedPosition x) else (1, x))"])
    (auto simp: inj_def trailer_compare_def trailer_getOrderedPosition_def Let_def split: if_splits)

interpretation normal: tag_order "(<)"
  by unfold_locales auto

section \<open>Group orders\<close>

text \<open>
  The array after \<open>n\<close> writes: entry 0 is never written, written entries are pairwise different.
\<close>

definition positions_ok :: "int list \<Rightarrow> nat \<Rightarrow> bool" where
  "positions_ok arr n \<longleftrightarrow> arr ! 0 = 0 \<and> (\<forall>j<length arr. 0 \<le> arr ! j \<and> arr ! j \<le> int n) \<and>
     (\<forall>j<length arr. \<forall>k<length arr. arr ! j = arr ! k \<longrightarrow> arr ! j \<noteq> 0 \<longrightarrow> j = k)"

lemma positions_ok_update:
  assumes ok: "positions_ok arr n" and f: "0 < field"
  shows "positions_ok (arr[nat field := int n + 1]) (Suc n)"
proof -
  have le: "j < length arr \<Longrightarrow> 0 \<le> arr ! j \<and> arr ! j \<le> int n" for j
    using ok by (simp add: positions_ok_def)
  have inj: "j < length arr \<Longrightarrow> k < length arr \<Longrightarrow> arr ! j = arr ! k \<Longrightarrow> arr ! j \<noteq> 0 \<Longrightarrow> j = k" for j k
    using ok by (simp add: positions_ok_def)
  have ne: "arr ! j \<noteq> int n + 1" if "j < length arr" for j
    using le [OF that] by linarith
  show ?thesis
    unfolding positions_ok_def length_list_update
  proof (intro conjI allI impI)
    show "arr[nat field := int n + 1] ! 0 = 0"
      using ok f by (simp add: positions_ok_def nth_list_update_neq)
  next
    fix j assume j: "j < length arr"
    show "0 \<le> arr[nat field := int n + 1] ! j"
      using le [OF j] j by (cases "j = nat field") (simp_all add: nth_list_update)
    show "arr[nat field := int n + 1] ! j \<le> int (Suc n)"
      using le [OF j] j by (cases "j = nat field") (simp_all add: nth_list_update)
  next
    fix j k assume jk: "j < length arr" "k < length arr"
      and eq: "arr[nat field := int n + 1] ! j = arr[nat field := int n + 1] ! k"
      and nz: "arr[nat field := int n + 1] ! j \<noteq> 0"
    show "j = k"
      using jk eq nz ne [OF jk(1)] ne [OF jk(2)] inj [OF jk]
      by (cases "j = nat field"; cases "k = nat field") simp_all
  qed
qed

lemma positions_ok_write:
  "positions_ok arr i \<Longrightarrow> \<forall>t\<in>set order. 0 < t \<Longrightarrow> positions_ok (write_order order i arr) (i + length order)"
proof (induction order arbitrary: i arr)
  case (Cons t order)
  then show ?case
    using positions_ok_update [of arr i t] Cons.IH [of "arr[nat t := int i + 1]" "Suc i"] by simp
qed simp

lemma length_write_order [simp]: "length (write_order order i arr) = length arr"
  by (induction order arbitrary: i arr) simp_all

lemma group_compare_order:
  assumes pos: "\<forall>t\<in>set order. 0 < t" and largest: "0 \<le> largest"
  shows "tag_order (\<lambda>x y. group_compare x y (order_array order largest) largest)"
proof -
  let ?arr = "order_array order largest"
  have len: "length ?arr = nat (largest + 1)" by (simp add: order_array_def)
  have ok: "positions_ok ?arr (length order)"
    unfolding order_array_def
    using positions_ok_write [of "replicate (nat (largest + 1)) 0" 0 order] pos largest
    by (simp add: positions_ok_def nth_Cons')
  have range: "nat x < length ?arr" if "x \<le> largest" for x
    using that largest len by linarith
  have inj: "x = y" if "x \<le> largest" "y \<le> largest" "?arr ! nat x = ?arr ! nat y" "?arr ! nat x \<noteq> 0" for x y
  proof -
    have "nat x = nat y" using ok range that by (simp add: positions_ok_def)
    moreover have "nat x \<noteq> 0"
    proof
      assume "nat x = 0"
      then show False using ok that(4) by (simp only: positions_ok_def)
    qed
    ultimately show ?thesis by simp
  qed
  let ?key = "\<lambda>x. if x \<le> largest then (if ?arr ! nat x \<noteq> 0 then (0 :: int, ?arr ! nat x) else (1, x)) else (2, x)"
  show ?thesis
  proof (rule tag_order_by_key [where key = ?key])
    show "inj ?key"
    proof (rule injI)
      fix x y assume "?key x = ?key y"
      then show "x = y" using inj [of x y] by (simp split: if_splits)
    qed
  next
    fix x y
    show "group_compare x y ?arr largest \<longleftrightarrow>
      fst (?key x) < fst (?key y) \<or> fst (?key x) = fst (?key y) \<and> snd (?key x) < snd (?key y)"
      by (simp add: group_compare_def Let_def)
  qed
qed

lemma largest_of_positive:
  "\<forall>t\<in>set order. 0 < t \<Longrightarrow> 0 \<le> m \<Longrightarrow> 0 \<le> foldl (\<lambda>m field. if m > field then m else field) m (order :: int list)"
  by (induction order arbitrary: m) auto

text \<open>The orders that the constructors build from positive tags.\<close>

definition order_ok :: "message_order \<Rightarrow> bool" where
  "order_ok mo \<longleftrightarrow> (mo_mode mo = group_mode \<longrightarrow>
     (\<exists>order. (\<forall>t\<in>set order. 0 < t) \<and> 0 \<le> mo_largest mo \<and>
        mo_groupOrder mo = order_array order (mo_largest mo)))"

lemma order_ok_new [simp]: "mode \<noteq> group_mode \<Longrightarrow> order_ok (message_order_new mode)"
  by (simp add: order_ok_def message_order_new_def)

lemma order_ok_setOrder:
  assumes "order \<noteq> []" and "\<forall>t\<in>set order. 0 < t"
  shows "order_ok (message_order_setOrder order mo)"
proof -
  have "0 \<le> foldl (\<lambda>m field. if m > field then m else field) (hd order) (tl order)"
    using assms by (intro largest_of_positive) (auto intro: less_imp_le dest: list.set_sel)
  then show ?thesis
    using assms by (auto simp: order_ok_def message_order_setOrder_def Let_def)
qed

lemma takeWhile_positive: "\<forall>t\<in>set order. 0 < t \<Longrightarrow> takeWhile (\<lambda>f. f \<noteq> 0) order = (order :: int list)"
  by (auto simp: takeWhile_eq_all_conv)

lemma order_ok_of:
  assumes "order \<noteq> []" and "\<forall>t\<in>set order. 0 < t"
  shows "order_ok (message_order_of order)"
  unfolding message_order_of_def takeWhile_positive [OF assms(2)] by (rule order_ok_setOrder [OF assms])

lemma order_ok_of_args:
  assumes "0 < first" and "\<forall>t\<in>set args. 0 < t"
  shows "order_ok (message_order_of_args first args)"
proof -
  have "takeWhile (\<lambda>f. f \<noteq> 0) (first # args) = first # args"
    using assms by (auto simp: takeWhile_eq_all_conv)
  then have eq: "message_order_of_args first args =
    \<lparr>mo_mode = group_mode, mo_delim = first,
      mo_groupOrder = order_array (first # args) (foldl (\<lambda>m field. if m > field then m else field) first (first # args)),
      mo_largest = foldl (\<lambda>m field. if m > field then m else field) first (first # args)\<rparr>"
    by (simp only: message_order_of_args_def Let_def if_True list.distinct not_False_eq_True)
  have "0 \<le> foldl (\<lambda>m field. if m > field then m else field) first (first # args)"
    using assms by (intro largest_of_positive) auto
  then show ?thesis
    using assms unfolding eq order_ok_def by (intro impI exI [of _ "first # args"]) auto
qed

lemma message_order_ok:
  assumes "order_ok mo"
  shows "tag_order (message_order_less mo)"
proof (cases "mo_mode mo")
  case header_mode
  then show ?thesis using header.tag_order_axioms by (simp add: message_order_less_def [abs_def])
next
  case trailer_mode
  then show ?thesis using trailer.tag_order_axioms by (simp add: message_order_less_def [abs_def])
next
  case normal_mode
  then show ?thesis using normal.tag_order_axioms by (simp add: message_order_less_def [abs_def])
next
  case group_mode
  then show ?thesis
    using assms group_compare_order by (auto simp: message_order_less_def [abs_def] order_ok_def)
qed

text \<open>The interface holds of the group order of any list of (positive) tags.\<close>

interpretation grouped: tag_order "message_order_less (message_order_of_args (int first + 1) (map (\<lambda>n. int n + 1) args))"
  for first args
  by (rule message_order_ok, rule order_ok_of_args) auto

lemma write_order_other: "0 \<le> x \<Longrightarrow> \<forall>t\<in>set order. 0 < t \<Longrightarrow> x \<notin> set order \<Longrightarrow> write_order order i arr ! nat x = arr ! nat x"
proof (induction order arbitrary: i arr)
  case (Cons t order)
  then have "nat t \<noteq> nat x" by auto
  with Cons show ?case by simp
qed simp

lemma write_order_nth:
  "k < length order \<Longrightarrow> distinct order \<Longrightarrow> \<forall>t\<in>set order. 0 < t \<and> nat t < length arr \<Longrightarrow>
    write_order order i arr ! nat (order ! k) = int (i + k) + 1"
proof (induction order arbitrary: k i arr)
  case (Cons t order)
  show ?case
  proof (cases k)
    case 0
    then show ?thesis using Cons.prems by (simp add: write_order_other)
  next
    case (Suc l)
    then show ?thesis using Cons.prems Cons.IH [of l "arr[nat t := int i + 1]" "i + 1"] by simp
  qed
qed simp

lemma foldl_max_ge:
  "m \<le> foldl (\<lambda>m field. if m > field then m else field) m (order :: int list) \<and>
   (\<forall>t\<in>set order. t \<le> foldl (\<lambda>m field. if m > field then m else field) m order)"
proof (induction order arbitrary: m)
  case (Cons t order)
  have "m \<le> (if m > t then m else t)" "t \<le> (if m > t then m else t)" by auto
  with Cons [of "if m > t then m else t"] show ?case by auto
qed simp

text \<open>A repeating group keeps the tags it lists in the order of the list, and before every tag
  it does not list.\<close>

theorem group_order_follows_list:
  assumes "distinct order" and "\<forall>t\<in>set order. 0 < t" and "i < length order"
    and "x = order ! j \<and> i < j \<and> j < length order \<or> 0 \<le> x \<and> x \<notin> set order"
  shows "message_order_less (message_order_of order) (order ! i) x"
proof -
  define largest where "largest = foldl (\<lambda>m field. if m > field then m else field) (hd order) (tl order)"
  have ne: "\<not> length order < 1" using assms(3) by auto
  have mo: "message_order_less (message_order_of order) y z = group_compare y z (order_array order largest) largest" for y z
    unfolding message_order_of_def takeWhile_positive [OF assms(2)]
    by (simp only: message_order_setOrder_def ne if_False Let_def largest_def [symmetric])
      (simp add: message_order_less_def message_order_new_def)
  have le: "t \<le> largest" if "t \<in> set order" for t
    using foldl_max_ge [of "hd order" "tl order"] that ne unfolding largest_def
    by (cases order) auto
  have nth: "order_array order largest ! nat (order ! k) = int k + 1" if "k < length order" for k
  proof -
    have "0 < t \<and> nat t < length (replicate (nat (largest + 1)) (0 :: int))" if "t \<in> set order" for t
      using le [OF that] assms(2) that by auto
    then show ?thesis
      unfolding order_array_def using that assms(1) by (subst write_order_nth) auto
  qed
  have other: "order_array order largest ! nat z = 0" if "z \<notin> set order" "0 \<le> z" "z \<le> largest" for z
    unfolding order_array_def using that assms(2) by (simp add: write_order_other)
  show ?thesis
    unfolding mo using assms(3,4) nth other [of x] le [OF nth_mem [OF assms(3)]]
      le [of x] nth_mem [of j order] by (auto simp: group_compare_def Let_def)
qed

end
