(* ===== verification/Fix_Convert.thy ===== *)
theory Fix_Convert
  imports Decimal_Text "HOL-Library.Word"
begin

text \<open>
  The field converters of the FIX engine (flashfix/include/FieldConvertors.h): integers of every
  width to and from text, checksums, characters, booleans, and the syntax of floats. A
  value of the template's type \<open>T\<close> is a word of its width, \<open>sg\<close> says whether \<open>T\<close> is signed. A
  conversion that returns false or throws is \<open>None\<close>.
\<close>

section \<open>Integers to text\<close>

definition value_of :: "bool \<Rightarrow> 'a::len word \<Rightarrow> int" where
  "value_of sg x = (if sg then sint x else uint x)"

definition UNSIGNED_VALUE_OF :: "bool \<Rightarrow> 'a::len word \<Rightarrow> 'a word" where
  "UNSIGNED_VALUE_OF sg x = (if value_of sg x < 0 then - x else x)"

text \<open>The loops divide an unsigned number, which never wraps: it is kept as a natural number.\<close>

fun symbols_loop :: "nat \<Rightarrow> nat \<Rightarrow> nat" where
  "symbols_loop number symbols =
     (if number > 9999 then symbols_loop (number div 10000) (symbols + 4)
      else if number > 99 then if number > 999 then symbols + 4 else symbols + 3
      else if number > 9 then symbols + 2 else symbols + 1)"

declare symbols_loop.simps [simp del]

definition number_of_symbols_in :: "bool \<Rightarrow> 'a::len word \<Rightarrow> nat" where
  "number_of_symbols_in sg value =
     (let symbols = symbols_loop (unat (UNSIGNED_VALUE_OF sg value)) 0
      in if value_of sg value < 0 then symbols + 1 else symbols)"

definition digit_pairs :: string where
  "digit_pairs = ''00010203040506070809'' @ ''10111213141516171819'' @ ''20212223242526272829'' @
     ''30313233343536373839'' @ ''40414243444546474849'' @ ''50515253545556575859'' @
     ''60616263646566676869'' @ ''70717273747576777879'' @ ''80818283848586878889'' @
     ''90919293949596979899''"

text \<open>
  The text is written backwards into the buffer; \<open>written\<close> is what is already there, from \<open>p\<close>
  to the end.
\<close>

fun digits_loop :: "nat \<Rightarrow> string \<Rightarrow> string" where
  "digits_loop number written =
     (if number > 99
      then digits_loop (number div 100)
             (digit_pairs ! (2 * (number mod 100)) # digit_pairs ! (2 * (number mod 100) + 1) # written)
      else if number > 9 then digit_pairs ! (2 * number) # digit_pairs ! (2 * number + 1) # written
      else char_of (48 + number) # written)"

declare digits_loop.simps [simp del]

definition integer_to_string :: "bool \<Rightarrow> 'a::len word \<Rightarrow> string" where
  "integer_to_string sg t =
     (let p = digits_loop (unat (UNSIGNED_VALUE_OF sg t)) []
      in if value_of sg t < 0 then CHR ''-'' # p else p)"

text \<open>The padded form fills the buffer of \<open>len\<close> characters up to its start.\<close>

fun pad_loop :: "nat \<Rightarrow> char \<Rightarrow> string \<Rightarrow> string" where
  "pad_loop 0 paddingChar p = p"
| "pad_loop (Suc room) paddingChar p = pad_loop room paddingChar (paddingChar # p)"

definition integer_to_string_padded :: "nat \<Rightarrow> char \<Rightarrow> bool \<Rightarrow> 'a::len word \<Rightarrow> string" where
  "integer_to_string_padded len paddingChar sg t =
     (let p = integer_to_string sg t in pad_loop (len - length p) paddingChar p)"

definition size_to_string :: "64 word \<Rightarrow> string" where
  "size_to_string t = digits_loop (unat t) []"

definition clamp_of :: "int \<Rightarrow> int \<Rightarrow> int \<Rightarrow> int" where
  "clamp_of value lowerBound upperBound =
     (if value < lowerBound then lowerBound else if value > upperBound then upperBound else value)"

section \<open>Text to integers\<close>

definition VALUE_MIN :: "bool \<Rightarrow> 'a::len itself \<Rightarrow> int" where
  "VALUE_MIN sg t = (if sg then - (2 ^ (LENGTH('a) - 1)) else 0)"

definition VALUE_MAX :: "bool \<Rightarrow> 'a::len itself \<Rightarrow> int" where
  "VALUE_MAX sg t = (if sg then 2 ^ (LENGTH('a) - 1) - 1 else 2 ^ LENGTH('a) - 1)"

definition OVERFLOW_MAX :: "bool \<Rightarrow> 'a::len itself \<Rightarrow> int" where
  "OVERFLOW_MAX sg t = VALUE_MAX sg t div 10"

text \<open>\<^verbatim>\<open>const unsigned char c = *str - '0'\<close>.\<close>

definition char_minus_0 :: "char \<Rightarrow> nat" where
  "char_minus_0 ch = (of_char ch + 208) mod 256"

fun parse_loop :: "bool \<Rightarrow> string \<Rightarrow> 'a::len word \<Rightarrow> 'a word option" where
  "parse_loop sg [] x = Some x"
| "parse_loop sg (ch # str) x =
     (if uint x > OVERFLOW_MAX sg TYPE('a) then None
      else let c = char_minus_0 ch in
        if c > 9 then None
        else let nx = 10 * x + of_nat c in if nx < x then None else parse_loop sg str nx)"

definition IntT_parse :: "bool \<Rightarrow> string \<Rightarrow> 'a::len word option" where
  "IntT_parse sg str =
     (if str = [] then None
      else if hd str = CHR ''-'' \<and> \<not> sg then None
      else
        let isNegative = (hd str = CHR ''-'');
            str = (if isNegative then tl str else str)
        in if str = [] then None
           else case parse_loop sg str (0 :: 'a word) of
             None \<Rightarrow> None
           | Some nx \<Rightarrow>
               if isNegative
               then if uint nx > - VALUE_MIN sg TYPE('a) then None else Some (- nx)
               else if uint nx > VALUE_MAX sg TYPE('a) then None else Some nx)"

definition IntT_convert :: "bool \<Rightarrow> 'a::len word \<Rightarrow> string" where
  "IntT_convert sg value = integer_to_string sg value"

section \<open>Checksums, characters, booleans, floats\<close>

definition CheckSum_convert :: "32 word \<Rightarrow> string option" where
  "CheckSum_convert value =
     (if sint value > 255 \<or> sint value < 0 then None
      else Some (integer_to_string_padded 3 CHR ''0'' True value))"

definition CheckSum_parse :: "string \<Rightarrow> 32 word option" where
  "CheckSum_parse value = IntT_parse True value"

definition Char_convert :: "char \<Rightarrow> string" where
  "Char_convert value = (if value = CHR 0x00 then [] else [value])"

definition Char_parse :: "string \<Rightarrow> char option" where
  "Char_parse value = (if length value \<noteq> 1 then None else Some (value ! 0))"

definition Bool_convert :: "bool \<Rightarrow> string" where
  "Bool_convert value = (if value then ''Y'' else ''N'')"

definition Bool_parse :: "string \<Rightarrow> bool option" where
  "Bool_parse value =
     (if length value \<noteq> 1 then None
      else if value ! 0 = CHR ''Y'' then Some True
      else if value ! 0 = CHR ''N'' then Some False else None)"

text \<open>
  The float converter checks the syntax on the C string (up to the first NUL) before it hands
  the text to the conversion library.
\<close>

fun skip_digits :: "string \<Rightarrow> string" where
  "skip_digits [] = []"
| "skip_digits (c # s) = (if is_digit c then skip_digits s else c # s)"

definition Double_accepts :: "string \<Rightarrow> bool" where
  "Double_accepts value =
     (let i = takeWhile (\<lambda>c. c \<noteq> CHR 0x00) value in
      if i = [] then False
      else if hd i = CHR ''-'' \<and> tl i = [] then False
      else
        let i = (if hd i = CHR ''-'' then tl i else i);
            haveDigit = is_digit (hd i);
            i = (if haveDigit then skip_digits (tl i) else i);
            point = (i \<noteq> [] \<and> hd i = CHR ''.'');
            i = (if point then tl i else i);
            frac = (point \<and> i \<noteq> [] \<and> is_digit (hd i));
            i = (if frac then skip_digits (tl i) else i)
        in i = [] \<and> (haveDigit \<or> frac))"

section \<open>The writer\<close>

lemma digits_table: "''0123456789'' = map digit_char [0..<10]"
  by code_simp

lemma concat_blocks:
  "concat (map (\<lambda>a. concat (map (\<lambda>b. h (10 * a + b)) [0..<10])) [0..<m]) = concat (map h [0..<10 * m])"
proof (induction m)
  case (Suc m)
  have "[0..<10 * Suc m] = [0..<10 * m] @ map (\<lambda>b. b + 10 * m) [0..<10]"
    by (simp only: map_add_upt mult_Suc_right add.commute [of 10] upt_add_eq_append [OF le0])
  then have "concat (map h [0..<10 * Suc m]) =
      concat (map h [0..<10 * m]) @ concat (map (\<lambda>b. h (10 * m + b)) [0..<10])"
    by (simp only: map_append map_map comp_def concat_append add.commute)
  with Suc show ?case by simp
qed simp

lemma pairs_of_table:
  "concat (map (\<lambda>a. concat (map (\<lambda>b. [f a, f b]) [0..<10])) [0..<10]) =
   concat (map (\<lambda>n. [f (n div 10), f (n mod 10)]) [0..<100])"
proof -
  have "concat (map (\<lambda>b. [f ((10 * a + b) div 10), f ((10 * a + b) mod 10)]) [0..<10]) =
      concat (map (\<lambda>b. [f a, f b]) [0..<10])" for a
    by (intro arg_cong [where f = concat] map_cong refl) simp
  then show ?thesis
    using concat_blocks [of "\<lambda>n. [f (n div 10), f (n mod 10)]" 10] by simp
qed

lemma digit_pairs_eq: "digit_pairs = concat (map (\<lambda>n. [digit_char (n div 10), digit_char (n mod 10)]) [0..<100])"
proof -
  have "digit_pairs = concat (map (\<lambda>a. concat (map (\<lambda>b. [a, b]) ''0123456789'')) ''0123456789'')"
    by (simp add: digit_pairs_def)
  then show ?thesis
    unfolding digits_table by (simp only: map_map comp_def pairs_of_table)
qed

lemma concat_pairs_nth:
  "n < m \<Longrightarrow> concat (map (\<lambda>n. [f n, g n]) [0..<m]) ! (2 * n) = f n \<and>
    concat (map (\<lambda>n. [f n, g n]) [0..<m]) ! (2 * n + 1) = g n"
proof (induction m)
  case (Suc m)
  have "length (concat (map (\<lambda>n. [f n, g n]) [0..<m])) = 2 * m"
    by (induction m) simp_all
  with Suc show ?case
    by (cases "n = m") (simp_all add: nth_append)
qed simp
lemma digit_pairs_nth: "\<forall>n\<in>{0..<100}. digit_pairs ! (2 * n) = digit_char (n div 10) \<and>
    digit_pairs ! (2 * n + 1) = digit_char (n mod 10)"
    unfolding digit_pairs_eq
  using concat_pairs_nth [of _ 100 "\<lambda>n. digit_char (n div 10)" "\<lambda>n. digit_char (n mod 10)"] by auto

lemma digits_loop_eq: "digits_loop n w = nat_digits n @ w"
proof (induction n w rule: digits_loop.induct)
  case (1 n w)
  consider "n > 99" | "9 < n" "n \<le> 99" | "n \<le> 9" by linarith
  then show ?case
  proof cases
    case 1
    then have "nat_digits n = nat_digits (n div 100) @ [digit_char (n div 10 mod 10), digit_char (n mod 10)]"
      using div_mult2_eq [of n 10 10] by (simp add: nat_digits_big [of n] nat_digits_big [of "n div 10"])
    moreover have "n mod 100 div 10 = n div 10 mod 10" "n mod 100 mod 10 = n mod 10"
      using mod_mult2_eq [of n 10 10] by (simp_all add: mod_mod_cancel)
    ultimately show ?thesis
      using 1 "1.IH" digit_pairs_nth [THEN bspec, of "n mod 100"]
      by (subst digits_loop.simps) simp
  next
    case 2
    then have "nat_digits n = [digit_char (n div 10), digit_char (n mod 10)]"
      by (simp add: nat_digits_big nat_digits_small)
    then show ?thesis
      using 2 digit_pairs_nth [THEN bspec, of n] by (subst digits_loop.simps) simp
  next
    case 3
    then show ?thesis
      by (subst digits_loop.simps) (simp add: nat_digits_small digit_char_def)
  qed
qed

lemma pad_loop_eq: "pad_loop n c p = replicate n c @ p"
  by (induction n arbitrary: p) (simp_all add: replicate_app_Cons_same)

lemma uint_word_of_int_eq:
  "0 \<le> k \<Longrightarrow> k < 2 ^ LENGTH('a) \<Longrightarrow> uint (word_of_int k :: 'a::len word) = k"
  by (simp add: uint_word_of_int take_bit_eq_mod)

lemma uint_nonneg_sint: "0 \<le> sint x \<Longrightarrow> uint x = sint x" for x :: "'a::len word"
proof -
  assume "0 \<le> sint x"
  moreover have "sint x < 2 ^ LENGTH('a)"
    using sint_lt [of x] power_strict_increasing_iff [of "2::int" "LENGTH('a) - 1" "LENGTH('a)"]
    by (smt (verit) diff_less len_gt_0 less_numeral_extra(1))
  ultimately show ?thesis
    using uint_word_of_int_eq [of "sint x", where 'a = 'a] by simp
qed

lemma uint_uminus_sint: "sint x < 0 \<Longrightarrow> uint (- x) = - sint x" for x :: "'a::len word"
proof -
  assume neg: "sint x < 0"
  have "- sint x \<le> 2 ^ (LENGTH('a) - 1)" using sint_ge [of x] by simp
  also have "(2::int) ^ (LENGTH('a) - 1) < 2 ^ LENGTH('a)"
    by (rule power_strict_increasing) (simp_all add: len_gt_0)
  finally have "- sint x < 2 ^ LENGTH('a)" .
  with neg have "uint (word_of_int (- sint x) :: 'a word) = - sint x"
    by (intro uint_word_of_int_eq) simp_all
  moreover have "(word_of_int (- sint x) :: 'a word) = - x"
    by (simp flip: wi_hom_neg)
  ultimately show ?thesis by simp
qed

lemma unat_UNSIGNED_VALUE_OF: "int (unat (UNSIGNED_VALUE_OF sg x)) = \<bar>value_of sg x\<bar>"
  by (auto simp: UNSIGNED_VALUE_OF_def value_of_def uint_nonneg_sint uint_uminus_sint not_less)

lemma sint_int32: "- (2 ^ 31) \<le> k \<Longrightarrow> k < 2 ^ 31 \<Longrightarrow> sint (word_of_int k :: 32 word) = k"
  by (simp add: sint_sbintrunc' signed_take_bit_int_eq_self)

lemma integer_to_string_eq:
  "integer_to_string sg t =
     (if value_of sg t < 0 then CHR ''-'' # nat_digits (nat \<bar>value_of sg t\<bar>)
      else nat_digits (nat \<bar>value_of sg t\<bar>))"
  by (simp add: integer_to_string_def Let_def digits_loop_eq flip: unat_UNSIGNED_VALUE_OF)

lemma length_nat_digits_step: "10 \<le> n \<Longrightarrow> length (nat_digits n) = Suc (length (nat_digits (n div 10)))"
  by (simp add: nat_digits_big)

lemma symbols_loop_eq: "symbols_loop n k = length (nat_digits n) + k"
proof (induction n k rule: symbols_loop.induct)
  case (1 n k)
  show ?case
  proof (cases "n > 9999")
    case True
    have "n div 10 div 10 div 10 div 10 = n div 10000"
      by (simp flip: div_mult2_eq)
    then have "length (nat_digits n) = length (nat_digits (n div 10000)) + 4"
      using True length_nat_digits_step [of n] length_nat_digits_step [of "n div 10"]
        length_nat_digits_step [of "n div 10 div 10"] length_nat_digits_step [of "n div 10 div 10 div 10"]
      by (simp flip: div_mult2_eq)
    with True "1.IH" show ?thesis by (subst symbols_loop.simps) simp
  next
    case False
    then show ?thesis
      using length_nat_digits_step [of n] length_nat_digits_step [of "n div 10"]
        length_nat_digits_step [of "n div 100"]
      by (subst symbols_loop.simps) (auto simp: nat_digits_small simp flip: div_mult2_eq)
  qed
qed

lemma number_of_symbols_eq: "number_of_symbols_in sg t = length (integer_to_string sg t)"
  by (simp add: number_of_symbols_in_def integer_to_string_def Let_def symbols_loop_eq digits_loop_eq)


section \<open>The reader\<close>

lemma char_minus_0_digit: "char_minus_0 ch \<le> 9 \<longleftrightarrow> is_digit ch" and
  char_minus_0_val: "is_digit ch \<Longrightarrow> char_minus_0 ch = digit_of ch"
proof -
  define n where "n = (of_char ch :: nat)"
  have n: "n < 256" unfolding n_def by (rule nat_of_char_less_256)
  have "char_minus_0 ch = (if n < 48 then n + 208 else n - 48)"
  proof (cases "n < 48")
    case True
    then show ?thesis by (simp add: char_minus_0_def flip: n_def)
  next
    case False
    then have "n + 208 = 256 + (n - 48)" by simp
    then have "(n + 208) mod 256 = (256 + (n - 48)) mod 256" by (rule arg_cong)
    also have "\<dots> = n - 48" using n by (simp only: mod_add_self1) simp
    finally show ?thesis using False by (simp add: char_minus_0_def flip: n_def)
  qed
  with n show "char_minus_0 ch \<le> 9 \<longleftrightarrow> is_digit ch" "is_digit ch \<Longrightarrow> char_minus_0 ch = digit_of ch"
    by (auto simp: is_digit_def digit_of_def simp flip: n_def split: if_splits)
qed

text \<open>The text the converter takes: an optional minus of a signed type, then digits, in range.\<close>

definition denotes :: "bool \<Rightarrow> 'a::len itself \<Rightarrow> string \<Rightarrow> int \<Rightarrow> bool" where
  "denotes sg t str v \<longleftrightarrow> VALUE_MIN sg t \<le> v \<and> v \<le> VALUE_MAX sg t \<and>
     (\<exists>ds. ds \<noteq> [] \<and> all_digits ds \<and>
        (str = ds \<and> v = int (digits_val ds) \<or> sg \<and> str = CHR ''-'' # ds \<and> v = - int (digits_val ds)))"

lemma div_10_pred: "(P::int) mod 10 \<noteq> 0 \<Longrightarrow> P div 10 = (P - 1) div 10"
  using zdiv_mono1 [of "P - 1" P 10] div_mult_mod_eq [of P 10] pos_mod_bound [of 10 P]
    pos_mod_sign [of 10 P] div_mult_mod_eq [of "P - 1" 10] pos_mod_bound [of 10 "P - 1"]
    pos_mod_sign [of 10 "P - 1"]
  by linarith

lemma pow_mod_10: "(2::int) ^ n mod 10 \<in> {1, 2, 4, 6, 8}"
proof (induction n)
  case (Suc n)
  have "(2::int) ^ Suc n mod 10 = (2 * (2 ^ n mod 10)) mod 10"
    by (simp only: power_Suc mod_mult_right_eq)
  with Suc show ?case by (elim insertE emptyE) simp_all
qed simp

lemma pow_div_10: "(2::int) ^ n div 10 = (2 ^ n - 1) div 10"
  using pow_mod_10 [of n] by (intro div_10_pred) auto

lemma uint_next_digit:
  "uint (10 * x + of_nat c :: 'a::len word) = (10 * uint x + int c) mod 2 ^ LENGTH('a)"
proof -
  have "(10 * x + of_nat c :: 'a word) = word_of_int (10 * uint x + int c)"
    by simp
  then show ?thesis
    by (simp only: uint_word_of_int take_bit_eq_mod)
qed

lemma OVERFLOW_MAX_bounds:
  fixes sg :: bool
  shows "10 * OVERFLOW_MAX sg TYPE('a::len) < 2 ^ LENGTH('a)"
    and "OVERFLOW_MAX sg TYPE('a) = max (VALUE_MAX sg TYPE('a)) (- VALUE_MIN sg TYPE('a)) div 10"
    and "max (VALUE_MAX sg TYPE('a)) (- VALUE_MIN sg TYPE('a)) < 2 ^ LENGTH('a)"
proof -
  have less: "(2::int) ^ (LENGTH('a) - 1) < 2 ^ LENGTH('a)"
    by (rule power_strict_increasing) (simp_all add: len_gt_0)
  have vmax: "VALUE_MAX sg TYPE('a) < 2 ^ LENGTH('a)"
    unfolding VALUE_MAX_def using less by (cases sg; simp only: if_True if_False)
  then show "10 * OVERFLOW_MAX sg TYPE('a) < 2 ^ LENGTH('a)"
    by (simp add: OVERFLOW_MAX_def)
  show "OVERFLOW_MAX sg TYPE('a) = max (VALUE_MAX sg TYPE('a)) (- VALUE_MIN sg TYPE('a)) div 10"
    using pow_div_10 [of "LENGTH('a) - 1"]
    by (simp add: OVERFLOW_MAX_def VALUE_MAX_def VALUE_MIN_def max_def)
  show "max (VALUE_MAX sg TYPE('a)) (- VALUE_MIN sg TYPE('a)) < 2 ^ LENGTH('a)"
  proof -
    have "- VALUE_MIN sg TYPE('a) < 2 ^ LENGTH('a)"
    proof (cases sg)
      case True
      then show ?thesis using less by (simp only: VALUE_MIN_def if_True minus_minus)
    qed (simp add: VALUE_MIN_def)
    with vmax show ?thesis by simp
  qed
qed

lemma parse_loop_sound:
  assumes "7 \<le> LENGTH('a::len)" and "parse_loop sg str (x :: 'a word) = Some r"
  shows "all_digits str \<and> uint r = uint x * 10 ^ length str + int (digits_val str)"
  using assms(2)
proof (induction str arbitrary: x)
  case (Cons ch str)
  let ?c = "char_minus_0 ch" and ?nx = "10 * x + of_nat (char_minus_0 ch) :: 'a word"
  have le: "uint x \<le> OVERFLOW_MAX sg TYPE('a)" and c: "?c \<le> 9" and mono: "\<not> ?nx < x"
    and rest: "parse_loop sg str ?nx = Some r"
    using Cons.prems by (auto simp: Let_def split: if_splits)
  have dig: "is_digit ch" "?c = digit_of ch"
    using c char_minus_0_digit char_minus_0_val by blast+
  have big: "(128::int) \<le> 2 ^ LENGTH('a)"
    using power_increasing [OF assms(1), of "2::int"] by simp
  have nx: "uint ?nx = 10 * uint x + int ?c"
  proof (rule ccontr)
    let ?k = "10 * uint x + int ?c"
    assume neq: "uint ?nx \<noteq> ?k"
    have "?k < 2 ^ LENGTH('a) + 9"
      using le c OVERFLOW_MAX_bounds(1) [where 'a = 'a and sg = sg] by linarith
    moreover have "\<not> ?k < 2 ^ LENGTH('a)"
      using neq by (auto simp: uint_next_digit)
    ultimately have "uint ?nx = ?k - 2 ^ LENGTH('a)"
    proof -
      assume *: "?k < 2 ^ LENGTH('a) + 9" "\<not> ?k < 2 ^ LENGTH('a)"
      have "(?k - 2 ^ LENGTH('a)) mod 2 ^ LENGTH('a) = ?k - 2 ^ LENGTH('a)"
        using * big by (intro mod_pos_pos_trivial) linarith+
      then show ?thesis
        by (simp only: uint_next_digit minus_mod_self2)
    qed
    moreover have "uint x \<le> uint ?nx"
      using mono by (simp add: word_less_def not_less)
    ultimately show False
      using le c OVERFLOW_MAX_bounds(1) [where 'a = 'a and sg = sg] big \<open>\<not> ?k < 2 ^ LENGTH('a)\<close> by linarith
  qed
  have "all_digits str \<and> uint r = uint ?nx * 10 ^ length str + int (digits_val str)"
    by (rule Cons.IH [OF rest])
  moreover have "digits_val (ch # str) = digit_of ch * 10 ^ length str + digits_val str"
    using digits_val_append [of "[ch]" str] by simp
  ultimately show ?case
    unfolding nx using dig by (simp add: algebra_simps)
qed simp

lemma parse_loop_complete:
  assumes "all_digits str"
    and "uint (x :: 'a::len word) * 10 ^ length str + int (digits_val str)
      \<le> max (VALUE_MAX sg TYPE('a)) (- VALUE_MIN sg TYPE('a))"
  shows "parse_loop sg str x \<noteq> None"
  using assms
proof (induction str arbitrary: x)
  case (Cons ch str)
  let ?M = "max (VALUE_MAX sg TYPE('a)) (- VALUE_MIN sg TYPE('a))"
  let ?nx = "10 * x + of_nat (digit_of ch) :: 'a word"
  have dig: "is_digit ch" and c: "char_minus_0 ch = digit_of ch" "digit_of ch \<le> 9"
    using Cons.prems(1) by (simp_all add: char_minus_0_val less_Suc_eq_le [symmetric])
  have "digits_val (ch # str) = digit_of ch * 10 ^ length str + digits_val str"
    using digits_val_append [of "[ch]" str] by simp
  then have v: "(10 * uint x + int (digit_of ch)) * 10 ^ length str + int (digits_val str) \<le> ?M"
    using Cons.prems(2) by (simp add: algebra_simps)
  moreover have "10 * uint x + int (digit_of ch) \<le> (10 * uint x + int (digit_of ch)) * 10 ^ length str"
    using mult_left_mono [of 1 "10 ^ length str" "10 * uint x + int (digit_of ch)"] by simp
  ultimately have k: "10 * uint x + int (digit_of ch) \<le> ?M" by linarith
  then have nx: "uint ?nx = 10 * uint x + int (digit_of ch)"
    unfolding uint_next_digit
    using OVERFLOW_MAX_bounds(3) [where 'a = 'a and sg = sg] by (intro mod_pos_pos_trivial) auto
  have "uint x \<le> OVERFLOW_MAX sg TYPE('a)"
    unfolding OVERFLOW_MAX_bounds(2) using k by linarith
  moreover have "\<not> ?nx < x"
    using nx uint_ge_0 [of x] by (simp only: word_less_def not_less)
  moreover have "parse_loop sg str ?nx \<noteq> None"
    by (rule Cons.IH) (use Cons.prems(1) v nx in simp_all)
  ultimately show ?case
    using c by (simp add: Let_def)
qed simp


lemma parse_loop_iff:
  assumes "7 \<le> LENGTH('a::len)"
    and "M \<le> max (VALUE_MAX sg TYPE('a)) (- VALUE_MIN sg TYPE('a))"
  shows "(case parse_loop sg str (0 :: 'a word) of None \<Rightarrow> None | Some nx \<Rightarrow> if uint nx > M then None else Some (f nx)) =
    (if all_digits str \<and> int (digits_val str) \<le> M then Some (f (word_of_int (int (digits_val str)))) else None)"
proof (cases "parse_loop sg str (0 :: 'a word)")
  case None
  then have "\<not> (all_digits str \<and> int (digits_val str) \<le> M)"
    using parse_loop_complete [of str "0 :: 'a word" sg] assms(2) by auto
  with None show ?thesis by auto
next
  case (Some r)
  then have "all_digits str" and r: "uint r = int (digits_val str)"
    using parse_loop_sound [OF assms(1) Some] by simp_all
  moreover have "word_of_int (int (digits_val str)) = r"
    unfolding r [symmetric] by (rule word_of_int_uint)
  ultimately show ?thesis
    by (simp add: Some not_less)
qed

lemma IntT_parse_eq:
  assumes w: "7 \<le> LENGTH('a::len)"
  shows "IntT_parse sg str = (
    if str = [] then None
    else if hd str = CHR ''-''
      then if sg \<and> tl str \<noteq> [] \<and> all_digits (tl str) \<and> int (digits_val (tl str)) \<le> - VALUE_MIN sg TYPE('a)
        then Some (word_of_int (- int (digits_val (tl str))) :: 'a word) else None
      else if all_digits str \<and> int (digits_val str) \<le> VALUE_MAX sg TYPE('a)
        then Some (word_of_int (int (digits_val str))) else None)"
proof -
  have neg: "(case parse_loop sg str (0 :: 'a word) of None \<Rightarrow> None
      | Some nx \<Rightarrow> if uint nx > - VALUE_MIN sg TYPE('a) then None else Some (- nx)) =
    (if all_digits str \<and> int (digits_val str) \<le> - VALUE_MIN sg TYPE('a)
     then Some (word_of_int (- int (digits_val str))) else None)" for sg str
    using parse_loop_iff [OF w, where M = "- VALUE_MIN sg TYPE('a)" and sg = sg and str = str and f = uminus] by simp
  have pos: "(case parse_loop sg str (0 :: 'a word) of None \<Rightarrow> None
      | Some nx \<Rightarrow> if uint nx > VALUE_MAX sg TYPE('a) then None else Some nx) =
    (if all_digits str \<and> int (digits_val str) \<le> VALUE_MAX sg TYPE('a)
     then Some (word_of_int (int (digits_val str))) else None)" for sg str
    using parse_loop_iff [OF w, where M = "VALUE_MAX sg TYPE('a)" and sg = sg and str = str and f = "\<lambda>x. x"] by simp
  show ?thesis
    by (cases "str = []"; cases "hd str = CHR ''-''"; cases "tl str = []")
      (simp_all add: IntT_parse_def Let_def neg pos cong: option.case_cong)
qed

lemma hd_digits: "all_digits s \<Longrightarrow> s \<noteq> [] \<Longrightarrow> hd s \<noteq> CHR ''-''"
  by (cases s) auto

text \<open>C30. The reader of integers accepts exactly the decimal texts of the values of its type, at
  every width and signedness: digits with, for a signed type, an optional minus, whose value is
  between the type's limits; and it returns that value. No overflow goes unnoticed.\<close>

theorem IntT_parse_exact:
  assumes "7 \<le> LENGTH('a::len)"
  shows "IntT_parse sg str = Some (r :: 'a word) \<longleftrightarrow>
    (\<exists>v. denotes sg TYPE('a) str v \<and> r = word_of_int v)"
proof -
  have lims: "VALUE_MIN sg TYPE('a) \<le> 0" "0 \<le> VALUE_MAX sg TYPE('a)"
    by (simp_all add: VALUE_MIN_def VALUE_MAX_def)
  show ?thesis
  proof
    assume parse: "IntT_parse sg str = Some r"
    show "\<exists>v. denotes sg TYPE('a) str v \<and> r = word_of_int v"
    proof (cases "hd str = CHR ''-''")
      case True
      with parse have "str = CHR ''-'' # tl str" "sg" "tl str \<noteq> []" "all_digits (tl str)"
        "int (digits_val (tl str)) \<le> - VALUE_MIN sg TYPE('a)" "r = word_of_int (- int (digits_val (tl str)))"
        by (cases str; simp add: IntT_parse_eq [OF assms] split: if_splits)+
      then show ?thesis
        using lims unfolding denotes_def
        by (intro exI [of _ "- int (digits_val (tl str))"] conjI exI [of _ "tl str"] disjI2) simp_all
    next
      case False
      with parse have "str \<noteq> []" "all_digits str"
        "int (digits_val str) \<le> VALUE_MAX sg TYPE('a)" "r = word_of_int (int (digits_val str))"
        by (simp_all add: IntT_parse_eq [OF assms] split: if_splits)
      then show ?thesis
        using lims unfolding denotes_def
        by (intro exI [of _ "int (digits_val str)"] conjI exI [of _ str] disjI1) simp_all
    qed
  next
    assume "\<exists>v. denotes sg TYPE('a) str v \<and> r = word_of_int v"
    then obtain v where v: "denotes sg TYPE('a) str v" and r: "r = word_of_int v" by blast
    show "IntT_parse sg str = Some r"
      using v hd_digits [of str]
      by (auto simp: IntT_parse_eq [OF assms] denotes_def r)
  qed
qed

theorem IntT_parse_exact_witness:
  "IntT_parse True ''-128'' = Some (128 :: 8 word) \<longleftrightarrow>
    (\<exists>v. denotes True TYPE(8) ''-128'' v \<and> (128 :: 8 word) = word_of_int v)"
  by (rule IntT_parse_exact) simp

lemma value_of_bounds:
  "VALUE_MIN sg TYPE('a) \<le> value_of sg x \<and> value_of sg x \<le> VALUE_MAX sg TYPE('a)"
  for x :: "'a::len word"
  using sint_ge [of x] sint_lt [of x] uint_lt2p [of x]
  by (auto simp: VALUE_MIN_def VALUE_MAX_def value_of_def)

lemma value_of_inverse: "word_of_int (value_of sg x) = x"
  by (simp add: value_of_def)

lemma parse_written:
  assumes "7 \<le> LENGTH('a::len)"
  shows "IntT_parse sg (integer_to_string sg (x :: 'a word)) = Some x"
proof (cases "value_of sg x < 0")
  case True
  then have sg: sg by (cases sg) (simp_all add: value_of_def)
  have "int (nat \<bar>value_of sg x\<bar>) = - value_of sg x" using True by simp
  with True sg show ?thesis
    using value_of_bounds [where sg = sg and x = x] value_of_inverse [of sg x]
    by (simp add: IntT_parse_eq [OF assms] integer_to_string_eq)
next
  case False
  let ?s = "nat_digits (nat \<bar>value_of sg x\<bar>)"
  have "hd ?s \<noteq> CHR ''-''"
    by (rule hd_digits) simp_all
  with False show ?thesis
    using value_of_bounds [where sg = sg and x = x] value_of_inverse [of sg x]
    by (simp add: IntT_parse_eq [OF assms] integer_to_string_eq)
qed

text \<open>A number written into a field and read back is the same number, at every width and
  signedness, the limits of the type included.\<close>

theorem IntT_roundtrip:
  assumes "7 \<le> LENGTH('a::len)"
  shows "IntT_parse sg (IntT_convert sg (x :: 'a word)) = Some x"
  unfolding IntT_convert_def by (rule parse_written [OF assms])

text \<open>
  The buffers: \<^verbatim>\<open>digits10 + 2\<close> characters, where \<^verbatim>\<open>digits10\<close> is 9, 18 and 19 for the three
  types the engine converts.
\<close>

lemma integer_to_string_length:
  fixes x :: "'a::len word"
  assumes "max (VALUE_MAX sg TYPE('a)) (- VALUE_MIN sg TYPE('a)) < 10 ^ k" and "0 < k"
  shows "length (integer_to_string sg x) \<le> (if sg then k + 1 else k)"
proof -
  have "\<bar>value_of sg x\<bar> < 10 ^ k"
    using value_of_bounds [where sg = sg and x = x] assms(1) by auto
  then have "nat \<bar>value_of sg x\<bar> < 10 ^ k" by (simp add: nat_less_iff)
  then have "length (nat_digits (nat \<bar>value_of sg x\<bar>)) \<le> k"
    using assms(2) by (rule length_nat_digits_le)
  moreover have "\<not> sg \<Longrightarrow> \<not> value_of sg x < 0" by (simp add: value_of_def)
  ultimately show ?thesis
    unfolding integer_to_string_eq by (auto intro: le_SucI)
qed

lemma integer_to_string_fits:
  "length (integer_to_string True (x :: 32 word)) \<le> 9 + 2"
  "length (integer_to_string True (y :: 64 word)) \<le> 18 + 2"
  "length (integer_to_string False (z :: 64 word)) \<le> 19 + 2"
  using integer_to_string_length [of True 10 x] integer_to_string_length [of True 19 y]
    integer_to_string_length [of False 20 z]
  by (simp_all add: VALUE_MAX_def VALUE_MIN_def)

lemma CheckSum_convert_eq:
  assumes "0 \<le> sint v" and "sint v \<le> 255"
  shows "CheckSum_convert v = Some (pad_digits 3 (nat (sint v)))"
  using assms
  by (simp add: CheckSum_convert_def integer_to_string_padded_def integer_to_string_eq Let_def
      pad_loop_eq pad_digits_def value_of_def)

lemma CheckSum_parse_pad:
  assumes "0 \<le> sint v" and "sint v \<le> 255"
  shows "CheckSum_parse (pad_digits 3 (nat (sint v))) = Some v"
proof -
  let ?s = "pad_digits 3 (nat (sint v))"
  have len: "length ?s = 3" using assms by (intro length_pad) (auto simp: nat_less_iff)
  have hd: "?s \<noteq> []" "hd ?s \<noteq> CHR ''-''"
    using len all_digits_pad [of 3 "nat (sint v)"] by (cases ?s; auto)+
  show ?thesis
    using assms hd by (simp add: CheckSum_parse_def IntT_parse_eq VALUE_MAX_def)
qed

text \<open>A checksum field is exactly three digits, that read back as the checksum; any number
  that is not between 0 and 255 is refused.\<close>

theorem CheckSum_three_digits:
  "(case CheckSum_convert v of
      None \<Rightarrow> \<not> (0 \<le> sint v \<and> sint v \<le> 255)
    | Some s \<Rightarrow> 0 \<le> sint v \<and> sint v \<le> 255 \<and> length s = 3 \<and> all_digits s \<and> CheckSum_parse s = Some v)"
proof (cases "0 \<le> sint v \<and> sint v \<le> 255")
  case True
  then have "length (pad_digits 3 (nat (sint v))) = 3" by (intro length_pad) (auto simp: nat_less_iff)
  with True show ?thesis by (simp add: CheckSum_convert_eq CheckSum_parse_pad)
next
  case False
  then show ?thesis by (auto simp: CheckSum_convert_def)
qed


section \<open>The syntax of floats\<close>

lemma skip_digits_eq: "skip_digits s = dropWhile is_digit s"
  by (induction s) auto

definition float_body :: "string \<Rightarrow> bool" where
  "float_body i = (case dropWhile is_digit i of
     [] \<Rightarrow> takeWhile is_digit i \<noteq> []
   | c # r \<Rightarrow> c = CHR ''.'' \<and> all_digits r \<and> (takeWhile is_digit i \<noteq> [] \<or> r \<noteq> []))"

lemma dropWhile_digits_Nil: "dropWhile is_digit s = [] \<longleftrightarrow> all_digits s"
  by (simp add: all_digits_def dropWhile_eq_Nil_conv)

lemma float_body_iff:
  "float_body i \<longleftrightarrow> (\<exists>ds fs. all_digits ds \<and> all_digits fs \<and>
     (ds \<noteq> [] \<and> (i = ds \<or> i = ds @ ''.'' @ fs) \<or> fs \<noteq> [] \<and> i = ''.'' @ fs))" (is "_ = ?R")
proof
  assume body: "float_body i"
  have i: "i = takeWhile is_digit i @ dropWhile is_digit i" by simp
  have ds: "all_digits (takeWhile is_digit i)" by (auto simp: all_digits_def dest: set_takeWhileD)
  show ?R
  proof (cases "dropWhile is_digit i")
    case Nil
    with body i ds show ?thesis
      by (intro exI [of _ "takeWhile is_digit i"] exI [of _ "[]"]) (simp add: float_body_def)
  next
    case (Cons c r)
    with body i ds show ?thesis
      by (intro exI [of _ "takeWhile is_digit i"] exI [of _ r])
        (auto simp: float_body_def)
  qed
next
  assume ?R
  then obtain ds fs where digits: "all_digits ds" "all_digits fs"
    and i: "ds \<noteq> [] \<and> (i = ds \<or> i = ds @ ''.'' @ fs) \<or> fs \<noteq> [] \<and> i = ''.'' @ fs"
    by blast
  have app: "takeWhile is_digit (ds @ CHR ''.'' # fs) = ds" "dropWhile is_digit (ds @ CHR ''.'' # fs) = CHR ''.'' # fs"
    "takeWhile is_digit ds = ds" "dropWhile is_digit ds = []"
    using digits(1) by (auto simp: all_digits_def takeWhile_append dropWhile_append)
  from i digits show "float_body i"
    by (auto simp: float_body_def app)
qed

definition Double_rest :: "string \<Rightarrow> bool" where
  "Double_rest i = (let haveDigit = is_digit (hd i); j = (if haveDigit then skip_digits (tl i) else i);
        point = (j \<noteq> [] \<and> hd j = CHR ''.''); j = (if point then tl j else j);
        frac = (point \<and> j \<noteq> [] \<and> is_digit (hd j)); j = (if frac then skip_digits (tl j) else j)
      in j = [] \<and> (haveDigit \<or> frac))"

lemma Double_rest_eq:
  assumes "i \<noteq> []"
  shows "Double_rest i \<longleftrightarrow> float_body i"
proof -
  obtain c s where i: "i = c # s" using assms by (cases i) auto
  have frac: "(if point then if r \<noteq> [] \<and> is_digit (hd r) then skip_digits (tl r) = [] else r = [] else False)
      \<longleftrightarrow> point \<and> all_digits r" for point r
    by (cases r) (auto simp: skip_digits_eq dropWhile_digits_Nil simp del: dropWhile_eq_Nil_conv)
  show ?thesis
  proof (cases "is_digit c")
    case True
    then show ?thesis
    proof (cases "dropWhile is_digit s")
      case Nil
      with True show ?thesis
        by (simp add: Double_rest_def Let_def i skip_digits_eq float_body_def del: dropWhile_eq_Nil_conv)
    next
      case (Cons d r)
      with True show ?thesis
        by (cases r) (simp_all add: Double_rest_def Let_def i skip_digits_eq float_body_def
            dropWhile_digits_Nil del: dropWhile_eq_Nil_conv)
    qed
  next
    case False
    then show ?thesis
      using frac [of "c = CHR ''.''" s]
      by (cases s) (auto simp add: Double_rest_def Let_def i skip_digits_eq float_body_def
          simp del: dropWhile_eq_Nil_conv)
  qed
qed

lemma Double_accepts_body:
  assumes "CHR 0x00 \<notin> set value"
  shows "Double_accepts value \<longleftrightarrow> value \<noteq> [] \<and>
    (if hd value = CHR ''-'' then float_body (tl value) else float_body value)"
proof -
  have tw: "takeWhile (\<lambda>c. c \<noteq> CHR 0x00) value = value"
    using assms by (simp add: takeWhile_eq_all_conv) metis
  have "Double_accepts value \<longleftrightarrow>
      (if value = [] then False else if hd value = CHR ''-'' \<and> tl value = [] then False
       else Double_rest (if hd value = CHR ''-'' then tl value else value))"
    unfolding Double_accepts_def tw Double_rest_def Let_def by (rule refl)
  then show ?thesis
    using Double_rest_eq [of "tl value"] Double_rest_eq [of "value"] by (simp add: float_body_def [of "[]"])
qed

text \<open>The float converter takes exactly: an optional minus, then digits with an optional point
  and more digits after it, or a point with digits after it (so \<^verbatim>\<open>12.\<close> and \<^verbatim>\<open>.5\<close>, but neither
  a lone point nor an exponent).\<close>

theorem Double_accepts_grammar:
  assumes "CHR 0x00 \<notin> set value"
  shows "Double_accepts value \<longleftrightarrow>
    (\<exists>sign ds fs. sign \<in> {[], ''-''} \<and> all_digits ds \<and> all_digits fs \<and>
       (ds \<noteq> [] \<and> (value = sign @ ds \<or> value = sign @ ds @ ''.'' @ fs) \<or>
        fs \<noteq> [] \<and> value = sign @ ''.'' @ fs))"
proof -
  have nominus: "\<not> float_body (CHR ''-'' # r)" for r
    by (simp add: float_body_def)
  have "Double_accepts value \<longleftrightarrow> (\<exists>sign\<in>{[], ''-''}. \<exists>i. value = sign @ i \<and> float_body i)"
    unfolding Double_accepts_body [OF assms]
    by (cases "value") (auto simp: nominus float_body_def [of "[]"])
  then show ?thesis
    unfolding float_body_iff by (simp only: bex_simps) blast
qed

end
