(* ===== verification/Field_Search.thy ===== *)
theory Field_Search
  imports Message_Order Fix_Convert "HOL-Library.Multiset"
begin

text \<open>
  Fields and the sorted vector a field map keeps them in (flashfix/include/Field.h, the searching
  members of flashfix/include/FieldMap.h). A field keeps its text and the length and byte sum
  measured when it was read, or (0, 0); the encoded text that the code caches is dropped whenever
  tag or value change, so it is always the encoding. An iterator is an index, a search that
  returns \<^verbatim>\<open>end()\<close> is \<open>None\<close>. The context of \<open>tag_order\<close> shows that both searches find the first
  field of a tag and that insertion keeps the vector sorted.
\<close>

section \<open>Fields\<close>

abbreviation (input) SOH :: char where "SOH \<equiv> CHR 0x01"

record FieldBase =
  f_tag :: int
  f_string :: string
  f_metrics :: "int \<times> int"

definition no_metrics :: "int \<times> int" where
  "no_metrics = (0, 0)"

definition metrics_isValid :: "int \<times> int \<Rightarrow> bool" where
  "metrics_isValid m = (fst m > 0)"

definition calculateMetrics :: "string \<Rightarrow> int \<times> int" where
  "calculateMetrics s = (int (length s), foldl (\<lambda>checksum c. checksum + of_char c) 0 s)"

definition FieldBase_new :: "int \<Rightarrow> string \<Rightarrow> FieldBase" where
  "FieldBase_new tag s = \<lparr>f_tag = tag, f_string = s, f_metrics = no_metrics\<rparr>"

definition FieldBase_parsed :: "int \<Rightarrow> string \<Rightarrow> string \<Rightarrow> FieldBase" where
  "FieldBase_parsed tag val whole = \<lparr>f_tag = tag, f_string = val, f_metrics = calculateMetrics whole\<rparr>"

definition FieldBase_setTag :: "int \<Rightarrow> FieldBase \<Rightarrow> FieldBase" where
  "FieldBase_setTag tag f = f\<lparr>f_tag := tag, f_metrics := no_metrics\<rparr>"

definition FieldBase_setString :: "string \<Rightarrow> FieldBase \<Rightarrow> FieldBase" where
  "FieldBase_setString s f = f\<lparr>f_string := s, f_metrics := no_metrics\<rparr>"

definition tag_text :: "int \<Rightarrow> string" where
  "tag_text tag = integer_to_string True (word_of_int tag :: 32 word)"

definition FieldBase_getFixString :: "FieldBase \<Rightarrow> string" where
  "FieldBase_getFixString f = tag_text (f_tag f) @ ''='' @ f_string f @ [SOH]"

definition FieldBase_calculate :: "FieldBase \<Rightarrow> int \<times> int" where
  "FieldBase_calculate f =
     (if metrics_isValid (f_metrics f) then f_metrics f else calculateMetrics (FieldBase_getFixString f))"

definition FieldBase_getLength :: "FieldBase \<Rightarrow> int" where
  "FieldBase_getLength f = fst (FieldBase_calculate f)"

definition FieldBase_getTotal :: "FieldBase \<Rightarrow> int" where
  "FieldBase_getTotal f = snd (FieldBase_calculate f)"

section \<open>Searching a sorted vector\<close>

text \<open>The halving loop of \<^verbatim>\<open>std::lower_bound\<close> and \<^verbatim>\<open>std::upper_bound\<close>.\<close>

fun partition_point :: "('a \<Rightarrow> bool) \<Rightarrow> 'a list \<Rightarrow> nat \<Rightarrow> nat \<Rightarrow> nat" where
  "partition_point P xs first len =
     (if len = 0 then first
      else let half = len div 2; mid = first + half in
        if P (xs ! mid) then partition_point P xs (mid + 1) (len - half - 1)
        else partition_point P xs first half)"

declare partition_point.simps [simp del]

definition std_lower_bound :: "(int \<Rightarrow> int \<Rightarrow> bool) \<Rightarrow> FieldBase list \<Rightarrow> int \<Rightarrow> nat" where
  "std_lower_bound lt fs tag = partition_point (\<lambda>f. lt (f_tag f) tag) fs 0 (length fs)"

definition std_upper_bound :: "(int \<Rightarrow> int \<Rightarrow> bool) \<Rightarrow> FieldBase list \<Rightarrow> int \<Rightarrow> nat" where
  "std_upper_bound lt fs tag = partition_point (\<lambda>f. \<not> lt tag (f_tag f)) fs 0 (length fs)"

fun find_tag :: "FieldBase list \<Rightarrow> int \<Rightarrow> nat option" where
  "find_tag [] tag = None"
| "find_tag (f # fs) tag = (if tag = f_tag f then Some 0 else map_option Suc (find_tag fs tag))"

definition lookup :: "(int \<Rightarrow> int \<Rightarrow> bool) \<Rightarrow> FieldBase list \<Rightarrow> int \<Rightarrow> nat option" where
  "lookup lt fs tag =
     (if length fs < 16 then find_tag fs tag
      else let field = std_lower_bound lt fs tag in
        if field \<noteq> length fs \<and> f_tag (fs ! field) = tag then Some field else None)"

definition findPositionFor :: "(int \<Rightarrow> int \<Rightarrow> bool) \<Rightarrow> FieldBase list \<Rightarrow> int \<Rightarrow> nat" where
  "findPositionFor lt fs tag =
     (if fs = [] then length fs
      else if lt (f_tag (last fs)) tag \<or> f_tag (last fs) = tag then length fs
      else std_upper_bound lt fs tag)"

definition insert_at :: "nat \<Rightarrow> 'a \<Rightarrow> 'a list \<Rightarrow> 'a list" where
  "insert_at i x xs = take i xs @ x # drop i xs"

definition erase_at :: "nat \<Rightarrow> 'a list \<Rightarrow> 'a list" where
  "erase_at i xs = take i xs @ drop (i + 1) xs"

text \<open>
  \<^verbatim>\<open>std::sort\<close>. The library does not say how it orders fields of equal tags; here they keep
  their order.
\<close>

fun insert_sorted :: "(int \<Rightarrow> int \<Rightarrow> bool) \<Rightarrow> FieldBase \<Rightarrow> FieldBase list \<Rightarrow> FieldBase list" where
  "insert_sorted lt f [] = [f]"
| "insert_sorted lt f (g # gs) =
     (if lt (f_tag g) (f_tag f) then g # insert_sorted lt f gs else f # g # gs)"

text \<open>\<^verbatim>\<open>std::sort\<close> may also exchange fields of equal tags; which of them comes first is not relied on.\<close>

definition std_sort :: "(int \<Rightarrow> int \<Rightarrow> bool) \<Rightarrow> FieldBase list \<Rightarrow> FieldBase list" where
  "std_sort lt fs = foldr (insert_sorted lt) fs []"

section \<open>What the order gives the vector\<close>

definition fsorted :: "(int \<Rightarrow> int \<Rightarrow> bool) \<Rightarrow> FieldBase list \<Rightarrow> bool" where
  "fsorted lt fs = sorted_wrt (\<lambda>a b. \<not> lt (f_tag b) (f_tag a)) fs"

lemma partition_point_eq:
  "first \<le> k \<Longrightarrow> k \<le> first + len \<Longrightarrow> (\<And>i. first \<le> i \<Longrightarrow> i < k \<Longrightarrow> P (xs ! i)) \<Longrightarrow>
   (\<And>i. k \<le> i \<Longrightarrow> i < first + len \<Longrightarrow> \<not> P (xs ! i)) \<Longrightarrow> partition_point P xs first len = k"
proof (induction P xs first len rule: partition_point.induct)
  case (1 P xs first len)
  show ?case
  proof (cases "len = 0")
    case True
    with "1.prems" show ?thesis by (simp add: partition_point.simps)
  next
    case False
    let ?half = "len div 2" let ?mid = "first + ?half"
    show ?thesis
    proof (cases "P (xs ! ?mid)")
      case True
      then have "?mid < k"
        using "1.prems"(4) [of ?mid] False by (metis add_less_cancel_left div_less_dividend leI
            less_2_cases_iff not_gr_zero numeral_1_eq_Suc_0 numeral_eq_one_iff one_less_numeral_iff semiring_norm(76))
      then have "partition_point P xs (?mid + 1) (len - ?half - 1) = k"
        using "1.prems" False by (intro "1.IH"(1) [OF False refl refl True]) auto
      with False True show ?thesis by (subst partition_point.simps) (simp add: Let_def)
    next
      case mid: False
      then have "k \<le> ?mid"
        using "1.prems"(3) [of ?mid] by (metis le_add1 leI)
      then have "partition_point P xs first ?half = k"
        using "1.prems" by (intro "1.IH"(2) [OF False refl refl mid]) auto
      with False mid show ?thesis by (subst partition_point.simps) (simp add: Let_def)
    qed
  qed
qed

lemma find_tag_None: "find_tag fs tag = None \<longleftrightarrow> tag \<notin> f_tag ` set fs"
  by (induction fs) auto

lemma find_tag_Some:
  "find_tag fs tag = Some i \<longleftrightarrow> i < length fs \<and> f_tag (fs ! i) = tag \<and> (\<forall>j<i. f_tag (fs ! j) \<noteq> tag)"
proof (induction fs arbitrary: i)
  case (Cons f fs)
  then show ?case by (cases i) (auto simp: less_Suc_eq_0_disj)
qed simp

lemma partition_point_le: "partition_point P xs first len \<le> first + len"
proof (induction P xs first len rule: partition_point.induct)
  case (1 P xs first len)
  then show ?case
    by (subst partition_point.simps) (fastforce simp: Let_def)
qed

lemma lookup_less: "lookup lt fs tag = Some i \<Longrightarrow> i < length fs"
  using partition_point_le [of "\<lambda>f. lt (f_tag f) tag" fs 0 "length fs"]
  by (auto simp: lookup_def find_tag_Some std_lower_bound_def Let_def split: if_splits)

context tag_order
begin

lemma fsorted_nth: "fsorted less fs \<Longrightarrow> i \<le> j \<Longrightarrow> j < length fs \<Longrightarrow> \<not> less (f_tag (fs ! j)) (f_tag (fs ! i))"
  using irrefl by (cases "i = j") (auto simp: fsorted_def sorted_wrt_iff_nth_less)

lemma lower_bound_eq:
  assumes "fsorted less fs" and "k \<le> length fs"
    and "\<And>i. i < k \<Longrightarrow> less (f_tag (fs ! i)) tag"
    and "\<And>i. k \<le> i \<Longrightarrow> i < length fs \<Longrightarrow> \<not> less (f_tag (fs ! i)) tag"
  shows "std_lower_bound less fs tag = k"
  unfolding std_lower_bound_def using assms by (intro partition_point_eq) auto

text \<open>The halving search returns the length of the prefix on which the test holds.\<close>

lemma prefix_ends:
  assumes "\<And>i j. i \<le> j \<Longrightarrow> j < length xs \<Longrightarrow> P (xs ! j) \<Longrightarrow> P (xs ! i)"
  shows "\<exists>k\<le>length xs. (\<forall>i<k. P (xs ! i)) \<and> (\<forall>i. k \<le> i \<longrightarrow> i < length xs \<longrightarrow> \<not> P (xs ! i))"
proof -
  let ?k = "length (takeWhile P xs)"
  have "\<not> P (xs ! i)" if "?k \<le> i" "i < length xs" for i
    using assms [of ?k i] that nth_length_takeWhile [of P xs] by fastforce
  moreover have "P (xs ! i)" if "i < ?k" for i
    using that nth_mem [of i "takeWhile P xs"] by (auto simp: takeWhile_nth dest: set_takeWhileD)
  moreover have "?k \<le> length xs" by (rule length_takeWhile_le)
  ultimately show ?thesis by blast
qed

lemma lookup_eq_find:
  assumes "fsorted less fs"
  shows "lookup less fs tag = find_tag fs tag"
proof (cases "length fs < 16")
  case True
  then show ?thesis by (simp add: lookup_def)
next
  case False
  obtain k where k: "k \<le> length fs" "\<And>i. i < k \<Longrightarrow> less (f_tag (fs ! i)) tag"
      "\<And>i. k \<le> i \<Longrightarrow> i < length fs \<Longrightarrow> \<not> less (f_tag (fs ! i)) tag"
    using prefix_ends [of fs "\<lambda>f. less (f_tag f) tag"] fsorted_nth [OF assms] less_not_less by blast
  have lb: "std_lower_bound less fs tag = k"
    using assms k by (rule lower_bound_eq)
  have before: "f_tag (fs ! j) \<noteq> tag" if "j < k" for j
    using k(2) [OF that] irrefl by auto
  show ?thesis
  proof (cases "k \<noteq> length fs \<and> f_tag (fs ! k) = tag")
    case True
    then have "find_tag fs tag = Some k"
      using k(1) before by (auto simp: find_tag_Some)
    with False True lb show ?thesis by (simp add: lookup_def)
  next
    case no: False
    have "tag \<notin> f_tag ` set fs"
    proof
      assume "tag \<in> f_tag ` set fs"
      then obtain i where i: "i < length fs" "f_tag (fs ! i) = tag"
        by (auto simp: in_set_conv_nth)
      then have "k \<le> i" using before leI by blast
      with i have "k < length fs" by simp
      moreover have "\<not> less tag (f_tag (fs ! k))"
        using fsorted_nth [OF assms \<open>k \<le> i\<close> i(1)] i(2) by simp
      ultimately have "f_tag (fs ! k) = tag"
        using k(3) [of k] neither by blast
      with no \<open>k < length fs\<close> show False by simp
    qed
    then have "find_tag fs tag = None" by (simp add: find_tag_None)
    with False no lb show ?thesis by (auto simp: lookup_def Let_def)
  qed
qed

lemma fsorted_insert:
  assumes "fsorted less fs" and "k \<le> length fs"
    and "\<And>g. g \<in> set (take k fs) \<Longrightarrow> \<not> less (f_tag f) (f_tag g)"
    and "\<And>g. g \<in> set (drop k fs) \<Longrightarrow> \<not> less (f_tag g) (f_tag f)"
  shows "fsorted less (insert_at k f fs)"
proof -
  have "fsorted less (take k fs @ drop k fs)" using assms(1) by simp
  then show ?thesis
    using assms(3,4) by (auto simp: fsorted_def insert_at_def sorted_wrt_append simp del: append_take_drop_id)
qed

lemma findPositionFor_inserts:
  assumes "fsorted less fs"
  shows "findPositionFor less fs (f_tag f) \<le> length fs"
    and "fsorted less (insert_at (findPositionFor less fs (f_tag f)) f fs)"
proof -
  have "findPositionFor less fs (f_tag f) \<le> length fs \<and>
    fsorted less (insert_at (findPositionFor less fs (f_tag f)) f fs)"
  proof (cases "fs = [] \<or> less (f_tag (last fs)) (f_tag f) \<or> f_tag (last fs) = f_tag f")
    case True
    then have pos: "findPositionFor less fs (f_tag f) = length fs" by (auto simp: findPositionFor_def)
    have "\<not> less (f_tag f) (f_tag g)" if g: "g \<in> set fs" for g
    proof -
      obtain i where i: "i < length fs" "fs ! i = g" using g by (auto simp: in_set_conv_nth)
      have "fs \<noteq> []" using g by auto
      then have "\<not> less (f_tag (last fs)) (f_tag g)"
        using fsorted_nth [OF assms, of i "length fs - 1"] i by (simp add: last_conv_nth)
      with True g show ?thesis using trans by (metis list.set_cases neq_Nil_conv)
    qed
    then show ?thesis
      using fsorted_insert [OF assms, of "length fs" f] by (simp add: pos)
  next
    case False
    obtain k where k: "k \<le> length fs" "\<And>i. i < k \<Longrightarrow> \<not> less (f_tag f) (f_tag (fs ! i))"
        "\<And>i. k \<le> i \<Longrightarrow> i < length fs \<Longrightarrow> less (f_tag f) (f_tag (fs ! i))"
      using prefix_ends [of fs "\<lambda>g. \<not> less (f_tag f) (f_tag g)"] fsorted_nth [OF assms] less_not_less by blast
    have "std_upper_bound less fs (f_tag f) = k"
      unfolding std_upper_bound_def using k by (intro partition_point_eq) auto
    then have pos: "findPositionFor less fs (f_tag f) = k" using False by (auto simp: findPositionFor_def)
    have "fsorted less (insert_at k f fs)"
      using k(2) asym [OF k(3)] k(1)
      by (intro fsorted_insert [OF assms]) (auto simp: in_set_conv_nth)
    then show ?thesis using k(1) by (simp add: pos)
  qed
  then show "findPositionFor less fs (f_tag f) \<le> length fs"
    and "fsorted less (insert_at (findPositionFor less fs (f_tag f)) f fs)" by simp_all
qed

lemma fsorted_insert_sorted: "fsorted less fs \<Longrightarrow> fsorted less (insert_sorted less f fs)"
proof (induction fs)
  case (Cons g gs)
  have set: "set (insert_sorted less f gs) = insert f (set gs)"
    by (induction gs) auto
  show ?case
  proof (cases "less (f_tag g) (f_tag f)")
    case True
    with Cons asym [OF True] show ?thesis by (auto simp: fsorted_def set)
  next
    case False
    then have "\<not> less (f_tag h) (f_tag f)" if "h \<in> set gs" for h
      using Cons.prems that not_less_trans by (auto simp: fsorted_def)
    with False Cons.prems show ?thesis by (auto simp: fsorted_def)
  qed
qed (simp add: fsorted_def)

lemma fsorted_std_sort: "fsorted less (std_sort less fs)"
  by (induction fs) (simp_all add: std_sort_def fsorted_insert_sorted fsorted_def [of _ "[]"])

text \<open>When the tags differ there is one sorted arrangement, so any sort gives the same vector.\<close>

lemma fsorted_unique:
  "fsorted less fs \<Longrightarrow> fsorted less gs \<Longrightarrow> mset fs = mset gs \<Longrightarrow> distinct (map f_tag fs) \<Longrightarrow> fs = gs"
proof (induction fs arbitrary: gs)
  case (Cons f fs)
  from Cons.prems(3) obtain g gs' where gs: "gs = g # gs'" by (cases gs) auto
  have f: "f \<in> set gs" and g: "g \<in> set (f # fs)"
    using mset_eq_setD [OF Cons.prems(3)] by (auto simp: gs)
  have "f_tag f = f_tag g"
    using f g Cons.prems(1,2) neither unfolding gs by (auto simp: fsorted_def)
  with g Cons.prems(4) have "f = g" by (auto simp: image_iff)
  with Cons gs show ?case by (auto simp: fsorted_def)
qed simp

end

lemma mset_insert_sorted [simp]: "mset (insert_sorted lt f fs) = add_mset f (mset fs)"
  by (induction fs) auto

lemma mset_std_sort [simp]: "mset (std_sort lt fs) = mset fs"
  by (induction fs) (simp_all add: std_sort_def)

lemma set_std_sort [simp]: "set (std_sort lt fs) = set fs"
  by (metis mset_std_sort set_mset_mset)

lemma length_std_sort [simp]: "length (std_sort lt fs) = length fs"
  by (metis mset_std_sort size_mset)

lemma mset_insert_at [simp]: "mset (insert_at k f fs) = add_mset f (mset fs)"
proof -
  have "mset fs = mset (take k fs) + mset (drop k fs)" by (simp flip: mset_append)
  then show ?thesis by (simp add: insert_at_def)
qed

end
