(* ===== verification/Field_Map.thy ===== *)
theory Field_Map
  imports Field_Search
begin

text \<open>
  Field maps (flashfix/include/FieldMap.h, flashfix/src/FieldMap.cpp, flashfix/include/Group.h):
  the fields, the repeating groups by tag (the entries of the map in ascending order) and the
  order. Groups are owned by their map, so a group is a value. A field that is not found is
  \<open>None\<close>. The locale \<open>field_store\<close> is what the messages and the session ask of a header.
\<close>

section \<open>State\<close>

datatype FieldMap =
  FieldMap (fm_fields: "FieldBase list") (fm_groups: "(int \<times> FieldMap list) list") (fm_order: message_order)

definition FieldMap_new :: "message_order \<Rightarrow> FieldMap" where
  "FieldMap_new order = FieldMap [] [] order"

definition FieldMap_of_array :: "int list \<Rightarrow> FieldMap" where
  "FieldMap_of_array order = FieldMap [] [] (message_order_of order)"

definition with_fields :: "FieldBase list \<Rightarrow> FieldMap \<Rightarrow> FieldMap" where
  "with_fields fs m = FieldMap fs (fm_groups m) (fm_order m)"

definition with_groups :: "(int \<times> FieldMap list) list \<Rightarrow> FieldMap \<Rightarrow> FieldMap" where
  "with_groups gs m = FieldMap (fm_fields m) gs (fm_order m)"

lemma with_sel [simp]:
  "fm_fields (with_fields fs m) = fs" "fm_groups (with_fields fs m) = fm_groups m"
  "fm_order (with_fields fs m) = fm_order m" "fm_fields (with_groups gs m) = fm_fields m"
  "fm_groups (with_groups gs m) = gs" "fm_order (with_groups gs m) = fm_order m"
  by (simp_all add: with_fields_def with_groups_def)

abbreviation fm_less :: "FieldMap \<Rightarrow> int \<Rightarrow> int \<Rightarrow> bool" where
  "fm_less m \<equiv> message_order_less (fm_order m)"

section \<open>Fields\<close>

definition findTag :: "FieldMap \<Rightarrow> int \<Rightarrow> nat option" where
  "findTag m tag = lookup (fm_less m) (fm_fields m) tag"

definition addField :: "FieldBase \<Rightarrow> FieldMap \<Rightarrow> FieldMap" where
  "addField field m =
     (let iter = findPositionFor (fm_less m) (fm_fields m) (f_tag field) in
      if iter = length (fm_fields m) then with_fields (fm_fields m @ [field]) m
      else with_fields (insert_at iter field (fm_fields m)) m)"

definition setField_overwrite :: "FieldBase \<Rightarrow> bool \<Rightarrow> FieldMap \<Rightarrow> FieldMap" where
  "setField_overwrite field overwrite m =
     (if \<not> overwrite then addField field m
      else case findTag m (f_tag field) of
        None \<Rightarrow> addField field m
      | Some i \<Rightarrow> with_fields ((fm_fields m)[i := FieldBase_setString (f_string field) (fm_fields m ! i)]) m)"

abbreviation setField :: "FieldBase \<Rightarrow> FieldMap \<Rightarrow> FieldMap" where
  "setField field \<equiv> setField_overwrite field True"

definition setField_text :: "int \<Rightarrow> string \<Rightarrow> FieldMap \<Rightarrow> FieldMap" where
  "setField_text tag val m = setField (FieldBase_new tag val) m"

definition getFieldIfSet :: "int \<Rightarrow> FieldMap \<Rightarrow> FieldBase option" where
  "getFieldIfSet tag m = map_option (\<lambda>i. fm_fields m ! i) (findTag m tag)"

text \<open>\<open>None\<close>: the exception \<^verbatim>\<open>FieldNotFound\<close>.\<close>

definition getFieldRef :: "int \<Rightarrow> FieldMap \<Rightarrow> FieldBase option" where
  "getFieldRef tag m = (case findTag m tag of None \<Rightarrow> None | Some i \<Rightarrow> Some (fm_fields m ! i))"

definition getField_text :: "int \<Rightarrow> FieldMap \<Rightarrow> string option" where
  "getField_text tag m = map_option f_string (getFieldRef tag m)"

definition isSetField :: "int \<Rightarrow> FieldMap \<Rightarrow> bool" where
  "isSetField tag m = (findTag m tag \<noteq> None)"

text \<open>The decoder appends, looks back for a length field, and sorts at the end.\<close>

definition appendField :: "FieldBase \<Rightarrow> FieldMap \<Rightarrow> FieldMap" where
  "appendField field m = with_fields (fm_fields m @ [field]) m"

definition reverse_find :: "int \<Rightarrow> FieldMap \<Rightarrow> FieldBase option" where
  "reverse_find tag m = List.find (\<lambda>f. tag = f_tag f) (rev (fm_fields m))"

definition sortFields :: "FieldMap \<Rightarrow> FieldMap" where
  "sortFields m = with_fields (std_sort (fm_less m) (fm_fields m)) m"

section \<open>Groups\<close>

fun groups_put :: "int \<Rightarrow> 'g \<Rightarrow> (int \<times> 'g) list \<Rightarrow> (int \<times> 'g) list" where
  "groups_put tag g [] = [(tag, g)]"
| "groups_put tag g ((t, h) # gs) =
     (if tag < t then (tag, g) # (t, h) # gs
      else if tag = t then (tag, g) # gs
      else (t, h) # groups_put tag g gs)"

definition groups_erase :: "int \<Rightarrow> (int \<times> 'g) list \<Rightarrow> (int \<times> 'g) list" where
  "groups_erase tag gs = filter (\<lambda>e. fst e \<noteq> tag) gs"

text \<open>\<^verbatim>\<open>IntField(tag, (int) n)\<close>.\<close>

definition count_field :: "int \<Rightarrow> nat \<Rightarrow> FieldBase" where
  "count_field tag n = FieldBase_new tag (IntT_convert True (word_of_int (int n) :: 32 word))"

definition addGroupPtr :: "int \<Rightarrow> FieldMap option \<Rightarrow> bool \<Rightarrow> FieldMap \<Rightarrow> FieldMap" where
  "addGroupPtr tag grp setCount m =
     (case grp of
        None \<Rightarrow> m
      | Some g \<Rightarrow>
          let groups = (case map_of (fm_groups m) tag of None \<Rightarrow> [] | Some gs \<Rightarrow> gs) @ [g];
              m = with_groups (groups_put tag groups (fm_groups m)) m
          in if setCount then setField (count_field tag (length groups)) m else m)"

definition addGroup :: "int \<Rightarrow> FieldMap \<Rightarrow> bool \<Rightarrow> FieldMap \<Rightarrow> FieldMap" where
  "addGroup tag grp setCount m = addGroupPtr tag (Some grp) setCount m"

definition getGroupRef :: "int \<Rightarrow> int \<Rightarrow> FieldMap \<Rightarrow> FieldMap option" where
  "getGroupRef num tag m =
     (case map_of (fm_groups m) tag of
        None \<Rightarrow> None
      | Some groups \<Rightarrow>
          if num \<le> 0 then None
          else if length groups < nat num then None
          else Some (groups ! nat (num - 1)))"

definition replaceGroup :: "int \<Rightarrow> int \<Rightarrow> FieldMap \<Rightarrow> FieldMap \<Rightarrow> FieldMap" where
  "replaceGroup num tag grp m =
     (case map_of (fm_groups m) tag of
        None \<Rightarrow> m
      | Some groups \<Rightarrow>
          if num \<le> 0 then m
          else if length groups < nat num then m
          else with_groups (groups_put tag (groups[nat (num - 1) := grp]) (fm_groups m)) m)"

lemma length_groups_erase: "map_of gs tag = Some g \<Longrightarrow> length (groups_erase tag gs) < length gs"
  unfolding groups_erase_def by (rule length_filter_less [of "(tag, g)"]) (auto dest: map_of_SomeD)

text \<open>\<open>removeField\<close> and \<open>removeGroup\<close> (of all instances) call each other.\<close>

function removeField :: "int \<Rightarrow> FieldMap \<Rightarrow> FieldMap" and removeGroups :: "int \<Rightarrow> FieldMap \<Rightarrow> FieldMap" where
  "removeField tag m =
     (case findTag m tag of
        None \<Rightarrow> m
      | Some i \<Rightarrow> removeGroups tag (with_fields (erase_at i (fm_fields m)) m))"
| "removeGroups tag m =
     (if map_of (fm_groups m) tag = None then m
      else removeField tag (with_groups (groups_erase tag (fm_groups m)) m))"
  by pat_completeness auto

termination
  by (relation "measure (\<lambda>x. case x of Inl (tag, m) \<Rightarrow> length (fm_fields m) + length (fm_groups m)
      | Inr (tag, m) \<Rightarrow> length (fm_fields m) + length (fm_groups m))")
    (auto simp: erase_at_def findTag_def dest: lookup_less intro: length_groups_erase)

declare removeField.simps [simp del] removeGroups.simps [simp del]

definition removeGroup :: "int \<Rightarrow> int \<Rightarrow> FieldMap \<Rightarrow> FieldMap" where
  "removeGroup num tag m =
     (case map_of (fm_groups m) tag of
        None \<Rightarrow> m
      | Some groups \<Rightarrow>
          if num \<le> 0 then m
          else if length groups < nat num then m
          else
            let groups = erase_at (nat (num - 1)) groups in
            if length groups = 0
            then removeField tag (with_groups (groups_erase tag (fm_groups m)) m)
            else setField (count_field tag (length groups)) (with_groups (groups_put tag groups (fm_groups m)) m))"

definition groupCount :: "int \<Rightarrow> FieldMap \<Rightarrow> nat" where
  "groupCount tag m = (case map_of (fm_groups m) tag of None \<Rightarrow> 0 | Some groups \<Rightarrow> length groups)"

definition hasGroup_num :: "int \<Rightarrow> int \<Rightarrow> FieldMap \<Rightarrow> bool" where
  "hasGroup_num num tag m = (int (groupCount tag m) \<ge> num)"

definition hasGroup :: "int \<Rightarrow> FieldMap \<Rightarrow> bool" where
  "hasGroup tag m = (map_of (fm_groups m) tag \<noteq> None)"

definition FieldMap_clear :: "FieldMap \<Rightarrow> FieldMap" where
  "FieldMap_clear m = FieldMap [] [] (fm_order m)"

definition FieldMap_isEmpty :: "FieldMap \<Rightarrow> bool" where
  "FieldMap_isEmpty m = (fm_fields m = [])"

section \<open>Serialisation\<close>

lemma size_group [termination_simp]:
  assumes "map_of gs tag = Some l" and "g \<in> set l"
  shows "size (g :: FieldMap) < Suc (size_list (\<lambda>x. Suc (size_list size (snd x))) gs)"
proof -
  have "(tag, l) \<in> set gs" using assms(1) by (rule map_of_SomeD)
  then have "size_list size l \<le> size_list (\<lambda>x. Suc (size_list size (snd x))) gs"
    by (rule size_list_estimation') simp
  moreover have "size g \<le> size_list size l" using assms(2) by (rule size_list_estimation') simp
  ultimately show ?thesis by simp
qed

fun totalFields :: "FieldMap \<Rightarrow> nat" where
  "totalFields (FieldMap fs gs ord) =
     length fs + sum_list (map (\<lambda>(tag, groups). sum_list (map totalFields groups)) gs)"

fun calculateString :: "FieldMap \<Rightarrow> string" where
  "calculateString (FieldMap fs gs ord) =
     concat (map (\<lambda>field. FieldBase_getFixString field @
       (case map_of gs (f_tag field) of None \<Rightarrow> [] | Some groups \<Rightarrow> concat (map calculateString groups))) fs)"

fun calculateLength :: "int \<Rightarrow> int \<Rightarrow> int \<Rightarrow> FieldMap \<Rightarrow> int" where
  "calculateLength beginStringField bodyLengthField checkSumField (FieldMap fs gs ord) =
     sum_list (map FieldBase_getLength (filter (\<lambda>field. f_tag field \<noteq> beginStringField \<and>
         f_tag field \<noteq> bodyLengthField \<and> f_tag field \<noteq> checkSumField) fs)) +
     sum_list (map (\<lambda>(tag, groups). sum_list (map
       (calculateLength TAG_BeginString TAG_BodyLength TAG_CheckSum) groups)) gs)"

fun calculateTotal :: "int \<Rightarrow> FieldMap \<Rightarrow> int" where
  "calculateTotal checkSumField (FieldMap fs gs ord) =
     sum_list (map FieldBase_getTotal (filter (\<lambda>field. f_tag field \<noteq> checkSumField) fs)) +
     sum_list (map (\<lambda>(tag, groups). sum_list (map (calculateTotal TAG_CheckSum) groups)) gs)"

end
