(* ===== verification/Dictionary_Data.thy ===== *)
theory Dictionary_Data
  imports Field_Map "HOL-Library.AList"
begin

text \<open>
  The storage of a data dictionary (flashfix/include/DataDictionary.h): which fields, message
  types, required fields, values and groups a FIX version has. The maps that the validator walks
  are association lists in ascending order, as the code's ordered maps are; the others are maps.
  A lookup that returns false is \<open>None\<close>.
\<close>

section \<open>State\<close>

datatype field_type =
    TYPE_Unknown | TYPE_String | TYPE_Char | TYPE_Price | TYPE_Int | TYPE_Amt | TYPE_Qty | TYPE_Currency
  | TYPE_MultipleValueString | TYPE_MultipleStringValue | TYPE_MultipleCharValue | TYPE_Exchange
  | TYPE_UtcTimeStamp | TYPE_Boolean | TYPE_LocalMktTime | TYPE_LocalMktDate | TYPE_Data | TYPE_Float
  | TYPE_PriceOffset | TYPE_MonthYear | TYPE_DayOfMonth | TYPE_UtcDate | TYPE_UtcTimeOnly | TYPE_NumInGroup
  | TYPE_Percentage | TYPE_SeqNum | TYPE_TagNum | TYPE_Length | TYPE_Country | TYPE_TzTimeOnly
  | TYPE_TzTimeStamp | TYPE_XmlData | TYPE_Language | TYPE_Xid | TYPE_XidRef

record dictionary_data =
  dd_hasVersion :: bool
  dd_checkFieldsOutOfOrder :: bool
  dd_checkFieldsHaveValues :: bool
  dd_checkUserDefinedFields :: bool
  dd_allowUnknownMessageFields :: bool
  dd_storeMsgFieldsOrder :: bool
  dd_beginString :: string
  dd_messageFields :: "string \<rightharpoonup> int set"
  dd_requiredFields :: "string \<rightharpoonup> int list"
  dd_messages :: "string set"
  dd_fields :: "int set"
  dd_orderedFields :: "int list"
  dd_headerFields :: "(int \<times> bool) list"
  dd_trailerFields :: "(int \<times> bool) list"
  dd_fieldTypes :: "int \<rightharpoonup> field_type"
  dd_fieldValues :: "int \<rightharpoonup> string set"
  dd_fieldNames :: "int \<rightharpoonup> string"
  dd_names :: "string \<rightharpoonup> int"
  dd_valueNames :: "int \<times> string \<rightharpoonup> string"
  dd_nameValues :: "int \<times> string \<rightharpoonup> string"
  dd_dataFields :: "int set"
  dd_headerOrderedFields :: "int list"
  dd_trailerOrderedFields :: "int list"
  dd_messageOrderedFields :: "string \<rightharpoonup> int list"

text \<open>The groups of a field, by message type: the delimiter and the dictionary of the group.\<close>

datatype DataDictionary =
  DataDictionary (dd_data: dictionary_data) (dd_groups: "(int \<times> (string \<times> (int \<times> DataDictionary)) list) list")

definition dictionary_data_new :: dictionary_data where
  "dictionary_data_new =
     \<lparr>dd_hasVersion = False, dd_checkFieldsOutOfOrder = True, dd_checkFieldsHaveValues = True,
      dd_checkUserDefinedFields = True, dd_allowUnknownMessageFields = False,
      dd_storeMsgFieldsOrder = False, dd_beginString = [], dd_messageFields = Map.empty,
      dd_requiredFields = Map.empty, dd_messages = {}, dd_fields = {}, dd_orderedFields = [],
      dd_headerFields = [], dd_trailerFields = [], dd_fieldTypes = Map.empty,
      dd_fieldValues = Map.empty, dd_fieldNames = Map.empty, dd_names = Map.empty,
      dd_valueNames = Map.empty, dd_nameValues = Map.empty, dd_dataFields = {},
      dd_headerOrderedFields = [], dd_trailerOrderedFields = [], dd_messageOrderedFields = Map.empty\<rparr>"

definition DataDictionary_new :: DataDictionary where
  "DataDictionary_new = DataDictionary dictionary_data_new []"

definition with_data :: "(dictionary_data \<Rightarrow> dictionary_data) \<Rightarrow> DataDictionary \<Rightarrow> DataDictionary" where
  "with_data f d = DataDictionary (f (dd_data d)) (dd_groups d)"

lemma with_data_sel [simp]:
  "dd_data (with_data f d) = f (dd_data d)" "dd_groups (with_data f d) = dd_groups d"
  by (simp_all add: with_data_def)

section \<open>Storing\<close>

fun insert_ordered :: "int \<Rightarrow> int list \<Rightarrow> int list" where
  "insert_ordered x [] = [x]"
| "insert_ordered x (y # ys) = (if x < y then x # y # ys else if x = y then y # ys else y # insert_ordered x ys)"

definition setVersion :: "string \<Rightarrow> DataDictionary \<Rightarrow> DataDictionary" where
  "setVersion beginString = with_data (\<lambda>d. d\<lparr>dd_beginString := beginString, dd_hasVersion := True\<rparr>)"

definition getVersion :: "DataDictionary \<Rightarrow> string" where
  "getVersion d = dd_beginString (dd_data d)"

definition dd_addField :: "int \<Rightarrow> DataDictionary \<Rightarrow> DataDictionary" where
  "dd_addField field = with_data (\<lambda>d. d\<lparr>dd_fields := insert field (dd_fields d),
     dd_orderedFields := dd_orderedFields d @ [field]\<rparr>)"

text \<open>\<open>None\<close>: the name is taken (ConfigError).\<close>

definition addFieldName :: "int \<Rightarrow> string \<Rightarrow> DataDictionary \<Rightarrow> DataDictionary option" where
  "addFieldName field name d =
     (if dd_names (dd_data d) name \<noteq> None then None
      else Some (with_data (\<lambda>d. d\<lparr>dd_names := (dd_names d)(name \<mapsto> field),
        dd_fieldNames := (dd_fieldNames d)(field \<mapsto> name)\<rparr>) d))"

definition getFieldName :: "int \<Rightarrow> DataDictionary \<Rightarrow> string option" where
  "getFieldName field d = dd_fieldNames (dd_data d) field"

definition getFieldTag :: "string \<Rightarrow> DataDictionary \<Rightarrow> int option" where
  "getFieldTag name d = dd_names (dd_data d) name"

definition addValueName :: "int \<Rightarrow> string \<Rightarrow> string \<Rightarrow> DataDictionary \<Rightarrow> DataDictionary" where
  "addValueName field val name = with_data (\<lambda>d. d\<lparr>
     dd_valueNames := (dd_valueNames d)((field, val) \<mapsto> name),
     dd_nameValues := (dd_nameValues d)((field, name) \<mapsto> val)\<rparr>)"

definition getValueName :: "int \<Rightarrow> string \<Rightarrow> DataDictionary \<Rightarrow> string option" where
  "getValueName field val d = dd_valueNames (dd_data d) (field, val)"

definition getNameValue :: "int \<Rightarrow> string \<Rightarrow> DataDictionary \<Rightarrow> string option" where
  "getNameValue field name d = dd_nameValues (dd_data d) (field, name)"

definition isField :: "int \<Rightarrow> DataDictionary \<Rightarrow> bool" where
  "isField field d = (field \<in> dd_fields (dd_data d))"

definition addMsgType :: "string \<Rightarrow> DataDictionary \<Rightarrow> DataDictionary" where
  "addMsgType msgType = with_data (\<lambda>d. d\<lparr>dd_messages := insert msgType (dd_messages d)\<rparr>)"

definition isMsgType :: "string \<Rightarrow> DataDictionary \<Rightarrow> bool" where
  "isMsgType msgType d = (msgType \<in> dd_messages (dd_data d))"

definition addMsgField :: "string \<Rightarrow> int \<Rightarrow> DataDictionary \<Rightarrow> DataDictionary" where
  "addMsgField msgType field = with_data (\<lambda>d.
     let d = (if dd_storeMsgFieldsOrder d
              then d\<lparr>dd_messageOrderedFields := (dd_messageOrderedFields d)(msgType \<mapsto>
                (case dd_messageOrderedFields d msgType of None \<Rightarrow> [] | Some fs \<Rightarrow> fs) @ [field])\<rparr>
              else d)
     in d\<lparr>dd_messageFields := (dd_messageFields d)(msgType \<mapsto>
           insert field (case dd_messageFields d msgType of None \<Rightarrow> {} | Some fs \<Rightarrow> fs))\<rparr>)"

definition isMsgField :: "string \<Rightarrow> int \<Rightarrow> DataDictionary \<Rightarrow> bool" where
  "isMsgField msgType field d =
     (case dd_messageFields (dd_data d) msgType of None \<Rightarrow> False | Some fs \<Rightarrow> field \<in> fs)"

definition addHeaderField :: "int \<Rightarrow> bool \<Rightarrow> DataDictionary \<Rightarrow> DataDictionary" where
  "addHeaderField field required = with_data (\<lambda>d.
     let d = (if dd_storeMsgFieldsOrder d
              then d\<lparr>dd_headerOrderedFields := dd_headerOrderedFields d @ [field]\<rparr> else d)
     in d\<lparr>dd_headerFields := groups_put field required (dd_headerFields d)\<rparr>)"

definition dd_isHeaderField :: "int \<Rightarrow> DataDictionary \<Rightarrow> bool" where
  "dd_isHeaderField field d = (map_of (dd_headerFields (dd_data d)) field \<noteq> None)"

definition addTrailerField :: "int \<Rightarrow> bool \<Rightarrow> DataDictionary \<Rightarrow> DataDictionary" where
  "addTrailerField field required = with_data (\<lambda>d.
     let d = (if dd_storeMsgFieldsOrder d
              then d\<lparr>dd_trailerOrderedFields := dd_trailerOrderedFields d @ [field]\<rparr> else d)
     in d\<lparr>dd_trailerFields := groups_put field required (dd_trailerFields d)\<rparr>)"

definition dd_isTrailerField :: "int \<Rightarrow> DataDictionary \<Rightarrow> bool" where
  "dd_isTrailerField field d = (map_of (dd_trailerFields (dd_data d)) field \<noteq> None)"

definition addFieldType :: "int \<Rightarrow> field_type \<Rightarrow> DataDictionary \<Rightarrow> DataDictionary" where
  "addFieldType field ty = with_data (\<lambda>d.
     let d = d\<lparr>dd_fieldTypes := (dd_fieldTypes d)(field \<mapsto> ty)\<rparr>
     in if ty = TYPE_Data then d\<lparr>dd_dataFields := insert field (dd_dataFields d)\<rparr> else d)"

definition getFieldType :: "int \<Rightarrow> DataDictionary \<Rightarrow> field_type option" where
  "getFieldType field d = dd_fieldTypes (dd_data d) field"

definition addRequiredField :: "string \<Rightarrow> int \<Rightarrow> DataDictionary \<Rightarrow> DataDictionary" where
  "addRequiredField msgType field = with_data (\<lambda>d. d\<lparr>dd_requiredFields := (dd_requiredFields d)(msgType \<mapsto>
     insert_ordered field (case dd_requiredFields d msgType of None \<Rightarrow> [] | Some fs \<Rightarrow> fs))\<rparr>)"

definition isRequiredField :: "string \<Rightarrow> int \<Rightarrow> DataDictionary \<Rightarrow> bool" where
  "isRequiredField msgType field d =
     (case dd_requiredFields (dd_data d) msgType of None \<Rightarrow> False | Some fs \<Rightarrow> field \<in> set fs)"

definition addFieldValue :: "int \<Rightarrow> string \<Rightarrow> DataDictionary \<Rightarrow> DataDictionary" where
  "addFieldValue field val = with_data (\<lambda>d. d\<lparr>dd_fieldValues := (dd_fieldValues d)(field \<mapsto>
     insert val (case dd_fieldValues d field of None \<Rightarrow> {} | Some vs \<Rightarrow> vs))\<rparr>)"

definition hasFieldValue :: "int \<Rightarrow> DataDictionary \<Rightarrow> bool" where
  "hasFieldValue field d = (dd_fieldValues (dd_data d) field \<noteq> None)"

definition isMultipleValueField :: "int \<Rightarrow> DataDictionary \<Rightarrow> bool" where
  "isMultipleValueField field d =
     (case dd_fieldTypes (dd_data d) field of
        None \<Rightarrow> False
      | Some ty \<Rightarrow> ty = TYPE_MultipleValueString \<or> ty = TYPE_MultipleCharValue \<or> ty = TYPE_MultipleStringValue)"

text \<open>The loop over the space-separated values; it runs once more after every space.\<close>

function all_single_values :: "string set \<Rightarrow> string \<Rightarrow> bool" where
  "all_single_values values val =
     (let singleValue = takeWhile (\<lambda>c. c \<noteq> CHR '' '') val;
          rest = dropWhile (\<lambda>c. c \<noteq> CHR '' '') val
      in if singleValue \<notin> values then False
         else if rest = [] then True
         else all_single_values values (tl rest))"
  by pat_completeness auto
termination
proof (relation "measure (\<lambda>(vs, val). length val)", goal_cases)
  case (2 vs val x xa)
  have "length (dropWhile (\<lambda>c. c \<noteq> CHR '' '') val) \<le> length val" by (rule length_dropWhile_le)
  with 2 show ?case by (cases "dropWhile (\<lambda>c. c \<noteq> CHR '' '') val") simp_all
qed simp

declare all_single_values.simps [simp del]

definition isFieldValue :: "int \<Rightarrow> string \<Rightarrow> DataDictionary \<Rightarrow> bool" where
  "isFieldValue field val d =
     (case dd_fieldValues (dd_data d) field of
        None \<Rightarrow> False
      | Some values \<Rightarrow>
          if \<not> isMultipleValueField field d then val \<in> values
          else all_single_values values val)"

definition isDataField :: "int \<Rightarrow> DataDictionary \<Rightarrow> bool" where
  "isDataField field d = (field \<in> dd_dataFields (dd_data d))"

section \<open>Groups\<close>

text \<open>
  Copying a dictionary copies every member but the names of values; the copy of a nested dictionary
  takes the version of the dictionary it is stored in.
\<close>

fun DataDictionary_copy :: "DataDictionary \<Rightarrow> DataDictionary" where
  "DataDictionary_copy (DataDictionary d gs) =
     DataDictionary (d\<lparr>dd_nameValues := Map.empty\<rparr>)
       (map (\<lambda>(field, presenceMap). (field, map (\<lambda>(msg, delim, g).
          (msg, delim, setVersion (dd_beginString d) (DataDictionary_copy g))) presenceMap)) gs)"

definition dd_addGroup :: "string \<Rightarrow> int \<Rightarrow> int \<Rightarrow> DataDictionary \<Rightarrow> DataDictionary \<Rightarrow> DataDictionary" where
  "dd_addGroup msg field delim dataDictionary d =
     (let pDD = setVersion (getVersion d) (DataDictionary_copy dataDictionary);
          presenceMap = (case map_of (dd_groups d) field of None \<Rightarrow> [] | Some p \<Rightarrow> p)
      in DataDictionary (dd_data d)
           (groups_put field (AList.update msg (delim, pDD) presenceMap) (dd_groups d)))"

definition isGroup :: "string \<Rightarrow> int \<Rightarrow> DataDictionary \<Rightarrow> bool" where
  "isGroup msg field d =
     (case map_of (dd_groups d) field of None \<Rightarrow> False | Some presenceMap \<Rightarrow> map_of presenceMap msg \<noteq> None)"

definition getGroup :: "string \<Rightarrow> int \<Rightarrow> DataDictionary \<Rightarrow> (int \<times> DataDictionary) option" where
  "getGroup msg field d =
     (case map_of (dd_groups d) field of None \<Rightarrow> None | Some presenceMap \<Rightarrow> map_of presenceMap msg)"

section \<open>Orders\<close>

text \<open>
  The code keeps each order once it has built it; the fields of a dictionary are all in place by
  then. \<open>None\<close>: no order was stored (ConfigError).
\<close>

definition getOrderedFields :: "DataDictionary \<Rightarrow> message_order" where
  "getOrderedFields d = message_order_of_size (dd_orderedFields (dd_data d)) (length (dd_orderedFields (dd_data d)))"

definition getHeaderOrderedFields :: "DataDictionary \<Rightarrow> message_order option" where
  "getHeaderOrderedFields d =
     (if length (dd_headerOrderedFields (dd_data d)) = 0 then None
      else Some (message_order_of_size (dd_headerOrderedFields (dd_data d)) (length (dd_headerOrderedFields (dd_data d)))))"

definition getTrailerOrderedFields :: "DataDictionary \<Rightarrow> message_order option" where
  "getTrailerOrderedFields d =
     (if length (dd_trailerOrderedFields (dd_data d)) = 0 then None
      else Some (message_order_of_size (dd_trailerOrderedFields (dd_data d)) (length (dd_trailerOrderedFields (dd_data d)))))"

definition getMessageOrderedFields :: "string \<Rightarrow> DataDictionary \<Rightarrow> message_order option" where
  "getMessageOrderedFields msgType d =
     (case dd_messageOrderedFields (dd_data d) msgType of
        None \<Rightarrow> None
      | Some order \<Rightarrow> Some (message_order_of (order @ [0])))"

lemma size_getGroup [termination_simp]:
  assumes "getGroup msg field d = Some (delim, g)"
  shows "size g < size d"
proof -
  obtain dat gs where d: "d = DataDictionary dat gs" by (cases d)
  from assms obtain p where p: "map_of gs field = Some p" "map_of p msg = Some (delim, g)"
    by (auto simp: getGroup_def d split: option.splits)
  have "(field, p) \<in> set gs" "(msg, delim, g) \<in> set p"
    using p by (auto dest: map_of_SomeD)
  let ?entry = "size_prod (\<lambda>x. 0) (size_prod (\<lambda>x. 0) size) :: string \<times> int \<times> DataDictionary \<Rightarrow> nat"
  let ?field = "size_prod (\<lambda>x. 0) (size_list ?entry) :: int \<times> (string \<times> int \<times> DataDictionary) list \<Rightarrow> nat"
  have "size g \<le> ?entry (msg, delim, g)" by simp
  also have "\<dots> \<le> size_list ?entry p"
    using \<open>(msg, delim, g) \<in> set p\<close> by (rule size_list_estimation') simp
  also have "\<dots> \<le> ?field (field, p)" by simp
  also have "\<dots> \<le> size_list ?field gs"
    using \<open>(field, p) \<in> set gs\<close> by (rule size_list_estimation') simp
  finally show ?thesis by (simp add: d)
qed

end
