(* ===== verification/Field_Map_Laws.thy ===== *)
theory Field_Map_Laws
  imports Field_Map
begin

text \<open>
  What a field map promises: its vector stays sorted with one field per tag, a field reads back
  what was written, removing a field removes its groups, and the lengths and sums a message needs
  are those of the text it writes. The locale \<open>field_store\<close> states the first two as an interface;
  field maps are its provider.
\<close>

section \<open>The interface\<close>

locale field_store =
  fixes get :: "int \<Rightarrow> 'm \<Rightarrow> string option"
    and put :: "int \<Rightarrow> string \<Rightarrow> 'm \<Rightarrow> 'm"
    and del :: "int \<Rightarrow> 'm \<Rightarrow> 'm"
    and ok :: "'m \<Rightarrow> bool"
  assumes get_put: "ok m \<Longrightarrow> get t (put t' v m) = (if t = t' then Some v else get t m)"
    and get_del: "ok m \<Longrightarrow> get t (del t' m) = (if t = t' then None else get t m)"
    and ok_put: "ok m \<Longrightarrow> ok (put t v m)"
    and ok_del: "ok m \<Longrightarrow> ok (del t m)"
begin

text \<open>Copying a field of another store when it is there and not empty.\<close>

definition copy_field :: "int \<Rightarrow> string option \<Rightarrow> 'm \<Rightarrow> 'm" where
  "copy_field t v m = (case v of None \<Rightarrow> m | Some s \<Rightarrow> if s = [] then m else put t s m)"

lemma ok_copy: "ok m \<Longrightarrow> ok (copy_field t v m)"
  by (auto simp: copy_field_def ok_put split: option.split)

lemma get_copy: "ok m \<Longrightarrow> get t (copy_field t' v m) = (if t = t' \<and> v \<noteq> None \<and> v \<noteq> Some [] then v else get t m)"
  by (auto simp: copy_field_def get_put split: option.split)

lemma ok_dels: "ok m \<Longrightarrow> ok (foldr del ts m)"
  by (induction ts) (simp_all add: ok_del)

lemma get_dels: "ok m \<Longrightarrow> get t (foldr del ts m) = (if t \<in> set ts then None else get t m)"
  by (induction ts) (auto simp: get_del ok_dels)

lemma ok_puts: "ok m \<Longrightarrow> ok (foldl (\<lambda>m (t, v). put t v m) m fs)"
  by (induction fs arbitrary: m) (auto simp: ok_put)

lemma get_puts:
  "ok m \<Longrightarrow> get t (foldl (\<lambda>m (t, v). put t v m) m fs) =
    (case map_of (rev fs) t of Some v \<Rightarrow> Some v | None \<Rightarrow> get t m)"
proof (induction fs arbitrary: m)
  case (Cons f fs)
  then show ?case
    by (cases f) (auto simp: ok_put get_put map_add_def split: option.split)
qed simp

end

section \<open>The invariant\<close>

definition fm_ok :: "FieldMap \<Rightarrow> bool" where
  "fm_ok m \<longleftrightarrow> order_ok (fm_order m) \<and> fsorted (fm_less m) (fm_fields m) \<and> distinct (map f_tag (fm_fields m))"

definition tag_values :: "FieldBase list \<Rightarrow> (int \<times> string) list" where
  "tag_values fs = map (\<lambda>f. (f_tag f, f_string f)) fs"

lemma fsorted_tags: "fsorted lt fs \<longleftrightarrow> sorted_wrt (\<lambda>a b. \<not> lt b a) (map f_tag fs)"
  by (simp add: fsorted_def sorted_wrt_map)

lemma fm_ok_tags:
  "fm_ok m \<longleftrightarrow> order_ok (fm_order m) \<and>
     sorted_wrt (\<lambda>a b. \<not> fm_less m b a) (map f_tag (fm_fields m)) \<and> distinct (map f_tag (fm_fields m))"
  by (simp add: fm_ok_def fsorted_tags)

lemma fm_ok_new [simp]: "order_ok order \<Longrightarrow> fm_ok (FieldMap_new order)"
  by (simp add: fm_ok_def FieldMap_new_def fsorted_def)

lemma fm_ok_groups [simp]: "fm_ok (with_groups gs m) \<longleftrightarrow> fm_ok m"
  by (simp add: fm_ok_def)

lemma findTag_eq: "order_ok (fm_order m) \<Longrightarrow> fsorted (fm_less m) (fm_fields m) \<Longrightarrow>
    findTag m tag = find_tag (fm_fields m) tag"
  unfolding findTag_def by (rule tag_order.lookup_eq_find [OF message_order_ok])

lemma findTag_ok: "fm_ok m \<Longrightarrow> findTag m tag = find_tag (fm_fields m) tag"
  by (simp add: fm_ok_def findTag_eq)

lemma map_of_tag_values:
  "map_of (tag_values fs) tag = map_option (\<lambda>i. f_string (fs ! i)) (find_tag fs tag)"
  by (induction fs) (auto simp: tag_values_def option.map_comp comp_def)

lemma getField_text_ok: "fm_ok m \<Longrightarrow> getField_text tag m = map_of (tag_values (fm_fields m)) tag"
  by (auto simp: getField_text_def getFieldRef_def findTag_ok map_of_tag_values split: option.split)

lemma fm_ok_addField:
  assumes ok: "fm_ok m" and new: "f_tag f \<notin> f_tag ` set (fm_fields m)"
  shows "fm_ok (addField f m)"
    and "fm_fields (addField f m) = insert_at (findPositionFor (fm_less m) (fm_fields m) (f_tag f)) f (fm_fields m)"
proof -
  let ?k = "findPositionFor (fm_less m) (fm_fields m) (f_tag f)"
  have order: "tag_order (fm_less m)" using ok by (simp add: fm_ok_def message_order_ok)
  have sorted: "fsorted (fm_less m) (fm_fields m)" using ok by (simp add: fm_ok_def)
  have k: "?k \<le> length (fm_fields m)" "fsorted (fm_less m) (insert_at ?k f (fm_fields m))"
    by (rule tag_order.findPositionFor_inserts [OF order sorted])+
  show eq: "fm_fields (addField f m) = insert_at ?k f (fm_fields m)"
    by (simp add: addField_def Let_def insert_at_def)
  have "mset (map f_tag (insert_at ?k f (fm_fields m))) = mset (f_tag f # map f_tag (fm_fields m))"
    by simp
  then have "distinct (map f_tag (insert_at ?k f (fm_fields m)))"
    using ok new by (metis distinct.simps(2) fm_ok_def image_set mset_eq_imp_distinct_iff)
  moreover have "fm_order (addField f m) = fm_order m" by (simp add: addField_def Let_def)
  ultimately show "fm_ok (addField f m)"
    using ok k(2) eq by (simp add: fm_ok_def)
qed

lemma map_of_insert_at:
  assumes "f_tag f \<notin> f_tag ` set fs"
  shows "map_of (tag_values (insert_at k f fs)) = (map_of (tag_values fs))(f_tag f \<mapsto> f_string f)"
proof -
  have tv: "tag_values fs = tag_values (take k fs) @ tag_values (drop k fs)"
    by (simp add: tag_values_def flip: map_append)
  have "map_of (tag_values (take k fs)) (f_tag f) = None"
    using assms by (auto simp: tag_values_def map_of_eq_None_iff comp_def dest: in_set_takeD)
  then show ?thesis
    unfolding tv by (auto simp: insert_at_def tag_values_def fun_eq_iff map_add_def split: option.split)
qed

lemma setField_new:
  assumes ok: "fm_ok m" and new: "f_tag f \<notin> f_tag ` set (fm_fields m)"
  shows "setField f m = addField f m"
  using new by (simp add: setField_overwrite_def findTag_ok [OF ok] find_tag_None [THEN iffD2])

lemma setField_old:
  assumes ok: "fm_ok m" and "find_tag (fm_fields m) (f_tag f) = Some i"
  shows "setField f m = with_fields ((fm_fields m)[i := FieldBase_setString (f_string f) (fm_fields m ! i)]) m"
  using assms(2) by (simp add: setField_overwrite_def findTag_ok [OF ok])

lemma fm_order_setField [simp]: "fm_order (setField_overwrite f ov m) = fm_order m"
  and fm_groups_setField [simp]: "fm_groups (setField_overwrite f ov m) = fm_groups m"
  by (simp_all add: setField_overwrite_def addField_def Let_def split: option.split)

lemma tags_update: "i < length fs \<Longrightarrow> f_tag g = f_tag (fs ! i) \<Longrightarrow> map f_tag (fs[i := g]) = map f_tag fs"
  by (simp add: map_update list_update_same_conv)

lemma fm_ok_setField:
  assumes ok: "fm_ok m"
  shows "fm_ok (setField f m)"
proof (cases "find_tag (fm_fields m) (f_tag f)")
  case None
  then show ?thesis using ok by (simp add: find_tag_None setField_new fm_ok_addField)
next
  case (Some i)
  then have "i < length (fm_fields m)" by (simp add: find_tag_Some)
  then have "map f_tag ((fm_fields m)[i := FieldBase_setString (f_string f) (fm_fields m ! i)]) =
      map f_tag (fm_fields m)"
    by (rule tags_update) (simp add: FieldBase_setString_def)
  then show ?thesis
    using ok unfolding setField_old [OF ok Some] fm_ok_tags with_sel by simp
qed

lemma map_of_setString:
  assumes "find_tag fs tag = Some i"
  shows "map_of (tag_values (fs[i := FieldBase_setString v (fs ! i)])) = (map_of (tag_values fs))(tag \<mapsto> v)"
  using assms
proof (induction fs arbitrary: i)
  case (Cons f fs)
  show ?case
  proof (cases "tag = f_tag f")
    case True
    with Cons.prems show ?thesis
      by (auto simp: tag_values_def FieldBase_setString_def)
  next
    case False
    with Cons.prems obtain j where "find_tag fs tag = Some j" "i = Suc j" by auto
    with Cons.IH [of j] False show ?thesis by (auto simp: tag_values_def fun_eq_iff)
  qed
qed simp

lemma get_setField:
  assumes ok: "fm_ok m"
  shows "getField_text t (setField f m) = (if t = f_tag f then Some (f_string f) else getField_text t m)"
proof (cases "find_tag (fm_fields m) (f_tag f)")
  case None
  then have new: "f_tag f \<notin> f_tag ` set (fm_fields m)" by (simp add: find_tag_None)
  show ?thesis
    using fm_ok_addField [OF ok new] ok map_of_insert_at [OF new]
    by (simp add: setField_new [OF ok new] getField_text_ok)
next
  case (Some i)
  have "fm_ok (setField f m)" using ok by (rule fm_ok_setField)
  then show ?thesis
    using ok map_of_setString [OF Some]
    by (simp add: setField_old [OF ok Some] getField_text_ok)
qed

text \<open>Removing.\<close>

lemma erase_at_filter:
  "distinct (map f_tag fs) \<Longrightarrow> find_tag fs tag = Some i \<Longrightarrow> erase_at i fs = filter (\<lambda>f. f_tag f \<noteq> tag) fs"
proof (induction fs arbitrary: i)
  case (Cons f fs)
  show ?case
  proof (cases "tag = f_tag f")
    case True
    with Cons.prems have "filter (\<lambda>f. f_tag f \<noteq> tag) fs = fs"
      by (intro filter_True ballI notI) (auto simp: image_iff)
    with True Cons.prems show ?thesis by (simp add: erase_at_def)
  next
    case False
    with Cons.prems obtain j where "find_tag fs tag = Some j" "i = Suc j" by auto
    with Cons False show ?thesis by (simp add: erase_at_def)
  qed
qed simp

lemma fm_ok_filter: "fm_ok m \<Longrightarrow> fm_ok (with_fields (filter P (fm_fields m)) m)"
  by (auto simp: fm_ok_def fsorted_def sorted_wrt_filter distinct_map_filter)

lemma groups_erase_none: "map_of gs tag = None \<Longrightarrow> groups_erase tag gs = gs"
  by (auto simp: groups_erase_def filter_id_conv map_of_eq_None_iff)

lemma removeField_eq:
  assumes ok: "fm_ok m"
  shows "removeField tag m =
    (if tag \<in> f_tag ` set (fm_fields m)
     then FieldMap (filter (\<lambda>f. f_tag f \<noteq> tag) (fm_fields m)) (groups_erase tag (fm_groups m)) (fm_order m)
     else m)"
proof (cases "find_tag (fm_fields m) tag")
  case None
  have "tag \<notin> f_tag ` set (fm_fields m)" using find_tag_None [of "fm_fields m" tag] None by blast
  with None show ?thesis by (simp add: removeField.simps [of tag m] findTag_ok [OF ok])
next
  case (Some i)
  let ?m = "with_fields (filter (\<lambda>f. f_tag f \<noteq> tag) (fm_fields m)) m"
  have m': "with_fields (erase_at i (fm_fields m)) m = ?m"
    using erase_at_filter [OF _ Some] ok by (simp add: fm_ok_def)
  have gone: "removeField tag (with_groups gs ?m) = with_groups gs ?m" for gs
  proof -
    have "fm_ok (with_groups gs ?m)" using fm_ok_filter [OF ok] by simp
    moreover have "find_tag (fm_fields (with_groups gs ?m)) tag = None" by (auto simp: find_tag_None)
    ultimately show ?thesis by (simp add: removeField.simps [of tag "with_groups gs ?m"] findTag_ok)
  qed
  have "tag \<in> f_tag ` set (fm_fields m)" using Some find_tag_None by (metis option.distinct(1))
  then show ?thesis
    using Some gone groups_erase_none [of "fm_groups m" tag]
    by (simp add: removeField.simps [of tag m] findTag_ok [OF ok] m' removeGroups.simps)
      (auto simp: with_fields_def with_groups_def)
qed

lemma fm_ok_removeField: "fm_ok m \<Longrightarrow> fm_ok (removeField tag m)"
  using fm_ok_filter [of m "\<lambda>f. f_tag f \<noteq> tag"] by (simp add: removeField_eq fm_ok_def)

lemma map_of_filter_tag:
  "map_of (tag_values (filter (\<lambda>f. f_tag f \<noteq> tag) fs)) t = (if t = tag then None else map_of (tag_values fs) t)"
  by (induction fs) (auto simp: tag_values_def)

lemma get_removeField:
  assumes ok: "fm_ok m"
  shows "getField_text t (removeField tag m) = (if t = tag then None else getField_text t m)"
proof -
  have "tag \<notin> f_tag ` set (fm_fields m) \<Longrightarrow> map_of (tag_values (fm_fields m)) tag = None"
    by (simp add: map_of_tag_values find_tag_None [THEN iffD2])
  then show ?thesis
    using fm_ok_removeField [OF ok] ok
    by (simp add: getField_text_ok) (simp add: removeField_eq map_of_filter_tag)
qed

interpretation fm: field_store getField_text setField_text removeField fm_ok
  by unfold_locales
    (simp_all add: setField_text_def FieldBase_new_def get_setField get_removeField fm_ok_setField fm_ok_removeField)

lemma isSetField_get: "isSetField t m \<longleftrightarrow> getField_text t m \<noteq> None"
  by (auto simp: isSetField_def getField_text_def getFieldRef_def split: option.split)

lemma fm_ok_sortFields:
  "order_ok (fm_order m) \<Longrightarrow> distinct (map f_tag (fm_fields m)) \<Longrightarrow> fm_ok (sortFields m)"
  by (simp add: fm_ok_def sortFields_def tag_order.fsorted_std_sort [OF message_order_ok])
    (metis mset_eq_imp_distinct_iff mset_map mset_std_sort)

text \<open>C35. In a field map whose vector is sorted, the halving search used from sixteen fields on and
  the linear scan used below agree: both find the first field with the tag.\<close>

theorem findTag_is_first:
  assumes "order_ok (fm_order m)" and "fsorted (fm_less m) (fm_fields m)"
  shows "findTag m tag = find_tag (fm_fields m) tag"
  by (rule findTag_eq [OF assms])

theorem findTag_is_first_witness:
  "findTag (FieldMap (map (\<lambda>i. FieldBase_new (int i + 1) ''x'') [0..<20]) [] (message_order_new normal_mode)) 17 = Some 16"
proof -
  let ?m = "FieldMap (map (\<lambda>i. FieldBase_new (int i + 1) ''x'') [0..<20]) [] (message_order_new normal_mode)"
  have "order_ok (fm_order ?m)" by simp
  moreover have "fsorted (fm_less ?m) (fm_fields ?m)" by code_simp
  moreover have "find_tag (fm_fields ?m) 17 = Some 16" by code_simp
  ultimately show ?thesis using findTag_is_first [of ?m 17] by simp
qed

text \<open>C36. Writing a field makes it readable under its tag, changes no other, and keeps the vector
  sorted with one field per tag; removing it takes it out and nothing else.\<close>

theorem fields_read_back:
  assumes "fm_ok m"
  shows "fm_ok (setField f m) \<and> fm_ok (removeField tag m) \<and>
    getField_text t (setField f m) = (if t = f_tag f then Some (f_string f) else getField_text t m) \<and>
    getField_text t (removeField tag m) = (if t = tag then None else getField_text t m)"
  using fm_ok_setField [OF assms] fm_ok_removeField [OF assms] get_setField [OF assms] get_removeField [OF assms]
  by blast

theorem fields_read_back_witness:
  "getField_text 55 (setField (FieldBase_new 55 ''BTCUSDT'') (FieldMap_new (message_order_new normal_mode))) = Some ''BTCUSDT''"
  using fields_read_back [of "FieldMap_new (message_order_new normal_mode)" "FieldBase_new 55 ''BTCUSDT''" 55 55]
  by (simp add: FieldBase_new_def)

section \<open>Lengths and sums\<close>

definition byte_sum :: "string \<Rightarrow> int" where
  "byte_sum s = sum_list (map of_char s)"

lemma byte_sum_simps [simp]:
  "byte_sum [] = 0" "byte_sum (c # s) = of_char c + byte_sum s" "byte_sum (s @ t) = byte_sum s + byte_sum t"
  by (simp_all add: byte_sum_def)

lemma calculateMetrics_eq: "calculateMetrics s = (int (length s), byte_sum s)"
proof -
  have "foldl (\<lambda>k c. k + of_char c) k s = k + byte_sum s" for k :: int
    by (induction s arbitrary: k) simp_all
  then show ?thesis by (simp add: calculateMetrics_def)
qed

text \<open>A field whose kept measure, if it has one, is that of its encoding.\<close>

definition field_measured :: "FieldBase \<Rightarrow> bool" where
  "field_measured f \<longleftrightarrow> f_metrics f = no_metrics \<or> f_metrics f = calculateMetrics (FieldBase_getFixString f)"

lemma field_measured_new [simp]: "field_measured (FieldBase_new t v)" "field_measured (FieldBase_setString v f)"
  by (simp_all add: field_measured_def FieldBase_new_def FieldBase_setString_def)

lemma field_measure:
  assumes "field_measured f"
  shows "FieldBase_getLength f = int (length (FieldBase_getFixString f))"
    and "FieldBase_getTotal f = byte_sum (FieldBase_getFixString f)"
  using assms
  by (auto simp: field_measured_def FieldBase_getLength_def FieldBase_getTotal_def FieldBase_calculate_def
      metrics_isValid_def no_metrics_def calculateMetrics_eq FieldBase_getFixString_def)

text \<open>
  A map whose groups each hang under one field, with no framing tags inside them, and whose kept
  measures are right.
\<close>

fun measured :: "FieldMap \<Rightarrow> bool" where
  "measured (FieldMap fs gs ord) \<longleftrightarrow>
     (\<forall>f\<in>set fs. field_measured f) \<and> distinct (map f_tag fs) \<and> distinct (map fst gs) \<and>
     fst ` set gs \<subseteq> f_tag ` set fs \<and>
     list_all (\<lambda>(t, groups). list_all (\<lambda>g. measured g \<and>
       f_tag ` set (fm_fields g) \<inter> {TAG_BeginString, TAG_BodyLength, TAG_CheckSum} = {}) groups) gs"

lemma sum_list_by_tag:
  fixes h :: "int \<Rightarrow> int"
  assumes "distinct ts" and "distinct (map fst gs)" and "fst ` set gs \<subseteq> set ts"
  shows "(\<Sum>t\<leftarrow>ts. case map_of gs t of None \<Rightarrow> 0 | Some l \<Rightarrow> w l) = (\<Sum>(t, l)\<leftarrow>gs. (w l :: int))"
  using assms(2,3)
proof (induction gs)
  case (Cons g gs)
  obtain t l where g: "g = (t, l)" by (cases g)
  have t: "t \<in> set ts" and new: "map_of gs t = None"
    using Cons.prems by (auto simp: g map_of_eq_None_iff)
  have "(\<Sum>u\<leftarrow>ts. case map_of (g # gs) u of None \<Rightarrow> 0 | Some l \<Rightarrow> w l) =
      (\<Sum>u\<in>set ts. case map_of (g # gs) u of None \<Rightarrow> 0 | Some l \<Rightarrow> w l)"
    using assms(1) by (rule sum_list_distinct_conv_sum_set)
  also have "\<dots> = w l + (\<Sum>u\<in>set ts - {t}. case map_of gs u of None \<Rightarrow> 0 | Some l \<Rightarrow> w l)"
    using t by (simp add: sum.remove g)
  also have "(\<Sum>u\<in>set ts - {t}. case map_of gs u of None \<Rightarrow> 0 | Some l \<Rightarrow> w l) =
      (\<Sum>u\<in>set ts. case map_of gs u of None \<Rightarrow> 0 | Some l \<Rightarrow> w l)"
    using t new by (simp add: sum.remove [of "set ts" t])
  also have "\<dots> = (\<Sum>u\<leftarrow>ts. case map_of gs u of None \<Rightarrow> 0 | Some l \<Rightarrow> w l)"
    using assms(1) by (rule sum_list_distinct_conv_sum_set [symmetric])
  finally show ?case using Cons by (simp add: g)
qed simp

lemma length_concat_int: "int (length (concat xss)) = (\<Sum>xs\<leftarrow>xss. int (length xs))"
  by (induction xss) simp_all

lemma byte_sum_concat: "byte_sum (concat xss) = (\<Sum>xs\<leftarrow>xss. byte_sum xs)"
  by (induction xss) simp_all

text \<open>The weight of a text: its length or its sum of bytes.\<close>

lemma weight_of_string:
  fixes wt :: "string \<Rightarrow> int"
  assumes wt: "\<And>xss. wt (concat xss) = (\<Sum>xs\<leftarrow>xss. wt xs)"
    and distinct: "distinct (map f_tag fs)" "distinct (map fst gs)" "fst ` set gs \<subseteq> f_tag ` set fs"
  shows "wt (calculateString (FieldMap fs gs ord)) =
    (\<Sum>f\<leftarrow>fs. wt (FieldBase_getFixString f)) + (\<Sum>(t, l)\<leftarrow>gs. \<Sum>g\<leftarrow>l. wt (calculateString g))"
proof -
  have app: "wt (xs @ ys) = wt xs + wt ys" for xs ys
    using wt [of "[xs, ys]"] by simp
  have nil: "wt [] = 0" using wt [of "[]"] by simp
  have "wt (calculateString (FieldMap fs gs ord)) =
    (\<Sum>f\<leftarrow>fs. wt (FieldBase_getFixString f)) +
    (\<Sum>t\<leftarrow>map f_tag fs. case map_of gs t of None \<Rightarrow> 0 | Some l \<Rightarrow> (\<Sum>g\<leftarrow>l. wt (calculateString g)))"
    unfolding calculateString.simps wt
    by (simp add: comp_def app nil wt sum_list_addf option.case_distrib [of wt] cong: option.case_cong)
  then show ?thesis
    using sum_list_by_tag [OF distinct(1,2), of "\<lambda>l. \<Sum>g\<leftarrow>l. wt (calculateString g)"] distinct(3) by simp
qed

lemma length_weight: "int (length (calculateString (FieldMap fs gs ord))) =
    (\<Sum>f\<leftarrow>fs. int (length (FieldBase_getFixString f))) + (\<Sum>(t, l)\<leftarrow>gs. \<Sum>g\<leftarrow>l. int (length (calculateString g)))"
  if "distinct (map f_tag fs)" "distinct (map fst gs)" "fst ` set gs \<subseteq> f_tag ` set fs"
  using weight_of_string [of "\<lambda>s. int (length s)", OF length_concat_int that] .

lemma sum_weight: "byte_sum (calculateString (FieldMap fs gs ord)) =
    (\<Sum>f\<leftarrow>fs. byte_sum (FieldBase_getFixString f)) + (\<Sum>(t, l)\<leftarrow>gs. \<Sum>g\<leftarrow>l. byte_sum (calculateString g))"
  if "distinct (map f_tag fs)" "distinct (map fst gs)" "fst ` set gs \<subseteq> f_tag ` set fs"
  using weight_of_string [of byte_sum, OF byte_sum_concat that] .

text \<open>With some fields left out, none of which has groups.\<close>

lemma measures_of_groups:
  assumes "measured (FieldMap fs gs ord)" and "fst ` set gs \<subseteq> f_tag ` set (filter keep fs)"
    and "\<And>t l g. (t, l) \<in> set gs \<Longrightarrow> g \<in> set l \<Longrightarrow>
      calculateLength TAG_BeginString TAG_BodyLength TAG_CheckSum g = int (length (calculateString g)) \<and>
      calculateTotal TAG_CheckSum g = byte_sum (calculateString g)"
  shows "sum_list (map FieldBase_getLength (filter keep fs)) +
      sum_list (map (\<lambda>(tag, groups). sum_list (map
        (calculateLength TAG_BeginString TAG_BodyLength TAG_CheckSum) groups)) gs) =
      int (length (calculateString (FieldMap (filter keep fs) gs ord)))"
    and "sum_list (map FieldBase_getTotal (filter keep fs)) +
      sum_list (map (\<lambda>(tag, groups). sum_list (map (calculateTotal TAG_CheckSum) groups)) gs) =
      byte_sum (calculateString (FieldMap (filter keep fs) gs ord))"
proof -
  have d: "distinct (map f_tag (filter keep fs))" "distinct (map fst gs)"
    and meas: "\<forall>f\<in>set fs. field_measured f"
    using assms(1) by (simp_all add: distinct_map_filter)
  have "map FieldBase_getLength (filter keep fs) = map (\<lambda>f. int (length (FieldBase_getFixString f))) (filter keep fs)"
    using meas by (intro map_cong refl) (simp add: field_measure)
  moreover have "map (\<lambda>(tag, groups). sum_list (map
        (calculateLength TAG_BeginString TAG_BodyLength TAG_CheckSum) groups)) gs =
      map (\<lambda>(tag, groups). sum_list (map (\<lambda>g. int (length (calculateString g))) groups)) gs"
    using assms(3) by (intro map_cong refl) (auto intro!: arg_cong [where f = sum_list])
  ultimately show "sum_list (map FieldBase_getLength (filter keep fs)) +
      sum_list (map (\<lambda>(tag, groups). sum_list (map
        (calculateLength TAG_BeginString TAG_BodyLength TAG_CheckSum) groups)) gs) =
      int (length (calculateString (FieldMap (filter keep fs) gs ord)))"
    by (simp only: length_weight [OF d assms(2)])
  have "map FieldBase_getTotal (filter keep fs) = map (\<lambda>f. byte_sum (FieldBase_getFixString f)) (filter keep fs)"
    using meas by (intro map_cong refl) (simp add: field_measure)
  moreover have "map (\<lambda>(tag, groups). sum_list (map (calculateTotal TAG_CheckSum) groups)) gs =
      map (\<lambda>(tag, groups). sum_list (map (\<lambda>g. byte_sum (calculateString g)) groups)) gs"
    using assms(3) by (intro map_cong refl) (auto intro!: arg_cong [where f = sum_list])
  ultimately show "sum_list (map FieldBase_getTotal (filter keep fs)) +
      sum_list (map (\<lambda>(tag, groups). sum_list (map (calculateTotal TAG_CheckSum) groups)) gs) =
      byte_sum (calculateString (FieldMap (filter keep fs) gs ord))"
    by (simp only: sum_weight [OF d assms(2)])
qed

lemma measured_group:
  assumes "measured (FieldMap fs gs ord)" and "(t, l) \<in> set gs" and "g \<in> set l"
  shows "measured g" and "f_tag ` set (fm_fields g) \<inter> {TAG_BeginString, TAG_BodyLength, TAG_CheckSum} = {}"
proof -
  have "\<forall>(t, groups)\<in>set gs. \<forall>g\<in>set groups. measured g \<and>
      f_tag ` set (fm_fields g) \<inter> {TAG_BeginString, TAG_BodyLength, TAG_CheckSum} = {}"
    using assms(1) unfolding measured.simps list_all_iff by blast
  from bspec [OF this assms(2)] assms(3) show "measured g"
    and "f_tag ` set (fm_fields g) \<inter> {TAG_BeginString, TAG_BodyLength, TAG_CheckSum} = {}"
    by simp_all
qed

lemma image_kept: "A \<subseteq> f ` set fs \<Longrightarrow> (\<And>x. x \<in> set fs \<Longrightarrow> f x \<in> A \<Longrightarrow> P x) \<Longrightarrow> A \<subseteq> f ` set (filter P fs)"
  by auto

lemma measures_plain:
  "measured m \<Longrightarrow> f_tag ` set (fm_fields m) \<inter> {TAG_BeginString, TAG_BodyLength, TAG_CheckSum} = {} \<Longrightarrow>
    calculateLength TAG_BeginString TAG_BodyLength TAG_CheckSum m = int (length (calculateString m)) \<and>
    calculateTotal TAG_CheckSum m = byte_sum (calculateString m)"
proof (induction m rule: measured.induct)
  case (1 fs gs ord)
  have groups: "calculateLength TAG_BeginString TAG_BodyLength TAG_CheckSum g = int (length (calculateString g)) \<and>
      calculateTotal TAG_CheckSum g = byte_sum (calculateString g)" if "(t, l) \<in> set gs" "g \<in> set l" for t l g
    by (rule "1.IH" [OF that(1) refl that(2)]) (rule measured_group [OF "1.prems"(1) that])+
  have keep: "filter (\<lambda>f. f_tag f \<noteq> TAG_BeginString \<and> f_tag f \<noteq> TAG_BodyLength \<and> f_tag f \<noteq> TAG_CheckSum) fs = fs"
    "filter (\<lambda>f. f_tag f \<noteq> TAG_CheckSum) fs = fs"
    using "1.prems"(2) by (auto simp: filter_id_conv)
  have sub: "fst ` set gs \<subseteq> f_tag ` set (filter (\<lambda>f. True) fs)" using "1.prems"(1) by simp
  show ?case
    using measures_of_groups [OF "1.prems"(1) sub groups]
    unfolding calculateLength.simps calculateTotal.simps keep filter_True by simp
qed

lemma measures_skip:
  assumes "measured m"
  shows "fst ` set (fm_groups m) \<inter> {b, l, c} = {} \<Longrightarrow> calculateLength b l c m =
      int (length (calculateString (with_fields (filter (\<lambda>f. f_tag f \<noteq> b \<and> f_tag f \<noteq> l \<and> f_tag f \<noteq> c) (fm_fields m)) m)))"
    and "c \<notin> fst ` set (fm_groups m) \<Longrightarrow> calculateTotal c m =
      byte_sum (calculateString (with_fields (filter (\<lambda>f. f_tag f \<noteq> c) (fm_fields m)) m))"
proof -
  obtain fs gs ord where m: "m = FieldMap fs gs ord" by (cases m)
  have groups: "calculateLength TAG_BeginString TAG_BodyLength TAG_CheckSum g = int (length (calculateString g)) \<and>
      calculateTotal TAG_CheckSum g = byte_sum (calculateString g)" if "(t, l) \<in> set gs" "g \<in> set l" for t l g
    by (rule measures_plain) (rule measured_group [OF assms [unfolded m] that])+
  have sub: "fst ` set gs \<subseteq> f_tag ` set fs" using assms by (simp add: m)
  show "calculateLength b l c m =
      int (length (calculateString (with_fields (filter (\<lambda>f. f_tag f \<noteq> b \<and> f_tag f \<noteq> l \<and> f_tag f \<noteq> c) (fm_fields m)) m)))"
    if "fst ` set (fm_groups m) \<inter> {b, l, c} = {}"
  proof -
    have "fst ` set gs \<subseteq> f_tag ` set (filter (\<lambda>f. f_tag f \<noteq> b \<and> f_tag f \<noteq> l \<and> f_tag f \<noteq> c) fs)"
      using that by (intro image_kept [OF sub]) (auto simp: m)
    from measures_of_groups(1) [OF assms [unfolded m] this groups] show ?thesis
      by (simp only: m calculateLength.simps with_fields_def FieldMap.sel)
  qed
  show "calculateTotal c m =
      byte_sum (calculateString (with_fields (filter (\<lambda>f. f_tag f \<noteq> c) (fm_fields m)) m))"
    if "c \<notin> fst ` set (fm_groups m)"
  proof -
    have "fst ` set gs \<subseteq> f_tag ` set (filter (\<lambda>f. f_tag f \<noteq> c) fs)"
      using that by (intro image_kept [OF sub]) (auto simp: m)
    from measures_of_groups(2) [OF assms [unfolded m] this groups] show ?thesis
      by (simp only: m calculateTotal.simps with_fields_def FieldMap.sel)
  qed
qed

end
