(* ===== verification/Fix_Parser.thy ===== *)
theory Fix_Parser
  imports Fix_Convert "HOL-Library.Sublist"
begin

text \<open>
  Cutting messages out of the byte stream (flashfix/src/Parser.cpp) and the loop of the
  connection that hands them to the session (\<open>readMessage\<close> and \<open>processStream\<close> of
  flashfix/src/FstackMicroThreadedSSLSocketConnection.cpp). A position is a natural number,
  \<^verbatim>\<open>npos\<close> is \<open>None\<close>. The session is an argument: what it does with a message, and whether it
  ended the loop (an invalid message before logon).
\<close>

section \<open>Searching strings\<close>

fun find_sub :: "string \<Rightarrow> string \<Rightarrow> nat option" where
  "find_sub pat [] = (if pat = [] then Some 0 else None)"
| "find_sub pat (c # s) = (if prefix pat (c # s) then Some 0 else map_option Suc (find_sub pat s))"

text \<open>\<^verbatim>\<open>buffer.find(pat, pos)\<close>.\<close>

definition string_find :: "string \<Rightarrow> nat \<Rightarrow> string \<Rightarrow> nat option" where
  "string_find pat pos buffer =
     (if pos > length buffer then None else map_option ((+) pos) (find_sub pat (drop pos buffer)))"

section \<open>The parser\<close>

datatype extracted =
    No_length
  | Length_at int nat
  | Length_error int \<comment> \<open>the exception, with the length reached\<close>

definition extractLength :: "string \<Rightarrow> extracted" where
  "extractLength buffer =
     (if length buffer = 0 then No_length
      else case string_find (CHR 0x01 # ''9='') 0 buffer of
        None \<Rightarrow> No_length
      | Some startPos \<Rightarrow>
          let startPos = startPos + 3 in
          case string_find [CHR 0x01] startPos buffer of
            None \<Rightarrow> No_length
          | Some endPos \<Rightarrow>
              let strLength = take (endPos - startPos) (drop startPos buffer) in
              case IntT_parse True strLength :: 32 word option of
                None \<Rightarrow> Length_error 0
              | Some len \<Rightarrow> if sint len < 0 then Length_error (sint len) else Length_at (sint len) (endPos + 1))"

datatype read_result = Read_none | Read_message string | Read_error

text \<open>The result and the buffer that is left.\<close>

definition readFixMessage :: "string \<Rightarrow> read_result \<times> string" where
  "readFixMessage m_buffer =
     (if length m_buffer < 2 then (Read_none, m_buffer)
      else case string_find ''8='' 0 m_buffer of
        None \<Rightarrow> (Read_none, m_buffer)
      | Some pos \<Rightarrow>
          let m_buffer = drop pos m_buffer in
          case extractLength m_buffer of
            No_length \<Rightarrow> (Read_none, m_buffer)
          | Length_error len \<Rightarrow>
              (Read_error, if len > 0 then drop (pos + nat len) m_buffer else [])
          | Length_at len pos \<Rightarrow>
              let pos = pos + nat len in
              if length m_buffer < pos then (Read_none, m_buffer)
              else case string_find (CHR 0x01 # ''10='') (pos - 1) m_buffer of
                None \<Rightarrow> (Read_none, m_buffer)
              | Some pos \<Rightarrow>
                  let pos = pos + 4 in
                  case string_find [CHR 0x01] pos m_buffer of
                    None \<Rightarrow> (Read_none, m_buffer)
                  | Some pos \<Rightarrow>
                      let pos = pos + 1 in (Read_message (take pos m_buffer), drop pos m_buffer))"

definition addToStream :: "string \<Rightarrow> string \<Rightarrow> string" where
  "addToStream s m_buffer = m_buffer @ s"

section \<open>The connection's loop\<close>

text \<open>The exception leaves the caller's message as it was and still reports one.\<close>

definition readMessage :: "string \<Rightarrow> string \<Rightarrow> bool \<times> string \<times> string" where
  "readMessage message m_buffer =
     (case readFixMessage m_buffer of
        (Read_none, rest) \<Rightarrow> (False, message, rest)
      | (Read_message m, rest) \<Rightarrow> (True, m, rest)
      | (Read_error, rest) \<Rightarrow> (True, message, rest))"

lemma find_sub_le: "find_sub pat s = Some i \<Longrightarrow> i + length pat \<le> length s \<and> prefix pat (drop i s)"
proof (induction s arbitrary: i)
  case (Cons c s)
  show ?case
  proof (cases "prefix pat (c # s)")
    case True
    with Cons.prems show ?thesis using prefix_length_le [OF True] by simp
  next
    case False
    with Cons.prems obtain j where "find_sub pat s = Some j" "i = Suc j" by auto
    with Cons.IH show ?thesis by simp
  qed
qed (auto split: if_splits)

lemma string_find_bounds:
  "string_find pat pos s = Some i \<Longrightarrow> pos \<le> i \<and> i + length pat \<le> length s \<and> prefix pat (drop i s)"
  by (auto simp: string_find_def add.commute dest!: find_sub_le split: if_splits)

lemma extractLength_pos: "extractLength s = Length_at len pos \<Longrightarrow> 0 \<le> len \<and> 1 \<le> pos \<and> pos \<le> length s"
  by (auto simp: extractLength_def Let_def dest!: string_find_bounds split: if_splits option.splits)

lemma extractLength_error: "extractLength s = Length_error len \<Longrightarrow> len \<le> 0"
  by (auto simp: extractLength_def Let_def split: if_splits option.splits)

lemma readFixMessage_shrinks:
  "readFixMessage s = (r, rest) \<Longrightarrow> r \<noteq> Read_none \<Longrightarrow> length rest < length s"
  by (auto simp: readFixMessage_def Let_def dest!: extractLength_error string_find_bounds
      split: if_splits option.splits extracted.splits)

lemma readMessage_shrinks: "readMessage message s = (True, m, rest) \<Longrightarrow> length rest < length s"
  using readFixMessage_shrinks [of s "fst (readFixMessage s)" "snd (readFixMessage s)"]
  by (auto simp: readMessage_def split: prod.splits read_result.splits)

function processStream :: "(string \<Rightarrow> 's \<Rightarrow> 's \<times> bool) \<Rightarrow> string \<Rightarrow> string \<Rightarrow> 's \<Rightarrow> string \<times> 's" where
  "processStream next message m_buffer s =
     (case readMessage message m_buffer of
        (False, message, m_buffer) \<Rightarrow> (m_buffer, s)
      | (True, message, m_buffer) \<Rightarrow>
          (case next message s of
             (s, True) \<Rightarrow> (m_buffer, s)
           | (s, False) \<Rightarrow> processStream next message m_buffer s))"
  by pat_completeness auto
termination
  by (relation "measure (\<lambda>(next, message, m_buffer, s). length m_buffer)")
    (auto dest: readMessage_shrinks sym)

declare processStream.simps [simp del]

text \<open>One arrival: the bytes go to the buffer, the loop starts with an empty message.\<close>

definition receive :: "(string \<Rightarrow> 's \<Rightarrow> 's \<times> bool) \<Rightarrow> string \<Rightarrow> string \<times> 's \<Rightarrow> string \<times> 's" where
  "receive next bytes st = processStream next [] (addToStream bytes (fst st)) (snd st)"

section \<open>Later bytes do not change what has been found\<close>

lemma find_sub_append: "find_sub pat s = Some i \<Longrightarrow> find_sub pat (s @ t) = Some i"
proof (induction s arbitrary: i)
  case Nil
  then show ?case by (cases t) (auto split: if_splits)
next
  case (Cons c s)
  show ?case
  proof (cases "prefix pat (c # s)")
    case True
    then have "prefix pat (c # s @ t)" using prefix_prefix [OF True, of t] by simp
    with True Cons.prems show ?thesis by simp
  next
    case False
    with Cons.prems obtain j where j: "find_sub pat s = Some j" "i = Suc j" by auto
    have "prefix pat (drop j s)" using find_sub_le [OF j(1)] by simp
    have len: "length pat \<le> length (c # s)" using find_sub_le [OF j(1)] by simp
    have "\<not> prefix pat ((c # s) @ t)"
      using False len by (metis prefix_length_prefix prefixI)
    with j Cons.IH show ?thesis by simp
  qed
qed

lemma string_find_append: "string_find pat pos s = Some i \<Longrightarrow> string_find pat pos (s @ t) = Some i"
  by (auto simp: string_find_def dest: find_sub_append split: if_splits)

lemma take_drop_append: "j \<le> length s \<Longrightarrow> take (j - i) (drop i (s @ t)) = take (j - i) (drop i s)"
  by (cases "i \<le> length s") simp_all

lemma extractLength_append:
  assumes "extractLength s \<noteq> No_length"
  shows "extractLength (s @ t) = extractLength s"
proof -
  from assms obtain a b where ab: "s \<noteq> []" "string_find (CHR 0x01 # ''9='') 0 s = Some a"
      "string_find [CHR 0x01] (a + 3) s = Some b"
    by (auto simp: extractLength_def Let_def split: if_splits option.splits)
  have "b \<le> length s" using string_find_bounds [OF ab(3)] by simp
  with ab show ?thesis
    by (simp add: extractLength_def Let_def string_find_append take_drop_append)
qed

lemma readFixMessage_append:
  assumes "readFixMessage s = (Read_message m, rest)"
  shows "readFixMessage (s @ t) = (Read_message m, rest @ t)"
proof -
  from assms obtain p len q a b where s: "2 \<le> length s" "string_find ''8='' 0 s = Some p"
      "extractLength (drop p s) = Length_at len q" "q + nat len \<le> length (drop p s)"
      "string_find (CHR 0x01 # ''10='') (q + nat len - 1) (drop p s) = Some a"
      "string_find [CHR 0x01] (a + 4) (drop p s) = Some b"
      and m: "m = take (b + 1) (drop p s)" "rest = drop (b + 1) (drop p s)"
    by (auto simp: readFixMessage_def Let_def not_less split: if_splits option.splits extracted.splits)
  have p: "drop p (s @ t) = drop p s @ t"
    using string_find_bounds [OF s(2)] by simp
  have b: "b + 1 \<le> length (drop p s)" using string_find_bounds [OF s(6)] by simp
  show ?thesis
    using s string_find_append [OF s(2), of t] extractLength_append [of "drop p s" t]
      string_find_append [OF s(5), of t] string_find_append [OF s(6), of t] b
    by (simp add: readFixMessage_def Let_def p m)
qed

text \<open>A well-formed frame: the length field counts the body, which ends before the checksum field.\<close>

definition frame :: "string \<Rightarrow> string \<Rightarrow> string \<Rightarrow> string \<Rightarrow> string" where
  "frame begin_string len body check =
     ''8='' @ begin_string @ CHR 0x01 # ''9='' @ len @ CHR 0x01 # body @ ''10='' @ check @ [CHR 0x01]"

definition frame_ok :: "string \<Rightarrow> bool" where
  "frame_ok m \<longleftrightarrow> (\<exists>begin_string len body check. m = frame begin_string len body check \<and>
     CHR 0x01 \<notin> set begin_string \<and> CHR 0x01 \<notin> set len \<and> CHR 0x01 \<notin> set check \<and>
     IntT_parse True len = Some (word_of_int (int (length body)) :: 32 word) \<and> length body < 2 ^ 31 \<and>
     last (CHR 0x01 # body) = CHR 0x01)"

lemma find_sub_skip: "c \<notin> set s \<Longrightarrow> prefix pat t \<Longrightarrow> find_sub (c # pat) (s @ c # t) = Some (length s)"
  by (induction s) auto

lemma string_find_skip:
  assumes "c \<notin> set s" and "n = length u" and "m = u @ s @ c # pat @ t"
  shows "string_find (c # pat) n m = Some (n + length s)"
  using assms by (simp add: string_find_def find_sub_skip)

lemma frame_is_read:
  assumes "frame_ok m"
  shows "readFixMessage m = (Read_message m, [])"
proof -
  from assms obtain bs len body cs where m: "m = frame bs len body cs"
    and soh: "CHR 0x01 \<notin> set bs" "CHR 0x01 \<notin> set len" "CHR 0x01 \<notin> set cs"
    and len: "IntT_parse True len = Some (word_of_int (int (length body)) :: 32 word)" "length body < 2 ^ 31"
    and last: "last (CHR 0x01 # body) = CHR 0x01"
    by (auto simp: frame_ok_def)
  have at8: "string_find ''8='' 0 m = Some 0"
    by (simp add: m frame_def string_find_def)
  have at9: "string_find (CHR 0x01 # ''9='') 0 m = Some (2 + length bs)"
    using string_find_skip [of "CHR 0x01" "''8='' @ bs" 0 "[]" m "''9=''"] soh(1) by (simp add: m frame_def)
  let ?u = "''8='' @ bs @ CHR 0x01 # ''9=''"
  have u: "length ?u = 2 + length bs + 3" by simp
  have soh9: "string_find [CHR 0x01] (2 + length bs + 3) m = Some (2 + length bs + 3 + length len)"
    by (rule string_find_skip [OF soh(2), of _ ?u]) (simp_all add: m frame_def)
  have taken: "take (2 + length bs + 3 + length len - (2 + length bs + 3)) (drop (2 + length bs + 3) m) = len"
  proof -
    have "m = ?u @ len @ CHR 0x01 # body @ ''10='' @ cs @ [CHR 0x01]" by (simp add: m frame_def)
    then have "drop (length ?u) m = len @ CHR 0x01 # body @ ''10='' @ cs @ [CHR 0x01]" by simp
    then show ?thesis unfolding u by simp
  qed
  have sint: "sint (word_of_int (int (length body)) :: 32 word) = int (length body)"
    using len(2) by (simp add: sint_sbintrunc' signed_take_bit_int_eq_self del: of_int_of_nat_eq)
  have ne: "m \<noteq> []" by (simp add: m frame_def)
  have ext: "extractLength m = Length_at (int (length body)) (6 + length bs + length len)"
    using ne at9 soh9 taken len(1) sint by (simp add: extractLength_def Let_def)
  let ?pos = "6 + length bs + length len + length body"
  obtain v where v: "CHR 0x01 # body = v @ [CHR 0x01]"
    using last by (metis append_butlast_last_id list.distinct(1))
  then have lv: "length v = length body" by (metis add_right_cancel length_Cons length_append_singleton Suc_eq_plus1)
  have m': "m = (?u @ len @ v) @ [] @ CHR 0x01 # ''10='' @ cs @ [CHR 0x01]"
  proof -
    have "m = ?u @ len @ (CHR 0x01 # body) @ ''10='' @ cs @ [CHR 0x01]" by (simp add: m frame_def)
    then show ?thesis unfolding v by simp
  qed
  have at10: "string_find (CHR 0x01 # ''10='') (?pos - 1) m = Some (?pos - 1)"
    using string_find_skip [of "CHR 0x01" "[]" "?pos - 1" "?u @ len @ v" m "''10=''"] m' lv by simp
  have fin: "string_find [CHR 0x01] (?pos - 1 + 4) m = Some (?pos - 1 + 4 + length cs)"
    by (rule string_find_skip [OF soh(3), of _ "?u @ len @ v @ CHR 0x01 # ''10=''"]) (simp_all add: m' lv)
  have "length m = ?pos + 4 + length cs" by (simp add: m frame_def)
  then show ?thesis
    using at8 ext at10 fin by (simp add: readFixMessage_def Let_def)
qed

text \<open>What is not yet a whole frame stays in the buffer.\<close>

lemma readFixMessage_dropped: "readFixMessage s = (Read_none, rest) \<Longrightarrow>
    rest = (case string_find ''8='' 0 s of None \<Rightarrow> s | Some pos \<Rightarrow> if length s < 2 then s else drop pos s)"
  by (auto simp: readFixMessage_def Let_def split: if_splits option.splits extracted.splits)

lemma partial_frame_waits:
  assumes "frame_ok (p @ q)" and "q \<noteq> []"
  shows "readFixMessage p = (Read_none, p)"
proof -
  have whole: "readFixMessage (p @ q) = (Read_message (p @ q), [])"
    using assms(1) by (rule frame_is_read)
  obtain r rest where r: "readFixMessage p = (r, rest)" by (cases "readFixMessage p")
  have p8: "prefix ''8='' p" if "2 \<le> length p"
  proof -
    have "prefix ''8='' (p @ q)" using assms(1) by (auto simp: frame_ok_def frame_def)
    with that show ?thesis by (metis length_Cons list.size(3) numeral_2_eq_2 prefixI prefix_length_prefix)
  qed
  then have at8: "string_find ''8='' 0 p = Some 0" if "2 \<le> length p"
    using that by (cases p) (auto simp: string_find_def)
  show ?thesis
  proof (cases r)
    case Read_none
    then show ?thesis
      using readFixMessage_dropped [of p rest] r at8 by (auto simp: not_less split: option.splits)
  next
    case (Read_message m)
    then have "readFixMessage (p @ q) = (Read_message m, rest @ q)"
      using readFixMessage_append r by simp
    with whole assms(2) show ?thesis by simp
  next
    case Read_error
    then have "2 \<le> length p" using r by (auto simp: readFixMessage_def split: if_splits)
    with Read_error r at8 have "\<exists>len. extractLength p = Length_error len"
      by (auto simp: readFixMessage_def Let_def split: if_splits option.splits extracted.splits)
    then have "\<exists>len. extractLength (p @ q) = Length_error len"
      using extractLength_append [of p q] by auto
    moreover have "string_find ''8='' 0 (p @ q) = Some 0"
      using at8 \<open>2 \<le> length p\<close> string_find_append by blast
    ultimately have "fst (readFixMessage (p @ q)) = Read_error"
      using \<open>2 \<le> length p\<close> by (auto simp: readFixMessage_def Let_def)
    with whole show ?thesis by simp
  qed
qed

section \<open>Reassembly\<close>

text \<open>A session that never ends the loop: handling a message is a state change.\<close>

abbreviation goes_on :: "(string \<Rightarrow> 's \<Rightarrow> 's) \<Rightarrow> string \<Rightarrow> 's \<Rightarrow> 's \<times> bool" where
  "goes_on handle m s \<equiv> (handle m s, False)"

lemma processStream_frame:
  assumes "frame_ok f"
  shows "processStream (goes_on handle) msg (f @ buf) s = processStream (goes_on handle) f buf (handle f s)"
  using readFixMessage_append [OF frame_is_read [OF assms], of buf]
  by (subst processStream.simps) (simp add: readMessage_def)

lemma processStream_waits:
  assumes "readFixMessage buf = (Read_none, buf)"
  shows "processStream next msg buf s = (buf, s)"
  using assms by (subst processStream.simps) (simp add: readMessage_def)

lemma readFixMessage_Nil [simp]: "readFixMessage [] = (Read_none, [])"
  by (simp add: readFixMessage_def)

text \<open>\<open>k\<close> frames are complete in what has arrived, of the rest there is less than a frame.\<close>

lemma processStream_frames:
  assumes "\<forall>f\<in>set fs. frame_ok f" and "buf @ rest = concat fs"
  shows "\<exists>k\<le>length fs. \<exists>buf'. processStream (goes_on handle) msg buf s =
      (buf', foldl (\<lambda>s f. handle f s) s (take k fs)) \<and> buf' @ rest = concat (drop k fs) \<and>
      (drop k fs = [] \<or> length buf' < length (hd (drop k fs)))"
  using assms
proof (induction fs arbitrary: msg buf s)
  case Nil
  then show ?case by (simp add: processStream_waits)
next
  case (Cons f fs)
  show ?case
  proof (cases "length f \<le> length buf")
    case True
    then obtain buf2 where buf: "buf = f @ buf2"
      using Cons.prems(2) by (metis append_eq_append_conv_if append_take_drop_id concat.simps(2))
    then have "buf2 @ rest = concat fs" using Cons.prems(2) by simp
    have ok: "\<forall>f\<in>set fs. frame_ok f" using Cons.prems(1) by simp
    from Cons.IH [OF ok \<open>buf2 @ rest = concat fs\<close>, of f "handle f s"] obtain k buf' where "k \<le> length fs"
      "processStream (goes_on handle) f buf2 (handle f s) = (buf', foldl (\<lambda>s f. handle f s) (handle f s) (take k fs))"
      "buf' @ rest = concat (drop k fs)" "drop k fs = [] \<or> length buf' < length (hd (drop k fs))"
      by blast
    then show ?thesis
      using Cons.prems(1) by (intro exI [of _ "Suc k"]) (simp add: buf processStream_frame)
  next
    case False
    then obtain q where q: "f = buf @ q"
      using Cons.prems(2) by (metis append_eq_append_conv_if append_take_drop_id concat.simps(2) nat_le_linear)
    with False have "q \<noteq> []" by auto
    then have "readFixMessage buf = (Read_none, buf)"
      using Cons.prems(1) q by (intro partial_frame_waits [of buf q]) auto
    with False Cons.prems(2) show ?thesis
      by (intro exI [of _ 0]) (simp add: processStream_waits)
  qed
qed

lemma reassembly:
  assumes "\<forall>f\<in>set fs. frame_ok f" and "buf @ concat chunks = concat fs"
    and "fs = [] \<or> length buf < length (hd fs)"
  shows "foldl (\<lambda>st c. receive (goes_on handle) c st) (buf, s) chunks = ([], foldl (\<lambda>s f. handle f s) s fs)"
  using assms
proof (induction chunks arbitrary: buf s fs)
  case Nil
  then show ?case by (cases fs) auto
next
  case (Cons c chunks)
  have "(buf @ c) @ concat chunks = concat fs" using Cons.prems(2) by simp
  from processStream_frames [OF Cons.prems(1) this, of handle "[]" s] obtain k buf' where
    k: "k \<le> length fs" "processStream (goes_on handle) [] (buf @ c) s = (buf', foldl (\<lambda>s f. handle f s) s (take k fs))"
      "buf' @ concat chunks = concat (drop k fs)" "drop k fs = [] \<or> length buf' < length (hd (drop k fs))"
    by blast
  have "\<forall>f\<in>set (drop k fs). frame_ok f" using Cons.prems(1) by (meson in_set_dropD)
  from Cons.IH [OF this k(3,4), of "foldl (\<lambda>s f. handle f s) s (take k fs)"]
  show ?case
    by (simp add: receive_def addToStream_def k(2)) (metis append_take_drop_id foldl_append)
qed

text \<open>C34. However the network cuts a sequence of well-formed messages into pieces, the session is
  handed exactly those messages, whole, once each and in order, and nothing is left in the buffer.\<close>

theorem stream_reassembled:
  assumes "\<forall>f\<in>set fs. frame_ok f" and "concat chunks = concat fs"
  shows "foldl (\<lambda>st c. receive (goes_on handle) c st) ([], s) chunks = ([], foldl (\<lambda>s f. handle f s) s fs)"
proof -
  have "fs = [] \<or> length [] < length (hd fs)"
    using assms(1) by (cases fs) (auto simp: frame_ok_def frame_def)
  with assms show ?thesis by (intro reassembly) simp_all
qed

definition example_frame :: string where
  "example_frame = frame ''FIX.4.4'' ''5'' ([CHR ''3'', CHR ''5'', CHR ''='', CHR ''0'', CHR 0x01]) ''161''"

lemma example_frame_ok: "frame_ok example_frame"
proof -
  have "IntT_parse True ''5'' = Some (word_of_int (int (length [CHR ''3'', CHR ''5'', CHR ''='', CHR ''0'', CHR 0x01])) :: 32 word)"
    by code_simp
  then show ?thesis
    unfolding frame_ok_def example_frame_def
    by (intro exI [of _ "''FIX.4.4''"] exI [of _ "''5''"] exI [of _ "''161''"]
        exI [of _ "[CHR ''3'', CHR ''5'', CHR ''='', CHR ''0'', CHR 0x01]"]) simp
qed

theorem stream_reassembled_witness:
  "foldl (\<lambda>st c. receive (goes_on (\<lambda>m ms. ms @ [m])) c st) ([], [])
     [take 9 example_frame, drop 9 example_frame @ take 20 example_frame, drop 20 example_frame] =
   ([], [example_frame, example_frame])"
  using stream_reassembled [of "[example_frame, example_frame]"
    "[take 9 example_frame, drop 9 example_frame @ take 20 example_frame, drop 20 example_frame]"
    "\<lambda>m ms. ms @ [m]" "[]"]
  by (simp add: example_frame_ok)

text \<open>
  A length that cannot be read throws away the whole buffer, whole messages behind it included, and
  the connection then hands the session the message before it a second time.
\<close>

lemma bad_length_drops_buffer: "readFixMessage s = (Read_error, rest) \<Longrightarrow> rest = []"
  by (auto simp: readFixMessage_def Let_def dest!: extractLength_error split: if_splits option.splits extracted.splits)

definition bad_frame :: string where
  "bad_frame = frame ''FIX.4.4'' ''x'' [] ''000''"

lemma bad_length_repeats_message:
  "processStream (goes_on (\<lambda>m ms. ms @ [m])) [] (example_frame @ bad_frame @ example_frame) [] =
   ([], [example_frame, example_frame])"
proof -
  have "readFixMessage (bad_frame @ example_frame) = (Read_error, [])" by code_simp
  then show ?thesis
    unfolding processStream_frame [OF example_frame_ok]
    by (subst processStream.simps) (simp add: readMessage_def processStream_waits)
qed

end
