(* ===== verification/Fix_Message.thy ===== *)
theory Fix_Message
  imports Dictionary_Data Field_Map_Laws Fix_Parser
begin

text \<open>
  Messages (flashfix/include/Message.h, flashfix/src/Message.cpp): header, body and trailer are
  field maps. Reading a message walks over its text; a position is a natural number. A null
  dictionary is \<open>None\<close>. The reasons of \<^verbatim>\<open>InvalidMessage\<close> are constructors; a data field whose
  declared length leaves the text reads outside of it, which is a result of its own.
\<close>

section \<open>Data\<close>

datatype message_error =
    Equal_sign_not_found
  | Field_tag_invalid string
  | SOH_not_found
  | Data_length_not_found int
  | Data_length_invalid int
  | Header_out_of_order
  | BodyLength_mismatch int int
  | CheckSum_mismatch int int
  | Required_missing int
  | Required_malformed int
  | Out_of_bounds \<comment> \<open>not an exception: the code reads past the text\<close>
  | Out_of_fuel \<comment> \<open>not a result of the code; never reached\<close>

record Message =
  msg_header :: FieldMap
  msg_body :: FieldMap
  msg_trailer :: FieldMap
  msg_validStructure :: bool
  msg_tag :: int

datatype message_part = header_part | body_part | trailer_part

definition Message_orders :: "message_order \<Rightarrow> message_order \<Rightarrow> message_order \<Rightarrow> Message" where
  "Message_orders hdrOrder trlOrder order =
     \<lparr>msg_header = FieldMap_new hdrOrder, msg_body = FieldMap_new order,
      msg_trailer = FieldMap_new trlOrder, msg_validStructure = True, msg_tag = 0\<rparr>"

definition Message_new :: Message where
  "Message_new = Message_orders (message_order_new header_mode) (message_order_new trailer_mode)
     (message_order_new normal_mode)"

definition Message_of_type :: "string \<Rightarrow> string \<Rightarrow> Message" where
  "Message_of_type beginString msgType =
     Message_new\<lparr>msg_header := setField (FieldBase_new 35 msgType)
       (setField (FieldBase_new 8 beginString) (msg_header Message_new))\<rparr>"

definition Message_clear :: "Message \<Rightarrow> Message" where
  "Message_clear m = m\<lparr>msg_tag := 0, msg_validStructure := True, msg_header := FieldMap_clear (msg_header m),
     msg_body := FieldMap_clear (msg_body m), msg_trailer := FieldMap_clear (msg_trailer m)\<rparr>"

definition Message_isEmpty :: "Message \<Rightarrow> bool" where
  "Message_isEmpty m = (FieldMap_isEmpty (msg_header m) \<and> FieldMap_isEmpty (msg_body m) \<and>
     FieldMap_isEmpty (msg_trailer m))"

section \<open>Kinds of fields and messages\<close>

definition Message_isHeaderField :: "int \<Rightarrow> bool" where
  "Message_isHeaderField field =
     (field \<in> {8, 9, 35, 49, 56, 115, 128, 90, 34, 50, 142, 57, 143, 116, 144, 129, 145, 43, 97, 52, 122,
        212, 213, 347, 369, 370, 1128, 1129, 627})"

definition Message_isHeaderField_in :: "int \<Rightarrow> DataDictionary option \<Rightarrow> bool" where
  "Message_isHeaderField_in field pD =
     (if Message_isHeaderField field then True
      else case pD of Some d \<Rightarrow> dd_isHeaderField field d | None \<Rightarrow> False)"

definition Message_isTrailerField :: "int \<Rightarrow> bool" where
  "Message_isTrailerField field = (field \<in> {93, 89, 10})"

definition Message_isTrailerField_in :: "int \<Rightarrow> DataDictionary option \<Rightarrow> bool" where
  "Message_isTrailerField_in field pD =
     (if Message_isTrailerField field then True
      else case pD of Some d \<Rightarrow> dd_isTrailerField field d | None \<Rightarrow> False)"

definition IsDataField :: "int \<Rightarrow> DataDictionary option \<Rightarrow> DataDictionary option \<Rightarrow> bool" where
  "IsDataField field pSessionDD pAppDD =
     ((case pSessionDD of Some d \<Rightarrow> isDataField field d | None \<Rightarrow> False) \<or>
      (case pAppDD of Some d \<Rightarrow> isDataField field d | None \<Rightarrow> False))"

text \<open>\<^verbatim>\<open>strchr\<close> also finds the character that ends its string.\<close>

definition isAdminMsgType :: "string \<Rightarrow> bool" where
  "isAdminMsgType msgType =
     (if length msgType \<noteq> 1 then False else hd msgType \<in> set (''0A12345'' @ [CHR 0x00]))"

definition Message_isAdmin :: "Message \<Rightarrow> bool" where
  "Message_isAdmin m =
     (case getFieldIfSet 35 (msg_header m) of None \<Rightarrow> False | Some f \<Rightarrow> isAdminMsgType (f_string f))"

definition Message_isApp :: "Message \<Rightarrow> bool" where
  "Message_isApp m =
     (case getFieldIfSet 35 (msg_header m) of None \<Rightarrow> False | Some f \<Rightarrow> \<not> isAdminMsgType (f_string f))"

definition toApplVerID :: "string \<Rightarrow> string" where
  "toApplVerID val =
     (if val = ''FIX.4.0'' then ''2'' else if val = ''FIX.4.1'' then ''3''
      else if val = ''FIX.4.2'' then ''4'' else if val = ''FIX.4.3'' then ''5''
      else if val = ''FIX.4.4'' then ''6'' else if val = ''FIX.5.0'' then ''7''
      else if val = ''FIX.5.0SP1'' then ''8'' else if val = ''FIX.5.0SP2'' then ''9'' else val)"

definition toBeginString :: "string \<Rightarrow> string" where
  "toBeginString applVerID =
     (if applVerID = ''2'' then ''FIX.4.0'' else if applVerID = ''3'' then ''FIX.4.1''
      else if applVerID = ''4'' then ''FIX.4.2'' else if applVerID = ''5'' then ''FIX.4.3''
      else if applVerID = ''6'' then ''FIX.4.4'' else if applVerID = ''7'' then ''FIX.5.0''
      else if applVerID = ''8'' then ''FIX.5.0'' else if applVerID = ''9'' then ''FIX.5.0'' else [])"

text \<open>\<open>None\<close>: the exception \<^verbatim>\<open>MessageParseError\<close>.\<close>

definition identifyType :: "string \<Rightarrow> string option" where
  "identifyType message =
     (case string_find (CHR 0x01 # ''35='') 0 message of
        None \<Rightarrow> None
      | Some pos \<Rightarrow>
          let startValue = pos + 4 in
          case string_find [CHR 0x01] startValue message of
            None \<Rightarrow> None
          | Some soh \<Rightarrow> Some (take (soh - startValue) (drop startValue message)))"

section \<open>Reading a field\<close>

definition extractField ::
  "string \<Rightarrow> nat \<Rightarrow> DataDictionary option \<Rightarrow> DataDictionary option \<Rightarrow> FieldMap option \<Rightarrow> Message \<Rightarrow>
   message_error + FieldBase \<times> nat" where
  "extractField s pos pSessionDD pAppDD pGroup m =
     (let rest = drop pos s in
      case find_sub ''='' rest of
        None \<Rightarrow> Inl Equal_sign_not_found
      | Some equalSign \<Rightarrow>
          case IntT_parse True (take equalSign rest) :: 32 word option of
            None \<Rightarrow> Inl (Field_tag_invalid (take equalSign rest))
          | Some tag \<Rightarrow>
              let field = sint tag; valueStart = equalSign + 1 in
              case find_sub [SOH] (drop valueStart rest) of
                None \<Rightarrow> Inl SOH_not_found
              | Some len \<Rightarrow>
                  and_then
                    (if IsDataField field pSessionDD pAppDD then
                       let lenField = (if field = 89 then 93 else field - 1);
                           location = (case pGroup of
                               Some g \<Rightarrow> g
                             | None \<Rightarrow>
                                 if Message_isHeaderField_in lenField pSessionDD then msg_header m
                                 else if Message_isTrailerField_in lenField pSessionDD then msg_trailer m
                                 else msg_body m)
                       in case reverse_find lenField location of
                            None \<Rightarrow> Inl (Data_length_not_found field)
                          | Some fieldLength \<Rightarrow>
                              case IntT_parse True (f_string fieldLength) :: 32 word option of
                                None \<Rightarrow> Inl (Data_length_invalid field)
                              | Some n \<Rightarrow>
                                  if sint n < 0 \<or> int (valueStart + 1) + sint n > int (length rest)
                                  then Inl Out_of_bounds else Inr (nat (sint n))
                     else Inr len)
                    (\<lambda>len.
                       let tagEnd = valueStart + len + 1 in
                       Inr (FieldBase_parsed field (take len (drop valueStart rest)) (take tagEnd rest),
                            pos + tagEnd)))"

section \<open>Reading groups\<close>

text \<open>
  The loop over the fields of one group. \<open>nest\<close> reads the groups inside it. Every turn reads at
  least one character, so the length of the text is enough fuel.
\<close>

fun group_loop ::
  "(FieldBase \<Rightarrow> nat \<Rightarrow> FieldMap \<Rightarrow> message_error + FieldMap \<times> nat) \<Rightarrow> int \<Rightarrow> int \<Rightarrow> DataDictionary \<Rightarrow>
   DataDictionary \<Rightarrow> string \<Rightarrow> Message \<Rightarrow> nat \<Rightarrow> FieldMap option \<Rightarrow> FieldMap \<Rightarrow> nat \<Rightarrow>
   message_error + FieldMap \<times> nat" where
  "group_loop nest grp delim pDD dd s m 0 pGroup fm pos = Inl Out_of_fuel"
| "group_loop nest grp delim pDD dd s m (Suc fuel) pGroup fm pos =
     (if \<not> pos < length s then Inr (fm, pos)
      else
        let oldPos = pos in
        and_then (extractField s pos (Some dd) (Some dd) pGroup m) (\<lambda>(field, pos).
          let starts = (f_tag field = delim \<or> isField (f_tag field) pDD \<and>
                 (case pGroup of None \<Rightarrow> True | Some g \<Rightarrow> isSetField (f_tag field) g))
          in if \<not> starts \<and> \<not> isField (f_tag field) pDD
             then Inr (addGroupPtr grp pGroup False fm, oldPos)
             else
               let fm = (if starts then addGroupPtr grp pGroup False fm else fm);
                   pGroup = (if starts then Some (FieldMap_new (getOrderedFields pDD)) else pGroup)
               in case pGroup of
                    None \<Rightarrow> Inr (fm, pos)
                  | Some g \<Rightarrow>
                      and_then (nest field pos (addField field g)) (\<lambda>(g, pos).
                        group_loop nest grp delim pDD dd s m fuel (Some g) fm pos)))"

function setGroup ::
  "string \<Rightarrow> string \<Rightarrow> Message \<Rightarrow> DataDictionary \<Rightarrow> FieldBase \<Rightarrow> nat \<Rightarrow> FieldMap \<Rightarrow>
   message_error + FieldMap \<times> nat" where
  "setGroup msg s m dd field pos fm =
     (case getGroup msg (f_tag field) dd of
        None \<Rightarrow> Inr (fm, pos)
      | Some (delim, pDD) \<Rightarrow>
          group_loop (\<lambda>field pos g. setGroup msg s m pDD field pos g) (f_tag field) delim pDD dd s m
            (length s + 1) None fm pos)"
  by pat_completeness auto
termination
  by (relation "measure (\<lambda>(msg, s, m, dd, field, pos, fm). size dd)") (auto intro: size_getGroup)

declare setGroup.simps [simp del]

section \<open>Reading a message\<close>

definition headerOrder :: "int list" where
  "headerOrder = [8, 9, 35]"

definition structure_broken :: "bool \<Rightarrow> FieldBase \<Rightarrow> Message \<Rightarrow> Message" where
  "structure_broken broken field m =
     (if broken then m\<lparr>msg_tag := (if msg_tag m = 0 then f_tag field else msg_tag m), msg_validStructure := False\<rparr>
      else m)"

text \<open>Reading the groups of a field into one of the three maps, when there is a dictionary.\<close>

definition read_groups ::
  "(Message \<Rightarrow> FieldMap) \<Rightarrow> (FieldMap \<Rightarrow> Message \<Rightarrow> Message) \<Rightarrow> string \<Rightarrow> DataDictionary option \<Rightarrow>
   FieldBase \<Rightarrow> string \<Rightarrow> nat \<Rightarrow> Message \<Rightarrow> message_error + Message \<times> nat" where
  "read_groups part put msg pDD field s pos m =
     (case pDD of
        None \<Rightarrow> Inr (m, pos)
      | Some dd \<Rightarrow> and_then (setGroup msg s m dd field pos (part m)) (\<lambda>(fm, pos). Inr (put fm m, pos)))"

text \<open>The loop; every turn reads at least one character.\<close>

fun setString_loop ::
  "bool \<Rightarrow> DataDictionary option \<Rightarrow> string \<Rightarrow> nat \<Rightarrow> DataDictionary option \<Rightarrow> nat \<Rightarrow> nat \<Rightarrow> string \<Rightarrow>
   message_part \<Rightarrow> Message \<Rightarrow> message_error + Message" where
  "setString_loop doValidation pSessionDD s 0 pAppDD pos idx msg part m = Inl Out_of_fuel"
| "setString_loop doValidation pSessionDD s (Suc fuel) pAppDD pos idx msg part m =
     (if \<not> pos < length s then Inr m
      else and_then (extractField s pos pSessionDD pAppDD None m) (\<lambda>(field, pos).
        if idx < 3 \<and> headerOrder ! idx \<noteq> f_tag field \<and> doValidation then Inl Header_out_of_order
        else
          let idx = (if idx < 3 then idx + 1 else idx) in
          if Message_isHeaderField_in (f_tag field) pSessionDD then
            let m = structure_broken (part \<noteq> header_part) field m;
                isType = (f_tag field = 35);
                msg = (if isType then f_string field else msg);
                pAppDD = (if isType \<and> isAdminMsgType msg then pSessionDD else pAppDD);
                m = m\<lparr>msg_header := appendField field (msg_header m)\<rparr>
            in and_then (read_groups msg_header (\<lambda>fm m. m\<lparr>msg_header := fm\<rparr>) ''_header_'' pSessionDD field s pos m)
                 (\<lambda>(m, pos). setString_loop doValidation pSessionDD s fuel pAppDD pos idx msg part m)
          else if Message_isTrailerField_in (f_tag field) pSessionDD then
            let m = m\<lparr>msg_trailer := appendField field (msg_trailer m)\<rparr>
            in and_then (read_groups msg_trailer (\<lambda>fm m. m\<lparr>msg_trailer := fm\<rparr>) ''_trailer_'' pSessionDD field s pos m)
                 (\<lambda>(m, pos). setString_loop doValidation pSessionDD s fuel pAppDD pos idx msg trailer_part m)
          else
            let m = structure_broken (part = trailer_part) field m;
                m = m\<lparr>msg_body := appendField field (msg_body m)\<rparr>
            in and_then (read_groups msg_body (\<lambda>fm m. m\<lparr>msg_body := fm\<rparr>) msg pAppDD field s pos m)
                 (\<lambda>(m, pos). setString_loop doValidation pSessionDD s fuel pAppDD pos idx msg body_part m)))"

definition bodyLength :: "int \<Rightarrow> int \<Rightarrow> int \<Rightarrow> Message \<Rightarrow> int" where
  "bodyLength beginStringField bodyLengthField checkSumField m =
     calculateLength beginStringField bodyLengthField checkSumField (msg_header m) +
     calculateLength beginStringField bodyLengthField checkSumField (msg_body m) +
     calculateLength beginStringField bodyLengthField checkSumField (msg_trailer m)"

definition checkSum :: "int \<Rightarrow> Message \<Rightarrow> int" where
  "checkSum checkSumField m =
     (calculateTotal checkSumField (msg_header m) + calculateTotal checkSumField (msg_body m) +
      calculateTotal checkSumField (msg_trailer m)) mod 256"

definition Message_validate :: "Message \<Rightarrow> message_error option" where
  "Message_validate m =
     (case getFieldRef TAG_BodyLength (msg_header m) of
        None \<Rightarrow> Some (Required_missing TAG_BodyLength)
      | Some aBodyLength \<Rightarrow>
          case IntT_parse True (f_string aBodyLength) :: 32 word option of
            None \<Rightarrow> Some (Required_malformed TAG_BodyLength)
          | Some expectedLength \<Rightarrow>
              let receivedLength = bodyLength TAG_BeginString TAG_BodyLength TAG_CheckSum m in
              if sint expectedLength \<noteq> receivedLength
              then Some (BodyLength_mismatch (sint expectedLength) receivedLength)
              else case getFieldRef TAG_CheckSum (msg_trailer m) of
                None \<Rightarrow> Some (Required_missing TAG_CheckSum)
              | Some aCheckSum \<Rightarrow>
                  case CheckSum_parse (f_string aCheckSum) of
                    None \<Rightarrow> Some (Required_malformed TAG_CheckSum)
                  | Some expectedChecksum \<Rightarrow>
                      let receivedChecksum = checkSum TAG_CheckSum m in
                      if sint expectedChecksum \<noteq> receivedChecksum
                      then Some (CheckSum_mismatch (sint expectedChecksum) receivedChecksum)
                      else None)"

definition sort_message :: "Message \<Rightarrow> Message" where
  "sort_message m = m\<lparr>msg_header := sortFields (msg_header m), msg_body := sortFields (msg_body m),
     msg_trailer := sortFields (msg_trailer m)\<rparr>"

definition setString ::
  "string \<Rightarrow> bool \<Rightarrow> DataDictionary option \<Rightarrow> DataDictionary option \<Rightarrow> Message \<Rightarrow> message_error + Message" where
  "setString s doValidation pSessionDD pAppDD m =
     and_then (setString_loop doValidation pSessionDD s (length s + 1) pAppDD 0 0 [] header_part (Message_clear m))
       (\<lambda>m. let m = sort_message m in
          if doValidation then (case Message_validate m of Some e \<Rightarrow> Inl e | None \<Rightarrow> Inr m) else Inr m)"

fun setStringHeader_loop :: "string \<Rightarrow> nat \<Rightarrow> nat \<Rightarrow> nat \<Rightarrow> Message \<Rightarrow> message_error + bool \<times> Message" where
  "setStringHeader_loop s 0 pos idx m = Inl Out_of_fuel"
| "setStringHeader_loop s (Suc fuel) pos idx m =
     (if \<not> pos < length s then Inr (True, m\<lparr>msg_header := sortFields (msg_header m)\<rparr>)
      else and_then (extractField s pos None None None m) (\<lambda>(field, pos).
        if idx < 3 \<and> headerOrder ! idx \<noteq> f_tag field then Inr (False, m)
        else
          let idx = (if idx < 3 then idx + 1 else idx) in
          if Message_isHeaderField (f_tag field)
          then setStringHeader_loop s fuel pos idx (m\<lparr>msg_header := appendField field (msg_header m)\<rparr>)
          else Inr (True, m\<lparr>msg_header := sortFields (msg_header m)\<rparr>)))"

definition setStringHeader :: "string \<Rightarrow> Message \<Rightarrow> message_error + bool \<times> Message" where
  "setStringHeader s m = setStringHeader_loop s (length s + 1) 0 0 (Message_clear m)"

text \<open>The constructor that reads the header first, to know which dictionary the body has.\<close>

definition Message_of_string ::
  "message_order \<Rightarrow> message_order \<Rightarrow> message_order \<Rightarrow> string \<Rightarrow> DataDictionary \<Rightarrow> DataDictionary \<Rightarrow> bool \<Rightarrow>
   message_error + Message" where
  "Message_of_string hdrOrder trlOrder order s sessionDD applicationDD validate =
     and_then (setStringHeader s (Message_orders hdrOrder trlOrder order)) (\<lambda>(b, m).
       if Message_isAdmin m then setString s validate (Some sessionDD) (Some sessionDD) m
       else setString s validate (Some sessionDD) (Some applicationDD) m)"

section \<open>Writing a message\<close>

text \<open>
  The maps are mutable: writing a message sets its length and checksum. \<open>None\<close>: the checksum does
  not fit, which the remainder excludes.
\<close>

definition Message_toString :: "int \<Rightarrow> int \<Rightarrow> int \<Rightarrow> Message \<Rightarrow> (string \<times> Message) option" where
  "Message_toString beginStringField bodyLengthField checkSumField m =
     (let len = bodyLength beginStringField bodyLengthField checkSumField m;
          m = m\<lparr>msg_header := setField (FieldBase_new bodyLengthField
                 (IntT_convert True (word_of_int len :: 32 word))) (msg_header m)\<rparr>
      in case CheckSum_convert (word_of_int (checkSum checkSumField m)) of
           None \<Rightarrow> None
         | Some check \<Rightarrow>
             let m = m\<lparr>msg_trailer := setField (FieldBase_new checkSumField check) (msg_trailer m)\<rparr>
             in Some (calculateString (msg_header m) @ calculateString (msg_body m) @
                      calculateString (msg_trailer m), m))"

abbreviation toString :: "Message \<Rightarrow> (string \<times> Message) option" where
  "toString \<equiv> Message_toString TAG_BeginString TAG_BodyLength TAG_CheckSum"

section \<open>Routing\<close>

text \<open>Setting a tag to the text of a field of the other header, when it is there and not empty.\<close>

definition copy_route :: "int \<Rightarrow> int \<Rightarrow> FieldMap \<Rightarrow> FieldMap \<Rightarrow> FieldMap" where
  "copy_route from to header h =
     (case getFieldIfSet from header of
        None \<Rightarrow> h
      | Some f \<Rightarrow> if f_string f \<noteq> [] then setField (FieldBase_new to (f_string f)) h else h)"

text \<open>The order of strings is that of their bytes.\<close>

fun string_le :: "string \<Rightarrow> string \<Rightarrow> bool" where
  "string_le [] t = True"
| "string_le (c # s) [] = False"
| "string_le (c # s) (d # t) =
     (if (of_char c :: nat) < of_char d then True else if c = d then string_le s t else False)"

definition reverseRoute :: "FieldMap \<Rightarrow> Message \<Rightarrow> Message" where
  "reverseRoute header m =
     (let h = msg_header m;
          h = removeField 8 h; h = removeField 49 h; h = removeField 56 h;
          h = (case getFieldIfSet 8 header of
                 None \<Rightarrow> h
               | Some beginString \<Rightarrow>
                   let h = copy_route 8 8 header h;
                       h = removeField 144 h; h = removeField 145 h
                   in if string_le ''FIX.4.1'' (f_string beginString)
                      then copy_route 145 144 header (copy_route 144 145 header h) else h);
          h = copy_route 49 56 header h;
          h = copy_route 56 49 header h;
          h = removeField 115 h; h = removeField 116 h; h = removeField 128 h; h = removeField 129 h;
          h = copy_route 115 128 header h;
          h = copy_route 116 129 header h;
          h = copy_route 128 115 header h;
          h = copy_route 129 116 header h
      in m\<lparr>msg_header := h\<rparr>)"

end
