(* ===== verification/Message_Laws.thy ===== *)
theory Message_Laws
  imports Fix_Message
begin

text \<open>
  What a message promises: the text it writes is a frame the parser cuts out of a stream, with the
  length and checksum of what is written; reading it back gives the fields; the reversed route
  swaps the ends.
\<close>

section \<open>The shape of headers and trailers\<close>

lemma fm_ok_nth_sorted:
  assumes "fm_ok m" and "i < j" and "j < length (fm_fields m)"
  shows "\<not> fm_less m (f_tag (fm_fields m ! j)) (f_tag (fm_fields m ! i))"
    and "f_tag (fm_fields m ! i) \<noteq> f_tag (fm_fields m ! j)"
  using assms by (auto simp: fm_ok_def fsorted_def sorted_wrt_iff_nth_less distinct_conv_nth)

lemma field_at: "t \<in> f_tag ` set fs \<Longrightarrow> \<exists>i<length fs. f_tag (fs ! i) = t"
  by (auto simp: in_set_conv_nth)

lemma header_shape:
  assumes ok: "fm_ok h" and order: "mo_mode (fm_order h) = header_mode"
    and tags: "8 \<in> f_tag ` set (fm_fields h)" "9 \<in> f_tag ` set (fm_fields h)"
  shows "\<exists>f8 f9 rest. fm_fields h = f8 # f9 # rest \<and> f_tag f8 = 8 \<and> f_tag f9 = 9"
proof -
  have less: "fm_less h = header_compare" using order by (simp add: fun_eq_iff message_order_less_def)
  obtain i where i: "i < length (fm_fields h)" "f_tag (fm_fields h ! i) = 8" using field_at [OF tags(1)] by blast
  have "i = 0"
  proof (rule ccontr)
    assume "i \<noteq> 0"
    then have "\<not> header_compare 8 (f_tag (fm_fields h ! 0))" "f_tag (fm_fields h ! 0) \<noteq> 8"
      using fm_ok_nth_sorted [OF ok, of 0 i] i less by simp_all
    then show False by (auto simp: header_compare_def header_getOrderedPosition_def Let_def split: if_splits)
  qed
  obtain j where j: "j < length (fm_fields h)" "f_tag (fm_fields h ! j) = 9" using field_at [OF tags(2)] by blast
  have "j \<noteq> 0"
  proof
    assume "j = 0"
    with i j \<open>i = 0\<close> show False by simp
  qed
  have "j = 1"
  proof (rule ccontr)
    assume "j \<noteq> 1"
    with \<open>j \<noteq> 0\<close> have "1 < j" by simp
    then have "\<not> header_compare 9 (f_tag (fm_fields h ! 1))" "f_tag (fm_fields h ! 1) \<noteq> 9" "f_tag (fm_fields h ! 1) \<noteq> 8"
      using fm_ok_nth_sorted [OF ok, of 1 j] fm_ok_nth_sorted [OF ok, of 0 1] i j less \<open>i = 0\<close> by auto
    then show False by (auto simp: header_compare_def header_getOrderedPosition_def Let_def split: if_splits)
  qed
  with i j \<open>i = 0\<close> show ?thesis
    by (cases "fm_fields h"; cases "tl (fm_fields h)") auto
qed

lemma trailer_shape:
  assumes ok: "fm_ok t" and order: "mo_mode (fm_order t) = trailer_mode"
    and tags: "10 \<in> f_tag ` set (fm_fields t)"
  shows "\<exists>rest f10. fm_fields t = rest @ [f10] \<and> f_tag f10 = 10"
proof -
  have less: "fm_less t = trailer_compare" using order by (simp add: fun_eq_iff message_order_less_def)
  let ?n = "length (fm_fields t) - 1"
  obtain i where i: "i < length (fm_fields t)" "f_tag (fm_fields t ! i) = 10" using field_at [OF tags] by blast
  have "i = ?n"
  proof (rule ccontr)
    assume "i \<noteq> ?n"
    with i have "i < ?n" by simp
    then have "\<not> trailer_compare (f_tag (fm_fields t ! ?n)) 10" "f_tag (fm_fields t ! ?n) \<noteq> 10"
      using fm_ok_nth_sorted [OF ok, of i ?n] i less by auto
    then show False by (simp add: trailer_compare_def)
  qed
  moreover have ne: "fm_fields t \<noteq> []" using i by auto
  ultimately have "f_tag (last (fm_fields t)) = 10" using i by (simp add: last_conv_nth)
  with ne show ?thesis
    by (intro exI [of _ "butlast (fm_fields t)"] exI [of _ "last (fm_fields t)"]) simp
qed

lemma filter_insert_at: "\<not> P x \<Longrightarrow> filter P (insert_at k x xs) = filter P xs"
proof -
  assume "\<not> P x"
  then have "filter P (insert_at k x xs) = filter P (take k xs @ drop k xs)"
    unfolding insert_at_def filter_append by simp
  then show ?thesis by simp
qed

lemma filter_setField:
  assumes ok: "fm_ok m" and "\<not> P (f_tag f)"
  shows "filter (\<lambda>g. P (f_tag g)) (fm_fields (setField f m)) = filter (\<lambda>g. P (f_tag g)) (fm_fields m)"
proof (cases "find_tag (fm_fields m) (f_tag f)")
  case None
  then have new: "f_tag f \<notin> f_tag ` set (fm_fields m)" by (simp add: find_tag_None)
  show ?thesis
    using assms(2)
    by (simp add: setField_new [OF ok new] fm_ok_addField(2) [OF ok new] filter_insert_at)
next
  case (Some i)
  then have i: "i < length (fm_fields m)" "f_tag (fm_fields m ! i) = f_tag f" by (simp_all add: find_tag_Some)
  then have "\<not> P (f_tag (fm_fields m ! i))" using assms(2) by simp
  then show ?thesis
    using i by (simp add: setField_old [OF ok Some] upd_conv_take_nth_drop FieldBase_setString_def)
      (metis (no_types, lifting) append_Cons append_take_drop_id Cons_nth_drop_Suc filter.simps(2) filter_append)
qed

lemma setField_tags: "fm_ok m \<Longrightarrow> f_tag ` set (fm_fields (setField f m)) = insert (f_tag f) (f_tag ` set (fm_fields m))"
proof -
  assume ok: "fm_ok m"
  have dom: "t \<in> f_tag ` set (fm_fields k) \<longleftrightarrow> getField_text t k \<noteq> None" if "fm_ok k" for t k
    using that by (simp add: getField_text_ok map_of_tag_values find_tag_None)
  show ?thesis
  proof (rule set_eqI)
    fix t
    show "(t \<in> f_tag ` set (fm_fields (setField f m))) = (t \<in> insert (f_tag f) (f_tag ` set (fm_fields m)))"
      unfolding insert_iff dom [OF ok, of t] dom [OF fm_ok_setField [OF ok], of t] get_setField [OF ok] by simp
  qed
qed

lemma tag_texts [simp]: "tag_text 8 = ''8''" "tag_text 9 = ''9''" "tag_text 10 = ''10''"
  by code_simp+

section \<open>Writing\<close>

text \<open>
  The messages the session writes: maps in the three orders, each sorted with one field per tag,
  the framing fields where they belong and without groups, and the version in the header.
\<close>

definition message_ok :: "Message \<Rightarrow> bool" where
  "message_ok m \<longleftrightarrow>
     fm_ok (msg_header m) \<and> mo_mode (fm_order (msg_header m)) = header_mode \<and> measured (msg_header m) \<and>
     fm_ok (msg_body m) \<and> measured (msg_body m) \<and>
     fm_ok (msg_trailer m) \<and> mo_mode (fm_order (msg_trailer m)) = trailer_mode \<and> measured (msg_trailer m) \<and>
     8 \<in> f_tag ` set (fm_fields (msg_header m)) \<and> 10 \<notin> f_tag ` set (fm_fields (msg_header m)) \<and>
     f_tag ` set (fm_fields (msg_body m)) \<inter> {8, 9, 10} = {} \<and>
     f_tag ` set (fm_fields (msg_trailer m)) \<inter> {8, 9} = {} \<and>
     fst ` set (fm_groups (msg_header m)) \<inter> {8, 9, 10} = {} \<and>
     fst ` set (fm_groups (msg_trailer m)) \<inter> {8, 9, 10} = {}"

lemma calculateString_parts:
  "calculateString (FieldMap (fs @ gs) groups ord) =
    calculateString (FieldMap fs groups ord) @ calculateString (FieldMap gs groups ord)"
  by simp

lemma calculateString_one:
  "f_tag f \<notin> fst ` set groups \<Longrightarrow> calculateString (FieldMap [f] groups ord) = FieldBase_getFixString f"
  by (simp add: map_of_eq_None_iff [THEN iffD2])

lemma measured_setField:
  assumes ok: "fm_ok m" and meas: "measured m"
  shows "measured (setField (FieldBase_new t v) m)"
proof -
  let ?f = "FieldBase_new t v"
  obtain fs gs ord where m: "m = FieldMap fs gs ord" by (cases m)
  define fs' where "fs' = fm_fields (setField ?f m)"
  have m': "setField ?f m = FieldMap fs' gs ord"
    unfolding fs'_def using FieldMap.collapse [of "setField ?f m"]
    by (simp only: fm_groups_setField fm_order_setField m FieldMap.sel)
  have "\<forall>g\<in>set (fm_fields (setField ?f m)). field_measured g"
  proof (cases "find_tag (fm_fields m) (f_tag ?f)")
    case None
    then have new: "f_tag ?f \<notin> f_tag ` set (fm_fields m)" by (simp add: find_tag_None)
    have "mset (fm_fields (setField ?f m)) = add_mset ?f (mset (fm_fields m))"
      by (simp add: setField_new [OF ok new] fm_ok_addField(2) [OF ok new])
    then have "set (fm_fields (setField ?f m)) = insert ?f (set (fm_fields m))"
      by (metis set_mset_add_mset_insert set_mset_mset)
    then show ?thesis using meas by (auto simp: m)
  next
    case (Some i)
    then show ?thesis
      using meas by (auto simp: m setField_old [OF ok [unfolded m] Some [unfolded m]] dest!: subsetD [OF set_update_subset_insert])
  qed
  moreover have "distinct (map f_tag (fm_fields (setField ?f m)))"
    using fm_ok_setField [OF ok] by (simp add: fm_ok_def)
  moreover have "f_tag ` set fs \<subseteq> f_tag ` set fs'"
  proof -
    have "f_tag ` set fs' = insert t (f_tag ` set fs)"
      using setField_tags [OF ok, of ?f] unfolding fs'_def by (simp add: m FieldBase_new_def)
    then show ?thesis by (simp only: subset_insertI)
  qed
  moreover note rest = meas [unfolded m measured.simps, THEN conjunct2, THEN conjunct2]
  ultimately show ?thesis
    unfolding m' measured.simps FieldMap.sel
    using rest [THEN conjunct1] subset_trans [OF rest [THEN conjunct2, THEN conjunct1]]
      rest [THEN conjunct2, THEN conjunct2] by (intro conjI)
qed

text \<open>The text of a header after its length was set, and of a trailer after its checksum was.\<close>

lemma get_first: "fm_ok m \<Longrightarrow> fm_fields m = f # fs \<Longrightarrow> getField_text (f_tag f) m = Some (f_string f)"
  by (simp add: getField_text_ok tag_values_def)

lemma get_second:
  "fm_ok m \<Longrightarrow> fm_fields m = f # g # fs \<Longrightarrow> getField_text (f_tag g) m = Some (f_string g)"
  by (auto simp: getField_text_ok tag_values_def fm_ok_def)

lemma get_last:
  assumes "fm_ok m" and "fm_fields m = fs @ [f]"
  shows "getField_text (f_tag f) m = Some (f_string f)"
proof -
  have "map_of (tag_values fs) (f_tag f) = None"
    using assms by (auto simp: fm_ok_def tag_values_def map_of_eq_None_iff comp_def)
  then show ?thesis using assms by (simp add: getField_text_ok tag_values_def map_add_def)
qed

lemma FixString_of: "f_tag f = t \<Longrightarrow> f_string f = v \<Longrightarrow> FieldBase_getFixString f = tag_text t @ ''='' @ v @ [SOH]"
  by (simp add: FieldBase_getFixString_def)

lemma header_text:
  assumes ok: "fm_ok h" "mo_mode (fm_order h) = header_mode"
    and tags: "8 \<in> f_tag ` set (fm_fields h)" "10 \<notin> f_tag ` set (fm_fields h)"
    and gs: "fst ` set (fm_groups h) \<inter> {8, 9, 10} = {}"
    and bs: "getField_text 8 h = Some bs"
  shows "calculateString (setField (FieldBase_new 9 v) h) =
    ''8='' @ bs @ SOH # ''9='' @ v @ SOH #
      calculateString (with_fields (filter (\<lambda>f. f_tag f \<noteq> 8 \<and> f_tag f \<noteq> 9 \<and> f_tag f \<noteq> 10) (fm_fields h)) h)"
proof -
  let ?h = "setField (FieldBase_new 9 v) h"
  have ok': "fm_ok ?h" using ok(1) by (rule fm_ok_setField)
  have tag9: "f_tag (FieldBase_new 9 v) = 9" and str9: "f_string (FieldBase_new 9 v) = v"
    by (simp_all add: FieldBase_new_def)
  have tags': "f_tag ` set (fm_fields ?h) = insert 9 (f_tag ` set (fm_fields h))"
    using setField_tags [OF ok(1), of "FieldBase_new 9 v"] tag9 by simp
  obtain f8 f9 rest where shape: "fm_fields ?h = f8 # f9 # rest" "f_tag f8 = 8" "f_tag f9 = 9"
    using header_shape [OF ok'] ok(2) tags(1) tags' by auto
  have "f_string f8 = bs" "f_string f9 = v"
    using get_first [OF ok' shape(1)] get_second [OF ok' shape(1)] get_setField [OF ok(1), of _ "FieldBase_new 9 v"]
      shape(2,3) bs tag9 str9 by simp_all
  have "\<forall>f\<in>set rest. f_tag f \<noteq> 8 \<and> f_tag f \<noteq> 9"
    using ok' shape unfolding fm_ok_def by force
  moreover have "\<forall>f\<in>set rest. f_tag f \<noteq> 10"
    using tags(2) tags' shape(1) by (metis (no_types, lifting) image_eqI insertE list.set_intros(2) numeral_eq_iff
        num.distinct(3) semiring_norm(85) semiring_norm(87) semiring_norm(88) semiring_norm(89) semiring_norm(90))
  ultimately have "filter (\<lambda>f. f_tag f \<noteq> 8 \<and> f_tag f \<noteq> 9 \<and> f_tag f \<noteq> 10) (fm_fields ?h) = rest"
    using shape by (auto simp: filter_id_conv)
  then have rest: "filter (\<lambda>f. f_tag f \<noteq> 8 \<and> f_tag f \<noteq> 9 \<and> f_tag f \<noteq> 10) (fm_fields h) = rest"
    using filter_setField [OF ok(1), of "\<lambda>t. t \<noteq> 8 \<and> t \<noteq> 9 \<and> t \<noteq> 10" "FieldBase_new 9 v"] tag9 by simp
  have "?h = FieldMap ([f8] @ [f9] @ rest) (fm_groups h) (fm_order h)"
    using FieldMap.collapse [of ?h] shape(1) by simp
  then have "calculateString ?h = FieldBase_getFixString f8 @ FieldBase_getFixString f9 @
      calculateString (FieldMap rest (fm_groups h) (fm_order h))"
    using calculateString_one [of f8 "fm_groups h" "fm_order h"] calculateString_one [of f9 "fm_groups h" "fm_order h"]
      gs shape(2,3) by (simp only: calculateString_parts) simp
  then show ?thesis
    unfolding rest with_fields_def
    using FixString_of [OF shape(2) \<open>f_string f8 = bs\<close>] FixString_of [OF shape(3) \<open>f_string f9 = v\<close>] by simp
qed

lemma trailer_text:
  assumes ok: "fm_ok t" "mo_mode (fm_order t) = trailer_mode"
    and gs: "fst ` set (fm_groups t) \<inter> {8, 9, 10} = {}"
  shows "calculateString (setField (FieldBase_new 10 v) t) =
    calculateString (with_fields (filter (\<lambda>f. f_tag f \<noteq> 10) (fm_fields t)) t) @ ''10='' @ v @ [SOH]"
proof -
  let ?t = "setField (FieldBase_new 10 v) t"
  have ok': "fm_ok ?t" using ok(1) by (rule fm_ok_setField)
  have tag: "f_tag (FieldBase_new 10 v) = 10" and str: "f_string (FieldBase_new 10 v) = v"
    by (simp_all add: FieldBase_new_def)
  obtain rest f10 where shape: "fm_fields ?t = rest @ [f10]" "f_tag f10 = 10"
    using trailer_shape [OF ok'] ok(2) setField_tags [OF ok(1), of "FieldBase_new 10 v"] tag by auto
  have v: "f_string f10 = v"
    using get_last [OF ok' shape(1)] get_setField [OF ok(1), of _ "FieldBase_new 10 v"] shape(2) tag str by simp
  have "\<forall>f\<in>set rest. f_tag f \<noteq> 10"
    using ok' shape unfolding fm_ok_def by force
  then have "filter (\<lambda>f. f_tag f \<noteq> 10) (fm_fields ?t) = rest"
    using shape by (auto simp: filter_id_conv)
  then have rest: "filter (\<lambda>f. f_tag f \<noteq> 10) (fm_fields t) = rest"
    using filter_setField [OF ok(1), of "\<lambda>t. t \<noteq> 10" "FieldBase_new 10 v"] tag by simp
  have "?t = FieldMap (rest @ [f10]) (fm_groups t) (fm_order t)"
    using FieldMap.collapse [of ?t] shape(1) by simp
  then have "calculateString ?t = calculateString (FieldMap rest (fm_groups t) (fm_order t)) @ FieldBase_getFixString f10"
    using calculateString_one [of f10 "fm_groups t" "fm_order t"] gs shape(2)
    by (simp only: calculateString_parts) simp
  then show ?thesis
    unfolding rest with_fields_def using FixString_of [OF shape(2) v] by simp
qed

text \<open>What stands between the length and the checksum.\<close>

definition payload :: "Message \<Rightarrow> string" where
  "payload m =
     calculateString (with_fields (filter (\<lambda>f. f_tag f \<noteq> 8 \<and> f_tag f \<noteq> 9 \<and> f_tag f \<noteq> 10)
       (fm_fields (msg_header m))) (msg_header m)) @
     calculateString (msg_body m) @
     calculateString (with_fields (filter (\<lambda>f. f_tag f \<noteq> 10) (fm_fields (msg_trailer m))) (msg_trailer m))"

lemma bodyLength_payload:
  assumes "message_ok m"
  shows "bodyLength 8 9 10 m = int (length (payload m))"
proof -
  have "calculateLength 8 9 10 (msg_body m) = int (length (calculateString (msg_body m)))"
    using assms measures_plain [of "msg_body m"] by (simp add: message_ok_def)
  moreover have "filter (\<lambda>f. f_tag f \<noteq> 8 \<and> f_tag f \<noteq> 9 \<and> f_tag f \<noteq> 10) (fm_fields (msg_trailer m)) =
      filter (\<lambda>f. f_tag f \<noteq> 10) (fm_fields (msg_trailer m))"
    using assms unfolding message_ok_def by (intro filter_cong refl) force
  ultimately show ?thesis
    using assms measures_skip(1) [of "msg_header m" 8 9 10] measures_skip(1) [of "msg_trailer m" 8 9 10]
    by (simp add: message_ok_def bodyLength_def payload_def)
qed

lemma filter_noop: "t \<notin> f_tag ` set fs \<Longrightarrow> filter (\<lambda>f. f_tag f \<noteq> t) fs = fs"
  by (auto simp: filter_id_conv)

lemma with_fields_id: "with_fields (fm_fields m) m = m"
  by (cases m) (simp add: with_fields_def)

lemma checkSum_text:
  assumes ok: "message_ok m" and bs: "getField_text 8 (msg_header m) = Some bs"
  shows "checkSum 10 (m\<lparr>msg_header := setField (FieldBase_new 9 v) (msg_header m)\<rparr>) =
    byte_sum (''8='' @ bs @ SOH # ''9='' @ v @ SOH # payload m) mod 256"
proof -
  let ?h = "setField (FieldBase_new 9 v) (msg_header m)"
  have h: "fm_ok (msg_header m)" "mo_mode (fm_order (msg_header m)) = header_mode" "measured (msg_header m)"
      "8 \<in> f_tag ` set (fm_fields (msg_header m))" "10 \<notin> f_tag ` set (fm_fields (msg_header m))"
      "fst ` set (fm_groups (msg_header m)) \<inter> {8, 9, 10} = {}"
    using ok by (simp_all add: message_ok_def)
  have "10 \<notin> f_tag ` set (fm_fields ?h)"
    using setField_tags [OF h(1), of "FieldBase_new 9 v"] h(5) by (simp add: FieldBase_new_def)
  then have "calculateTotal 10 ?h = byte_sum (calculateString ?h)"
    using measures_skip(2) [OF measured_setField [OF h(1,3)], of 10 9 v] h(6)
    by (simp add: filter_noop with_fields_id)
  moreover have "calculateTotal 10 (msg_body m) = byte_sum (calculateString (msg_body m))"
    using ok measures_plain [of "msg_body m"] by (simp add: message_ok_def)
  moreover have "calculateTotal 10 (msg_trailer m) =
      byte_sum (calculateString (with_fields (filter (\<lambda>f. f_tag f \<noteq> 10) (fm_fields (msg_trailer m))) (msg_trailer m)))"
    using ok measures_skip(2) [of "msg_trailer m" 10] by (simp add: message_ok_def)
  ultimately show ?thesis
    unfolding checkSum_def header_text [OF h(1,2,4,5,6) bs, of v]
    by (simp add: payload_def add.assoc)
qed

definition checksum_text :: "int \<Rightarrow> string" where
  "checksum_text k = pad_digits 3 (nat (k mod 256))"

lemma toString_eq:
  assumes ok: "message_ok m" and bs: "getField_text 8 (msg_header m) = Some bs"
    and len: "len = IntT_convert True (word_of_int (int (length (payload m))) :: 32 word)"
    and front: "front = ''8='' @ bs @ SOH # ''9='' @ len @ SOH # payload m"
  shows "toString m = Some (front @ ''10='' @ checksum_text (byte_sum front) @ [SOH],
    m\<lparr>msg_header := setField (FieldBase_new 9 len) (msg_header m),
      msg_trailer := setField (FieldBase_new 10 (checksum_text (byte_sum front))) (msg_trailer m)\<rparr>)"
proof -
  let ?m = "m\<lparr>msg_header := setField (FieldBase_new 9 len) (msg_header m)\<rparr>"
  have k: "checkSum 10 ?m = byte_sum front mod 256"
    unfolding front by (rule checkSum_text [OF ok bs])
  have range: "0 \<le> checkSum 10 ?m" "checkSum 10 ?m < 256" unfolding k by simp_all
  then have sint: "sint (word_of_int (checkSum 10 ?m) :: 32 word) = checkSum 10 ?m"
    by (intro sint_int32) simp_all
  have "CheckSum_convert (word_of_int (checkSum 10 ?m)) = Some (checksum_text (byte_sum front))"
    using CheckSum_convert_eq [of "word_of_int (checkSum 10 ?m)"] range k
    unfolding sint checksum_text_def by simp
  moreover have "calculateString (setField (FieldBase_new 9 len) (msg_header m)) @ calculateString (msg_body m) @
      calculateString (setField (FieldBase_new 10 v) (msg_trailer m)) = front @ ''10='' @ v @ [SOH]" for v
    using ok bs unfolding front by (simp add: message_ok_def header_text trailer_text payload_def)
  ultimately show ?thesis
    unfolding Message_toString_def bodyLength_payload [OF ok] Let_def by (simp add: len)
qed

text \<open>Every encoded map is empty or ends with the separator.\<close>

definition closed_text :: "string \<Rightarrow> bool" where
  "closed_text s \<longleftrightarrow> last (SOH # s) = SOH"

lemma closed_append: "closed_text s \<Longrightarrow> closed_text t \<Longrightarrow> closed_text (s @ t)"
  by (cases t) (simp_all add: closed_text_def)

lemma closed_concat: "(\<And>s. s \<in> set ss \<Longrightarrow> closed_text s) \<Longrightarrow> closed_text (concat ss)"
  by (induction ss) (simp add: closed_text_def, simp add: closed_append)

lemma closed_calculateString: "closed_text (calculateString m)"
proof (induction m rule: calculateString.induct)
  case (1 fs gs ord)
  show ?case
    unfolding calculateString.simps
  proof (rule closed_concat)
    fix s
    assume "s \<in> set (map (\<lambda>field. FieldBase_getFixString field @
       (case map_of gs (f_tag field) of None \<Rightarrow> [] | Some groups \<Rightarrow> concat (map calculateString groups))) fs)"
    then obtain f where f: "f \<in> set fs" "s = FieldBase_getFixString f @
       (case map_of gs (f_tag f) of None \<Rightarrow> [] | Some groups \<Rightarrow> concat (map calculateString groups))"
      by auto
    have "closed_text (FieldBase_getFixString f)"
      by (simp add: closed_text_def FieldBase_getFixString_def)
    moreover have "closed_text (case map_of gs (f_tag f) of None \<Rightarrow> [] | Some groups \<Rightarrow> concat (map calculateString groups))"
    proof (cases "map_of gs (f_tag f)")
      case None
      then show ?thesis by (simp add: closed_text_def)
    next
      case (Some groups)
      have "closed_text (concat (map calculateString groups))"
        using "1.IH" [OF f(1) Some] by (intro closed_concat) auto
      with Some show ?thesis by simp
    qed
    ultimately show "closed_text s" unfolding f(2) by (rule closed_append)
  qed
qed

lemma closed_payload: "closed_text (payload m)"
  unfolding payload_def by (intro closed_append closed_calculateString)

lemma soh_not_digit: "all_digits s \<Longrightarrow> SOH \<notin> set s"
  by (auto simp: all_digits_def)

lemma length_text:
  assumes "k < 2 ^ 31"
  shows "IntT_convert True (word_of_int (int k) :: 32 word) = nat_digits k"
  using assms sint_int32 [of "int k"]
  by (simp add: IntT_convert_def integer_to_string_eq value_of_def)

lemma frame_text_ok:
  assumes "SOH \<notin> set bs" and "closed_text body" and "length body < 2 ^ 31" and "SOH \<notin> set cs"
  shows "frame_ok (frame bs (IntT_convert True (word_of_int (int (length body)) :: 32 word)) body cs)"
proof -
  have "IntT_parse True (IntT_convert True (word_of_int (int (length body)) :: 32 word)) =
      Some (word_of_int (int (length body)) :: 32 word)"
    unfolding IntT_convert_def by (rule parse_written) simp
  moreover have "SOH \<notin> set (IntT_convert True (word_of_int (int (length body)) :: 32 word))"
    unfolding length_text [OF assms(3)] by (rule soh_not_digit) simp
  ultimately show ?thesis
    unfolding frame_ok_def using assms by (intro exI conjI) (rule refl | assumption | simp add: closed_text_def)+
qed

text \<open>C33. The text of a message is a frame that the parser cuts out of a stream: the length it
  states is that of what follows up to the checksum field, and the checksum is the sum of all the
  bytes before that field, modulo 256, in three digits.\<close>

theorem toString_is_frame:
  assumes "message_ok m" and "getField_text 8 (msg_header m) = Some bs" and "SOH \<notin> set bs"
    and "length (payload m) < 2 ^ 31"
  shows "\<exists>s front m'. toString m = Some (s, m') \<and> frame_ok s \<and> readFixMessage s = (Read_message s, []) \<and>
    s = front @ ''10='' @ checksum_text (byte_sum front) @ [SOH] \<and>
    front = ''8='' @ bs @ SOH # ''9='' @ IntT_convert True (word_of_int (int (length (payload m))) :: 32 word) @
      SOH # payload m"
proof -
  let ?len = "IntT_convert True (word_of_int (int (length (payload m))) :: 32 word)"
  let ?front = "''8='' @ bs @ SOH # ''9='' @ ?len @ SOH # payload m"
  let ?cs = "checksum_text (byte_sum ?front)"
  obtain m' where written: "toString m = Some (?front @ ''10='' @ ?cs @ [SOH], m')"
    using toString_eq [OF assms(1,2) refl refl] by blast
  have "SOH \<notin> set ?cs" by (rule soh_not_digit) (simp add: checksum_text_def)
  then have "frame_ok (frame bs ?len (payload m) ?cs)"
    using assms(3,4) by (intro frame_text_ok closed_payload)
  then have "frame_ok (?front @ ''10='' @ ?cs @ [SOH])" by (simp add: frame_def)
  with written frame_is_read show ?thesis by blast
qed

definition example_message :: Message where
  "example_message = Message_new\<lparr>
     msg_header := FieldMap [FieldBase_new 8 ''FIX.4.4'', FieldBase_new 35 ''0'', FieldBase_new 49 ''BOT'',
       FieldBase_new 56 ''SPOT''] [] (message_order_new header_mode),
     msg_body := FieldMap [FieldBase_new 112 ''ping''] [] (message_order_new normal_mode)\<rparr>"

lemma example_message_ok: "message_ok example_message"
proof -
  have "fm_ok (msg_header example_message)"
  proof -
    have "fsorted (fm_less (msg_header example_message)) (fm_fields (msg_header example_message))" by code_simp
    moreover have "distinct (map f_tag (fm_fields (msg_header example_message)))" by code_simp
    ultimately show ?thesis by (simp add: fm_ok_def) (simp add: example_message_def)
  qed
  moreover have "fm_ok (msg_body example_message)"
    by (simp add: fm_ok_def example_message_def fsorted_def)
  moreover have "fm_ok (msg_trailer example_message)"
    by (simp add: example_message_def Message_new_def Message_orders_def)
  ultimately show ?thesis
    by (simp add: message_ok_def)
      (simp add: example_message_def Message_new_def Message_orders_def FieldMap_new_def message_order_new_def
        FieldBase_new_def field_measured_def no_metrics_def)
qed

theorem toString_is_frame_witness:
  "\<exists>s m'. toString example_message = Some (s, m') \<and> readFixMessage s = (Read_message s, [])"
proof -
  have "length (payload example_message) < 100" by code_simp
  then have "length (payload example_message) < 2 ^ 31" by simp
  moreover have "getField_text 8 (msg_header example_message) = Some ''FIX.4.4''" by code_simp
  ultimately show ?thesis
    using toString_is_frame [of example_message "''FIX.4.4''"] example_message_ok by auto
qed

section \<open>The reversed route\<close>

lemma getFieldIfSet_Ref: "getFieldIfSet t h = getFieldRef t h"
  by (cases "findTag h t") (simp_all add: getFieldIfSet_def getFieldRef_def)

lemma copy_route_eq: "copy_route from to header h = fm.copy_field to (getField_text from header) h"
  by (simp add: copy_route_def fm.copy_field_def getField_text_def getFieldIfSet_Ref setField_text_def split: option.split)

definition nonempty :: "string option \<Rightarrow> string option" where
  "nonempty v = (if v = Some [] then None else v)"

lemma nonempty_cases: "(if v \<noteq> None \<and> v \<noteq> Some [] then v else None) = nonempty v"
  by (auto simp: nonempty_def)

definition routes :: "(int \<times> int) list" where
  "routes = [(49, 56), (56, 49), (115, 128), (116, 129), (128, 115), (129, 116)]"

text \<open>Taking out the targets and copying the sources into them.\<close>

definition rerouted :: "(int \<times> int) list \<Rightarrow> FieldMap \<Rightarrow> FieldMap \<Rightarrow> FieldMap" where
  "rerouted cs header h = foldl (\<lambda>h (from, to). copy_route from to header h) h cs"

lemma rerouted:
  assumes "fm_ok h" and "distinct (map snd cs)"
  shows "fm_ok (rerouted cs header h)"
    and "getField_text t (rerouted cs header h) =
      (case map_of (map (\<lambda>(from, to). (to, from)) cs) t of
         Some from \<Rightarrow> (case nonempty (getField_text from header) of Some v \<Rightarrow> Some v | None \<Rightarrow> getField_text t h)
       | None \<Rightarrow> getField_text t h)"
proof -
  have "fm_ok (rerouted cs header h) \<and> getField_text t (rerouted cs header h) =
      (case map_of (map (\<lambda>(from, to). (to, from)) cs) t of
         Some from \<Rightarrow> (case nonempty (getField_text from header) of Some v \<Rightarrow> Some v | None \<Rightarrow> getField_text t h)
       | None \<Rightarrow> getField_text t h)"
    using assms
  proof (induction cs arbitrary: h)
    case (Cons c cs)
    obtain a b where c: "c = (a, b)" by (cases c)
    have new: "map_of (map (\<lambda>(from, to). (to, from)) cs) b = None"
      using Cons.prems(2) by (force simp: c map_of_eq_None_iff)
    have ok: "fm_ok (copy_route a b header h)" using Cons.prems(1) by (simp add: copy_route_eq fm.ok_copy)
    have get: "getField_text t (copy_route a b header h) =
        (if t = b then (case nonempty (getField_text a header) of Some v \<Rightarrow> Some v | None \<Rightarrow> getField_text t h)
         else getField_text t h)"
      using Cons.prems(1) by (auto simp: copy_route_eq fm.get_copy nonempty_def split: option.split)
    have "rerouted (c # cs) header h = rerouted cs header (copy_route a b header h)"
      by (simp add: rerouted_def c)
    then show ?case
      using Cons.IH [OF ok] Cons.prems(2) get new by (cases "t = b") (simp_all add: c split: option.split)
  qed (simp add: rerouted_def)
  then show "fm_ok (rerouted cs header h)"
    and "getField_text t (rerouted cs header h) =
      (case map_of (map (\<lambda>(from, to). (to, from)) cs) t of
         Some from \<Rightarrow> (case nonempty (getField_text from header) of Some v \<Rightarrow> Some v | None \<Rightarrow> getField_text t h)
       | None \<Rightarrow> getField_text t h)" by simp_all
qed

definition route_start :: "FieldMap \<Rightarrow> FieldMap \<Rightarrow> FieldMap" where
  "route_start header h =
     (let h = foldr removeField [56, 49, 8] h in
      case getFieldIfSet 8 header of
        None \<Rightarrow> h
      | Some beginString \<Rightarrow>
          let h = foldr removeField [145, 144] (rerouted [(8, 8)] header h)
          in if string_le ''FIX.4.1'' (f_string beginString) then rerouted [(144, 145), (145, 144)] header h else h)"

lemma reverseRoute_stages:
  "msg_header (reverseRoute header m) =
    rerouted [(115, 128), (116, 129), (128, 115), (129, 116)] header (foldr removeField [129, 128, 116, 115]
      (rerouted [(49, 56), (56, 49)] header (route_start header (msg_header m))))"
  by (simp add: reverseRoute_def rerouted_def route_start_def Let_def split: option.split)

lemma route_start:
  assumes "fm_ok h"
  shows "fm_ok (route_start header h)"
    and "getField_text 8 (route_start header h) = nonempty (getField_text 8 header)"
    and "getField_text 49 (route_start header h) = None" and "getField_text 56 (route_start header h) = None"
    and "t \<notin> {8, 49, 56, 144, 145} \<Longrightarrow> getField_text t (route_start header h) = getField_text t h"
proof -
  let ?h = "foldr removeField [56, 49, 8] h"
  have h: "fm_ok ?h" "getField_text t ?h = (if t \<in> {8, 49, 56} then None else getField_text t h)" for t
    using fm.ok_dels [OF assms, of "[56, 49, 8]"] fm.get_dels [OF assms, of t "[56, 49, 8]"] by auto
  have all: "fm_ok (route_start header h) \<and>
      getField_text t (route_start header h) =
        (if t = 8 then nonempty (getField_text 8 header) else if t = 49 \<or> t = 56 then None else getField_text t h)"
    if "t \<notin> {144, 145}" for t
  proof (cases "getFieldIfSet 8 header")
    case None
    then have "getField_text 8 header = None" by (simp add: getField_text_def getFieldIfSet_Ref)
    with None h show ?thesis unfolding route_start_def Let_def by (simp only: option.case) (simp add: nonempty_def)
  next
    case (Some f)
    let ?h1 = "rerouted [(8, 8)] header ?h"
    let ?h2 = "foldr removeField [145, 144] ?h1"
    have h1: "fm_ok ?h1" "getField_text t ?h1 =
        (if t = 8 then nonempty (getField_text 8 header) else if t = 49 \<or> t = 56 then None else getField_text t h)" for t
      using rerouted(1) [OF h(1), of "[(8, 8)]" header] rerouted(2) [OF h(1), of "[(8, 8)]" t header] h(2) by (auto split: option.split)
    have h2: "fm_ok ?h2" "getField_text t ?h2 = getField_text t ?h1"
      using fm.ok_dels [OF h1(1), of "[145, 144]"] fm.get_dels [OF h1(1), of t "[145, 144]"] that by auto
    show ?thesis
      using rerouted(1) [OF h2(1), of "[(144, 145), (145, 144)]" header] rerouted(2) [OF h2(1), of "[(144, 145), (145, 144)]" t header] h1(2) [of t] h2 that
      unfolding route_start_def Let_def Some option.case by (cases "string_le ''FIX.4.1'' (f_string f)") auto
  qed
  show "fm_ok (route_start header h)" using all [of 8] by simp
  show "getField_text 8 (route_start header h) = nonempty (getField_text 8 header)" using all [of 8] by simp
  show "getField_text 49 (route_start header h) = None" "getField_text 56 (route_start header h) = None"
    using all [of 49] all [of 56] by simp_all
  show "t \<notin> {8, 49, 56, 144, 145} \<Longrightarrow> getField_text t (route_start header h) = getField_text t h"
    using all [of t] by simp
qed

lemma route_fields:
  assumes "fm_ok (msg_header m)"
  shows "fm_ok (msg_header (reverseRoute header m)) \<and>
    (\<forall>(from, to)\<in>set ((8, 8) # routes).
      getField_text to (msg_header (reverseRoute header m)) = nonempty (getField_text from header)) \<and>
    (\<forall>t. t \<notin> {8, 49, 56, 115, 116, 128, 129, 144, 145} \<longrightarrow>
      getField_text t (msg_header (reverseRoute header m)) = getField_text t (msg_header m))"
proof -
  note start = route_start [OF assms]
  let ?h1 = "route_start header (msg_header m)"
  let ?h2 = "rerouted [(49, 56), (56, 49)] header ?h1"
  let ?h3 = "foldr removeField [129, 128, 116, 115] ?h2"
  have h2: "fm_ok ?h2" "getField_text t ?h2 = (if t = 56 then nonempty (getField_text 49 header)
      else if t = 49 then nonempty (getField_text 56 header) else getField_text t ?h1)" for t
    using rerouted(1) [OF start(1), of "[(49, 56), (56, 49)]" header] rerouted(2) [OF start(1), of "[(49, 56), (56, 49)]" t header] start(3,4) by (auto split: option.split)
  have h3: "fm_ok ?h3" "getField_text t ?h3 = (if t \<in> {115, 116, 128, 129} then None else getField_text t ?h2)" for t
    using fm.ok_dels [OF h2(1), of "[129, 128, 116, 115]"] fm.get_dels [OF h2(1), of t "[129, 128, 116, 115]"] by auto
  have h4: "fm_ok (msg_header (reverseRoute header m))" "getField_text t (msg_header (reverseRoute header m)) =
      (if t = 128 then nonempty (getField_text 115 header) else if t = 129 then nonempty (getField_text 116 header)
       else if t = 115 then nonempty (getField_text 128 header) else if t = 116 then nonempty (getField_text 129 header)
       else getField_text t ?h2)" for t
    using rerouted(1) [OF h3(1), of "[(115, 128), (116, 129), (128, 115), (129, 116)]" header] rerouted(2) [OF h3(1), of "[(115, 128), (116, 129), (128, 115), (129, 116)]" t header] h3(2) [of t]
    unfolding reverseRoute_stages by (auto split: option.split)
  show ?thesis
    using h4(1) start(2,5) unfolding h4(2) h2(2) by (simp add: routes_def)
qed

text \<open>The reversed route of a message goes back where it came from: sender and target, and the
  parties on whose behalf it was sent or to whom it is delivered, change places (an empty one is
  dropped), and no other field but the locations changes.\<close>

lemma reverseRoute_swaps:
  assumes "fm_ok (msg_header m)"
  shows "fm_ok (msg_header (reverseRoute header m)) \<and>
    (\<forall>(from, to)\<in>set ((8, 8) # routes).
      getField_text to (msg_header (reverseRoute header m)) = nonempty (getField_text from header)) \<and>
    (\<forall>t. t \<notin> {8, 49, 56, 115, 116, 128, 129, 144, 145} \<longrightarrow>
      getField_text t (msg_header (reverseRoute header m)) = getField_text t (msg_header m))"
  by (rule route_fields [OF assms])

end
