(* ===== verification/Message_Roundtrip.thy ===== *)
theory Message_Roundtrip
  imports Message_Laws
begin

text \<open>
  Reading back what was written: for messages without groups, read with or without dictionaries, the
  fields of header, body and trailer come back, in order, with the structure found valid and the length
  and checksum accepted.
\<close>

section \<open>One field\<close>

definition writable :: "FieldBase \<Rightarrow> bool" where
  "writable f \<longleftrightarrow> 0 < f_tag f \<and> f_tag f < 2 ^ 31 \<and> SOH \<notin> set (f_string f)"

abbreviation enc :: "FieldBase \<Rightarrow> string" where
  "enc \<equiv> FieldBase_getFixString"

definition as_read :: "FieldBase \<Rightarrow> FieldBase" where
  "as_read f = FieldBase_parsed (f_tag f) (f_string f) (enc f)"

lemma as_read_sel [simp]: "f_tag (as_read f) = f_tag f" "f_string (as_read f) = f_string f"
  "enc (as_read f) = enc f" "field_measured (as_read f)"
  by (simp_all add: as_read_def FieldBase_parsed_def FieldBase_getFixString_def field_measured_def)

lemma tag_text_digits:
  assumes "0 < t" and "t < 2 ^ 31"
  shows "tag_text t = nat_digits (nat t)"
  using assms sint_int32 [of t] by (simp add: tag_text_def integer_to_string_eq value_of_def)

lemma not_in_digits: "all_digits s \<Longrightarrow> CHR ''='' \<notin> set s"
  by (auto simp: all_digits_def)

lemma extractField_enc:
  assumes "writable f" and "\<not> IsDataField (f_tag f) S A"
  shows "extractField (pre @ enc f @ post) (length pre) S A g m =
    Inr (as_read f, length pre + length (enc f))"
proof -
  have tag: "0 < f_tag f" "f_tag f < 2 ^ 31" and val: "SOH \<notin> set (f_string f)"
    using assms(1) by (simp_all add: writable_def)
  let ?t = "tag_text (f_tag f)"
  let ?rest = "?t @ CHR ''='' # f_string f @ SOH # post"
  have rest: "drop (length pre) (pre @ enc f @ post) = ?rest"
    by (simp add: FieldBase_getFixString_def)
  have eq: "find_sub ''='' ?rest = Some (length ?t)"
    by (rule find_sub_skip) (simp_all add: tag_text_digits [OF tag] not_in_digits)
  have parse: "IntT_parse True ?t = Some (word_of_int (f_tag f) :: 32 word)"
    unfolding tag_text_def by (rule parse_written) simp
  have soh: "find_sub [SOH] (f_string f @ SOH # post) = Some (length (f_string f))"
    by (rule find_sub_skip [OF val]) simp
  have sint: "sint (word_of_int (f_tag f) :: 32 word) = f_tag f"
    using tag by (intro sint_int32) simp_all
  have take: "take (length ?t) ?rest = ?t" "drop (length ?t + 1) ?rest = f_string f @ SOH # post"
      "take (length (f_string f)) (f_string f @ SOH # post) = f_string f"
      "take (length ?t + 1 + length (f_string f) + 1) ?rest = enc f"
    by (simp_all add: FieldBase_getFixString_def)
  have len: "length (enc f) = length ?t + 1 + length (f_string f) + 1"
    by (simp add: FieldBase_getFixString_def)
  show ?thesis
    unfolding extractField_def rest Let_def eq option.case parse sint take soh if_not_P [OF assms(2)]
    by (simp add: as_read_def len and_then_def take) (simp add: FieldBase_getFixString_def)
qed

section \<open>The three parts\<close>

definition append_header :: "FieldBase list \<Rightarrow> Message \<Rightarrow> Message" where
  "append_header fs m = m\<lparr>msg_header := with_fields (fm_fields (msg_header m) @ map as_read fs) (msg_header m)\<rparr>"

definition append_body :: "FieldBase list \<Rightarrow> Message \<Rightarrow> Message" where
  "append_body fs m = m\<lparr>msg_body := with_fields (fm_fields (msg_body m) @ map as_read fs) (msg_body m)\<rparr>"

definition append_trailer :: "FieldBase list \<Rightarrow> Message \<Rightarrow> Message" where
  "append_trailer fs m = m\<lparr>msg_trailer := with_fields (fm_fields (msg_trailer m) @ map as_read fs) (msg_trailer m)\<rparr>"

lemmas append_defs = append_header_def append_body_def append_trailer_def appendField_def with_fields_def

lemma append_Nil [simp]: "append_header [] m = m" "append_body [] m = m" "append_trailer [] m = m"
  by (simp_all add: append_header_def append_body_def append_trailer_def with_fields_id)

lemma append_Cons:
  "append_header (f # fs) m = append_header fs (m\<lparr>msg_header := appendField (as_read f) (msg_header m)\<rparr>)"
  "append_body (f # fs) m = append_body fs (m\<lparr>msg_body := appendField (as_read f) (msg_body m)\<rparr>)"
  "append_trailer (f # fs) m = append_trailer fs (m\<lparr>msg_trailer := appendField (as_read f) (msg_trailer m)\<rparr>)"
  by (simp_all add: append_defs)

lemma enc_not_Nil [simp]: "enc f \<noteq> []"
  by (simp add: FieldBase_getFixString_def)

abbreviation loop_at where
  "loop_at v S A s fuel pos n msg part m \<equiv> setString_loop v S s fuel A pos n msg part m"

text \<open>
  What a dictionary may do to a field: take it for data, whose length is in the field before, or for the
  count of a group. Neither happens to these. The type of the message decides on the dictionary of its body.
\<close>

definition no_group :: "DataDictionary option \<Rightarrow> string \<Rightarrow> int \<Rightarrow> bool" where
  "no_group D msg tag \<longleftrightarrow> (case D of None \<Rightarrow> True | Some d \<Rightarrow> getGroup msg tag d = None)"

lemma read_no_group: "no_group D msg (f_tag f) \<Longrightarrow> read_groups part put msg D f s pos m = Inr (case D of None \<Rightarrow> m | Some d \<Rightarrow> put (part m) m, pos)"
  by (auto simp: no_group_def read_groups_def setGroup.simps split: option.splits)

definition typed :: "DataDictionary option \<Rightarrow> string \<times> DataDictionary option \<Rightarrow> FieldBase \<Rightarrow> string \<times> DataDictionary option" where
  "typed S st f = (if f_tag f = 35 then (f_string f, if isAdminMsgType (f_string f) then S else snd st) else st)"

lemma step_header:
  assumes "writable f" and "Message_isHeaderField (f_tag f)" and "n < 3 \<Longrightarrow> headerOrder ! n = f_tag f"
    and "\<not> IsDataField (f_tag f) S A" and "no_group S ''_header_'' (f_tag f)"
  shows "loop_at v S A (pre @ enc f @ post) (Suc fuel) (length pre) n msg header_part m =
    loop_at v S (snd (typed S (msg, A) f)) (pre @ enc f @ post) fuel (length (pre @ enc f)) (if n < 3 then n + 1 else n)
      (fst (typed S (msg, A) f)) header_part (m\<lparr>msg_header := appendField (as_read f) (msg_header m)\<rparr>)"
  using assms(2,3) extractField_enc [OF assms(1,4), of pre post None m] read_no_group [of S "''_header_''" "as_read f" msg_header] assms(5)
  by (cases "f_tag f = 35"; cases S) (auto simp: Message_isHeaderField_in_def structure_broken_def typed_def Let_def)

lemma step_body:
  assumes "writable f" and "\<not> Message_isHeaderField_in (f_tag f) S" and "\<not> Message_isTrailerField_in (f_tag f) S"
    and "part \<noteq> trailer_part" and "3 \<le> n" and "\<not> IsDataField (f_tag f) S A" and "no_group A msg (f_tag f)"
  shows "loop_at v S A (pre @ enc f @ post) (Suc fuel) (length pre) n msg part m =
    loop_at v S A (pre @ enc f @ post) fuel (length (pre @ enc f)) n msg
      body_part (m\<lparr>msg_body := appendField (as_read f) (msg_body m)\<rparr>)"
  using assms(2-5) extractField_enc [OF assms(1,6), of pre post None m] read_no_group [of A msg "as_read f" msg_body] assms(7)
  by (cases A) (simp_all add: structure_broken_def Let_def)

lemma step_trailer:
  assumes "writable f" and "\<not> Message_isHeaderField_in (f_tag f) S" and "Message_isTrailerField (f_tag f)" and "3 \<le> n"
    and "\<not> IsDataField (f_tag f) S A" and "no_group S ''_trailer_'' (f_tag f)"
  shows "loop_at v S A (pre @ enc f @ post) (Suc fuel) (length pre) n msg part m =
    loop_at v S A (pre @ enc f @ post) fuel (length (pre @ enc f)) n msg
      trailer_part (m\<lparr>msg_trailer := appendField (as_read f) (msg_trailer m)\<rparr>)"
  using assms(2-4) extractField_enc [OF assms(1,5), of pre post None m] read_no_group [of S "''_trailer_''" "as_read f" msg_trailer] assms(6)
  by (cases S) (simp_all add: Message_isTrailerField_in_def Let_def)

lemma run_header:
  assumes "\<forall>f\<in>set fs. writable f \<and> Message_isHeaderField (f_tag f) \<and> \<not> IsDataField (f_tag f) S A \<and> no_group S ''_header_'' (f_tag f)"
    and "\<forall>i<length fs. n + i < 3 \<longrightarrow> headerOrder ! (n + i) = f_tag (fs ! i)"
  shows "\<exists>n'. (3 \<le> n + length fs \<longrightarrow> 3 \<le> n') \<and>
    loop_at v S A (pre @ concat (map enc fs) @ post) (length fs + fuel) (length pre) n msg header_part m =
    loop_at v S (snd (foldl (typed S) (msg, A) fs)) (pre @ concat (map enc fs) @ post) fuel (length (pre @ concat (map enc fs))) n'
      (fst (foldl (typed S) (msg, A) fs)) header_part (append_header fs m)"
  using assms
proof (induction fs arbitrary: pre n msg m A)
  case Nil
  then show ?case by (intro exI [of _ n]) simp
next
  case (Cons f fs)
  let ?m = "m\<lparr>msg_header := appendField (as_read f) (msg_header m)\<rparr>" and ?n = "if n < 3 then n + 1 else n"
  let ?msg = "fst (typed S (msg, A) f)" and ?A = "snd (typed S (msg, A) f)"
  have f: "writable f" "Message_isHeaderField (f_tag f)" "n < 3 \<Longrightarrow> headerOrder ! n = f_tag f"
      "\<not> IsDataField (f_tag f) S A" "no_group S ''_header_'' (f_tag f)"
    using Cons.prems by (auto dest: spec [of _ 0])
  have one: "loop_at v S A (pre @ concat (map enc (f # fs)) @ post) (length (f # fs) + fuel) (length pre) n msg header_part m =
      loop_at v S ?A (pre @ concat (map enc (f # fs)) @ post) (length fs + fuel) (length (pre @ enc f)) ?n ?msg header_part ?m"
    using step_header [OF f, of v pre "concat (map enc fs) @ post" "length fs + fuel" msg m] by simp
  have "\<forall>i<length fs. ?n + i < 3 \<longrightarrow> headerOrder ! (?n + i) = f_tag (fs ! i)"
    using Cons.prems(2) by (auto dest: spec [of _ "Suc _"])
  moreover have "?A = A \<or> ?A = S" by (simp add: typed_def)
  then have "\<not> IsDataField t S A \<longrightarrow> \<not> IsDataField t S ?A" for t by (auto simp: IsDataField_def)
  then have "\<forall>f\<in>set fs. writable f \<and> Message_isHeaderField (f_tag f) \<and> \<not> IsDataField (f_tag f) S ?A \<and> no_group S ''_header_'' (f_tag f)"
    using Cons.prems(1) by simp
  ultimately obtain n' where "3 \<le> ?n + length fs \<longrightarrow> 3 \<le> n'"
    "loop_at v S ?A ((pre @ enc f) @ concat (map enc fs) @ post) (length fs + fuel) (length (pre @ enc f)) ?n ?msg header_part ?m =
     loop_at v S (snd (foldl (typed S) (?msg, ?A) fs)) ((pre @ enc f) @ concat (map enc fs) @ post) fuel
       (length ((pre @ enc f) @ concat (map enc fs))) n' (fst (foldl (typed S) (?msg, ?A) fs)) header_part (append_header fs ?m)"
    using Cons.IH [of ?A ?n "pre @ enc f" ?msg ?m] by blast
  with one show ?case
    by (intro exI [of _ n']) (auto simp: append_Cons)
qed

lemma run_body:
  assumes "\<forall>f\<in>set fs. writable f \<and> \<not> Message_isHeaderField_in (f_tag f) S \<and> \<not> Message_isTrailerField_in (f_tag f) S \<and>
      \<not> IsDataField (f_tag f) S A \<and> no_group A msg (f_tag f)"
    and "part \<noteq> trailer_part" and "3 \<le> n"
  shows "\<exists>part'. part' \<noteq> trailer_part \<and>
    loop_at v S A (pre @ concat (map enc fs) @ post) (length fs + fuel) (length pre) n msg part m =
    loop_at v S A (pre @ concat (map enc fs) @ post) fuel (length (pre @ concat (map enc fs))) n msg
      part' (append_body fs m)"
  using assms
proof (induction fs arbitrary: pre part m)
  case Nil
  then show ?case by auto
next
  case (Cons f fs)
  then show ?case
    using step_body [of f S part n A msg v pre "concat (map enc fs) @ post" "length fs + fuel"]
      Cons.IH [of body_part "pre @ enc f" "m\<lparr>msg_body := appendField (as_read f) (msg_body m)\<rparr>"]
    by (auto simp: append_Cons)
qed

lemma run_trailer:
  assumes "\<forall>f\<in>set fs. writable f \<and> \<not> Message_isHeaderField_in (f_tag f) S \<and> Message_isTrailerField (f_tag f) \<and>
      \<not> IsDataField (f_tag f) S A \<and> no_group S ''_trailer_'' (f_tag f)"
    and "3 \<le> n"
  shows "\<exists>part'.
    loop_at v S A (pre @ concat (map enc fs) @ post) (length fs + fuel) (length pre) n msg part m =
    loop_at v S A (pre @ concat (map enc fs) @ post) fuel (length (pre @ concat (map enc fs))) n msg
      part' (append_trailer fs m)"
  using assms
proof (induction fs arbitrary: pre part m)
  case Nil
  then show ?case by auto
next
  case (Cons f fs)
  then show ?case
    using step_trailer [of f S n A v pre "concat (map enc fs) @ post" "length fs + fuel" msg part m]
      Cons.IH [of "pre @ enc f" trailer_part "m\<lparr>msg_trailer := appendField (as_read f) (msg_trailer m)\<rparr>"]
    by (auto simp: append_Cons)
qed

definition parts_ok :: "FieldBase list \<Rightarrow> FieldBase list \<Rightarrow> FieldBase list \<Rightarrow> bool" where
  "parts_ok hs bs ts \<longleftrightarrow>
     (\<forall>f\<in>set hs. writable f \<and> Message_isHeaderField (f_tag f)) \<and>
     (\<forall>f\<in>set bs. writable f \<and> \<not> Message_isHeaderField (f_tag f) \<and> \<not> Message_isTrailerField (f_tag f)) \<and>
     (\<forall>f\<in>set ts. writable f \<and> \<not> Message_isHeaderField (f_tag f) \<and> Message_isTrailerField (f_tag f)) \<and>
     3 \<le> length hs \<and> map f_tag (take 3 hs) = headerOrder"

text \<open>The fields as the dictionaries see them, for a message of type \<open>type\<close>.\<close>

definition body_dictionary :: "DataDictionary option \<Rightarrow> DataDictionary option \<Rightarrow> string \<Rightarrow> DataDictionary option" where
  "body_dictionary S A msgType = (if isAdminMsgType msgType then S else A)"

definition fields_seen ::
  "DataDictionary option \<Rightarrow> DataDictionary option \<Rightarrow> string \<Rightarrow> FieldBase list \<Rightarrow> FieldBase list \<Rightarrow> FieldBase list \<Rightarrow> bool" where
  "fields_seen S A msgType hs bs ts \<longleftrightarrow>
     (\<forall>f\<in>set hs. \<not> IsDataField (f_tag f) S A \<and> no_group S ''_header_'' (f_tag f)) \<and>
     (\<forall>f\<in>set bs. \<not> Message_isHeaderField_in (f_tag f) S \<and> \<not> Message_isTrailerField_in (f_tag f) S \<and>
        \<not> IsDataField (f_tag f) S (body_dictionary S A msgType) \<and> no_group (body_dictionary S A msgType) msgType (f_tag f)) \<and>
     (\<forall>f\<in>set ts. \<not> Message_isHeaderField_in (f_tag f) S \<and>
        \<not> IsDataField (f_tag f) S (body_dictionary S A msgType) \<and> no_group S ''_trailer_'' (f_tag f))"

lemma typed_rest: "35 \<notin> f_tag ` set fs \<Longrightarrow> foldl (typed S) st fs = st"
  by (induction fs arbitrary: st) (auto simp: typed_def)

lemma typed_header:
  assumes "map f_tag (take 3 hs) = headerOrder" and "distinct (map f_tag hs)"
  shows "foldl (typed S) (msg, A) hs = (f_string (hs ! 2), body_dictionary S A (f_string (hs ! 2)))"
proof -
  obtain a b c rest where hs: "hs = a # b # c # rest" "f_tag a = 8" "f_tag b = 9" "f_tag c = 35"
    using assms(1) by (cases hs; cases "tl hs"; cases "tl (tl hs)") (auto simp: headerOrder_def numeral_3_eq_3)
  moreover have "35 \<notin> f_tag ` set rest" using assms(2) hs by auto
  ultimately show ?thesis by (simp add: typed_rest) (simp add: typed_def body_dictionary_def)
qed

lemma fields_le_text: "length fs \<le> length (concat (map enc fs))"
proof (induction fs)
  case (Cons f fs)
  moreover have "0 < length (enc f)" by simp
  ultimately show ?case by (simp del: enc_not_Nil length_greater_0_conv)
qed simp

lemma read_parts:
  assumes "parts_ok hs bs ts" and "fields_seen S A (f_string (hs ! 2)) hs bs ts" and "distinct (map f_tag hs)"
  shows "setString_loop v S (concat (map enc (hs @ bs @ ts))) (length (concat (map enc (hs @ bs @ ts))) + 1) A
      0 0 [] header_part m = Inr (append_trailer ts (append_body bs (append_header hs m)))"
proof -
  let ?s = "concat (map enc (hs @ bs @ ts))"
  let ?h = "concat (map enc hs)" and ?b = "concat (map enc bs)" and ?t = "concat (map enc ts)"
  let ?type = "f_string (hs ! 2)" and ?B = "body_dictionary S A (f_string (hs ! 2))"
  obtain k where k: "length ?s = length hs + (length bs + (length ts + k))"
    using fields_le_text [of "hs @ bs @ ts"] by (auto simp: le_iff_add add.assoc)
  have hs: "\<forall>f\<in>set hs. writable f \<and> Message_isHeaderField (f_tag f) \<and> \<not> IsDataField (f_tag f) S A \<and> no_group S ''_header_'' (f_tag f)"
    and bs: "\<forall>f\<in>set bs. writable f \<and> \<not> Message_isHeaderField_in (f_tag f) S \<and> \<not> Message_isTrailerField_in (f_tag f) S \<and>
      \<not> IsDataField (f_tag f) S ?B \<and> no_group ?B ?type (f_tag f)"
    and ts: "\<forall>f\<in>set ts. writable f \<and> \<not> Message_isHeaderField_in (f_tag f) S \<and> Message_isTrailerField (f_tag f) \<and>
      \<not> IsDataField (f_tag f) S ?B \<and> no_group S ''_trailer_'' (f_tag f)"
    using assms(1,2) by (simp_all add: parts_ok_def fields_seen_def)
  have three: "\<forall>i<length hs. 0 + i < 3 \<longrightarrow> headerOrder ! (0 + i) = f_tag (hs ! i)"
  proof (intro allI impI)
    fix i assume i: "i < length hs" "0 + i < 3"
    have "headerOrder ! i = map f_tag (take 3 hs) ! i" using assms(1) by (simp add: parts_ok_def)
    then show "headerOrder ! (0 + i) = f_tag (hs ! i)" using i by simp
  qed
  have typed: "foldl (typed S) ([], A) hs = (?type, ?B)"
    using assms(1,3) by (intro typed_header) (simp_all add: parts_ok_def)
  from run_header [OF hs three, of v "[]" "?b @ ?t" "length bs + (length ts + Suc k)" "[]" m] obtain n where
    n: "3 \<le> n" and 1: "loop_at v S A (?h @ ?b @ ?t) (length hs + (length bs + (length ts + Suc k))) 0 0 [] header_part m =
      loop_at v S ?B (?h @ ?b @ ?t) (length bs + (length ts + Suc k)) (length ?h) n ?type header_part (append_header hs m)"
    unfolding typed using assms(1) by (auto simp: parts_ok_def)
  from run_body [OF bs _ n, of header_part v ?h ?t "length ts + Suc k" "append_header hs m"] obtain part where
    2: "loop_at v S ?B (?h @ ?b @ ?t) (length bs + (length ts + Suc k)) (length ?h) n ?type header_part (append_header hs m) =
      loop_at v S ?B (?h @ ?b @ ?t) (length ts + Suc k) (length (?h @ ?b)) n ?type part (append_body bs (append_header hs m))"
    by auto
  from run_trailer [OF ts n, of v "?h @ ?b" "[]" "Suc k" ?type part "append_body bs (append_header hs m)"] obtain part' where
    3: "loop_at v S ?B (?h @ ?b @ ?t) (length ts + Suc k) (length (?h @ ?b)) n ?type part (append_body bs (append_header hs m)) =
      loop_at v S ?B (?h @ ?b @ ?t) (Suc k) (length (?h @ ?b @ ?t)) n ?type part'
        (append_trailer ts (append_body bs (append_header hs m)))"
    by auto
  have "?s = ?h @ ?b @ ?t" by simp
  then show ?thesis
    unfolding k using 1 2 3 by simp
qed

text \<open>Sorting what was read in sorted order changes nothing.\<close>

lemma sorted_as_read:
  assumes "fm_ok m"
  shows "std_sort (fm_less m) (map as_read (fm_fields m)) = map as_read (fm_fields m)"
proof -
  have order: "tag_order (fm_less m)" using assms by (simp add: fm_ok_def message_order_ok)
  have tags: "map f_tag (map as_read (fm_fields m)) = map f_tag (fm_fields m)" by simp
  have "fsorted (fm_less m) (map as_read (fm_fields m))"
    using assms unfolding fm_ok_tags fsorted_tags tags by simp
  moreover have "distinct (map f_tag (map as_read (fm_fields m)))"
    using assms unfolding tags by (simp add: fm_ok_def)
  ultimately show ?thesis
    using tag_order.fsorted_unique [OF order tag_order.fsorted_std_sort [OF order], of "map as_read (fm_fields m)"
        "map as_read (fm_fields m)"] by (metis mset_eq_imp_distinct_iff mset_map mset_std_sort)
qed

section \<open>Groupless messages\<close>

definition plain_message :: "Message \<Rightarrow> bool" where
  "plain_message m \<longleftrightarrow> message_ok m \<and>
     fm_groups (msg_header m) = [] \<and> fm_groups (msg_body m) = [] \<and> fm_groups (msg_trailer m) = [] \<and>
     35 \<in> f_tag ` set (fm_fields (msg_header m)) \<and>
     (\<forall>f\<in>set (fm_fields (msg_header m)). writable f \<and> Message_isHeaderField (f_tag f)) \<and>
     (\<forall>f\<in>set (fm_fields (msg_body m)). writable f \<and> \<not> Message_isHeaderField (f_tag f) \<and> \<not> Message_isTrailerField (f_tag f)) \<and>
     (\<forall>f\<in>set (fm_fields (msg_trailer m)). writable f \<and> Message_isTrailerField (f_tag f))"

lemma groupless_text: "fm_groups m = [] \<Longrightarrow> calculateString m = concat (map enc (fm_fields m))"
  by (cases m) simp

lemma groupless_measures:
  assumes "fm_groups m = []" and "\<forall>f\<in>set (fm_fields m). field_measured f"
  shows "calculateLength b l c m = int (length (concat (map enc (filter (\<lambda>f. f_tag f \<noteq> b \<and> f_tag f \<noteq> l \<and> f_tag f \<noteq> c) (fm_fields m)))))"
    and "calculateTotal c m = byte_sum (concat (map enc (filter (\<lambda>f. f_tag f \<noteq> c) (fm_fields m))))"
proof -
  obtain fs ord where m: "m = FieldMap fs [] ord" using assms(1) by (cases m) simp
  have A: "sum_list (map FieldBase_getLength (filter P fs)) = int (length (concat (map enc (filter P fs))))" for P
    using assms(2) unfolding length_concat_int map_map comp_def
    by (intro arg_cong [where f = sum_list] map_cong refl) (auto simp: m field_measure)
  have B: "sum_list (map FieldBase_getTotal (filter P fs)) = byte_sum (concat (map enc (filter P fs)))" for P
    using assms(2) unfolding byte_sum_concat map_map comp_def
    by (intro arg_cong [where f = sum_list] map_cong refl) (auto simp: m field_measure)
  show "calculateLength b l c m = int (length (concat (map enc (filter (\<lambda>f. f_tag f \<noteq> b \<and> f_tag f \<noteq> l \<and> f_tag f \<noteq> c) (fm_fields m)))))"
    unfolding m calculateLength.simps A by simp
  show "calculateTotal c m = byte_sum (concat (map enc (filter (\<lambda>f. f_tag f \<noteq> c) (fm_fields m))))"
    unfolding m calculateTotal.simps B by simp
qed

lemma field_of_setField:
  assumes ok: "fm_ok m" and f: "f \<in> set (fm_fields (setField g m))"
  shows "f_tag f = f_tag g \<and> f_string f = f_string g \<or>
    (\<exists>f'\<in>set (fm_fields m). f_tag f' = f_tag f \<and> f_string f' = f_string f)"
proof -
  have val: "getField_text (f_tag h) k = Some (f_string h)" if "fm_ok k" "h \<in> set (fm_fields k)" for h k
  proof -
    have "(f_tag h, f_string h) \<in> set (tag_values (fm_fields k))" using that(2) by (auto simp: tag_values_def)
    moreover have "distinct (map fst (tag_values (fm_fields k)))"
      using that(1) by (simp add: fm_ok_def tag_values_def comp_def)
    ultimately show ?thesis using that(1) by (simp add: getField_text_ok)
  qed
  have "getField_text (f_tag f) (setField g m) = Some (f_string f)"
    using f by (rule val [OF fm_ok_setField [OF ok]])
  then have "(if f_tag f = f_tag g then Some (f_string g) else getField_text (f_tag f) m) = Some (f_string f)"
    by (simp only: get_setField [OF ok])
  moreover have "getField_text (f_tag f) m = Some (f_string f) \<Longrightarrow>
      \<exists>f'\<in>set (fm_fields m). f_tag f' = f_tag f \<and> f_string f' = f_string f"
  proof -
    assume "getField_text (f_tag f) m = Some (f_string f)"
    then have "(f_tag f, f_string f) \<in> set (tag_values (fm_fields m))"
      unfolding getField_text_ok [OF ok] by (rule map_of_SomeD)
    then show "\<exists>f'\<in>set (fm_fields m). f_tag f' = f_tag f \<and> f_string f' = f_string f"
      unfolding tag_values_def by (metis (no_types, lifting) Pair_inject image_iff list.set_map)
  qed
  ultimately show ?thesis by (auto split: if_splits)
qed

lemma setField_all:
  assumes "fm_ok m" and "\<forall>f\<in>set (fm_fields m). Q (f_tag f) (f_string f)" and "Q (f_tag g) (f_string g)"
  shows "\<forall>f\<in>set (fm_fields (setField g m)). Q (f_tag f) (f_string f)"
proof
  fix f assume "f \<in> set (fm_fields (setField g m))"
  from field_of_setField [OF assms(1) this] show "Q (f_tag f) (f_string f)"
    using assms(2,3) by (elim disjE conjE bexE; simp) metis
qed

lemma trailer_not_header: "Message_isTrailerField t \<Longrightarrow> \<not> Message_isHeaderField t"
  by (auto simp: Message_isTrailerField_def Message_isHeaderField_def)

lemma framing_kinds [simp]: "Message_isHeaderField 9" "Message_isTrailerField 10"
  by (simp_all add: Message_isTrailerField_def Message_isHeaderField_def)

lemma header_shape3:
  assumes ok: "fm_ok h" and order: "mo_mode (fm_order h) = header_mode"
    and tags: "8 \<in> f_tag ` set (fm_fields h)" "9 \<in> f_tag ` set (fm_fields h)" "35 \<in> f_tag ` set (fm_fields h)"
  shows "3 \<le> length (fm_fields h) \<and> map f_tag (take 3 (fm_fields h)) = headerOrder"
proof -
  have less: "fm_less h = header_compare" using order by (simp add: fun_eq_iff message_order_less_def)
  obtain f8 f9 rest where shape: "fm_fields h = f8 # f9 # rest" "f_tag f8 = 8" "f_tag f9 = 9"
    using header_shape [OF ok order tags(1,2)] by blast
  with tags(3) obtain i where i: "i < length rest" "f_tag (rest ! i) = 35"
    using field_at [of 35 rest] by auto
  have "i = 0"
  proof (rule ccontr)
    assume "i \<noteq> 0"
    moreover have "rest \<noteq> []" using i by auto
    ultimately have "\<not> header_compare 35 (f_tag (rest ! 0))" "f_tag (rest ! 0) \<noteq> 35" "f_tag (rest ! 0) \<noteq> 8" "f_tag (rest ! 0) \<noteq> 9"
      using fm_ok_nth_sorted [OF ok, of 2 "i + 2"] fm_ok_nth_sorted [OF ok, of 0 2] fm_ok_nth_sorted [OF ok, of 1 2]
        i less shape by auto
    then show False by (auto simp: header_compare_def header_getOrderedPosition_def Let_def split: if_splits)
  qed
  with i shape show ?thesis
    by (cases rest) (simp_all add: headerOrder_def numeral_3_eq_3)
qed

text \<open>The message after it was written.\<close>

lemma written_parts:
  assumes plain: "plain_message m" and bs: "getField_text 8 (msg_header m) = Some bs"
    and small: "length (payload m) < 2 ^ 31" and written: "toString m = Some (s, m')"
  shows "fm_ok (msg_header m')" and "fm_ok (msg_body m')" and "fm_ok (msg_trailer m')"
    and "fm_order (msg_header m') = fm_order (msg_header m)" and "fm_order (msg_trailer m') = fm_order (msg_trailer m)"
    and "parts_ok (fm_fields (msg_header m')) (fm_fields (msg_body m')) (fm_fields (msg_trailer m'))"
    and "s = concat (map enc (fm_fields (msg_header m') @ fm_fields (msg_body m') @ fm_fields (msg_trailer m')))"
    and "getField_text 9 (msg_header m') = Some (nat_digits (length (payload m)))"
    and "getField_text 10 (msg_trailer m') =
      Some (checksum_text (byte_sum (''8='' @ bs @ SOH # ''9='' @ nat_digits (length (payload m)) @ SOH # payload m)))"
proof -
  have ok: "message_ok m" using plain by (simp add: plain_message_def)
  let ?len = "nat_digits (length (payload m))"
  let ?cs = "checksum_text (byte_sum (''8='' @ bs @ SOH # ''9='' @ ?len @ SOH # payload m))"
  let ?f9 = "FieldBase_new 9 ?len" and ?f10 = "FieldBase_new 10 ?cs"
  have len: "IntT_convert True (word_of_int (int (length (payload m))) :: 32 word) = ?len"
    by (rule length_text [OF small])
  have m': "m' = m\<lparr>msg_header := setField ?f9 (msg_header m), msg_trailer := setField ?f10 (msg_trailer m)\<rparr>"
    and s: "s = ''8='' @ bs @ SOH # ''9='' @ ?len @ SOH # payload m @ ''10='' @ ?cs @ [SOH]"
    using toString_eq [OF ok bs len [symmetric] refl] written by auto
  have okm: "fm_ok (msg_header m)" "fm_ok (msg_body m)" "fm_ok (msg_trailer m)"
      "mo_mode (fm_order (msg_header m)) = header_mode" "mo_mode (fm_order (msg_trailer m)) = trailer_mode"
      "8 \<in> f_tag ` set (fm_fields (msg_header m))" "10 \<notin> f_tag ` set (fm_fields (msg_header m))"
    using ok by (simp_all add: message_ok_def)
  have groupless: "fm_groups (msg_header m) = []" "fm_groups (msg_body m) = []" "fm_groups (msg_trailer m) = []"
    using plain by (simp_all add: plain_message_def)
  show h': "fm_ok (msg_header m')" "fm_ok (msg_body m')" "fm_ok (msg_trailer m')"
    using okm by (simp_all add: m' fm_ok_setField)
  show "fm_order (msg_header m') = fm_order (msg_header m)" "fm_order (msg_trailer m') = fm_order (msg_trailer m)"
    by (simp_all add: m')
  show "getField_text 9 (msg_header m') = Some ?len" "getField_text 10 (msg_trailer m') = Some ?cs"
    using okm by (simp_all add: m' get_setField FieldBase_new_def)
  have "s = calculateString (msg_header m') @ calculateString (msg_body m') @ calculateString (msg_trailer m')"
    using okm groupless bs unfolding s m'
    by (simp add: header_text trailer_text payload_def)
  then show "s = concat (map enc (fm_fields (msg_header m') @ fm_fields (msg_body m') @ fm_fields (msg_trailer m')))"
    using groupless by (simp add: groupless_text m')
  have w9: "writable ?f9" and w10: "writable ?f10"
    by (simp_all add: writable_def FieldBase_new_def soh_not_digit checksum_text_def)
  have t9: "f_tag ?f9 = 9" and t10: "f_tag ?f10 = 10" by (simp_all add: FieldBase_new_def)
  have hdr: "\<forall>f\<in>set (fm_fields (msg_header m)). writable f \<and> Message_isHeaderField (f_tag f)"
    and trl: "\<forall>f\<in>set (fm_fields (msg_trailer m)). writable f \<and> Message_isTrailerField (f_tag f)"
    using plain by (simp_all add: plain_message_def)
  have "\<forall>f\<in>set (fm_fields (setField ?f9 (msg_header m))). (0 < f_tag f \<and> f_tag f < 2 ^ 31 \<and> SOH \<notin> set (f_string f)) \<and>
      Message_isHeaderField (f_tag f)"
    by (rule setField_all [OF okm(1), where Q = "\<lambda>t v. (0 < t \<and> t < 2 ^ 31 \<and> SOH \<notin> set v) \<and> Message_isHeaderField t"])
      (use hdr w9 t9 in \<open>simp_all only: writable_def framing_kinds simp_thms\<close>)
  then have "\<forall>f\<in>set (fm_fields (msg_header m')). writable f \<and> Message_isHeaderField (f_tag f)"
    by (simp add: m' writable_def)
  moreover have "\<forall>f\<in>set (fm_fields (setField ?f10 (msg_trailer m))). (0 < f_tag f \<and> f_tag f < 2 ^ 31 \<and> SOH \<notin> set (f_string f)) \<and>
      Message_isTrailerField (f_tag f)"
    by (rule setField_all [OF okm(3), where Q = "\<lambda>t v. (0 < t \<and> t < 2 ^ 31 \<and> SOH \<notin> set v) \<and> Message_isTrailerField t"])
      (use trl w10 t10 in \<open>simp_all only: writable_def framing_kinds simp_thms\<close>)
  then have "\<forall>f\<in>set (fm_fields (msg_trailer m')). writable f \<and> \<not> Message_isHeaderField (f_tag f) \<and>
      Message_isTrailerField (f_tag f)"
    by (simp add: m' writable_def trailer_not_header)
  moreover have "3 \<le> length (fm_fields (msg_header m')) \<and> map f_tag (take 3 (fm_fields (msg_header m'))) = headerOrder"
  proof (rule header_shape3 [OF h'(1)])
    show "mo_mode (fm_order (msg_header m')) = header_mode" using okm(4) by (simp add: m')
    show "8 \<in> f_tag ` set (fm_fields (msg_header m'))" "9 \<in> f_tag ` set (fm_fields (msg_header m'))"
      "35 \<in> f_tag ` set (fm_fields (msg_header m'))"
      using setField_tags [OF okm(1), of ?f9] okm(6) plain
      by (simp_all add: m' plain_message_def FieldBase_new_def)
  qed
  moreover have "msg_body m' = msg_body m" by (simp add: m')
  ultimately show "parts_ok (fm_fields (msg_header m')) (fm_fields (msg_body m')) (fm_fields (msg_trailer m'))"
    using plain by (simp add: parts_ok_def plain_message_def)
qed

text \<open>A map as it is read back.\<close>

definition read_map :: "FieldMap \<Rightarrow> FieldMap" where
  "read_map m = FieldMap (map as_read (fm_fields m)) [] (fm_order m)"

lemma read_map_sel [simp]: "fm_fields (read_map m) = map as_read (fm_fields m)" "fm_groups (read_map m) = []"
  "fm_order (read_map m) = fm_order m"
  by (simp_all add: read_map_def)

lemma read_map_values [simp]: "tag_values (map as_read fs) = tag_values fs"
  by (simp add: tag_values_def)

lemma fm_ok_read_map: "fm_ok m \<Longrightarrow> fm_ok (read_map m)"
  by (simp add: fm_ok_tags comp_def)

lemma get_read_map: "fm_ok m \<Longrightarrow> getField_text t (read_map m) = getField_text t m"
  by (simp add: getField_text_ok fm_ok_read_map)

lemma getFieldRef_text: "getField_text t m = Some v \<Longrightarrow> \<exists>f. getFieldRef t m = Some f \<and> f_string f = v"
  by (auto simp: getField_text_def)

definition read_message :: "Message \<Rightarrow> Message" where
  "read_message m = \<lparr>msg_header = read_map (msg_header m), msg_body = read_map (msg_body m),
     msg_trailer = read_map (msg_trailer m), msg_validStructure = True, msg_tag = 0\<rparr>"

lemma parse_length_text: "k < 2 ^ 31 \<Longrightarrow> \<exists>w. IntT_parse True (nat_digits k) = Some (w :: 32 word) \<and> sint w = int k"
proof (intro exI conjI)
  assume k: "k < 2 ^ 31"
  show "IntT_parse True (nat_digits k) = Some (word_of_int (int k) :: 32 word)"
    unfolding length_text [OF k, symmetric] IntT_convert_def by (rule parse_written) simp
  show "sint (word_of_int (int k) :: 32 word) = int k" using k by (intro sint_int32) simp_all
qed

lemma parse_checksum_text: "\<exists>w. CheckSum_parse (checksum_text k) = Some w \<and> sint w = k mod 256"
proof (intro exI conjI)
  have range: "0 \<le> k mod 256" "k mod 256 < 256" by simp_all
  then show sint: "sint (word_of_int (k mod 256) :: 32 word) = k mod 256" by (intro sint_int32) simp_all
  show "CheckSum_parse (checksum_text k) = Some (word_of_int (k mod 256))"
    using CheckSum_parse_pad [of "word_of_int (k mod 256)"] range unfolding sint checksum_text_def by simp
qed

lemma kept_payload:
  assumes "plain_message m"
  shows "payload m = concat (map enc (filter (\<lambda>f. f_tag f \<noteq> 8 \<and> f_tag f \<noteq> 9 \<and> f_tag f \<noteq> 10) (fm_fields (msg_header m)))) @
    concat (map enc (fm_fields (msg_body m))) @ concat (map enc (filter (\<lambda>f. f_tag f \<noteq> 10) (fm_fields (msg_trailer m))))"
  using assms by (simp add: payload_def plain_message_def groupless_text)

lemma map_enc_read: "map enc (filter (\<lambda>f. P (f_tag f)) (map as_read fs)) = map enc (filter (\<lambda>f. P (f_tag f)) fs)"
  by (simp add: filter_map comp_def)

lemma validate_read:
  assumes plain: "plain_message m" and bs: "getField_text 8 (msg_header m) = Some bs"
    and small: "length (payload m) < 2 ^ 31" and written: "toString m = Some (s, m')"
  shows "Message_validate (read_message m') = None"
proof -
  note parts = written_parts [OF assms]
  let ?front = "''8='' @ bs @ SOH # ''9='' @ nat_digits (length (payload m)) @ SOH # payload m"
  let ?len = "nat_digits (length (payload m))"
  let ?keep = "\<lambda>t. t \<noteq> 8 \<and> t \<noteq> 9 \<and> t \<noteq> (10 :: int)"
  have ok: "message_ok m" using plain by (simp add: plain_message_def)
  then have okm: "fm_ok (msg_header m)" "fm_ok (msg_trailer m)" "mo_mode (fm_order (msg_header m)) = header_mode"
      "8 \<in> f_tag ` set (fm_fields (msg_header m))" "10 \<notin> f_tag ` set (fm_fields (msg_header m))"
      "fst ` set (fm_groups (msg_header m)) \<inter> {8, 9, 10} = {}"
      "f_tag ` set (fm_fields (msg_body m)) \<inter> {8, 9, 10} = {}" "f_tag ` set (fm_fields (msg_trailer m)) \<inter> {8, 9} = {}"
    by (simp_all add: message_ok_def)
  have groups: "fm_groups (msg_header m) = []" using plain by (simp add: plain_message_def)
  have m': "m' = m\<lparr>msg_header := setField (FieldBase_new 9 ?len) (msg_header m),
      msg_trailer := setField (FieldBase_new 10 (checksum_text (byte_sum ?front))) (msg_trailer m)\<rparr>"
    using toString_eq [OF ok bs length_text [OF small, symmetric] refl] written by auto
  have keep: "filter (\<lambda>f. ?keep (f_tag f)) (fm_fields (msg_header m')) = filter (\<lambda>f. ?keep (f_tag f)) (fm_fields (msg_header m))"
    using filter_setField [OF okm(1), of ?keep "FieldBase_new 9 ?len"] by (simp add: m' FieldBase_new_def)
  have tkeep: "filter (\<lambda>f. f_tag f \<noteq> 10) (fm_fields (msg_trailer m')) = filter (\<lambda>f. f_tag f \<noteq> 10) (fm_fields (msg_trailer m))"
    using filter_setField [OF okm(2), of "\<lambda>t. t \<noteq> 10" "FieldBase_new 10 (checksum_text (byte_sum ?front))"]
    by (simp add: m' FieldBase_new_def)
  have tkeep3: "filter (\<lambda>f. ?keep (f_tag f)) (fm_fields (msg_trailer m')) = filter (\<lambda>f. f_tag f \<noteq> 10) (fm_fields (msg_trailer m'))"
    using parts(6) unfolding parts_ok_def
    by (intro filter_cong refl) (auto simp: Message_isTrailerField_def)
  have bkeep: "filter (\<lambda>f. ?keep (f_tag f)) (fm_fields (msg_body m)) = fm_fields (msg_body m)"
    "filter (\<lambda>f. f_tag f \<noteq> 10) (fm_fields (msg_body m)) = fm_fields (msg_body m)"
    using okm(7) by (auto simp: filter_id_conv)
  have body: "msg_body m' = msg_body m" by (simp add: m')
  have len: "calculateLength 8 9 10 (read_map k) = int (length (concat (map enc (filter (\<lambda>f. ?keep (f_tag f)) (fm_fields k)))))"
    and total: "calculateTotal 10 (read_map k) = byte_sum (concat (map enc (filter (\<lambda>f. f_tag f \<noteq> 10) (fm_fields k))))" for k
    using groupless_measures [of "read_map k"] map_enc_read [of ?keep] map_enc_read [of "\<lambda>t. t \<noteq> 10"] by simp_all
  have "bodyLength 8 9 10 (read_message m') = int (length (payload m))"
    unfolding bodyLength_def kept_payload [OF plain]
    by (simp only: read_message_def Message.simps len keep tkeep3 tkeep body bkeep length_append of_nat_add add.assoc)
  moreover have "checkSum 10 (read_message m') = byte_sum ?front mod 256"
  proof -
    have "10 \<notin> f_tag ` set (fm_fields (msg_header m'))"
      using parts(6) by (auto simp: parts_ok_def Message_isHeaderField_def)
    then have "concat (map enc (filter (\<lambda>f. f_tag f \<noteq> 10) (fm_fields (msg_header m')))) =
        calculateString (setField (FieldBase_new 9 ?len) (msg_header m))"
      using groups by (simp add: m' filter_noop groupless_text)
    also have "\<dots> = ''8='' @ bs @ SOH # ''9='' @ ?len @ SOH #
        concat (map enc (filter (\<lambda>f. ?keep (f_tag f)) (fm_fields (msg_header m))))"
      using header_text [OF okm(1,3,4,5,6) bs, of ?len] groups by (simp add: groupless_text)
    finally have front: "concat (map enc (filter (\<lambda>f. f_tag f \<noteq> 10) (fm_fields (msg_header m')))) =
        ''8='' @ bs @ SOH # ''9='' @ ?len @ SOH #
        concat (map enc (filter (\<lambda>f. ?keep (f_tag f)) (fm_fields (msg_header m))))" .
    have sum: "byte_sum (payload m) = byte_sum (concat (map enc (filter (\<lambda>f. ?keep (f_tag f)) (fm_fields (msg_header m))))) +
        (byte_sum (concat (map enc (fm_fields (msg_body m)))) +
         byte_sum (concat (map enc (filter (\<lambda>f. f_tag f \<noteq> 10) (fm_fields (msg_trailer m))))))"
      unfolding kept_payload [OF plain] by simp
    show ?thesis
      unfolding checkSum_def
      by (simp only: read_message_def Message.simps total front tkeep body bkeep)
        (simp add: add.assoc sum)
  qed
  moreover obtain f9 where "getFieldRef 9 (msg_header (read_message m')) = Some f9" "f_string f9 = nat_digits (length (payload m))"
    using getFieldRef_text [of 9 "read_map (msg_header m')"] parts(1,8) by (auto simp: read_message_def get_read_map)
  moreover obtain f10 where "getFieldRef 10 (msg_trailer (read_message m')) = Some f10" "f_string f10 = checksum_text (byte_sum ?front)"
    using getFieldRef_text [of 10 "read_map (msg_trailer m')"] parts(3,9) by (auto simp: read_message_def get_read_map)
  moreover obtain w where "IntT_parse True (nat_digits (length (payload m))) = Some (w :: 32 word)" "sint w = int (length (payload m))"
    using parse_length_text [OF small] by blast
  moreover obtain c where "CheckSum_parse (checksum_text (byte_sum ?front)) = Some c" "sint c = byte_sum ?front mod 256"
    using parse_checksum_text by blast
  ultimately show ?thesis
    unfolding Message_validate_def Let_def by simp
qed

text \<open>No field is taken for data or for the count of a group; the third field of the header is the type.\<close>

definition seen_plain :: "DataDictionary option \<Rightarrow> DataDictionary option \<Rightarrow> Message \<Rightarrow> bool" where
  "seen_plain S A m \<longleftrightarrow> fields_seen S A (f_string (fm_fields (msg_header m) ! 2))
     (fm_fields (msg_header m)) (fm_fields (msg_body m)) (fm_fields (msg_trailer m))"

lemma seen_without_dictionaries: "plain_message m \<Longrightarrow> getField_text 8 (msg_header m) = Some bs \<Longrightarrow> length (payload m) < 2 ^ 31 \<Longrightarrow>
  toString m = Some (s, m') \<Longrightarrow> seen_plain None None m'"
  using written_parts(6) [of m bs s m']
  by (simp add: seen_plain_def fields_seen_def parts_ok_def IsDataField_def no_group_def body_dictionary_def
      Message_isHeaderField_in_def Message_isTrailerField_in_def)

lemma read_back:
  assumes plain: "plain_message m" and bs: "getField_text 8 (msg_header m) = Some bs"
    and small: "length (payload m) < 2 ^ 31" and written: "toString m = Some (s, m')"
    and orders: "fm_order (msg_header r0) = fm_order (msg_header m')" "fm_order (msg_body r0) = fm_order (msg_body m')"
      "fm_order (msg_trailer r0) = fm_order (msg_trailer m')"
    and seen: "seen_plain S A m'"
  shows "setString s True S A r0 = Inr (read_message m')"
proof -
  note parts = written_parts [OF plain bs small written]
  let ?hs = "fm_fields (msg_header m')" and ?bs = "fm_fields (msg_body m')" and ?ts = "fm_fields (msg_trailer m')"
  let ?r = "append_trailer ?ts (append_body ?bs (append_header ?hs (Message_clear r0)))"
  have "distinct (map f_tag ?hs)" using parts(1) by (simp add: fm_ok_def)
  then have "setString_loop True S s (length s + 1) A 0 0 [] header_part (Message_clear r0) = Inr ?r"
    unfolding parts(7) using seen by (intro read_parts [OF parts(6)]) (simp_all add: seen_plain_def)
  moreover have "sort_message ?r = read_message m'"
    using sorted_as_read [OF parts(1)] sorted_as_read [OF parts(2)] sorted_as_read [OF parts(3)] orders
    by (simp add: sort_message_def read_message_def read_map_def append_defs Message_clear_def
        FieldMap_clear_def sortFields_def)
  ultimately show ?thesis
    using validate_read [OF plain bs small written] by (simp add: setString_def)
qed

text \<open>C31. Reading back the text of a message without repeating groups, with or without the dictionaries of a
  session and an application, succeeds, and gives the fields of header, body and trailer that were written,
  in their order, when: its fields are in the parts their tags belong to, have positive tags and
  texts without the delimiter, and to the dictionaries none of them is data, the count of a group or
  of another part. The order of the header, the body length and the checksum are checked and accepted.\<close>

theorem message_roundtrip:
  assumes "plain_message m" and "getField_text 8 (msg_header m) = Some bs" and "length (payload m) < 2 ^ 31"
    and "toString m = Some (s, m')" and "seen_plain pSessionDD pAppDD m'"
    and "fm_order (msg_header r0) = fm_order (msg_header m') \<and> fm_order (msg_body r0) = fm_order (msg_body m') \<and>
      fm_order (msg_trailer r0) = fm_order (msg_trailer m')"
  shows "\<exists>r. setString s True pSessionDD pAppDD r0 = Inr r \<and> msg_validStructure r \<and>
    tag_values (fm_fields (msg_header r)) = tag_values (fm_fields (msg_header m')) \<and>
    tag_values (fm_fields (msg_body r)) = tag_values (fm_fields (msg_body m')) \<and>
    tag_values (fm_fields (msg_trailer r)) = tag_values (fm_fields (msg_trailer m'))"
proof -
  have "setString s True pSessionDD pAppDD r0 = Inr (read_message m')"
    using assms by (intro read_back) simp_all
  then show ?thesis by (simp add: read_message_def)
qed

lemma example_message_plain: "plain_message example_message"
  using example_message_ok
  by (simp add: plain_message_def)
    (simp add: example_message_def Message_new_def Message_orders_def FieldMap_new_def FieldBase_new_def
      writable_def Message_isHeaderField_def Message_isTrailerField_def)

text \<open>A dictionary with a heartbeat and with a group in another message.\<close>

definition heartbeat_dictionary :: DataDictionary where
  "heartbeat_dictionary = dd_addGroup ''V'' 146 55 (dd_addField 55 DataDictionary_new)
     (addMsgField ''0'' 112 (addMsgType ''0'' (addFieldType 112 TYPE_String (addFieldType 96 TYPE_Data
       (dd_addField 112 (setVersion ''FIX.4.4'' DataDictionary_new))))))"

lemma heartbeat_dictionary_plain:
  "\<not> isDataField t heartbeat_dictionary \<longleftrightarrow> t \<noteq> 96" "\<not> dd_isHeaderField t heartbeat_dictionary" "\<not> dd_isTrailerField t heartbeat_dictionary"
  "t \<noteq> 146 \<Longrightarrow> getGroup msg t heartbeat_dictionary = None"
  by (simp_all add: heartbeat_dictionary_def isDataField_def dd_isHeaderField_def dd_isTrailerField_def getGroup_def dd_addGroup_def
      addMsgField_def addMsgType_def addFieldType_def dd_addField_def setVersion_def DataDictionary_new_def dictionary_data_new_def Let_def)

theorem message_roundtrip_witness:
  "\<exists>s m' r. toString example_message = Some (s, m') \<and>
    setString s True (Some heartbeat_dictionary) (Some heartbeat_dictionary) Message_new = Inr r \<and>
    tag_values (fm_fields (msg_body r)) = [(112, ''ping'')]"
proof -
  have small: "length (payload example_message) < 100" by code_simp
  have bs: "getField_text 8 (msg_header example_message) = Some ''FIX.4.4''" by code_simp
  obtain s m' where w: "toString example_message = Some (s, m')"
    using toString_eq [OF example_message_ok bs refl refl] by blast
  have "msg_body m' = msg_body example_message" "fm_order (msg_header m') = message_order_new header_mode"
    "fm_order (msg_trailer m') = message_order_new trailer_mode"
    using toString_eq [OF example_message_ok bs refl refl] w
    by (auto simp: example_message_def Message_new_def Message_orders_def FieldMap_new_def)
  moreover have "seen_plain (Some heartbeat_dictionary) (Some heartbeat_dictionary) m'"
  proof -
    have "parts_ok (fm_fields (msg_header m')) (fm_fields (msg_body m')) (fm_fields (msg_trailer m'))"
      using written_parts(6) [OF example_message_plain bs _ w] small by simp
    moreover have "\<forall>f\<in>set (fm_fields (msg_body m')). f_tag f = 112"
      using \<open>msg_body m' = msg_body example_message\<close> by (simp add: example_message_def FieldBase_new_def)
    moreover have "t \<noteq> 96 \<and> t \<noteq> 146" if "Message_isHeaderField t \<or> Message_isTrailerField t \<or> t = 112" for t
      using that by (auto simp: Message_isHeaderField_def Message_isTrailerField_def)
    ultimately show ?thesis
      unfolding seen_plain_def fields_seen_def parts_ok_def body_dictionary_def no_group_def IsDataField_def
        Message_isHeaderField_in_def Message_isTrailerField_in_def
      using heartbeat_dictionary_plain by auto
  qed
  ultimately show ?thesis
    using message_roundtrip [OF example_message_plain bs _ w, of "Some heartbeat_dictionary" "Some heartbeat_dictionary" Message_new] small w
    by (simp add: Message_new_def Message_orders_def FieldMap_new_def)
      (force simp: example_message_def tag_values_def FieldBase_new_def)
qed

end
