(* ===== verification/Fix_Calendar.thy ===== *)
theory Fix_Calendar
  imports Harjus_Prelude
begin

text \<open>
  The calendar of the FIX engine (flashfix/include/FieldTypes.h): Julian day numbers, the dates of
  the Gregorian calendar and the week day. Divisions are those of the language, towards zero. The
  numbers stay far below the bounds of their types for the years 0 to 9999, so they are integers.
\<close>

section \<open>Days\<close>

definition julianDate :: "int \<Rightarrow> int \<Rightarrow> int \<Rightarrow> int" where
  "julianDate year month day =
     (let a = (14 - month) sdiv 12;
          y = year + 4800 - a;
          m = month + 12 * a - 3
      in day + (153 * m + 2) sdiv 5 + y * 365 + y sdiv 4 - y sdiv 100 + y sdiv 400 - 32045)"

definition getYMD :: "int \<Rightarrow> int \<times> int \<times> int" where
  "getYMD jday =
     (let a = jday + 32044;
          b = (4 * a + 3) sdiv 146097;
          c = a - (b * 146097) sdiv 4;
          d = (4 * c + 3) sdiv 1461;
          e = c - (1461 * d) sdiv 4;
          m = (5 * e + 2) sdiv 153
      in (b * 100 + d - 4800 + m sdiv 10, m + 3 - 12 * (m sdiv 10), e - (153 * m + 2) sdiv 5 + 1))"

text \<open>
  The double \<^verbatim>\<open>2.6 * m - 0.2\<close> is only taken at the integers from 1 to 12; cut to an integer it is
  the fraction below at each of them.
\<close>

definition weekDay :: "int \<Rightarrow> int" where
  "weekDay jday =
     (case getYMD jday of (Y, M, D) \<Rightarrow>
        let m = (if M \<ge> 3 then M - 2 else M + 10);
            Yprime = (if M \<ge> 3 then Y else Y - 1);
            y = Yprime smod 100;
            c = Yprime sdiv 100;
            wd = (D + (13 * m - 1) div 5 + y + y sdiv 4 + c sdiv 4 - 2 * c) smod 7
        in 1 + (if wd < 0 then 7 + wd else wd))"

text \<open>The calendar, to state what the two conversions do.\<close>

definition leap_year :: "int \<Rightarrow> bool" where
  "leap_year y = (y mod 4 = 0 \<and> (y mod 100 \<noteq> 0 \<or> y mod 400 = 0))"

definition month_length :: "int \<Rightarrow> int \<Rightarrow> int" where
  "month_length y m =
     (if m = 2 then if leap_year y then 29 else 28 else if m \<in> {4, 6, 9, 11} then 30 else 31)"

definition valid_date :: "int \<Rightarrow> int \<Rightarrow> int \<Rightarrow> bool" where
  "valid_date y m d = (1 \<le> m \<and> m \<le> 12 \<and> 1 \<le> d \<and> d \<le> month_length y m)"

text \<open>
  Both conversions count from the first of March of the year -4800: \<open>y\<close> whole years, then \<open>e\<close>
  days.
\<close>

definition days_before :: "int \<Rightarrow> int" where
  "days_before y = 365 * y + y div 4 - y div 100 + y div 400"

definition year_days :: "int \<Rightarrow> int" where
  "year_days y = (if leap_year (y + 1) then 366 else 365)"

lemma julianDate_march:
  fixes month :: int
  defines "a \<equiv> (if month \<le> 2 then 1 else 0)"
  assumes "0 \<le> year + 4800 - a" and "1 \<le> month" and "month \<le> 12"
  shows "julianDate year month day =
    (day - 1) + (153 * (month + 12 * a - 3) + 2) div 5 + days_before (year + 4800 - a) - 32044"
proof -
  have "(14 - month) sdiv 12 = a"
    using assms(3,4) unfolding a_def by (subst sdiv_nonneg_eq) auto
  moreover have "0 \<le> month + 12 * a - 3" using assms(3) by (auto simp: a_def)
  ultimately show ?thesis
    using assms(2) by (simp add: julianDate_def Let_def sdiv_nonneg_eq days_before_def)
qed

lemma div_by: "b * q \<le> a \<Longrightarrow> a < b * (q + 1) \<Longrightarrow> 0 < b \<Longrightarrow> a div b = q" for a b q :: int
  by (rule int_div_pos_eq [where r = "a - b * q"]) (simp_all add: algebra_simps)

lemma div_bounds: "b * (a div b) \<le> a \<and> a < b * (a div b + 1)" if "0 < b" for a b :: int
  using mult_div_mod_eq [of b a] pos_mod_bound [OF that, of a] pos_mod_sign [OF that, of a]
  by (simp only: distrib_left) linarith

lemma mod_by: "a = b * q + r \<Longrightarrow> a mod b = r mod b" for a b q r :: int
  by simp

lemma mod_top: "0 < x \<Longrightarrow> x \<le> b \<Longrightarrow> x mod b = 0 \<longleftrightarrow> x = b" for x b :: int
  by (cases "x = b") (auto simp: mod_pos_pos_trivial)

text \<open>A number of years in centuries, and the leap years in both.\<close>

lemma centuries:
  fixes y :: int
  obtains v w s u where "y = 100 * (4 * v + w) + (4 * s + u)" and "y div 100 = 4 * v + w" and "y mod 100 = 4 * s + u"
    and "0 \<le> w" "w \<le> 3" "0 \<le> u" "u \<le> 3" "0 \<le> s" "s \<le> 24"
proof
  let ?v = "y div 100 div 4" and ?w = "y div 100 mod 4" and ?s = "y mod 100 div 4" and ?u = "y mod 100 mod 4"
  show q: "y div 100 = 4 * ?v + ?w" and r: "y mod 100 = 4 * ?s + ?u" by simp_all
  show "y = 100 * (4 * ?v + ?w) + (4 * ?s + ?u)"
    unfolding q [symmetric] r [symmetric] by (rule mult_div_mod_eq [symmetric])
  show "?s \<le> 24" using pos_mod_bound [of 100 y] by linarith
qed (simp_all add: pos_imp_zdiv_nonneg_iff)

lemma days_before_centuries:
  fixes v w s u :: int
  assumes y: "y = 100 * (4 * v + w) + (4 * s + u)" and le: "0 \<le> w" "w \<le> 3" "0 \<le> u" "u \<le> 3" "0 \<le> s" "s \<le> 24"
  shows "days_before y = 36524 * (4 * v + w) + v + 365 * (4 * s + u) + s"
proof -
  have "y div 4 = 25 * (4 * v + w) + s" by (rule div_by; use y le in simp)
  moreover have "y div 100 = 4 * v + w" by (rule div_by; use y le in simp)
  moreover have "y div 400 = v" by (rule div_by; use y le in simp)
  ultimately show ?thesis using y by (simp add: days_before_def)
qed

lemma leap_centuries:
  fixes v w s u :: int
  assumes y: "y = 100 * (4 * v + w) + (4 * s + u)" and le: "0 \<le> w" "w \<le> 3" "0 \<le> u" "u \<le> 3" "0 \<le> s" "s \<le> 24"
  shows "leap_year (y + 1) \<longleftrightarrow> u = 3 \<and> (s = 24 \<longrightarrow> w = 3)"
proof -
  have 4: "(y + 1) mod 4 = 0 \<longleftrightarrow> u = 3"
    using mod_by [of "y + 1" 4 "25 * (4 * v + w) + s" "u + 1"] mod_top [of "u + 1" 4] y le by auto
  have 100: "(y + 1) mod 100 = 0 \<longleftrightarrow> s = 24 \<and> u = 3"
    using mod_by [of "y + 1" 100 "4 * v + w" "4 * s + u + 1"] mod_top [of "4 * s + u + 1" 100] y le by auto
  have 400: "(y + 1) mod 400 = 0 \<longleftrightarrow> s = 24 \<and> u = 3 \<and> w = 3"
  proof -
    have "100 * w + 4 * s + u + 1 = 400 \<longleftrightarrow> s = 24 \<and> u = 3 \<and> w = 3" using le by linarith
    then show ?thesis
      using mod_by [of "y + 1" 400 v "100 * w + 4 * s + u + 1"] mod_top [of "100 * w + 4 * s + u + 1" 400] y le by simp
  qed
  show ?thesis unfolding leap_year_def 4 100 400 by blast
qed

text \<open>Taking the days apart again gives the years and the days.\<close>

lemma year_of_days:
  assumes "0 \<le> e" and "e < year_days y"
  defines "a \<equiv> days_before y + e"
  defines "b \<equiv> (4 * a + 3) div 146097"
  defines "c \<equiv> a - (b * 146097) div 4"
  shows "b = y div 100" and "(4 * c + 3) div 1461 = y mod 100" and "c - (1461 * (y mod 100)) div 4 = e"
    and "0 \<le> c"
proof -
  obtain v w s u where y: "y = 100 * (4 * v + w) + (4 * s + u)" "y div 100 = 4 * v + w" "y mod 100 = 4 * s + u"
    and le: "0 \<le> w" "w \<le> 3" "0 \<le> u" "u \<le> 3" "0 \<le> s" "s \<le> 24"
    by (rule centuries)
  have e: "e \<le> 365" and last: "e = 365 \<Longrightarrow> u = 3 \<and> (s = 24 \<longrightarrow> w = 3)"
    using assms(2) leap_centuries [OF y(1) le] by (auto simp: year_days_def split: if_splits)
  have a: "a = 36524 * (4 * v + w) + v + (365 * (4 * s + u) + s) + e"
    unfolding a_def days_before_centuries [OF y(1) le] by simp
  have le365: "4 * e < 1458 + u" using e le last by (cases "e = 365") auto
  have century: "365 * (4 * s + u) + s + e \<le> 36524 - (if w = 3 then 0 else 1)"
    using le e last by (cases "s = 24"; cases "u = 3"; cases "e = 365") auto
  have b: "b = 4 * v + w"
    unfolding b_def
    by (rule div_by) (use a century le assms(1) in \<open>auto split: if_splits\<close>)
  then show "b = y div 100" using y(2) by simp
  have "(b * 146097) div 4 = 36524 * (4 * v + w) + v"
    unfolding b by (rule div_by; use le in simp)
  then have c: "c = 365 * (4 * s + u) + s + e" using a by (simp add: c_def)
  show "(4 * c + 3) div 1461 = y mod 100"
    unfolding y(3) c
    by (rule div_by) (use le le365 assms(1) in simp_all)
  have "(1461 * (y mod 100)) div 4 = 365 * (4 * s + u) + s"
    unfolding y(3) by (rule div_by; use le in simp)
  with c show "c - (1461 * (y mod 100)) div 4 = e" by simp
  show "0 \<le> c" using c le assms(1) by simp
qed

text \<open>The days of the year that starts in March, by months.\<close>

lemma leap_4800: "leap_year (y + 4800) = leap_year y"
proof -
  have "(y + 4800) mod k = y mod k" if "4800 mod k = 0" for k :: int
    using that by (metis add.right_neutral mod_add_right_eq)
  then show ?thesis by (simp add: leap_year_def)
qed

lemma month_cases:
  fixes m :: int
  assumes "1 \<le> m" and "m \<le> 12"
  shows "m = 1 \<or> m = 2 \<or> m = 3 \<or> m = 4 \<or> m = 5 \<or> m = 6 \<or> m = 7 \<or> m = 8 \<or> m = 9 \<or> m = 10 \<or> m = 11 \<or> m = 12"
  using assms by presburger

lemma days_of_month:
  assumes "valid_date y m d"
  defines "a \<equiv> (if m \<le> 2 then 1 else 0)"
  defines "m' \<equiv> m + 12 * a - 3"
  defines "e \<equiv> (153 * m' + 2) div 5 + (d - 1)"
  shows "0 \<le> e" and "e < year_days (y + 4800 - a)" and "(5 * e + 2) div 153 = m'" and "0 \<le> m'" and "m' div 10 = a"
proof -
  have m: "1 \<le> m" "m \<le> 12" and d: "1 \<le> d" "d \<le> month_length y m"
    using assms(1) by (simp_all add: valid_date_def)
  have leap: "y + 4800 - a + 1 = y + 4800 \<or> a = 0" by (simp add: a_def)
  have all: "0 \<le> e \<and> e < (if m = 2 then if leap_year y then 366 else 365 else 365) \<and> (5 * e + 2) div 153 = m' \<and> 0 \<le> m' \<and> m' div 10 = a"
    using month_cases [OF m] d
    by (elim disjE) (auto simp: e_def m'_def a_def month_length_def intro!: div_by)
  then have small: "e < 365 \<or> m = 2 \<and> leap_year y \<and> e < 366" by (auto split: if_splits)
  have "leap_year (y + 4800 - a + 1)" if "m = 2" "leap_year y"
    using that leap_4800 [of y] by (simp add: a_def add.commute)
  with small show "e < year_days (y + 4800 - a)" by (auto simp: year_days_def)
  show "0 \<le> e" "(5 * e + 2) div 153 = m'" "0 \<le> m'" "m' div 10 = a" using all by simp_all
qed

lemma getYMD_parts:
  assumes "0 \<le> y" and "0 \<le> e" and "e < year_days y"
  defines "m \<equiv> (5 * e + 2) div 153"
  shows "getYMD (days_before y + e - 32044) = (y - 4800 + m div 10, m + 3 - 12 * (m div 10), e - (153 * m + 2) div 5 + 1)"
proof -
  let ?a = "days_before y + e" and ?b = "y div 100"
  have "0 \<le> ?a"
  proof -
    obtain v w s u where y: "y = 100 * (4 * v + w) + (4 * s + u)" "y div 100 = 4 * v + w" "y mod 100 = 4 * s + u"
      and le: "0 \<le> w" "w \<le> 3" "0 \<le> u" "u \<le> 3" "0 \<le> s" "s \<le> 24"
      by (rule centuries)
    have "0 \<le> y div 100" using assms(1) by (simp add: pos_imp_zdiv_nonneg_iff)
    then have "0 \<le> 4 * v + w" "0 \<le> v" using y(2) le by linarith+
    then show ?thesis using days_before_centuries [OF y(1) le] le assms(2) by simp
  qed
  have b: "0 \<le> ?b" using assms(1) by (simp add: pos_imp_zdiv_nonneg_iff)
  note parts = year_of_days [OF assms(2,3)]
  define c where "c = ?a - (?b * 146097) div 4"
  have "(4 * ?a + 3) sdiv 146097 = ?b"
    using parts(1) \<open>0 \<le> ?a\<close> by (subst sdiv_nonneg_eq) simp_all
  moreover have "(?b * 146097) sdiv 4 = (?b * 146097) div 4" using b by (intro sdiv_nonneg_eq) simp_all
  moreover have "0 \<le> c" "(4 * c + 3) div 1461 = y mod 100" and e: "c - (1461 * (y mod 100)) div 4 = e"
    using parts(2-4) unfolding parts(1) c_def by blast+
  then have "(4 * c + 3) sdiv 1461 = y mod 100" by (subst sdiv_nonneg_eq) simp_all
  moreover have "(1461 * (y mod 100)) sdiv 4 = (1461 * (y mod 100)) div 4" by (intro sdiv_nonneg_eq) simp_all
  moreover have m: "0 \<le> m" using assms(2) by (simp add: m_def pos_imp_zdiv_nonneg_iff)
  moreover have "(5 * e + 2) sdiv 153 = m" unfolding m_def using assms(2) by (intro sdiv_nonneg_eq) simp_all
  moreover have "(153 * m + 2) sdiv 5 = (153 * m + 2) div 5" "m sdiv 10 = m div 10"
    using m by (simp_all add: sdiv_nonneg_eq)
  moreover have "?b * 100 + y mod 100 = y" by simp
  moreover have "days_before y + e - 32044 + 32044 = ?a" by simp
  ultimately show ?thesis
    unfolding getYMD_def Let_def by (simp only: c_def [symmetric] e)
qed

lemma getYMD_julianDate:
  assumes "-4800 < y" and "valid_date y m d"
  shows "getYMD (julianDate y m d) = (y, m, d)"
proof -
  let ?a = "if m \<le> 2 then 1 else 0"
  let ?m = "m + 12 * ?a - 3"
  let ?e = "(153 * ?m + 2) div 5 + (d - 1)"
  have m: "1 \<le> m" "m \<le> 12" using assms(2) by (simp_all add: valid_date_def)
  note days = days_of_month [OF assms(2)]
  have "0 \<le> y + 4800 - ?a" using assms(1) by simp
  from getYMD_parts [OF this days(1,2)] show ?thesis
    unfolding days(3,5) julianDate_march [OF \<open>0 \<le> y + 4800 - ?a\<close> m] by (simp add: algebra_simps split: if_splits)
qed

text \<open>Every day from the first of March of the year -4800 on is a date.\<close>

lemma div_step:
  fixes y k :: int
  assumes "0 < k"
  shows "(y + 1) div k = y div k + (if (y + 1) mod k = 0 then 1 else 0)"
proof -
  define q r where "q = (y + 1) div k" and "r = (y + 1) mod k"
  have y: "y + 1 = k * q + r" and r: "0 \<le> r" "r < k" using assms by (simp_all add: q_def r_def)
  have "y div k = q - (if r = 0 then 1 else 0)"
  proof (cases "r = 0")
    case True
    then have "y div k = q - 1" using y assms by (intro div_by) (simp_all add: algebra_simps)
    with True show ?thesis by simp
  next
    case False
    then have "y div k = q" using y r by (intro div_by) (simp_all add: algebra_simps)
    with False show ?thesis by simp
  qed
  then show ?thesis by (simp add: q_def r_def)
qed

lemma days_before_step: "days_before (y + 1) = days_before y + year_days y"
proof -
  have 4: "(y + 1) mod 100 = 0 \<Longrightarrow> (y + 1) mod 4 = 0" and 100: "(y + 1) mod 400 = 0 \<Longrightarrow> (y + 1) mod 100 = 0"
    using dvd_trans [of 4 100 "y + 1"] dvd_trans [of 100 400 "y + 1"] by (simp_all add: mod_eq_0_iff_dvd)
  have steps: "(y + 1) div 4 = y div 4 + (if (y + 1) mod 4 = 0 then 1 else 0)"
    "(y + 1) div 100 = y div 100 + (if (y + 1) mod 100 = 0 then 1 else 0)"
    "(y + 1) div 400 = y div 400 + (if (y + 1) mod 400 = 0 then 1 else 0)"
    by (rule div_step; simp)+
  show ?thesis
    unfolding days_before_def steps year_days_def leap_year_def
    using 4 100 by (cases "(y + 1) mod 4 = 0"; cases "(y + 1) mod 100 = 0"; cases "(y + 1) mod 400 = 0") simp_all
qed

lemma days_of:
  fixes a :: int
  assumes "0 \<le> a"
  obtains y e where "a = days_before y + e" and "0 \<le> y" and "0 \<le> e" and "e < year_days y"
proof -
  have "\<exists>y e. int n = days_before y + e \<and> 0 \<le> y \<and> 0 \<le> e \<and> e < year_days y" for n
  proof (induction n)
    case 0
    have "int 0 = days_before 0 + 0 \<and> 0 < year_days 0" by code_simp
    then show ?case by (metis order_refl)
  next
    case (Suc n)
    then obtain y e where ye: "int n = days_before y + e" "0 \<le> y" "0 \<le> e" "e < year_days y" by blast
    show ?case
    proof (cases "e + 1 < year_days y")
      case True
      with ye show ?thesis by (intro exI [of _ y] exI [of _ "e + 1"]) simp
    next
      case False
      have "0 < year_days (y + 1)" by (simp add: year_days_def)
      with False ye show ?thesis by (intro exI [of _ "y + 1"] exI [of _ 0]) (simp add: days_before_step)
    qed
  qed
  from this [of "nat a"] assms that show thesis by auto
qed

lemma month_of_days:
  assumes "0 \<le> e" and "e < year_days y"
  defines "m \<equiv> (5 * e + 2) div 153"
  shows "0 \<le> m" and "m \<le> 11"
    and "valid_date (y - 4800 + m div 10) (m + 3 - 12 * (m div 10)) (e - (153 * m + 2) div 5 + 1)"
proof -
  have e: "e \<le> 365" "e = 365 \<Longrightarrow> leap_year (y + 1)"
    using assms(2) by (auto simp: year_days_def split: if_splits)
  have leap: "leap_year (y + 1 - 4800) = leap_year (y + 1)" using leap_4800 [of "y + 1 - 4800"] by (simp add: add.commute)
  have m: "153 * m \<le> 5 * e + 2" "5 * e + 2 < 153 * (m + 1)"
    using div_bounds [of 153 "5 * e + 2"] unfolding m_def by simp_all
  show lo: "0 \<le> m" unfolding m_def using assms(1) by (simp add: pos_imp_zdiv_nonneg_iff)
  show hi: "m \<le> 11" using m(1) e(1) by linarith
  have cases: "m = 0 \<or> m = 1 \<or> m = 2 \<or> m = 3 \<or> m = 4 \<or> m = 5 \<or> m = 6 \<or> m = 7 \<or> m = 8 \<or> m = 9 \<or> m = 10 \<or> m = 11"
    using lo hi by presburger
  let ?d = "e - (153 * m + 2) div 5 + 1"
  have d: "1 \<le> ?d \<and> ?d \<le> (if m = 11 then (if e = 365 then 29 else 28) else if m \<in> {1, 3, 6, 8} then 30 else 31)"
    using cases m e(1) by (elim disjE) simp_all
  have month: "1 \<le> m + 3 - 12 * (m div 10) \<and> m + 3 - 12 * (m div 10) \<le> 12"
    "m + 3 - 12 * (m div 10) = 2 \<longleftrightarrow> m = 11"
    "m + 3 - 12 * (m div 10) \<in> {4, 6, 9, 11} \<longleftrightarrow> m \<in> {1, 3, 6, 8}"
    "m = 11 \<Longrightarrow> m div 10 = 1"
    using cases by (elim disjE; simp)+
  then show "valid_date (y - 4800 + m div 10) (m + 3 - 12 * (m div 10)) ?d"
    using d e(2) leap unfolding valid_date_def month_length_def by (auto split: if_splits)
qed

lemma julianDate_getYMD:
  assumes "-32044 \<le> j"
  shows "case getYMD j of (y, m, d) \<Rightarrow>
    valid_date y m d \<and> 0 \<le> y + 4800 - (if m \<le> 2 then 1 else 0) \<and> julianDate y m d = j"
proof -
  have "0 \<le> j + 32044" using assms by simp
  then obtain y e where j: "j + 32044 = days_before y + e" and ye: "0 \<le> y" "0 \<le> e" "e < year_days y"
    by (rule days_of)
  define m where "m = (5 * e + 2) div 153"
  let ?a = "m div 10"
  note month = month_of_days [OF ye(2,3), folded m_def]
  have ymd: "getYMD j = (y - 4800 + ?a, m + 3 - 12 * ?a, e - (153 * m + 2) div 5 + 1)"
    using getYMD_parts [OF ye] j unfolding m_def by (metis add_diff_cancel)
  have a: "0 \<le> ?a" "?a = (if m + 3 - 12 * ?a \<le> 2 then 1 else 0)"
    using month(1,2) by (auto simp: pos_imp_zdiv_nonneg_iff div_pos_pos_trivial intro: div_by)
  have "julianDate (y - 4800 + ?a) (m + 3 - 12 * ?a) (e - (153 * m + 2) div 5 + 1) = j"
  proof -
    have m: "1 \<le> m + 3 - 12 * ?a" "m + 3 - 12 * ?a \<le> 12" using month(1,2) a by (auto split: if_splits)
    have "0 \<le> y - 4800 + ?a + 4800 - (if m + 3 - 12 * ?a \<le> 2 then 1 else 0)"
      using a(2) [symmetric] ye(1) by simp
    from julianDate_march [OF this m, of "e - (153 * m + 2) div 5 + 1"] show ?thesis
      unfolding a(2) [symmetric] using j by (simp add: algebra_simps)
  qed
  with ymd month(3) a(2) [symmetric] ye(1) show ?thesis by simp
qed

lemma smod_wrap: "(if x smod 7 < 0 then 7 + x smod 7 else x smod 7) = x mod 7" for x :: int
proof (cases "0 \<le> x")
  case True
  then show ?thesis by (simp add: smod_nonneg_eq)
next
  case False
  then have "(- x) sdiv 7 = (- x) div 7" by (intro sdiv_nonneg_eq) simp_all
  with sdiv_uminus [of "- x" 7] have neg: "x sdiv 7 = - ((- x) div 7)" by (simp only: minus_minus)
  have "x smod 7 = x + 7 * ((- x) div 7)" using sdiv_mult_smod_eq [of x 7] neg by simp
  moreover define t where "t = (- x) div 7"
  moreover have "7 * t \<le> - x" "- x < 7 * (t + 1)" using div_bounds [of 7 "- x"] by (simp_all add: t_def)
  moreover have "x mod 7 = x + 7 * t" if "0 \<le> x + 7 * t" "x + 7 * t < 7"
    using that by (intro int_mod_pos_eq [where q = "- t"]) simp_all
  moreover have "x mod 7 = 7 + (x + 7 * t)" if "x + 7 * t < 0" "0 \<le> 7 + (x + 7 * t)"
    using that by (intro int_mod_pos_eq [where q = "- t - 1"]) simp_all
  ultimately show ?thesis by simp
qed

lemma days_before_4800:
  assumes "0 \<le> c" and "0 \<le> y" and "y < 100"
  shows "days_before (100 * c + y + 4800) = 36524 * c + c div 4 + 365 * y + y div 4 + 1753164"
proof -
  have "(100 * c + y + 4800) div 4 = 25 * c + y div 4 + 1200"
    using div_bounds [of 4 y] by (intro div_by) simp_all
  moreover have "(100 * c + y + 4800) div 100 = c + 48" using assms by (intro div_by) simp_all
  moreover have "(100 * c + y + 4800) div 400 = c div 4 + 12"
  proof -
    have "4 * (c div 4) \<le> c" "c \<le> 4 * (c div 4) + 3" using div_bounds [of 4 c] by simp_all
    with assms show ?thesis by (intro div_by) simp_all
  qed
  ultimately show ?thesis by (simp add: days_before_def)
qed

lemma days_before_mono: "y \<le> y' \<Longrightarrow> days_before y \<le> days_before y'"
proof (induction y' rule: int_ge_induct)
  case (step i)
  have "0 < year_days i" by (simp add: year_days_def)
  with step.IH show ?case by (simp add: days_before_step)
qed simp

lemma weekDay_eq:
  assumes "1721120 \<le> j"
  shows "weekDay j = 1 + (j + 1) mod 7"
proof -
  obtain Y M D where ymd: "getYMD j = (Y, M, D)" by (metis prod_cases3)
  define a :: int where "a = (if M \<le> 2 then 1 else 0)"
  define m where "m = M + 12 * a - 3"
  have date: "valid_date Y M D" and jd: "julianDate Y M D = j" and Y: "0 \<le> Y + 4800 - a"
    using julianDate_getYMD [of j] assms ymd by (auto simp: a_def)
  have M: "1 \<le> M" "M \<le> 12" using date by (simp_all add: valid_date_def)
  have e: "(153 * m + 2) div 5 + (D - 1) < year_days (Y + 4800 - a)"
    using days_of_month(2) [OF date] by (simp only: m_def a_def)
  have j: "j = (D - 1) + (153 * m + 2) div 5 + days_before (Y + 4800 - a) - 32044"
    using julianDate_march [OF Y [unfolded a_def] M, of D] jd by (simp add: a_def m_def)
  have "1753164 = days_before 4800" by code_simp
  then have "\<not> days_before (Y + 4800 - a + 1) \<le> days_before 4800"
    using e j assms days_before_step [of "Y + 4800 - a"] by linarith
  then have nonneg: "0 \<le> Y - a" using days_before_mono [of "Y + 4800 - a + 1" 4800] by linarith
  define c y where "c = (Y - a) div 100" and "y = (Y - a) mod 100"
  have Yp: "Y - a = 100 * c + y" and cy: "0 \<le> c" "0 \<le> y" "y < 100"
    using nonneg by (simp_all add: c_def y_def pos_imp_zdiv_nonneg_iff)
  have m: "0 \<le> m" "m \<le> 11" using M by (auto simp: m_def a_def)
  have months: "(153 * m + 2) div 5 = 28 * m - 2 + (13 * (m + 1) - 1) div 5"
    using div_bounds [of 5 "13 * (m + 1) - 1"] by (intro div_by) simp_all
  have "days_before (Y + 4800 - a) = 36524 * c + c div 4 + 365 * y + y div 4 + 1753164"
    using days_before_4800 [OF cy] Yp by (simp add: algebra_simps)
  then have wd: "j + 1 = 7 * (4 * m + 5218 * c + 52 * y + 245874) +
      (D + (13 * (m + 1) - 1) div 5 + y + y div 4 + c div 4 - 2 * c)"
    using j months by simp
  have "(if M \<ge> 3 then M - 2 else M + 10) = m + 1" "(if M \<ge> 3 then Y else Y - 1) = Y - a"
    by (simp_all add: m_def a_def)
  moreover have "(Y - a) smod 100 = y" "(Y - a) sdiv 100 = c"
    using nonneg by (simp_all add: c_def y_def sdiv_nonneg_eq smod_nonneg_eq)
  ultimately have "weekDay j = 1 + (D + (13 * (m + 1) - 1) div 5 + y + y div 4 + c div 4 - 2 * c) mod 7"
    using cy by (simp add: weekDay_def ymd Let_def sdiv_nonneg_eq smod_wrap)
  also have "(D + (13 * (m + 1) - 1) div 5 + y + y div 4 + c div 4 - 2 * c) mod 7 = (j + 1) mod 7"
    by (rule mod_by [OF wd, symmetric])
  finally show ?thesis .
qed

text \<open>C37. The two conversions of the calendar are inverse to each other: a date of any year after
  -4800 has a Julian day number that gives the date back, and every day number from the first of March
  of -4800 on is that of a date of the Gregorian calendar; and from the year 0 on the week day computed
  from year, month and day is the remainder of the day number by seven, Sunday being 1.\<close>

theorem calendar_inverse:
  "(-4800 < y \<longrightarrow> valid_date y m d \<longrightarrow> getYMD (julianDate y m d) = (y, m, d)) \<and>
   (-32044 \<le> j \<longrightarrow> (case getYMD j of (y, m, d) \<Rightarrow> valid_date y m d \<and> julianDate y m d = j)) \<and>
   (1721120 \<le> j \<longrightarrow> weekDay j = 1 + (j + 1) mod 7)"
  using getYMD_julianDate [of y m d] julianDate_getYMD [of j] weekDay_eq [of j] by auto

theorem calendar_inverse_witness:
  "getYMD (julianDate 2024 2 29) = (2024, 2, 29) \<and> weekDay (julianDate 2024 2 29) = 5"
proof -
  have "valid_date 2024 2 29" by code_simp
  moreover have "(1721120 :: int) \<le> julianDate 2024 2 29 \<and> 1 + (julianDate 2024 2 29 + 1) mod 7 = 5" by code_simp
  ultimately show ?thesis
    using calendar_inverse [of 2024 2 29 "julianDate 2024 2 29"] by simp
qed

end
