(* ===== verification/Fix_DateTime.thy ===== *)
theory Fix_DateTime
  imports Fix_Calendar
begin

text \<open>
  Dates and times of the FIX engine (flashfix/include/FieldTypes.h): a Julian day number and the
  nanoseconds since midnight. The two functions of the C library that break a \<^verbatim>\<open>time_t\<close> down are
  parameters.
\<close>

section \<open>Date and time\<close>

definition SECONDS_PER_DAY :: int where "SECONDS_PER_DAY = 86400"
definition SECONDS_PER_HOUR :: int where "SECONDS_PER_HOUR = 3600"
definition SECONDS_PER_MIN :: int where "SECONDS_PER_MIN = 60"
definition MINUTES_PER_HOUR :: int where "MINUTES_PER_HOUR = 60"
definition NANOS_PER_DAY :: int where "NANOS_PER_DAY = 86400000000000"
definition NANOS_PER_HOUR :: int where "NANOS_PER_HOUR = 3600000000000"
definition NANOS_PER_MIN :: int where "NANOS_PER_MIN = 60000000000"
definition NANOS_PER_SEC :: int where "NANOS_PER_SEC = 1000000000"
definition JULIAN_19700101 :: int where "JULIAN_19700101 = 2440588"

definition PRECISION_FACTOR :: "int list" where
  "PRECISION_FACTOR = [1000000000, 100000000, 10000000, 1000000, 100000, 10000, 1000, 100, 10, 1]"

record DateTime =
  m_date :: int
  m_time :: int

definition DateTime_of :: "int \<Rightarrow> int \<Rightarrow> DateTime" where
  "DateTime_of date time = \<lparr>m_date = date, m_time = time\<rparr>"

text \<open>The switch over the precision: everything that is not one of its cases is the last.\<close>

definition precision_factor :: "int \<Rightarrow> int" where
  "precision_factor precision = PRECISION_FACTOR ! (if 0 \<le> precision \<and> precision \<le> 8 then nat precision else 9)"

definition convertToNanos :: "int \<Rightarrow> int \<Rightarrow> int" where
  "convertToNanos fraction precision = fraction * precision_factor precision"

definition makeHMS :: "int \<Rightarrow> int \<Rightarrow> int \<Rightarrow> int \<Rightarrow> int" where
  "makeHMS hour minute second nanos =
     NANOS_PER_SEC * (SECONDS_PER_HOUR * hour + SECONDS_PER_MIN * minute + second) + nanos"

definition DateTime_of_millis :: "int \<Rightarrow> int \<Rightarrow> int \<Rightarrow> int \<Rightarrow> int \<Rightarrow> int \<Rightarrow> int \<Rightarrow> DateTime" where
  "DateTime_of_millis year month day hour minute second millis =
     DateTime_of (julianDate year month day) (makeHMS hour minute second (millis * PRECISION_FACTOR ! 3))"

definition DateTime_of_fraction :: "int \<Rightarrow> int \<Rightarrow> int \<Rightarrow> int \<Rightarrow> int \<Rightarrow> int \<Rightarrow> int \<Rightarrow> int \<Rightarrow> DateTime" where
  "DateTime_of_fraction year month day hour minute second fraction precision =
     DateTime_of (julianDate year month day) (makeHMS hour minute second (convertToNanos fraction precision))"

definition getYear :: "DateTime \<Rightarrow> int" where
  "getYear t = fst (getYMD (m_date t))"

definition getMonth :: "DateTime \<Rightarrow> int" where
  "getMonth t = fst (snd (getYMD (m_date t)))"

definition getDay :: "DateTime \<Rightarrow> int" where
  "getDay t = snd (snd (getYMD (m_date t)))"

definition getHour :: "DateTime \<Rightarrow> int" where
  "getHour t = m_time t sdiv NANOS_PER_HOUR"

definition getMinute :: "DateTime \<Rightarrow> int" where
  "getMinute t = (m_time t sdiv NANOS_PER_MIN) smod MINUTES_PER_HOUR"

definition getSecond :: "DateTime \<Rightarrow> int" where
  "getSecond t = (m_time t sdiv NANOS_PER_SEC) smod SECONDS_PER_MIN"

text \<open>The time is cast to an unsigned number first.\<close>

definition getNanosecond :: "DateTime \<Rightarrow> int" where
  "getNanosecond t = (m_time t mod 2 ^ 64) mod NANOS_PER_SEC"

definition getMillisecond :: "DateTime \<Rightarrow> int" where
  "getMillisecond t = getNanosecond t div PRECISION_FACTOR ! 3"

definition getMicrosecond :: "DateTime \<Rightarrow> int" where
  "getMicrosecond t = getNanosecond t div PRECISION_FACTOR ! 6"

definition getFraction :: "int \<Rightarrow> DateTime \<Rightarrow> int" where
  "getFraction precision t = getNanosecond t div precision_factor precision"

definition getHMS :: "DateTime \<Rightarrow> int \<times> int \<times> int \<times> int" where
  "getHMS t =
     (let ticks = m_time t sdiv NANOS_PER_SEC in
      (ticks sdiv SECONDS_PER_HOUR, (ticks sdiv SECONDS_PER_MIN) smod MINUTES_PER_HOUR,
       ticks smod SECONDS_PER_MIN, getMillisecond t))"

definition getHMS_fraction :: "int \<Rightarrow> DateTime \<Rightarrow> int \<times> int \<times> int \<times> int" where
  "getHMS_fraction precision t =
     (let ticks = m_time t sdiv NANOS_PER_SEC in
      (ticks sdiv SECONDS_PER_HOUR, (ticks sdiv SECONDS_PER_MIN) smod MINUTES_PER_HOUR,
       ticks smod SECONDS_PER_MIN, getFraction precision t))"

definition getWeekDay :: "DateTime \<Rightarrow> int" where
  "getWeekDay t = weekDay (m_date t)"

definition getTimeT :: "DateTime \<Rightarrow> int" where
  "getTimeT t = SECONDS_PER_DAY * (m_date t - JULIAN_19700101) + m_time t sdiv NANOS_PER_SEC"

section \<open>Setting parts\<close>

definition setYMD :: "int \<Rightarrow> int \<Rightarrow> int \<Rightarrow> DateTime \<Rightarrow> DateTime" where
  "setYMD year month day t = t\<lparr>m_date := julianDate year month day\<rparr>"

definition setHMS :: "int \<Rightarrow> int \<Rightarrow> int \<Rightarrow> int \<Rightarrow> DateTime \<Rightarrow> DateTime" where
  "setHMS hour minute second millis t = t\<lparr>m_time := makeHMS hour minute second (millis * PRECISION_FACTOR ! 3)\<rparr>"

definition setHMS_fraction :: "int \<Rightarrow> int \<Rightarrow> int \<Rightarrow> int \<Rightarrow> int \<Rightarrow> DateTime \<Rightarrow> DateTime" where
  "setHMS_fraction hour minute second fraction precision t =
     t\<lparr>m_time := makeHMS hour minute second (convertToNanos fraction precision)\<rparr>"

definition setHour :: "int \<Rightarrow> DateTime \<Rightarrow> DateTime" where
  "setHour hour t = (case getHMS t of (old_hour, minute, sec, millis) \<Rightarrow> setHMS hour minute sec millis t)"

definition setMinute :: "int \<Rightarrow> DateTime \<Rightarrow> DateTime" where
  "setMinute minute t = (case getHMS t of (hour, old_min, sec, millis) \<Rightarrow> setHMS hour minute sec millis t)"

definition setSecond :: "int \<Rightarrow> DateTime \<Rightarrow> DateTime" where
  "setSecond sec t = (case getHMS t of (hour, minute, old_sec, millis) \<Rightarrow> setHMS hour minute sec millis t)"

definition setMillisecond :: "int \<Rightarrow> DateTime \<Rightarrow> DateTime" where
  "setMillisecond millis t = (case getHMS t of (hour, minute, sec, old_millis) \<Rightarrow> setHMS hour minute sec millis t)"

definition setMicrosecond :: "int \<Rightarrow> DateTime \<Rightarrow> DateTime" where
  "setMicrosecond micros t =
     (case getHMS_fraction 9 t of (hour, minute, sec, old_nanos) \<Rightarrow> setHMS_fraction hour minute sec micros 6 t)"

definition setNanosecond :: "int \<Rightarrow> DateTime \<Rightarrow> DateTime" where
  "setNanosecond nanos t =
     (case getHMS_fraction 9 t of (hour, minute, sec, old_nanos) \<Rightarrow> setHMS_fraction hour minute sec nanos 9 t)"

definition setFraction :: "int \<Rightarrow> int \<Rightarrow> DateTime \<Rightarrow> DateTime" where
  "setFraction fraction precision t =
     (case getHMS_fraction 9 t of (hour, minute, sec, old_nanos) \<Rightarrow>
        setHMS_fraction hour minute sec fraction precision t)"

definition clearDate :: "DateTime \<Rightarrow> DateTime" where
  "clearDate t = t\<lparr>m_date := 0\<rparr>"

definition clearTime :: "DateTime \<Rightarrow> DateTime" where
  "clearTime t = t\<lparr>m_time := 0\<rparr>"

text \<open>The constructors of \<^verbatim>\<open>UtcTimeOnly\<close> and \<^verbatim>\<open>UtcDate\<close> from a date and time.\<close>

definition UtcTimeOnly :: "DateTime \<Rightarrow> DateTime" where
  "UtcTimeOnly val = clearDate val"

definition UtcDate :: "DateTime \<Rightarrow> DateTime" where
  "UtcDate val = clearTime val"

section \<open>Arithmetic and order\<close>

definition add_seconds :: "int \<Rightarrow> DateTime \<Rightarrow> DateTime" where
  "add_seconds seconds t =
     (let daysToAdd = seconds sdiv SECONDS_PER_DAY;
          secondsToAdd = seconds smod SECONDS_PER_DAY;
          date = m_date t + daysToAdd;
          time = m_time t + secondsToAdd * NANOS_PER_SEC
      in if time \<ge> NANOS_PER_DAY then DateTime_of (date + 1) (time smod NANOS_PER_DAY)
         else if time < 0 then DateTime_of (date - 1) (time + NANOS_PER_DAY)
         else DateTime_of date time)"

definition dt_less :: "DateTime \<Rightarrow> DateTime \<Rightarrow> bool" where
  "dt_less lhs rhs =
     (if m_date lhs < m_date rhs then True
      else if m_date lhs > m_date rhs then False
      else if m_time lhs < m_time rhs then True else False)"

definition dt_equal :: "DateTime \<Rightarrow> DateTime \<Rightarrow> bool" where
  "dt_equal lhs rhs = (m_date lhs = m_date rhs \<and> m_time lhs = m_time rhs)"

definition dt_greater :: "DateTime \<Rightarrow> DateTime \<Rightarrow> bool" where
  "dt_greater lhs rhs = (\<not> (dt_equal lhs rhs \<or> dt_less lhs rhs))"

definition dt_less_eq :: "DateTime \<Rightarrow> DateTime \<Rightarrow> bool" where
  "dt_less_eq lhs rhs = (dt_equal lhs rhs \<or> dt_less lhs rhs)"

definition dt_greater_eq :: "DateTime \<Rightarrow> DateTime \<Rightarrow> bool" where
  "dt_greater_eq lhs rhs = (dt_equal lhs rhs \<or> dt_greater lhs rhs)"

text \<open>The difference in seconds; both times are cut to seconds before.\<close>

definition dt_minus :: "DateTime \<Rightarrow> DateTime \<Rightarrow> int" where
  "dt_minus lhs rhs = SECONDS_PER_DAY * (m_date lhs - m_date rhs) +
     m_time lhs sdiv NANOS_PER_SEC - m_time rhs sdiv NANOS_PER_SEC"

section \<open>Broken-down time\<close>

record tm =
  tm_sec :: int
  tm_min :: int
  tm_hour :: int
  tm_mday :: int
  tm_mon :: int
  tm_year :: int

definition getTmUtc :: "DateTime \<Rightarrow> tm" where
  "getTmUtc t =
     (case getYMD (m_date t) of (year, month, day) \<Rightarrow>
      case getHMS t of (hour, minute, second, millis) \<Rightarrow>
        \<lparr>tm_sec = second, tm_min = minute, tm_hour = hour, tm_mday = day, tm_mon = month - 1,
         tm_year = year - 1900\<rparr>)"

definition fromTm :: "tm \<Rightarrow> int \<Rightarrow> DateTime" where
  "fromTm tm millis =
     DateTime_of (julianDate (tm_year tm + 1900) (tm_mon tm + 1) (tm_mday tm))
       (makeHMS (tm_hour tm) (tm_min tm) (tm_sec tm) (millis * PRECISION_FACTOR ! 3))"

definition fromTm_fraction :: "tm \<Rightarrow> int \<Rightarrow> int \<Rightarrow> DateTime" where
  "fromTm_fraction tm fraction precision =
     DateTime_of (julianDate (tm_year tm + 1900) (tm_mon tm + 1) (tm_mday tm))
       (makeHMS (tm_hour tm) (tm_min tm) (tm_sec tm) (convertToNanos fraction precision))"

text \<open>\<open>break_down\<close> is \<^verbatim>\<open>time_gmtime\<close> or \<^verbatim>\<open>time_localtime\<close>.\<close>

definition fromTimeT :: "(int \<Rightarrow> tm) \<Rightarrow> int \<Rightarrow> int \<Rightarrow> DateTime" where
  "fromTimeT break_down t millis = fromTm (break_down t) millis"

definition fromTimeT_fraction :: "(int \<Rightarrow> tm) \<Rightarrow> int \<Rightarrow> int \<Rightarrow> int \<Rightarrow> DateTime" where
  "fromTimeT_fraction break_down t fraction precision = fromTm_fraction (break_down t) fraction precision"

section \<open>The order of times\<close>

text \<open>Times in one number of nanoseconds; a time of day is within its day.\<close>

definition time_ok :: "DateTime \<Rightarrow> bool" where
  "time_ok t = (0 \<le> m_time t \<and> m_time t < NANOS_PER_DAY)"

definition instant :: "DateTime \<Rightarrow> int" where
  "instant t = m_date t * NANOS_PER_DAY + m_time t"

lemma dt_order_simps [simp]:
  "dt_equal a b \<longleftrightarrow> m_date a = m_date b \<and> m_time a = m_time b"
  "dt_less a b \<longleftrightarrow> m_date a < m_date b \<or> m_date a = m_date b \<and> m_time a < m_time b"
  "dt_greater a b \<longleftrightarrow> m_date b < m_date a \<or> m_date a = m_date b \<and> m_time b < m_time a"
  "dt_less_eq a b \<longleftrightarrow> m_date a < m_date b \<or> m_date a = m_date b \<and> m_time a \<le> m_time b"
  "dt_greater_eq a b \<longleftrightarrow> m_date b < m_date a \<or> m_date a = m_date b \<and> m_time b \<le> m_time a"
  by (auto simp: dt_equal_def dt_less_def dt_greater_def dt_less_eq_def dt_greater_eq_def)

lemma dt_less_instant: "time_ok a \<Longrightarrow> time_ok b \<Longrightarrow> dt_less a b \<longleftrightarrow> instant a < instant b"
  unfolding time_ok_def instant_def NANOS_PER_DAY_def by simp linarith

lemma smod_day: "a smod NANOS_PER_DAY = a - NANOS_PER_DAY" if "NANOS_PER_DAY \<le> a" "a < 2 * NANOS_PER_DAY"
proof -
  have "a mod NANOS_PER_DAY = a - NANOS_PER_DAY"
    using that by (intro int_mod_pos_eq [where q = 1]) simp_all
  then show ?thesis using that smod_nonneg_eq [of a NANOS_PER_DAY] by (simp add: NANOS_PER_DAY_def)
qed

lemma add_seconds_instant:
  assumes "time_ok t"
  shows "time_ok (add_seconds n t) \<and> instant (add_seconds n t) = instant t + n * NANOS_PER_SEC"
proof -
  define d s where "d = n sdiv SECONDS_PER_DAY" and "s = n smod SECONDS_PER_DAY"
  have n: "n = d * SECONDS_PER_DAY + s" by (simp add: sdiv_mult_smod_eq d_def s_def)
  have s: "- SECONDS_PER_DAY < s" "s < SECONDS_PER_DAY"
    using smod_bounds [of SECONDS_PER_DAY n] by (simp_all add: s_def SECONDS_PER_DAY_def)
  let ?time = "m_time t + s * NANOS_PER_SEC"
  have day: "NANOS_PER_DAY = SECONDS_PER_DAY * NANOS_PER_SEC" by code_simp
  have time: "- NANOS_PER_DAY < ?time" "?time < 2 * NANOS_PER_DAY"
    using s assms by (simp_all add: time_ok_def NANOS_PER_DAY_def SECONDS_PER_DAY_def NANOS_PER_SEC_def)
  have "add_seconds n t =
      (if ?time \<ge> NANOS_PER_DAY then DateTime_of (m_date t + d + 1) (?time - NANOS_PER_DAY)
       else if ?time < 0 then DateTime_of (m_date t + d - 1) (?time + NANOS_PER_DAY)
       else DateTime_of (m_date t + d) ?time)"
    using time(2) by (simp add: add_seconds_def Let_def d_def [symmetric] s_def [symmetric] smod_day)
  then show ?thesis
    using time n by (auto simp: time_ok_def instant_def DateTime_of_def day algebra_simps)
qed

lemma dt_minus_div:
  assumes "time_ok t" and "time_ok u"
  shows "dt_minus t u = SECONDS_PER_DAY * (m_date t - m_date u) + m_time t div NANOS_PER_SEC - m_time u div NANOS_PER_SEC"
  using assms by (simp add: dt_minus_def time_ok_def sdiv_nonneg_eq NANOS_PER_SEC_def)

lemma dt_minus_instant:
  assumes "time_ok t" and "time_ok u" and "instant t = instant u + n * NANOS_PER_SEC"
  shows "dt_minus t u = n"
proof -
  have day: "NANOS_PER_DAY = SECONDS_PER_DAY * NANOS_PER_SEC" by code_simp
  from assms(3) have "m_time t = m_time u + (n - SECONDS_PER_DAY * (m_date t - m_date u)) * NANOS_PER_SEC"
    unfolding instant_def day by (simp add: algebra_simps)
  then have "m_time t div NANOS_PER_SEC = m_time u div NANOS_PER_SEC + (n - SECONDS_PER_DAY * (m_date t - m_date u))"
    by (simp add: NANOS_PER_SEC_def)
  then show ?thesis using dt_minus_div [OF assms(1,2)] by simp
qed

text \<open>Adding seconds to a date and time, backwards as well, moves it by exactly that many seconds
  on the line of nanoseconds, over the ends of days, and keeps the time of day within its day; the
  difference of the two gives the seconds back, and the comparisons are those of that line.\<close>

theorem seconds_added:
  assumes "time_ok t" and "time_ok u"
  shows "time_ok (add_seconds n t) \<and> instant (add_seconds n t) = instant t + n * NANOS_PER_SEC \<and>
    dt_minus (add_seconds n t) t = n \<and>
    (dt_less t u \<longleftrightarrow> instant t < instant u) \<and> (dt_equal t u \<longleftrightarrow> instant t = instant u)"
proof -
  have "dt_less u t \<longleftrightarrow> instant u < instant t" by (rule dt_less_instant [OF assms(2,1)])
  moreover have "dt_equal t u \<longleftrightarrow> \<not> dt_less t u \<and> \<not> dt_less u t" by auto
  ultimately show ?thesis
    using add_seconds_instant [OF assms(1)] dt_less_instant [OF assms] dt_minus_instant [OF _ assms(1)] by auto
qed

text \<open>Setting the hour goes through milliseconds and loses what is below.\<close>

lemma setHour_cuts: "m_time (setHour 1 (DateTime_of 2460310 1500)) = NANOS_PER_HOUR"
  by code_simp

end
