(* ===== verification/Time_Range.thy ===== *)
theory Time_Range
  imports Fix_DateTime
begin

text \<open>
  When a session is active (flashfix/include/TimeRange.h, flashfix/src/TimeRange.cpp): a range of the
  day or, with week days, of the week. A start or end is a time of day, with day number 0.
\<close>

section \<open>Ranges\<close>

record TimeRange =
  m_startTime :: DateTime
  m_endTime :: DateTime
  m_startDay :: int
  m_endDay :: int
  m_useLocalTime :: bool

text \<open>The constructor; the kind of the times, local or not, is an argument.\<close>

definition TimeRange_new :: "bool \<Rightarrow> DateTime \<Rightarrow> DateTime \<Rightarrow> int \<Rightarrow> int \<Rightarrow> TimeRange" where
  "TimeRange_new useLocalTime startTime endTime startDay endDay =
     \<lparr>m_startTime = UtcTimeOnly startTime,
      m_endTime =
        (if startDay > 0 \<and> endDay > 0 \<and> startDay = endDay \<and> dt_greater endTime startTime
         then UtcTimeOnly startTime else UtcTimeOnly endTime),
      m_startDay = startDay, m_endDay = endDay, m_useLocalTime = useLocalTime\<rparr>"

definition getRangeStartDate :: "DateTime \<Rightarrow> int \<Rightarrow> DateTime \<Rightarrow> int" where
  "getRangeStartDate time startDay startTime =
     (if getWeekDay time > startDay then m_date time - getWeekDay time + startDay
      else if getWeekDay time < startDay then m_date time - getWeekDay time + startDay - 7
      else if dt_greater_eq (UtcTimeOnly time) (UtcTimeOnly startTime) then m_date time
      else m_date time - 7)"

definition isInRange_time :: "DateTime \<Rightarrow> DateTime \<Rightarrow> DateTime \<Rightarrow> bool" where
  "isInRange_time start end time =
     (let timeOnly = UtcTimeOnly time in
      if dt_less start end then dt_greater_eq timeOnly start \<and> dt_less_eq timeOnly end
      else dt_greater_eq timeOnly start \<or> dt_less_eq timeOnly end)"

definition isInRange_day :: "DateTime \<Rightarrow> DateTime \<Rightarrow> int \<Rightarrow> int \<Rightarrow> DateTime \<Rightarrow> int \<Rightarrow> bool" where
  "isInRange_day startTime endTime startDay endDay time day =
     (let timeOnly = UtcTimeOnly time in
      if startDay = endDay then
        if day \<noteq> startDay then True else isInRange_time startTime endTime time
      else if startDay < endDay then
        if day < startDay \<or> day > endDay then False
        else if day = startDay \<and> dt_less timeOnly startTime then False
        else if day = endDay \<and> dt_greater timeOnly endTime then False
        else True
      else
        if day < startDay \<and> day > endDay then False
        else if day = startDay \<and> dt_less timeOnly startTime then False
        else if day = endDay \<and> dt_greater timeOnly endTime then False
        else True)"

definition isInSameRange_time :: "DateTime \<Rightarrow> DateTime \<Rightarrow> DateTime \<Rightarrow> DateTime \<Rightarrow> bool" where
  "isInSameRange_time start end time1 time2 =
     (if \<not> isInRange_time start end time1 then False
      else if \<not> isInRange_time start end time2 then False
      else if dt_equal time1 time2 then True
      else if dt_less start end \<or> dt_equal start end then dt_equal (UtcDate time1) (UtcDate time2)
      else
        let sessionLength = SECONDS_PER_DAY - dt_minus start end in
        if dt_greater time1 time2 then
          let delta = dt_minus (UtcTimeOnly time2) start;
              delta = (if delta < 0 then SECONDS_PER_DAY - \<bar>delta\<bar> else delta)
          in dt_minus time1 time2 < sessionLength - delta
        else dt_minus time2 time1 < sessionLength)"

definition isInSameRange_day :: "DateTime \<Rightarrow> DateTime \<Rightarrow> int \<Rightarrow> int \<Rightarrow> DateTime \<Rightarrow> DateTime \<Rightarrow> bool" where
  "isInSameRange_day startTime endTime startDay endDay time1 time2 =
     (if \<not> isInRange_day startTime endTime startDay endDay time1 (getWeekDay time1) then False
      else if \<not> isInRange_day startTime endTime startDay endDay time2 (getWeekDay time2) then False
      else if startDay \<noteq> endDay then
        getRangeStartDate time1 startDay startTime = getRangeStartDate time2 startDay startTime
      else
        let day1 = m_date time1; day2 = m_date time2 in
        if m_date time1 = m_date time2 \<and> startDay = getWeekDay time1 then
          let time1_utcTimeOnly = UtcTimeOnly time1; time2_utcTimeOnly = UtcTimeOnly time2;
              startTime_utcTimeOnly = UtcTimeOnly startTime; endTime_utcTimeOnly = UtcTimeOnly endTime;
              bothBeforeEndOfRange =
                (dt_less_eq time1_utcTimeOnly endTime_utcTimeOnly \<and> dt_less_eq time2_utcTimeOnly endTime_utcTimeOnly);
              bothAfterStartOfRange =
                (dt_greater_eq time1_utcTimeOnly startTime_utcTimeOnly \<and>
                 dt_greater_eq time2_utcTimeOnly startTime_utcTimeOnly)
          in bothBeforeEndOfRange \<or> bothAfterStartOfRange
        else if day1 = day2 \<and> startDay \<noteq> getWeekDay time1 then True
        else if \<bar>day1 - day2\<bar> > 7 then False
        else if \<bar>day1 - day2\<bar> = 7 then
          if getWeekDay time1 \<noteq> startDay then False
          else
            let earlierTime = (if day2 > day1 then time1 else time2);
                laterTime = (if day2 > day1 then time2 else time1)
            in dt_greater_eq (UtcTimeOnly earlierTime) (UtcTimeOnly startTime) \<and>
               dt_less_eq (UtcTimeOnly laterTime) (UtcTimeOnly endTime)
        else getRangeStartDate time1 startDay startTime = getRangeStartDate time2 startDay startTime)"

section \<open>The methods\<close>

definition TimeRange_isInRange_day :: "TimeRange \<Rightarrow> DateTime \<Rightarrow> int \<Rightarrow> bool" where
  "TimeRange_isInRange_day r dateTime day =
     (if m_startDay r < 0 \<and> m_endDay r < 0 then isInRange_time (m_startTime r) (m_endTime r) dateTime
      else isInRange_day (m_startTime r) (m_endTime r) (m_startDay r) (m_endDay r) dateTime day)"

text \<open>\<open>time_localtime\<close> is the function of the C library.\<close>

definition LocalTimeStamp_of :: "(int \<Rightarrow> tm) \<Rightarrow> int \<Rightarrow> DateTime" where
  "LocalTimeStamp_of time_localtime t = fromTimeT time_localtime t 0"

definition TimeRange_isInRange :: "(int \<Rightarrow> tm) \<Rightarrow> TimeRange \<Rightarrow> DateTime \<Rightarrow> bool" where
  "TimeRange_isInRange time_localtime r dateTime =
     (if m_useLocalTime r then
        let localDateTime = LocalTimeStamp_of time_localtime (getTimeT dateTime)
        in TimeRange_isInRange_day r localDateTime (getWeekDay localDateTime)
      else TimeRange_isInRange_day r dateTime (getWeekDay dateTime))"

definition TimeRange_isInSameRange_times :: "TimeRange \<Rightarrow> DateTime \<Rightarrow> DateTime \<Rightarrow> bool" where
  "TimeRange_isInSameRange_times r time1 time2 =
     (if m_startDay r < 0 \<and> m_endDay r < 0 then isInSameRange_time (m_startTime r) (m_endTime r) time1 time2
      else isInSameRange_day (m_startTime r) (m_endTime r) (m_startDay r) (m_endDay r) time1 time2)"

definition TimeRange_isInSameRange :: "(int \<Rightarrow> tm) \<Rightarrow> TimeRange \<Rightarrow> DateTime \<Rightarrow> DateTime \<Rightarrow> bool" where
  "TimeRange_isInSameRange time_localtime r time1 time2 =
     (if m_useLocalTime r then
        let localTime1 = LocalTimeStamp_of time_localtime (getTimeT time1);
            localTime2 = LocalTimeStamp_of time_localtime (getTimeT time2)
        in TimeRange_isInSameRange_times r localTime1 localTime2
      else TimeRange_isInSameRange_times r time1 time2)"

text \<open>
  The overloads for local times. The first builds a local time stamp where its name says UTC, so that
  a range in UTC shifts the time by the offset of the zone twice.
\<close>

definition TimeRange_isInRange_local :: "(int \<Rightarrow> tm) \<Rightarrow> TimeRange \<Rightarrow> DateTime \<Rightarrow> bool" where
  "TimeRange_isInRange_local time_localtime r dateTime =
     (if \<not> m_useLocalTime r then
        let utcDateTime = LocalTimeStamp_of time_localtime (getTimeT dateTime)
        in TimeRange_isInRange_day r utcDateTime (getWeekDay utcDateTime)
      else TimeRange_isInRange_day r dateTime (getWeekDay dateTime))"

definition TimeRange_isInSameRange_local :: "(int \<Rightarrow> tm) \<Rightarrow> TimeRange \<Rightarrow> DateTime \<Rightarrow> DateTime \<Rightarrow> bool" where
  "TimeRange_isInSameRange_local time_gmtime r time1 time2 =
     (if \<not> m_useLocalTime r then
        let utcTime1 = fromTimeT time_gmtime (getTimeT time1) 0;
            utcTime2 = fromTimeT time_gmtime (getTimeT time2) 0
        in TimeRange_isInSameRange_times r utcTime1 utcTime2
      else TimeRange_isInSameRange_times r time1 time2)"

section \<open>Daily sessions\<close>

text \<open>A time of day in whole seconds.\<close>

definition clock_time :: "DateTime \<Rightarrow> bool" where
  "clock_time t = (m_date t = 0 \<and> time_ok t \<and> NANOS_PER_SEC dvd m_time t)"

definition seconds_of :: "DateTime \<Rightarrow> int" where
  "seconds_of t = m_time t div NANOS_PER_SEC"

text \<open>The day on which the session that is on at a time began.\<close>

definition session_day :: "DateTime \<Rightarrow> DateTime \<Rightarrow> int" where
  "session_day start t = (if m_time t \<ge> m_time start then m_date t else m_date t - 1)"

lemma seconds_bounds: "time_ok t \<Longrightarrow> 0 \<le> seconds_of t \<and> seconds_of t < 86400"
  using div_bounds [of NANOS_PER_SEC "m_time t"]
  by (simp add: seconds_of_def time_ok_def NANOS_PER_SEC_def NANOS_PER_DAY_def)

lemma seconds_le: "clock_time c \<Longrightarrow> m_time t \<ge> m_time c \<longleftrightarrow> seconds_of t \<ge> seconds_of c"
  using div_bounds [of NANOS_PER_SEC "m_time t"]
  by (auto simp: seconds_of_def clock_time_def NANOS_PER_SEC_def elim!: dvdE)

lemma seconds_mono: "m_time t \<le> m_time u \<Longrightarrow> seconds_of t \<le> seconds_of u"
  by (simp add: seconds_of_def NANOS_PER_SEC_def zdiv_mono1)

lemma overnight_arith:
  fixes d1 d2 a1 a2 s e :: int
  assumes "0 \<le> a1" "a1 < 86400" "0 \<le> a2" "a2 < 86400" "0 \<le> e" "e < s" "s < 86400"
    and "s \<le> a1 \<or> a1 \<le> e" and "s \<le> a2 \<or> a2 \<le> e" and "86400 * d2 + a2 \<le> 86400 * d1 + a1"
  shows "86400 * (d1 - d2) + a1 - a2 < 86400 - (s - e) - (if a2 - s < 0 then 86400 - \<bar>a2 - s\<bar> else a2 - s) \<longleftrightarrow>
    (if s \<le> a1 then d1 else d1 - 1) = (if s \<le> a2 then d2 else d2 - 1) \<and> a1 \<noteq> e"
proof -
  consider (same) "d1 = d2" | (following) "d1 = d2 + 1" | (later) "d2 + 2 \<le> d1"
    using assms by linarith
  then show ?thesis
  proof cases
    case later
    then have "86400 * 2 \<le> 86400 * (d1 - d2)" by simp
    with later show ?thesis using assms by (auto split: if_splits)
  qed (use assms in \<open>auto split: if_splits\<close>)
qed

lemma overnight_same_range:
  assumes clock: "clock_time start" "clock_time end" and night: "dt_less end start"
    and ok: "time_ok t1" "time_ok t2" and order: "dt_greater t1 t2"
    and range: "isInRange_time start end t1" "isInRange_time start end t2"
  shows "isInSameRange_time start end t1 t2 \<longleftrightarrow>
    session_day start t1 = session_day start t2 \<and> seconds_of t1 \<noteq> seconds_of end"
proof -
  have clk: "time_ok start" "time_ok end" "m_date start = 0" "m_date end = 0"
    using clock by (simp_all add: clock_time_def)
  have es: "seconds_of end < seconds_of start"
    using night clk seconds_le [OF clock(1), of "end"] by auto
  have in_range: "seconds_of start \<le> seconds_of t \<or> seconds_of t \<le> seconds_of end" if "isInRange_time start end t" for t
    using that night clk seconds_le [OF clock(1), of t] seconds_mono [of t "end"]
    by (auto simp: isInRange_time_def UtcTimeOnly_def clearDate_def Let_def split: if_splits)
  have minus: "dt_minus t u = 86400 * (m_date t - m_date u) + seconds_of t - seconds_of u" if "time_ok t" "time_ok u" for t u
    using dt_minus_div [OF that] by (simp add: seconds_of_def SECONDS_PER_DAY_def)
  have le: "86400 * m_date t2 + seconds_of t2 \<le> 86400 * m_date t1 + seconds_of t1"
    using order seconds_mono [of t2 t1] seconds_bounds [OF ok(1)] seconds_bounds [OF ok(2)] by auto
  have only: "time_ok (UtcTimeOnly t2)" "m_date (UtcTimeOnly t2) = 0" "seconds_of (UtcTimeOnly t2) = seconds_of t2"
    using ok(2) by (simp_all add: UtcTimeOnly_def clearDate_def time_ok_def seconds_of_def)
  have days: "session_day start t = (if seconds_of start \<le> seconds_of t then m_date t else m_date t - 1)" for t
    by (simp add: session_day_def seconds_le [OF clock(1)])
  have same: "isInSameRange_time start end t1 t2 \<longleftrightarrow> dt_minus t1 t2 < SECONDS_PER_DAY - dt_minus start end -
      (if dt_minus (UtcTimeOnly t2) start < 0 then SECONDS_PER_DAY - \<bar>dt_minus (UtcTimeOnly t2) start\<bar>
       else dt_minus (UtcTimeOnly t2) start)"
    using range night order clk by (auto simp: isInSameRange_time_def Let_def)
  have m: "dt_minus start end = seconds_of start - seconds_of end"
    "dt_minus (UtcTimeOnly t2) start = seconds_of t2 - seconds_of start"
    using minus [OF clk(1,2)] minus [OF only(1) clk(1)] by (simp_all add: clk only)
  show ?thesis
    unfolding same days minus [OF ok] m SECONDS_PER_DAY_def
    by (rule overnight_arith)
      (use seconds_bounds [OF ok(1)] seconds_bounds [OF ok(2)] seconds_bounds [OF clk(1)] seconds_bounds [OF clk(2)]
        es in_range [OF range(1)] in_range [OF range(2)] le in simp_all)
qed

text \<open>The test whether now and an earlier time, when the store was created, lie in the same daily
  session: both are in the range, and for a range within a day both are on the same day; for a range
  over midnight both belong to the session that began on the same day, and now is not within the
  second at which the range ends.\<close>

theorem same_daily_session:
  assumes "clock_time start" and "clock_time end" and "time_ok t1" and "time_ok t2" and "dt_greater t1 t2"
  shows "isInSameRange_time start end t1 t2 \<longleftrightarrow>
    isInRange_time start end t1 \<and> isInRange_time start end t2 \<and>
    (if dt_less end start
     then session_day start t1 = session_day start t2 \<and> seconds_of t1 \<noteq> seconds_of end
     else m_date t1 = m_date t2)"
proof (cases "isInRange_time start end t1 \<and> isInRange_time start end t2 \<and> dt_less end start")
  case True
  then show ?thesis using overnight_same_range [OF assms(1,2) _ assms(3-5)] by simp
next
  case False
  then show ?thesis
    using assms(5) by (auto simp: isInSameRange_time_def UtcDate_def clearTime_def Let_def)
qed

text \<open>
  With the earlier time first the test is another one: ten o'clock and one o'clock of a day are in
  one session of a range from noon to eleven, though not the other way round.
\<close>

lemma same_session_not_symmetric:
  fixes start end' :: DateTime
  defines "start \<equiv> DateTime_of 0 (12 * NANOS_PER_HOUR)" and "end' \<equiv> DateTime_of 0 (11 * NANOS_PER_HOUR)"
    and "t1 \<equiv> DateTime_of 2460311 (10 * NANOS_PER_HOUR)" and "t2 \<equiv> DateTime_of 2460311 (13 * NANOS_PER_HOUR)"
  shows "isInSameRange_time start end' t1 t2 \<and> \<not> isInSameRange_time start end' t2 t1"
  unfolding assms by code_simp

section \<open>Weekly sessions\<close>

lemma weekDay_bounds: "1721120 \<le> j \<Longrightarrow> 1 \<le> weekDay j \<and> weekDay j \<le> 7"
  using pos_mod_bound [of 7 "j + 1"] pos_mod_sign [of 7 "j + 1"] by (simp add: weekDay_eq)

lemma weekDay_same:
  assumes "1721120 \<le> i" and "1721120 \<le> j"
  shows "weekDay i = weekDay j \<longleftrightarrow> (\<exists>k. i = j + 7 * k)"
proof
  assume "weekDay i = weekDay j"
  then have "7 dvd (i - j)" using assms by (simp add: weekDay_eq mod_eq_dvd_iff)
  then show "\<exists>k. i = j + 7 * k" by (metis diff_eq_eq add.commute dvdE)
qed (use assms in \<open>auto simp: weekDay_eq add.assoc [symmetric] add.commute\<close>)

text \<open>The last start of the week's session that is not after a time.\<close>

lemma last_start:
  assumes "1721140 \<le> m_date t" and "1 \<le> startDay" and "startDay \<le> 7" and "time_ok t" and "clock_time start"
  defines "r \<equiv> getRangeStartDate t startDay start"
  shows "1721120 \<le> r" and "weekDay r = startDay"
    and "dt_less_eq (start\<lparr>m_date := r\<rparr>) t" and "dt_less t (start\<lparr>m_date := r + 7\<rparr>)"
proof -
  let ?j = "m_date t" and ?w = "weekDay (m_date t)"
  have w: "1 \<le> ?w" "?w \<le> 7" using weekDay_bounds [of ?j] assms(1) by simp_all
  have j: "?j + 1 = 7 * ((?j + 1) div 7) + (?w - 1)" using assms(1) by (simp add: weekDay_eq)
  have r: "r = ?j - ?w + startDay \<and> startDay < ?w \<or> r = ?j - ?w + startDay - 7 \<and> ?w < startDay \<or>
      r = ?j \<and> ?w = startDay \<and> m_time start \<le> m_time t \<or> r = ?j - 7 \<and> ?w = startDay \<and> m_time t < m_time start"
    unfolding r_def getRangeStartDate_def by (auto simp: getWeekDay_def UtcTimeOnly_def clearDate_def)
  then show low: "1721120 \<le> r" using assms(1-3) w by linarith
  have "r + 1 = 7 * ((?j + 1) div 7) + (startDay - 1) \<or> r + 1 = 7 * ((?j + 1) div 7 - 1) + (startDay - 1)"
    using r j by (auto simp: algebra_simps)
  then have "(r + 1) mod 7 = startDay - 1"
    using assms(2,3) by (elim disjE) (erule int_mod_pos_eq; simp)+
  then show "weekDay r = startDay" using low by (simp add: weekDay_eq)
  show "dt_less_eq (start\<lparr>m_date := r\<rparr>) t" "dt_less t (start\<lparr>m_date := r + 7\<rparr>)"
    using r w assms(2,3) by auto
qed

lemma start_before_iff:
  assumes "1721140 \<le> m_date t" and "1 \<le> startDay" and "startDay \<le> 7" and "time_ok t" and "clock_time start"
    and "1721120 \<le> r" and "weekDay r = startDay"
  shows "dt_less_eq (start\<lparr>m_date := r\<rparr>) t \<longleftrightarrow> r \<le> getRangeStartDate t startDay start"
proof -
  let ?r = "getRangeStartDate t startDay start"
  note last = last_start [OF assms(1-5)]
  obtain k where k: "r = ?r + 7 * k" using weekDay_same [OF assms(6) last(1)] last(2) assms(7) by auto
  show ?thesis
  proof
    assume "dt_less_eq (start\<lparr>m_date := r\<rparr>) t"
    with last(4) have "r < ?r + 7 \<or> r = ?r + 7 \<and> m_time start < m_time start" by auto
    with k show "r \<le> ?r" by simp
  next
    assume "r \<le> ?r"
    with last(3) show "dt_less_eq (start\<lparr>m_date := r\<rparr>) t" by auto
  qed
qed

text \<open>The test whether two times lie in the same weekly session that starts and ends on different
  days: both are in the range and no start of a session lies between them.\<close>

lemma same_weekly_session:
  assumes "1721140 \<le> m_date t1" and "1721140 \<le> m_date t2" and "time_ok t1" and "time_ok t2"
    and "1 \<le> startDay" and "startDay \<le> 7" and "startDay \<noteq> endDay" and "clock_time start"
  shows "isInSameRange_day start end startDay endDay t1 t2 \<longleftrightarrow>
    isInRange_day start end startDay endDay t1 (getWeekDay t1) \<and>
    isInRange_day start end startDay endDay t2 (getWeekDay t2) \<and>
    (\<forall>r\<ge>1721120. weekDay r = startDay \<longrightarrow>
      dt_less_eq (start\<lparr>m_date := r\<rparr>) t1 = dt_less_eq (start\<lparr>m_date := r\<rparr>) t2)"
proof -
  let ?r = "\<lambda>t. getRangeStartDate t startDay start"
  note last1 = last_start [OF assms(1,5,6,3,8)] and last2 = last_start [OF assms(2,5,6,4,8)]
  have iff: "dt_less_eq (start\<lparr>m_date := r\<rparr>) t1 = dt_less_eq (start\<lparr>m_date := r\<rparr>) t2 \<longleftrightarrow> (r \<le> ?r t1 \<longleftrightarrow> r \<le> ?r t2)"
    if "1721120 \<le> r" "weekDay r = startDay" for r
    using start_before_iff [OF assms(1,5,6,3,8) that] start_before_iff [OF assms(2,5,6,4,8) that] by blast
  have "?r t1 = ?r t2 \<longleftrightarrow> (\<forall>r\<ge>1721120. weekDay r = startDay \<longrightarrow> (r \<le> ?r t1 \<longleftrightarrow> r \<le> ?r t2))"
    (is "?eq \<longleftrightarrow> ?all")
  proof
    assume ?all
    then have "?r t1 \<le> ?r t2" "?r t2 \<le> ?r t1" using last1(1,2) last2(1,2) by blast+
    then show ?eq by simp
  qed (simp add: last1 last2)
  also have "\<dots> \<longleftrightarrow> (\<forall>r\<ge>1721120. weekDay r = startDay \<longrightarrow>
      dt_less_eq (start\<lparr>m_date := r\<rparr>) t1 = dt_less_eq (start\<lparr>m_date := r\<rparr>) t2)"
    using iff by blast
  finally show ?thesis using assms(7) by (simp add: isInSameRange_day_def)
qed

end
