(* ===== verification/Time_Text.thy ===== *)
theory Time_Text
  imports Fix_DateTime Fix_Convert
begin

text \<open>
  The texts of dates and times (flashfix/include/FieldConvertors.h). The writers fill a buffer of
  fixed slots; a number that does not fit its slot would be written outside of it, which is
  \<open>None\<close>. The readers throw one exception, \<open>None\<close> as well.
\<close>

section \<open>Writing\<close>

definition slot :: "nat \<Rightarrow> int \<Rightarrow> string option" where
  "slot len t =
     (let s = integer_to_string_padded len CHR ''0'' True (word_of_int t :: 32 word)
      in if length s = len then Some s else None)"

fun slots :: "string option list \<Rightarrow> string option" where
  "slots [] = Some []"
| "slots (None # ss) = None"
| "slots (Some s # ss) = map_option ((@) s) (slots ss)"

definition UtcTimeStamp_convert :: "DateTime \<Rightarrow> int \<Rightarrow> string option" where
  "UtcTimeStamp_convert value precision =
     (let precision = clamp_of precision 0 9 in
      case getYMD (m_date value) of (year, month, day) \<Rightarrow>
      case getHMS_fraction precision value of (hour, minute, second, fraction) \<Rightarrow>
        slots ([slot 4 year, slot 2 month, slot 2 day, Some ''-'', slot 2 hour, Some '':'', slot 2 minute,
            Some '':'', slot 2 second] @
          (if precision \<noteq> 0 then [Some ''.'', slot (nat precision) fraction] else [])))"

definition UtcTimeOnly_convert :: "DateTime \<Rightarrow> int \<Rightarrow> string option" where
  "UtcTimeOnly_convert value precision =
     (let precision = clamp_of precision 0 9 in
      case getHMS_fraction precision value of (hour, minute, second, fraction) \<Rightarrow>
        slots ([slot 2 hour, Some '':'', slot 2 minute, Some '':'', slot 2 second] @
          (if precision \<noteq> 0 then [Some ''.'', slot (nat precision) fraction] else [])))"

definition UtcDate_convert :: "DateTime \<Rightarrow> string option" where
  "UtcDate_convert value =
     (case getYMD (m_date value) of (year, month, day) \<Rightarrow> slots [slot 4 year, slot 2 month, slot 2 day])"

section \<open>Reading\<close>

definition digits_at :: "nat \<Rightarrow> nat \<Rightarrow> string \<Rightarrow> bool" where
  "digits_at i n s = list_all is_digit (take n (drop i s))"

definition number_at :: "nat \<Rightarrow> nat \<Rightarrow> string \<Rightarrow> int" where
  "number_at i n s = int (digits_val (take n (drop i s)))"

definition UtcTimeStamp_parse :: "string \<Rightarrow> DateTime option" where
  "UtcTimeStamp_parse val =
     (let len = length val in
      if len < 17 \<or> len > 27 then None
      else if \<not> digits_at 0 8 val then None
      else if val ! 8 \<noteq> CHR ''-'' then None
      else if \<not> digits_at 9 2 val then None
      else if val ! 11 \<noteq> CHR '':'' then None
      else if \<not> digits_at 12 2 val then None
      else if val ! 14 \<noteq> CHR '':'' then None
      else if \<not> digits_at 15 2 val then None
      else
        let year = number_at 0 4 val; mon = number_at 4 2 val; mday = number_at 6 2 val;
            hour = number_at 9 2 val; minute = number_at 12 2 val; sec = number_at 15 2 val
        in if mon < 1 \<or> 12 < mon then None
           else if mday < 1 \<or> 31 < mday then None
           else if 23 < hour then None
           else if 59 < minute then None
           else if 60 < sec then None
           else if len = 17 then Some (DateTime_of_millis year mon mday hour minute sec 0)
           else if val ! 17 \<noteq> CHR ''.'' then None
           else if \<not> digits_at 18 (len - 18) val then None
           else Some (DateTime_of_fraction year mon mday hour minute sec (number_at 18 (len - 18) val)
                  (int len - 17 - 1)))"

text \<open>A time only has the date 0; its constructors set the time.\<close>

definition UtcTimeOnly_parse :: "string \<Rightarrow> DateTime option" where
  "UtcTimeOnly_parse val =
     (let len = length val in
      if len < 8 \<or> len > 18 then None
      else if \<not> digits_at 0 2 val then None
      else if val ! 2 \<noteq> CHR '':'' then None
      else if \<not> digits_at 3 2 val then None
      else if val ! 5 \<noteq> CHR '':'' then None
      else if \<not> digits_at 6 2 val then None
      else
        let hour = number_at 0 2 val; minute = number_at 3 2 val; sec = number_at 6 2 val
        in if 23 < hour then None
           else if 59 < minute then None
           else if 60 < sec then None
           else if len = 8 then Some (setHMS hour minute sec 0 (DateTime_of 0 0))
           else if val ! 8 \<noteq> CHR ''.'' then None
           else if \<not> digits_at 9 (len - 9) val then None
           else Some (setHMS_fraction hour minute sec (number_at 9 (len - 9) val) (int len - 8 - 1)
                  (DateTime_of 0 0)))"

definition UtcDate_parse :: "string \<Rightarrow> DateTime option" where
  "UtcDate_parse val =
     (if length val \<noteq> 8 then None
      else if \<not> digits_at 0 8 val then None
      else
        let year = number_at 0 4 val; mon = number_at 4 2 val; mday = number_at 6 2 val
        in if mon < 1 \<or> 12 < mon then None
           else if mday < 1 \<or> 31 < mday then None
           else Some (DateTime_of_millis year mon mday 0 0 0 0))"

section \<open>What is written is read\<close>

lemma slot_eq:
  assumes "0 \<le> t" and "t < 10 ^ len" and "0 < len" and "len \<le> 9"
  shows "slot len t = Some (pad_digits len (nat t))"
proof -
  have "(10 :: int) ^ len \<le> 10 ^ 9" using assms(4) by (intro power_increasing) simp_all
  then have "sint (word_of_int t :: 32 word) = t" using assms(1,2) by (intro sint_int32) simp_all
  then show ?thesis
    using assms length_pad [of "nat t" len]
    by (simp add: slot_def Let_def integer_to_string_padded_def integer_to_string_eq value_of_def pad_loop_eq pad_digits_def nat_less_iff)
qed

text \<open>The three slots of a date and those of a time, with what follows.\<close>

definition date_text :: "int \<Rightarrow> int \<Rightarrow> int \<Rightarrow> string" where
  "date_text y m d = pad_digits 4 (nat y) @ pad_digits 2 (nat m) @ pad_digits 2 (nat d)"

definition clock_text :: "int \<Rightarrow> int \<Rightarrow> int \<Rightarrow> string" where
  "clock_text h mi s = pad_digits 2 (nat h) @ '':'' @ pad_digits 2 (nat mi) @ '':'' @ pad_digits 2 (nat s)"

definition fraction_text :: "nat \<Rightarrow> int \<Rightarrow> string" where
  "fraction_text p f = (if p = 0 then [] else ''.'' @ pad_digits p (nat f))"

lemma length_pad2: "0 \<le> x \<Longrightarrow> x < 100 \<Longrightarrow> length (pad_digits 2 (nat x)) = 2" for x :: int
  using length_pad [of "nat x" 2] by (simp add: nat_less_iff)

lemma length_pad4: "0 \<le> x \<Longrightarrow> x < 10000 \<Longrightarrow> length (pad_digits 4 (nat x)) = 4" for x :: int
  using length_pad [of "nat x" 4] by (simp add: nat_less_iff)

lemma all_digits_list_all: "list_all is_digit s = all_digits s"
  by (simp add: all_digits_def list_all_iff)

lemma read_stamp:
  fixes y m d h mi s f :: int and p :: nat
  assumes "0 \<le> y" "y < 10000" "1 \<le> m" "m \<le> 12" "1 \<le> d" "d \<le> 31" "0 \<le> h" "h < 24" "0 \<le> mi" "mi < 60"
    and "0 \<le> s" "s \<le> 60" and "0 \<le> f" "f < 10 ^ p" "p \<le> 9"
  shows "UtcTimeStamp_parse (date_text y m d @ ''-'' @ clock_text h mi s @ fraction_text p f) =
    Some (DateTime_of_fraction y m d h mi s f (int p))"
proof -
  have f: "p \<noteq> 0 \<Longrightarrow> length (pad_digits p (nat f)) = p" using assms(13,14) by (intro length_pad) (simp_all add: nat_less_iff)
  have zero: "p = 0 \<Longrightarrow> f = 0" using assms(13,14) by simp
  note lens = length_pad4 [OF assms(1,2)] length_pad2 [of m] length_pad2 [of d] length_pad2 [of h] length_pad2 [of mi]
    length_pad2 [of s]
  show ?thesis
    using assms lens f zero
    by (cases "p = 0") (simp_all add: UtcTimeStamp_parse_def Let_def date_text_def clock_text_def fraction_text_def
        digits_at_def number_at_def all_digits_list_all nth_append DateTime_of_millis_def DateTime_of_fraction_def
        convertToNanos_def)
qed

lemma read_time_only:
  fixes h mi s f :: int and p :: nat
  assumes "0 \<le> h" "h < 24" "0 \<le> mi" "mi < 60" "0 \<le> s" "s \<le> 60" and "0 \<le> f" "f < 10 ^ p" "p \<le> 9"
  shows "UtcTimeOnly_parse (clock_text h mi s @ fraction_text p f) =
    Some (setHMS_fraction h mi s f (int p) (DateTime_of 0 0))"
proof -
  have f: "p \<noteq> 0 \<Longrightarrow> length (pad_digits p (nat f)) = p" using assms(7,8) by (intro length_pad) (simp_all add: nat_less_iff)
  have zero: "p = 0 \<Longrightarrow> f = 0" using assms(7,8) by simp
  note lens = length_pad2 [of h] length_pad2 [of mi] length_pad2 [of s]
  show ?thesis
    using assms lens f zero
    by (cases "p = 0") (simp_all add: UtcTimeOnly_parse_def Let_def clock_text_def fraction_text_def
        digits_at_def number_at_def all_digits_list_all nth_append setHMS_def setHMS_fraction_def convertToNanos_def)
qed

lemma read_date:
  fixes y m d :: int
  assumes "0 \<le> y" "y < 10000" "1 \<le> m" "m \<le> 12" "1 \<le> d" "d \<le> 31"
  shows "UtcDate_parse (date_text y m d) = Some (DateTime_of_millis y m d 0 0 0 0)"
  using assms length_pad4 [OF assms(1,2)] length_pad2 [of m] length_pad2 [of d]
  by (simp add: UtcDate_parse_def Let_def date_text_def digits_at_def number_at_def all_digits_list_all)

text \<open>The parts of a time of day, and the time cut to a precision that they give back.\<close>

definition cut_to :: "int \<Rightarrow> DateTime \<Rightarrow> DateTime" where
  "cut_to precision t = t\<lparr>m_time := m_time t - m_time t mod precision_factor precision\<rparr>"

lemma precision_factor_power:
  assumes "p \<le> 9"
  shows "precision_factor (int p) * 10 ^ p = NANOS_PER_SEC"
proof -
  have "p = 0 \<or> p = 1 \<or> p = 2 \<or> p = 3 \<or> p = 4 \<or> p = 5 \<or> p = 6 \<or> p = 7 \<or> p = 8 \<or> p = 9"
    using assms by presburger
  then show ?thesis by (elim disjE) (simp_all add: precision_factor_def PRECISION_FACTOR_def NANOS_PER_SEC_def)
qed

lemma hms_parts:
  fixes p :: nat
  assumes "time_ok t" and "p \<le> 9"
  obtains h mi s f where "getHMS_fraction (int p) t = (h, mi, s, f)"
    and "0 \<le> h" "h < 24" "0 \<le> mi" "mi < 60" "0 \<le> s" "s < 60" "0 \<le> f" "f < 10 ^ p"
    and "makeHMS h mi s (convertToNanos f (int p)) = m_time (cut_to (int p) t)"
proof -
  define T n k where "T = m_time t div NANOS_PER_SEC" and "n = m_time t mod NANOS_PER_SEC"
    and "k = precision_factor (int p)"
  have k: "k * 10 ^ p = NANOS_PER_SEC" using precision_factor_power [OF assms(2)] by (simp add: k_def)
  then have kpos: "0 < k" by (metis NANOS_PER_SEC_def zero_less_mult_pos2 zero_less_numeral zero_less_power)
  have t: "0 \<le> m_time t" "m_time t < NANOS_PER_DAY" using assms(1) by (simp_all add: time_ok_def)
  have T: "0 \<le> T" "T < 86400"
    using t div_bounds [of NANOS_PER_SEC "m_time t"] by (simp_all add: T_def NANOS_PER_SEC_def NANOS_PER_DAY_def)
  have m: "m_time t = NANOS_PER_SEC * T + n" by (simp add: T_def n_def)
  have n: "0 \<le> n" "n < k * 10 ^ p" unfolding k n_def by (simp_all add: NANOS_PER_SEC_def)
  have nano: "getNanosecond t = n"
    using t by (simp add: getNanosecond_def n_def NANOS_PER_DAY_def mod_pos_pos_trivial)
  have ticks: "m_time t sdiv NANOS_PER_SEC = T" using t(1) by (simp add: T_def sdiv_nonneg_eq NANOS_PER_SEC_def)
  have parts: "getHMS_fraction (int p) t = (T div 3600, (T div 60) mod 60, T mod 60, n div k)"
    using T by (simp add: getHMS_fraction_def Let_def ticks getFraction_def nano k_def [symmetric] SECONDS_PER_HOUR_def
        SECONDS_PER_MIN_def MINUTES_PER_HOUR_def sdiv_nonneg_eq smod_nonneg_eq pos_imp_zdiv_nonneg_iff)
  have secs: "3600 * (T div 3600) + 60 * ((T div 60) mod 60) + T mod 60 = T"
  proof -
    define q where "q = T div 60"
    have "T div 3600 = q div 60" using zdiv_zmult2_eq [of 60 T 60] by (simp add: q_def)
    moreover have "T = 60 * q + T mod 60" "q = 60 * (q div 60) + q mod 60" by (simp_all add: q_def)
    ultimately show ?thesis unfolding q_def [symmetric] by linarith
  qed
  have "m_time t mod k = n mod k"
    unfolding m k [symmetric] by (simp add: mult.assoc)
  moreover have "n div k * k = n - n mod k" by (simp add: minus_mod_eq_div_mult)
  ultimately have "makeHMS (T div 3600) ((T div 60) mod 60) (T mod 60) (convertToNanos (n div k) (int p)) =
      m_time (cut_to (int p) t)"
    using m secs by (simp add: makeHMS_def convertToNanos_def k_def [symmetric] cut_to_def SECONDS_PER_HOUR_def SECONDS_PER_MIN_def)
  moreover have "T div 3600 < 24" "0 \<le> T div 3600"
    using T div_bounds [of 3600 T] by (simp_all add: pos_imp_zdiv_nonneg_iff)
  moreover have "0 \<le> n div k" using n kpos by (simp add: pos_imp_zdiv_nonneg_iff)
  moreover have "k * (n div k) < k * 10 ^ p" using n(2) div_bounds [OF kpos, of n] by linarith
  then have "n div k < 10 ^ p" using kpos by (simp only: mult_less_cancel_left_pos)
  ultimately show thesis by (intro that [OF parts]) simp_all
qed

lemma slots_stamp:
  assumes "0 \<le> y" "y < 10000" "1 \<le> m" "m \<le> 12" "1 \<le> d" "d \<le> 31"
  shows "slots (slot 4 y # slot 2 m # slot 2 d # rest) = map_option ((@) (date_text y m d)) (slots rest)"
proof -
  have "slot 4 y = Some (pad_digits 4 (nat y))" "slot 2 m = Some (pad_digits 2 (nat m))"
    "slot 2 d = Some (pad_digits 2 (nat d))"
    using assms by (intro slot_eq; simp)+
  then show ?thesis by (cases "slots rest") (simp_all add: date_text_def)
qed

lemma slots_clock:
  assumes "0 \<le> h" "h < 24" "0 \<le> mi" "mi < 60" "0 \<le> s" "s < 60" and "0 \<le> f" "f < 10 ^ p" "p \<le> 9"
  shows "slots ([slot 2 h, Some '':'', slot 2 mi, Some '':'', slot 2 s] @
      (if int p \<noteq> 0 then [Some ''.'', slot (nat (int p)) f] else [])) = Some (clock_text h mi s @ fraction_text p f)"
proof -
  have "slot 2 h = Some (pad_digits 2 (nat h))" "slot 2 mi = Some (pad_digits 2 (nat mi))"
    "slot 2 s = Some (pad_digits 2 (nat s))"
    using assms by (intro slot_eq; simp)+
  moreover have "p \<noteq> 0 \<Longrightarrow> slot p f = Some (pad_digits p (nat f))" using assms(7-9) by (intro slot_eq) simp_all
  ultimately show ?thesis by (simp add: clock_text_def fraction_text_def)
qed

lemma clamp_nat: "\<exists>p. clamp_of precision 0 9 = int p \<and> p \<le> 9"
  by (intro exI [of _ "nat (clamp_of precision 0 9)"]) (auto simp: clamp_of_def)

text \<open>C38. A date and time of the years 0 to 9999 is written, at any precision, as a text that reads back
  as the same date and the time cut to that precision; so are a time of day and a date.\<close>

theorem time_text_roundtrip:
  assumes "time_ok t" and "-32044 \<le> m_date t" and "0 \<le> getYear t" and "getYear t \<le> 9999"
  shows "Option.bind (UtcTimeStamp_convert t precision) UtcTimeStamp_parse = Some (cut_to (clamp_of precision 0 9) t) \<and>
    Option.bind (UtcTimeOnly_convert (UtcTimeOnly t) precision) UtcTimeOnly_parse =
      Some (cut_to (clamp_of precision 0 9) (UtcTimeOnly t)) \<and>
    Option.bind (UtcDate_convert (UtcDate t)) UtcDate_parse = Some (UtcDate t)"
proof -
  obtain p where p: "clamp_of precision 0 9 = int p" "p \<le> 9" using clamp_nat by blast
  obtain y m d where ymd: "getYMD (m_date t) = (y, m, d)" by (metis prod_cases3)
  have "valid_date y m d" and jd: "julianDate y m d = m_date t"
    using julianDate_getYMD [OF assms(2)] ymd by auto
  moreover have "d \<le> month_length y m \<Longrightarrow> d \<le> 31" by (auto simp: month_length_def split: if_splits)
  ultimately have date: "0 \<le> y" "y < 10000" "1 \<le> m" "m \<le> 12" "1 \<le> d" "d \<le> 31"
    using assms(3,4) by (simp_all add: getYear_def ymd valid_date_def)
  obtain h mi s f where hms: "getHMS_fraction (int p) t = (h, mi, s, f)"
    and clock: "0 \<le> h" "h < 24" "0 \<le> mi" "mi < 60" "0 \<le> s" "s < 60" and frac: "0 \<le> f" "f < 10 ^ p"
    and nanos: "makeHMS h mi s (convertToNanos f (int p)) = m_time (cut_to (int p) t)"
    by (rule hms_parts [OF assms(1) p(2)])
  note written = slots_clock [OF clock frac p(2)]
  have "getHMS_fraction (int p) (UtcTimeOnly t) = getHMS_fraction (int p) t"
    by (simp add: getHMS_fraction_def getFraction_def getNanosecond_def UtcTimeOnly_def clearDate_def)
  then have only: "UtcTimeOnly_convert (UtcTimeOnly t) precision = Some (clock_text h mi s @ fraction_text p f)"
    unfolding UtcTimeOnly_convert_def Let_def p(1) by (simp only: hms prod.case written)
  have stamp: "UtcTimeStamp_convert t precision = Some (date_text y m d @ ''-'' @ clock_text h mi s @ fraction_text p f)"
    using slots_stamp [OF date] written
    by (simp add: UtcTimeStamp_convert_def Let_def p(1) ymd hms)
  have day: "UtcDate_convert (UtcDate t) = Some (date_text y m d)"
    using slots_stamp [OF date, of "[]"] by (simp add: UtcDate_convert_def UtcDate_def clearTime_def ymd)
  have "UtcTimeStamp_parse (date_text y m d @ ''-'' @ clock_text h mi s @ fraction_text p f) =
      Some (DateTime_of_fraction y m d h mi s f (int p))"
    by (rule read_stamp) (use date clock frac p(2) in simp_all)
  moreover have "DateTime_of_fraction y m d h mi s f (int p) = cut_to (int p) t"
    using nanos jd by (simp add: DateTime_of_fraction_def DateTime_of_def cut_to_def)
  moreover have "UtcTimeOnly_parse (clock_text h mi s @ fraction_text p f) =
      Some (setHMS_fraction h mi s f (int p) (DateTime_of 0 0))"
    by (rule read_time_only) (use clock frac p(2) in simp_all)
  moreover have "setHMS_fraction h mi s f (int p) (DateTime_of 0 0) = cut_to (int p) (UtcTimeOnly t)"
    using nanos by (simp add: setHMS_fraction_def DateTime_of_def cut_to_def UtcTimeOnly_def clearDate_def)
  moreover have "UtcDate_parse (date_text y m d) = Some (UtcDate t)"
    using read_date [OF date] jd
    by (simp add: DateTime_of_millis_def makeHMS_def DateTime_of_def UtcDate_def clearTime_def)
  ultimately show ?thesis
    unfolding only stamp day p(1) by simp
qed

theorem time_text_roundtrip_witness:
  "Option.bind (UtcTimeStamp_convert (DateTime_of 2460310 3723123456789) 3) UtcTimeStamp_parse =
     Some (DateTime_of 2460310 3723123000000)"
proof -
  let ?t = "DateTime_of 2460310 3723123456789"
  have "time_ok ?t \<and> -32044 \<le> m_date ?t \<and> 0 \<le> getYear ?t \<and> getYear ?t \<le> 9999" by code_simp
  moreover have "cut_to (clamp_of 3 0 9) ?t = DateTime_of 2460310 3723123000000" by code_simp
  ultimately show ?thesis using time_text_roundtrip [of ?t 3] by simp
qed

text \<open>The days of a month are not checked against its length: the 31st of February is read as the 2nd or
  3rd of March.\<close>

lemma february_31: "UtcDate_parse ''20230231'' = UtcDate_parse ''20230303''"
  by code_simp

end
