(* ===== verification/Dictionary_Check.thy ===== *)
theory Dictionary_Check
  imports Fix_Message Time_Text
begin

text \<open>
  The validator of a data dictionary (flashfix/include/DataDictionary.h, flashfix/src/DataDictionary.cpp):
  the checks of one field, of the required fields with their groups, and of a whole message. A check
  returns the exception it throws, \<open>None\<close> when it passes; the exceptions are those of
  flashfix/include/Exceptions.h that the engine throws.
\<close>

section \<open>Exceptions\<close>

datatype fix_exception =
    DataDictionaryNotFound string
  | FieldNotFound int
  | FieldConvertError
  | MessageParseError
  | InvalidMessage message_error
  | ConfigError string
  | RuntimeError string
  | InvalidTagNumber int
  | RequiredTagMissing int
  | TagNotDefinedForMessage int
  | NoTagValue int
  | IncorrectTagValue int
  | IncorrectDataFormat int string
  | IncorrectMessageStructure
  | InvalidMessageType
  | UnsupportedMessageType
  | UnsupportedVersion
  | TagOutOfOrder int
  | RepeatedTag int
  | RepeatingGroupCountMismatch int
  | DoNotSend
  | RejectLogon string
  | SessionNotFound
  | IOException string

text \<open>Checks one after the other: the first exception leaves.\<close>

fun checks :: "fix_exception option list \<Rightarrow> fix_exception option" where
  "checks [] = None"
| "checks (Some e # es) = Some e"
| "checks (None # es) = checks es"

section \<open>The checks\<close>

definition checkFieldsOutOfOrder :: "bool \<Rightarrow> DataDictionary \<Rightarrow> DataDictionary" where
  "checkFieldsOutOfOrder val = with_data (\<lambda>d. d\<lparr>dd_checkFieldsOutOfOrder := val\<rparr>)"

definition checkFieldsHaveValues :: "bool \<Rightarrow> DataDictionary \<Rightarrow> DataDictionary" where
  "checkFieldsHaveValues val = with_data (\<lambda>d. d\<lparr>dd_checkFieldsHaveValues := val\<rparr>)"

definition checkUserDefinedFields :: "bool \<Rightarrow> DataDictionary \<Rightarrow> DataDictionary" where
  "checkUserDefinedFields val = with_data (\<lambda>d. d\<lparr>dd_checkUserDefinedFields := val\<rparr>)"

definition allowUnknownMsgFields :: "bool \<Rightarrow> DataDictionary \<Rightarrow> DataDictionary" where
  "allowUnknownMsgFields val = with_data (\<lambda>d. d\<lparr>dd_allowUnknownMessageFields := val\<rparr>)"

definition preserveMessageFieldsOrder :: "bool \<Rightarrow> DataDictionary \<Rightarrow> DataDictionary" where
  "preserveMessageFieldsOrder val = with_data (\<lambda>d. d\<lparr>dd_storeMsgFieldsOrder := val\<rparr>)"

definition isMessageFieldsOrderPreserved :: "DataDictionary \<Rightarrow> bool" where
  "isMessageFieldsOrderPreserved d = dd_storeMsgFieldsOrder (dd_data d)"

definition checkMsgType :: "string \<Rightarrow> DataDictionary \<Rightarrow> fix_exception option" where
  "checkMsgType msgType d = (if \<not> isMsgType msgType d then Some InvalidMessageType else None)"

definition UserMin :: int where "UserMin = 5000"

definition shouldCheckTag :: "FieldBase \<Rightarrow> DataDictionary \<Rightarrow> bool" where
  "shouldCheckTag field d =
     (if dd_allowUnknownMessageFields (dd_data d) \<and> f_tag field < UserMin then False
      else if \<not> dd_checkUserDefinedFields (dd_data d) \<and> f_tag field \<ge> UserMin then False
      else True)"

definition checkValidTagNumber :: "FieldBase \<Rightarrow> DataDictionary \<Rightarrow> fix_exception option" where
  "checkValidTagNumber field d =
     (if f_tag field \<notin> dd_fields (dd_data d) then Some (InvalidTagNumber (f_tag field)) else None)"

text \<open>The converter of each type; a text converter accepts everything.\<close>

fun converts :: "field_type \<Rightarrow> string \<Rightarrow> bool" where
  "converts TYPE_Char s = (Char_parse s \<noteq> None)"
| "converts TYPE_Price s = Double_accepts s"
| "converts TYPE_Int s = ((IntT_parse True s :: 32 word option) \<noteq> None)"
| "converts TYPE_Amt s = Double_accepts s"
| "converts TYPE_Qty s = Double_accepts s"
| "converts TYPE_UtcTimeStamp s = (UtcTimeStamp_parse s \<noteq> None)"
| "converts TYPE_Boolean s = (Bool_parse s \<noteq> None)"
| "converts TYPE_Float s = Double_accepts s"
| "converts TYPE_PriceOffset s = Double_accepts s"
| "converts TYPE_UtcDate s = (UtcDate_parse s \<noteq> None)"
| "converts TYPE_UtcTimeOnly s = (UtcTimeOnly_parse s \<noteq> None)"
| "converts TYPE_NumInGroup s = ((IntT_parse True s :: 32 word option) \<noteq> None)"
| "converts TYPE_Percentage s = Double_accepts s"
| "converts TYPE_SeqNum s = ((IntT_parse False s :: 64 word option) \<noteq> None)"
| "converts TYPE_TagNum s = ((IntT_parse True s :: 32 word option) \<noteq> None)"
| "converts TYPE_Length s = ((IntT_parse True s :: 32 word option) \<noteq> None)"
| "converts _ s = True"

definition checkValidFormat :: "FieldBase \<Rightarrow> DataDictionary \<Rightarrow> fix_exception option" where
  "checkValidFormat field d =
     (let ty = (case getFieldType (f_tag field) d of None \<Rightarrow> TYPE_Unknown | Some ty \<Rightarrow> ty)
      in if \<not> converts ty (f_string field) then Some (IncorrectDataFormat (f_tag field) (f_string field)) else None)"

definition checkValue :: "FieldBase \<Rightarrow> DataDictionary \<Rightarrow> fix_exception option" where
  "checkValue field d =
     (if \<not> hasFieldValue (f_tag field) d then None
      else if \<not> isFieldValue (f_tag field) (f_string field) d then Some (IncorrectTagValue (f_tag field))
      else None)"

definition checkHasValue :: "FieldBase \<Rightarrow> DataDictionary \<Rightarrow> fix_exception option" where
  "checkHasValue field d =
     (if dd_checkFieldsHaveValues (dd_data d) \<and> length (f_string field) = 0
      then Some (NoTagValue (f_tag field)) else None)"

definition checkIsInMessage :: "FieldBase \<Rightarrow> string \<Rightarrow> DataDictionary \<Rightarrow> fix_exception option" where
  "checkIsInMessage field msgType d =
     (if \<not> isMsgField msgType (f_tag field) d then Some (TagNotDefinedForMessage (f_tag field)) else None)"

definition checkGroupCount :: "FieldBase \<Rightarrow> FieldMap \<Rightarrow> string \<Rightarrow> DataDictionary \<Rightarrow> fix_exception option" where
  "checkGroupCount field fieldMap msgType d =
     (let fieldNum = f_tag field in
      if isGroup msgType fieldNum d then
        case IntT_parse True (f_string field) :: 32 word option of
          None \<Rightarrow> Some FieldConvertError
        | Some n \<Rightarrow>
            if (word_of_int (int (groupCount fieldNum fieldMap)) :: 32 word) \<noteq> n
            then Some (RepeatingGroupCountMismatch fieldNum) else None
      else None)"

section \<open>Required fields\<close>

definition missing_from :: "FieldMap \<Rightarrow> int list \<Rightarrow> fix_exception option" where
  "missing_from m tags = checks (map (\<lambda>tag. if \<not> isSetField tag m then Some (RequiredTagMissing tag) else None) tags)"

definition required_tags :: "(int \<times> bool) list \<Rightarrow> int list" where
  "required_tags nbf = map fst (filter snd nbf)"

function checkHasRequired ::
  "FieldMap \<Rightarrow> FieldMap \<Rightarrow> FieldMap \<Rightarrow> string \<Rightarrow> DataDictionary \<Rightarrow> fix_exception option" where
  "checkHasRequired header body trailer msgType d =
     checks
       [missing_from header (required_tags (dd_headerFields (dd_data d))),
        missing_from trailer (required_tags (dd_trailerFields (dd_data d))),
        (case dd_requiredFields (dd_data d) msgType of
           None \<Rightarrow> None
         | Some required \<Rightarrow>
             checks
               (missing_from body required #
                map (\<lambda>(field, groups).
                  case getGroup msgType field d of
                    None \<Rightarrow> None
                  | Some (delim, dd) \<Rightarrow>
                      checks (map (\<lambda>group. checkHasRequired group group group msgType dd) groups))
                  (fm_groups body)))]"
  by pat_completeness auto
termination
  by (relation "measure (\<lambda>(header, body, trailer, msgType, d). size d)") (auto intro: size_getGroup)

declare checkHasRequired.simps [simp del]

section \<open>Whole messages\<close>

text \<open>The checks of one field; \<open>first\<close> says that no field comes before it.\<close>

definition check_field ::
  "FieldMap \<Rightarrow> string \<Rightarrow> bool \<Rightarrow> int \<Rightarrow> FieldBase \<Rightarrow> DataDictionary \<Rightarrow> fix_exception option" where
  "check_field fm msgType first lastField field d =
     checks
       ([if \<not> first \<and> f_tag field = lastField then Some (RepeatedTag lastField) else None,
         checkHasValue field d] @
        (if dd_hasVersion (dd_data d) then [checkValidFormat field d, checkValue field d] else []) @
        (if length (dd_beginString (dd_data d)) \<noteq> 0 \<and> shouldCheckTag field d then
           checkValidTagNumber field d #
           (if \<not> Message_isHeaderField_in (f_tag field) (Some d) \<and> \<not> Message_isTrailerField_in (f_tag field) (Some d)
            then [checkIsInMessage field msgType d, checkGroupCount field fm msgType d] else [])
         else []))"

fun iterate_loop ::
  "FieldMap \<Rightarrow> string \<Rightarrow> DataDictionary \<Rightarrow> bool \<Rightarrow> int \<Rightarrow> FieldBase list \<Rightarrow> fix_exception option" where
  "iterate_loop fm msgType d first lastField [] = None"
| "iterate_loop fm msgType d first lastField (field # fs) =
     (case check_field fm msgType first lastField field d of
        Some e \<Rightarrow> Some e
      | None \<Rightarrow> iterate_loop fm msgType d False (f_tag field) fs)"

definition iterate :: "FieldMap \<Rightarrow> string \<Rightarrow> DataDictionary \<Rightarrow> fix_exception option" where
  "iterate fm msgType d = iterate_loop fm msgType d True 0 (fm_fields fm)"

definition hasValidStructure :: "Message \<Rightarrow> bool \<times> int" where
  "hasValidStructure m = (msg_validStructure m, msg_tag m)"

definition DataDictionary_validate ::
  "Message \<Rightarrow> DataDictionary option \<Rightarrow> DataDictionary option \<Rightarrow> fix_exception option" where
  "DataDictionary_validate message pSessionDD pAppDD =
     (let header = msg_header message in
      case getFieldRef TAG_BeginString header of
        None \<Rightarrow> Some (FieldNotFound TAG_BeginString)
      | Some beginString \<Rightarrow>
      case getFieldRef 35 header of
        None \<Rightarrow> Some (FieldNotFound 35)
      | Some msgTypeField \<Rightarrow>
          let msgType = f_string msgTypeField in
          checks
            [case pSessionDD of
               None \<Rightarrow> None
             | Some dd \<Rightarrow>
                 if dd_hasVersion (dd_data dd) \<and> getVersion dd \<noteq> f_string beginString
                 then Some UnsupportedVersion else None,
             (case hasValidStructure message of (valid, field) \<Rightarrow>
                if ((case pSessionDD of None \<Rightarrow> False | Some dd \<Rightarrow> dd_checkFieldsOutOfOrder (dd_data dd)) \<or>
                    (case pAppDD of None \<Rightarrow> False | Some dd \<Rightarrow> dd_checkFieldsOutOfOrder (dd_data dd))) \<and> \<not> valid
                then Some (TagOutOfOrder field) else None),
             (case pAppDD of
                None \<Rightarrow> None
              | Some dd \<Rightarrow>
                  if dd_hasVersion (dd_data dd)
                  then checks [checkMsgType msgType dd,
                    checkHasRequired (msg_header message) (msg_body message) (msg_trailer message) msgType dd]
                  else None),
             (case pSessionDD of
                None \<Rightarrow> None
              | Some dd \<Rightarrow> checks [iterate (msg_header message) msgType dd, iterate (msg_trailer message) msgType dd]),
             (case pAppDD of None \<Rightarrow> None | Some dd \<Rightarrow> iterate (msg_body message) msgType dd)])"

definition DataDictionary_validate_one ::
  "Message \<Rightarrow> bool \<Rightarrow> DataDictionary \<Rightarrow> fix_exception option" where
  "DataDictionary_validate_one message bodyOnly d =
     DataDictionary_validate message (if bodyOnly then None else Some d) (Some d)"

end
