(* ===== verification/Dictionary_Laws.thy ===== *)
theory Dictionary_Laws
  imports Dictionary_Check Message_Laws
begin

text \<open>
  What the validator accepts, stated without its order of checks: a message passes exactly when its
  version and type are known, its required fields are there, no tag is repeated in a part and every field
  of the three parts is valid by itself. Of the instances of groups only the required fields are checked,
  and only below maps whose dictionary requires a field of the message type.
\<close>

section \<open>The specification\<close>

definition type_of :: "DataDictionary \<Rightarrow> int \<Rightarrow> field_type" where
  "type_of d tag = (case dd_fieldTypes (dd_data d) tag of None \<Rightarrow> TYPE_Unknown | Some ty \<Rightarrow> ty)"

definition known_field :: "DataDictionary \<Rightarrow> string \<Rightarrow> FieldMap \<Rightarrow> FieldBase \<Rightarrow> bool" where
  "known_field d msgType fm f \<longleftrightarrow>
     f_tag f \<in> dd_fields (dd_data d) \<and>
     (Message_isHeaderField_in (f_tag f) (Some d) \<or> Message_isTrailerField_in (f_tag f) (Some d) \<or>
      isMsgField msgType (f_tag f) d \<and>
      (isGroup msgType (f_tag f) d \<longrightarrow>
        IntT_parse True (f_string f) = Some (word_of_int (int (groupCount (f_tag f) fm)) :: 32 word)))"

definition valid_field :: "DataDictionary \<Rightarrow> string \<Rightarrow> FieldMap \<Rightarrow> FieldBase \<Rightarrow> bool" where
  "valid_field d msgType fm f \<longleftrightarrow>
     (dd_checkFieldsHaveValues (dd_data d) \<longrightarrow> f_string f \<noteq> []) \<and>
     (dd_hasVersion (dd_data d) \<longrightarrow>
       converts (type_of d (f_tag f)) (f_string f) \<and>
       (hasFieldValue (f_tag f) d \<longrightarrow> isFieldValue (f_tag f) (f_string f) d)) \<and>
     (dd_beginString (dd_data d) \<noteq> [] \<and> shouldCheckTag f d \<longrightarrow> known_field d msgType fm f)"

definition valid_part :: "DataDictionary \<Rightarrow> string \<Rightarrow> FieldMap \<Rightarrow> bool" where
  "valid_part d msgType fm \<longleftrightarrow>
     distinct (map f_tag (fm_fields fm)) \<and> (\<forall>f \<in> set (fm_fields fm). valid_field d msgType fm f)"

definition has_required :: "DataDictionary \<Rightarrow> string \<Rightarrow> FieldMap \<Rightarrow> FieldMap \<Rightarrow> FieldMap \<Rightarrow> bool" where
  "has_required d msgType header body trailer \<longleftrightarrow>
     (\<forall>(tag, required) \<in> set (dd_headerFields (dd_data d)). required \<longrightarrow> isSetField tag header) \<and>
     (\<forall>(tag, required) \<in> set (dd_trailerFields (dd_data d)). required \<longrightarrow> isSetField tag trailer) \<and>
     (\<forall>tag. isRequiredField msgType tag d \<longrightarrow> isSetField tag body)"

text \<open>
  The instances of groups that the check of required fields reaches below a map: it goes down only
  where the dictionary of the map has an entry for the message type in its required fields. Instances below
  a map without such an entry are not reached, whatever they lack (\<open>groups_unchecked\<close>).
\<close>

inductive group_below :: "string \<Rightarrow> DataDictionary \<Rightarrow> FieldMap \<Rightarrow> DataDictionary \<Rightarrow> FieldMap \<Rightarrow> bool" for msgType where
  here: "dd_requiredFields (dd_data d) msgType \<noteq> None \<Longrightarrow> (field, groups) \<in> set (fm_groups body) \<Longrightarrow>
    getGroup msgType field d = Some (delim, d') \<Longrightarrow> g \<in> set groups \<Longrightarrow> group_below msgType d body d' g"
| deeper: "dd_requiredFields (dd_data d) msgType \<noteq> None \<Longrightarrow> (field, groups) \<in> set (fm_groups body) \<Longrightarrow>
    getGroup msgType field d = Some (delim, d') \<Longrightarrow> g \<in> set groups \<Longrightarrow> group_below msgType d' g d'' g' \<Longrightarrow>
    group_below msgType d body d'' g'"

inductive_simps group_below_iff: "group_below msgType d body d' g"

section \<open>Checks in a row\<close>

lemma checks_None [simp]: "checks es = None \<longleftrightarrow> (\<forall>e \<in> set es. e = None)"
  by (induction es rule: checks.induct) auto

lemma if_Some_None [simp]: "(if b then Some e else None) = None \<longleftrightarrow> \<not> b" "(if b then None else Some e) = None \<longleftrightarrow> b"
  by simp_all

declare checks.simps [simp del]

lemma missing_from_None: "missing_from m tags = None \<longleftrightarrow> (\<forall>tag \<in> set tags. isSetField tag m)"
  by (simp add: missing_from_def if_image_distrib) auto

lemma checkHasRequired_None:
  "checkHasRequired header body trailer msgType d = None \<longleftrightarrow>
     has_required d msgType header body trailer \<and>
     (\<forall>d' g. group_below msgType d body d' g \<longrightarrow> has_required d' msgType g g g)"
proof (induction header body trailer msgType d rule: checkHasRequired.induct)
  case (1 header body trailer msgType d)
  show ?case
  proof (cases "dd_requiredFields (dd_data d) msgType")
    case None
    then have "\<not> group_below msgType d body d' g" for d' g
      by (subst group_below_iff) simp
    with None show ?thesis
      by (subst checkHasRequired.simps)
        (auto simp: missing_from_None required_tags_def has_required_def isRequiredField_def)
  next
    case (Some required)
    have below: "(\<forall>d' g. group_below msgType d body d' g \<longrightarrow> has_required d' msgType g g g) \<longleftrightarrow>
      (\<forall>(field, groups) \<in> set (fm_groups body). \<forall>delim d'. getGroup msgType field d = Some (delim, d') \<longrightarrow>
        (\<forall>g \<in> set groups. has_required d' msgType g g g \<and>
          (\<forall>d'' g'. group_below msgType d' g d'' g' \<longrightarrow> has_required d'' msgType g' g' g')))"
      (is "?all \<longleftrightarrow> ?each")
    proof
      assume ?all
      then show ?each using Some group_below.intros [of d msgType _ _ body] by blast
    next
      assume each: ?each
      show ?all
      proof (intro allI impI)
        fix d' g
        assume "group_below msgType d body d' g"
        then show "has_required d' msgType g g g" using each by (cases rule: group_below.cases) blast+
      qed
    qed
    let ?check = "\<lambda>field groups. case getGroup msgType field d of None \<Rightarrow> None
        | Some (delim, dd) \<Rightarrow> checks (map (\<lambda>group. checkHasRequired group group group msgType dd) groups)"
    have one: "?check field groups = None \<longleftrightarrow>
      (\<forall>delim d'. getGroup msgType field d = Some (delim, d') \<longrightarrow>
        (\<forall>g \<in> set groups. has_required d' msgType g g g \<and>
          (\<forall>d'' g'. group_below msgType d' g d'' g' \<longrightarrow> has_required d'' msgType g' g' g')))"
      if "(field, groups) \<in> set (fm_groups body)" for field groups
      using 1 [OF Some that refl] by (auto split: option.split)
    have "checkHasRequired header body trailer msgType d = None \<longleftrightarrow>
      has_required d msgType header body trailer \<and>
      (\<forall>(field, groups) \<in> set (fm_groups body). ?check field groups = None)"
      by (subst checkHasRequired.simps)
        (auto simp: Some missing_from_None required_tags_def has_required_def isRequiredField_def)
    moreover have "(\<forall>(field, groups) \<in> set (fm_groups body). ?check field groups = None) \<longleftrightarrow>
      (\<forall>(field, groups) \<in> set (fm_groups body). \<forall>delim d'. getGroup msgType field d = Some (delim, d') \<longrightarrow>
        (\<forall>g \<in> set groups. has_required d' msgType g g g \<and>
          (\<forall>d'' g'. group_below msgType d' g d'' g' \<longrightarrow> has_required d'' msgType g' g' g')))"
      by (rule ball_cong [OF refl], clarify, rule one)
    ultimately show ?thesis unfolding below by simp
  qed
qed

section \<open>One field\<close>

lemma check_one_None:
  "checkHasValue f d = None \<longleftrightarrow> (dd_checkFieldsHaveValues (dd_data d) \<longrightarrow> f_string f \<noteq> [])"
  "checkValidFormat f d = None \<longleftrightarrow> converts (type_of d (f_tag f)) (f_string f)"
  "checkValue f d = None \<longleftrightarrow> (hasFieldValue (f_tag f) d \<longrightarrow> isFieldValue (f_tag f) (f_string f) d)"
  "checkValidTagNumber f d = None \<longleftrightarrow> f_tag f \<in> dd_fields (dd_data d)"
  "checkIsInMessage f msgType d = None \<longleftrightarrow> isMsgField msgType (f_tag f) d"
  "checkGroupCount f fm msgType d = None \<longleftrightarrow> (isGroup msgType (f_tag f) d \<longrightarrow>
     IntT_parse True (f_string f) = Some (word_of_int (int (groupCount (f_tag f) fm)) :: 32 word))"
  by (simp_all add: checkHasValue_def checkValidFormat_def checkValue_def checkValidTagNumber_def
      checkIsInMessage_def checkGroupCount_def getFieldType_def type_of_def Let_def)
    (auto split: option.split)

lemma checks_if: "(\<forall>e \<in> set (if b then es else []). e = None) \<longleftrightarrow> (b \<longrightarrow> (\<forall>e \<in> set es. e = None))"
  by (cases b) simp_all

lemma check_field_None:
  "check_field fm msgType first lastField f d = None \<longleftrightarrow>
     (first \<or> f_tag f \<noteq> lastField) \<and> valid_field d msgType fm f"
proof -
  have "check_field fm msgType first lastField f d = None \<longleftrightarrow>
    (first \<or> f_tag f \<noteq> lastField) \<and> checkHasValue f d = None \<and>
    (dd_hasVersion (dd_data d) \<longrightarrow> checkValidFormat f d = None \<and> checkValue f d = None) \<and>
    (dd_beginString (dd_data d) \<noteq> [] \<and> shouldCheckTag f d \<longrightarrow> checkValidTagNumber f d = None \<and>
      (\<not> Message_isHeaderField_in (f_tag f) (Some d) \<and> \<not> Message_isTrailerField_in (f_tag f) (Some d) \<longrightarrow>
        checkIsInMessage f msgType d = None \<and> checkGroupCount f fm msgType d = None))"
    unfolding check_field_def by (simp only: checks_None set_append ball_Un list.set(2) ball_simps checks_if)
        (simp add: disj_commute)
  then show ?thesis
    unfolding check_one_None valid_field_def known_field_def by blast
qed

context tag_order
begin

text \<open>In a sorted list equal neighbours are the only repetition.\<close>

lemma repeated_is_next:
  assumes "fsorted less (f # f' # fs)" and "f_tag f \<in> f_tag ` set (f' # fs)"
  shows "f_tag f = f_tag f'"
  using assms neither by (auto simp: fsorted_def)

end

lemma iterate_loop_None:
  assumes "tag_order lt" and "fsorted lt fs"
  shows "iterate_loop fm msgType d first lastField fs = None \<longleftrightarrow>
    (first \<or> fs = [] \<or> f_tag (hd fs) \<noteq> lastField) \<and> distinct (map f_tag fs) \<and> (\<forall>f \<in> set fs. valid_field d msgType fm f)"
  using assms(2)
proof (induction fs arbitrary: first lastField)
  case (Cons f fs)
  have "fsorted lt fs" using Cons.prems by (simp add: fsorted_def)
  note IH = Cons.IH [OF this]
  have next_tag: "f_tag f \<notin> f_tag ` set fs \<longleftrightarrow> fs = [] \<or> f_tag (hd fs) \<noteq> f_tag f"
  proof (cases fs)
    case fs: (Cons f' gs)
    have "f_tag f = f_tag f'" if "f_tag f \<in> f_tag ` set fs"
      using tag_order.repeated_is_next [OF assms(1), of f f' gs] Cons.prems that fs by blast
    moreover have "f_tag f' \<in> f_tag ` set fs" "hd fs = f'" "fs \<noteq> []" using fs by simp_all
    ultimately show ?thesis by metis
  qed simp
  have step: "iterate_loop fm msgType d first lastField (f # fs) = None \<longleftrightarrow>
    check_field fm msgType first lastField f d = None \<and> iterate_loop fm msgType d False (f_tag f) fs = None"
    by (simp split: option.split)
  show ?case
    unfolding step check_field_None IH using next_tag by (simp add: image_set [symmetric]) blast
qed simp

lemma iterate_None:
  assumes "order_ok (fm_order fm)" and "fsorted (fm_less fm) (fm_fields fm)"
  shows "iterate fm msgType d = None \<longleftrightarrow> valid_part d msgType fm"
  unfolding iterate_def valid_part_def
  by (subst iterate_loop_None [OF message_order_ok [OF assms(1)] assms(2)]) simp

section \<open>Whole messages\<close>

definition in_order :: "FieldMap \<Rightarrow> bool" where
  "in_order fm \<longleftrightarrow> order_ok (fm_order fm) \<and> fsorted (fm_less fm) (fm_fields fm)"

text \<open>C39. A message that has a version and a type, its parts in order, passes the validator of a session
  dictionary and an application dictionary if and only if: the version is that of the session dictionary;
  its fields came in the order header, body, trailer, when either dictionary asks for it; if the application
  dictionary has a version, its type is known and its required fields are set, in the message and in those
  group instances that lie only below maps whose dictionaries require some field of the type; and in each of
  the three parts no tag is repeated and every field has a value of its type and its set of values, and is
  known for the message, with the number of groups that follow it. It says nothing of instances the check
  does not go down to, nor of the other fields inside the instances: they are not checked.\<close>

theorem validate_accepts:
  assumes "in_order (msg_header m)" and "in_order (msg_body m)" and "in_order (msg_trailer m)"
    and "getField_text 8 (msg_header m) = Some beginString" and "getField_text 35 (msg_header m) = Some msgType"
  shows "DataDictionary_validate m (Some s) (Some a) = None \<longleftrightarrow>
    (dd_hasVersion (dd_data s) \<longrightarrow> dd_beginString (dd_data s) = beginString) \<and>
    (dd_checkFieldsOutOfOrder (dd_data s) \<or> dd_checkFieldsOutOfOrder (dd_data a) \<longrightarrow> msg_validStructure m) \<and>
    (dd_hasVersion (dd_data a) \<longrightarrow>
      isMsgType msgType a \<and> has_required a msgType (msg_header m) (msg_body m) (msg_trailer m) \<and>
      (\<forall>d g. group_below msgType a (msg_body m) d g \<longrightarrow> has_required d msgType g g g)) \<and>
    valid_part s msgType (msg_header m) \<and> valid_part s msgType (msg_trailer m) \<and> valid_part a msgType (msg_body m)"
proof -
  from assms(4,5) obtain b t where "getFieldRef 8 (msg_header m) = Some b" "f_string b = beginString"
    and "getFieldRef 35 (msg_header m) = Some t" "f_string t = msgType"
    by (auto simp: getField_text_def)
  with assms(1-3) show ?thesis
    by (auto simp: DataDictionary_validate_def in_order_def iterate_None checkHasRequired_None checkMsgType_def
        hasValidStructure_def getVersion_def Let_def)
qed

text \<open>A dictionary with the heartbeat, built with the operations of the loader.\<close>

definition example_dictionary :: DataDictionary where
  "example_dictionary =
     addRequiredField ''0'' 112 (addMsgField ''0'' 112 (addMsgType ''0'' (addFieldType 112 TYPE_String
       (foldr dd_addField [8, 35, 49, 56, 112] (setVersion ''FIX.4.4'' (addHeaderField 49 True DataDictionary_new))))))"

theorem validate_accepts_witness:
  "valid_part example_dictionary ''0'' (msg_header example_message) \<and>
   valid_part example_dictionary ''0'' (msg_body example_message) \<and>
   has_required example_dictionary ''0'' (msg_header example_message) (msg_body example_message) (msg_trailer example_message)"
proof -
  have "in_order (msg_header example_message)" "in_order (msg_body example_message)" "in_order (msg_trailer example_message)"
    using example_message_ok by (simp_all add: in_order_def message_ok_def fm_ok_def)
  moreover have "getField_text 8 (msg_header example_message) = Some ''FIX.4.4''" by code_simp
  moreover have "getField_text 35 (msg_header example_message) = Some ''0''" by code_simp
  moreover have "DataDictionary_validate example_message (Some example_dictionary) (Some example_dictionary) = None"
    by code_simp
  moreover have "dd_hasVersion (dd_data example_dictionary)" by code_simp
  ultimately show ?thesis
    using validate_accepts [of example_message "''FIX.4.4''" "''0''" example_dictionary example_dictionary] by simp
qed

text \<open>
  A message type without required fields of its own does not have its groups looked at: here the group
  requires a field it does not have.
\<close>

definition group_dictionary :: DataDictionary where
  "group_dictionary =
     dd_addGroup ''0'' 146 55 (addRequiredField ''0'' 54 (addRequiredField ''0'' 55 DataDictionary_new)) DataDictionary_new"

lemma groups_unchecked:
  "checkHasRequired (FieldMap_new (message_order_new header_mode))
     (addGroup 146 (setField_text 55 ''BTC'' (FieldMap_new (message_order_new normal_mode))) True
       (FieldMap_new (message_order_new normal_mode)))
     (FieldMap_new (message_order_new trailer_mode)) ''0'' group_dictionary = None"
  "checkHasRequired (FieldMap_new (message_order_new header_mode))
     (addGroup 146 (setField_text 55 ''BTC'' (FieldMap_new (message_order_new normal_mode))) True
       (FieldMap_new (message_order_new normal_mode)))
     (FieldMap_new (message_order_new trailer_mode)) ''0'' (addRequiredField ''0'' 146 group_dictionary) =
   Some (RequiredTagMissing 54)"
  by code_simp+

end
