(* ===== verification/Message_Store.thy ===== *)
theory Message_Store
  imports Fix_DateTime "HOL-Library.Word"
begin

text \<open>
  The message store of a session (flashfix/include/MessageStore.h, flashfix/src/MessageStore.cpp):
  the messages sent, by sequence number, and the two next sequence numbers. The program uses the
  store in memory, which throws nothing. A sequence number is a 64-bit word; the map of the
  messages is the list of its entries in ascending order. The locale \<open>message_store\<close> is what a
  session asks of a store.
\<close>

section \<open>Ordered maps\<close>

fun map_put :: "'k::linorder \<Rightarrow> 'v \<Rightarrow> ('k \<times> 'v) list \<Rightarrow> ('k \<times> 'v) list" where
  "map_put k v [] = [(k, v)]"
| "map_put k v ((k', v') # es) =
     (if k < k' then (k, v) # (k', v') # es
      else if k = k' then (k, v) # es
      else (k', v') # map_put k v es)"

definition map_drop :: "'k \<Rightarrow> ('k \<times> 'v) list \<Rightarrow> ('k \<times> 'v) list" where
  "map_drop k es = filter (\<lambda>e. fst e \<noteq> k) es"

definition map_ok :: "('k::linorder \<times> 'v) list \<Rightarrow> bool" where
  "map_ok es = sorted_wrt (<) (map fst es)"

lemma keys_map_put [simp]: "fst ` set (map_put k v es) = insert k (fst ` set es)"
  by (induction k v es rule: map_put.induct) auto

lemma map_ok_put [simp]: "map_ok es \<Longrightarrow> map_ok (map_put k v es)"
proof (induction k v es rule: map_put.induct)
  case (2 k v k' v' es)
  then have *: "map_ok es" "\<forall>x \<in> fst ` set es. k' < x" by (simp_all add: map_ok_def)
  consider "k < k'" | "k = k'" | "k' < k" by (rule linorder_cases)
  then show ?case
  proof cases
    case 3
    then have "\<not> k < k'" "k \<noteq> k'" by auto
    with 2 * 3 have "map_ok (map_put k v es)" "\<forall>x \<in> fst ` set (map_put k v es). k' < x" by simp_all
    with \<open>\<not> k < k'\<close> \<open>k \<noteq> k'\<close> show ?thesis by (simp add: map_ok_def)
  qed (use * in \<open>auto simp: map_ok_def\<close>)
qed (simp add: map_ok_def)

lemma map_of_map_put [simp]: "map_ok es \<Longrightarrow> map_of (map_put k v es) = (map_of es)(k \<mapsto> v)"
proof (induction k v es rule: map_put.induct)
  case (2 k v k' v' es)
  then show ?case by (auto simp: map_ok_def)
qed simp

lemma map_of_map_drop [simp]: "map_of (map_drop k es) k' = (if k' = k then None else map_of es k')"
  by (induction es) (auto simp: map_drop_def)

lemma map_ok_drop [simp]: "map_ok es \<Longrightarrow> map_ok (map_drop k es)"
  by (auto simp: map_ok_def map_drop_def sorted_wrt_map sorted_wrt_filter)

lemma map_drop_shorter: "map_of es k \<noteq> None \<Longrightarrow> length (map_drop k es) < length es"
  unfolding map_drop_def by (auto dest!: map_of_SomeD intro!: length_filter_less)

lemma set_map_drop [simp]: "set (map_drop k es) = {e \<in> set es. fst e \<noteq> k}"
  by (simp add: map_drop_def)

section \<open>The store in memory\<close>

type_synonym seqnum = "64 word"

record MemoryStore =
  ms_messages :: "(seqnum \<times> string) list"
  ms_nextSenderMsgSeqNum :: seqnum
  ms_nextTargetMsgSeqNum :: seqnum
  ms_creationTime :: DateTime

definition MemoryStore_new :: "DateTime \<Rightarrow> MemoryStore" where
  "MemoryStore_new now = \<lparr>ms_messages = [], ms_nextSenderMsgSeqNum = 1, ms_nextTargetMsgSeqNum = 1,
     ms_creationTime = now\<rparr>"

definition MemoryStore_set :: "seqnum \<Rightarrow> string \<Rightarrow> MemoryStore \<Rightarrow> bool \<times> MemoryStore" where
  "MemoryStore_set msgSeqNum msg s = (True, s\<lparr>ms_messages := map_put msgSeqNum msg (ms_messages s)\<rparr>)"

text \<open>The walk starts at the first message of the range, when that one is there.\<close>

definition MemoryStore_get :: "seqnum \<Rightarrow> seqnum \<Rightarrow> MemoryStore \<Rightarrow> string list" where
  "MemoryStore_get b e s =
     map snd (takeWhile (\<lambda>p. fst p \<le> e) (dropWhile (\<lambda>p. fst p \<noteq> b) (ms_messages s)))"

definition setNextSender :: "seqnum \<Rightarrow> MemoryStore \<Rightarrow> MemoryStore" where
  "setNextSender n s = s\<lparr>ms_nextSenderMsgSeqNum := n\<rparr>"

definition setNextTarget :: "seqnum \<Rightarrow> MemoryStore \<Rightarrow> MemoryStore" where
  "setNextTarget n s = s\<lparr>ms_nextTargetMsgSeqNum := n\<rparr>"

definition incrNextSender :: "MemoryStore \<Rightarrow> MemoryStore" where
  "incrNextSender s = s\<lparr>ms_nextSenderMsgSeqNum := ms_nextSenderMsgSeqNum s + 1\<rparr>"

definition incrNextTarget :: "MemoryStore \<Rightarrow> MemoryStore" where
  "incrNextTarget s = s\<lparr>ms_nextTargetMsgSeqNum := ms_nextTargetMsgSeqNum s + 1\<rparr>"

definition setCreationTime :: "DateTime \<Rightarrow> MemoryStore \<Rightarrow> MemoryStore" where
  "setCreationTime t s = s\<lparr>ms_creationTime := t\<rparr>"

definition MemoryStore_reset :: "DateTime \<Rightarrow> MemoryStore \<Rightarrow> MemoryStore" where
  "MemoryStore_reset now s = s\<lparr>ms_nextSenderMsgSeqNum := 1, ms_nextTargetMsgSeqNum := 1, ms_messages := [],
     ms_creationTime := now\<rparr>"

definition MemoryStore_refresh :: "MemoryStore \<Rightarrow> MemoryStore" where
  "MemoryStore_refresh s = s"

lemma sorted_key_list_unique: "set ks = A \<Longrightarrow> sorted_wrt (<) ks \<Longrightarrow> sorted_list_of_set A = ks" for ks :: "'a::linorder list"
  by (metis strict_sorted_iff sorted_distinct_set_unique sorted_list_of_set(2,3) distinct_sorted_list_of_set set_sorted_list_of_set
      List.finite_set sorted_sorted_list_of_set)

section \<open>The interface\<close>

text \<open>
  What a store promises a session, over an invariant and the map it stands for: a range whose first
  message is there reads all its messages in order. \<open>keep_all\<close> stores a run of messages the way the
  session does, each under the next number.
\<close>

locale message_store =
  fixes ok :: "'s \<Rightarrow> bool"
    and content :: "'s \<Rightarrow> seqnum \<rightharpoonup> string"
    and get :: "seqnum \<Rightarrow> seqnum \<Rightarrow> 's \<Rightarrow> string list"
    and put :: "seqnum \<Rightarrow> string \<Rightarrow> 's \<Rightarrow> 's"
    and next_out :: "'s \<Rightarrow> seqnum"
    and incr_out :: "'s \<Rightarrow> 's"
  assumes ok_put: "ok s \<Longrightarrow> ok (put n m s)"
    and ok_incr: "ok s \<Longrightarrow> ok (incr_out s)"
    and content_put: "ok s \<Longrightarrow> content (put n m s) = (content s)(n \<mapsto> m)"
    and content_incr: "content (incr_out s) = content s"
    and next_put: "next_out (put n m s) = next_out s"
    and next_incr: "next_out (incr_out s) = next_out s + 1"
    and get_range: "ok s \<Longrightarrow> content s b \<noteq> None \<Longrightarrow>
      get b e s = map (\<lambda>n. the (content s n)) (sorted_list_of_set {n. content s n \<noteq> None \<and> b \<le> n \<and> n \<le> e})"
begin

definition keep :: "string \<Rightarrow> 's \<Rightarrow> 's" where
  "keep m s = incr_out (put (next_out s) m s)"

definition keep_all :: "string list \<Rightarrow> 's \<Rightarrow> 's" where
  "keep_all ms s = foldl (\<lambda>s m. keep m s) s ms"

lemma keep_all_laws:
  assumes "ok s" and "unat (next_out s) + length ms < 2 ^ 64"
  shows "ok (keep_all ms s) \<and> next_out (keep_all ms s) = next_out s + word_of_nat (length ms) \<and>
    (\<forall>n. content (keep_all ms s) n =
      (if unat (next_out s) \<le> unat n \<and> unat n < unat (next_out s) + length ms
       then Some (ms ! (unat n - unat (next_out s))) else content s n))"
  using assms
proof (induction ms arbitrary: s)
  case (Cons m ms)
  let ?s = "keep m s"
  have s: "ok ?s" "next_out ?s = next_out s + 1" "content ?s = (content s)(next_out s \<mapsto> m)"
    using Cons.prems(1) by (simp_all add: keep_def ok_incr ok_put next_incr next_put content_incr content_put)
  have u: "unat (next_out ?s) = Suc (unat (next_out s))"
    using Cons.prems(2) by (simp add: s unat_word_ariths)
  have IH: "ok (keep_all ms ?s) \<and> next_out (keep_all ms ?s) = next_out ?s + word_of_nat (length ms) \<and>
    (\<forall>n. content (keep_all ms ?s) n =
      (if unat (next_out ?s) \<le> unat n \<and> unat n < unat (next_out ?s) + length ms
       then Some (ms ! (unat n - unat (next_out ?s))) else content ?s n))"
    using Cons.IH [OF s(1)] Cons.prems(2) u by simp
  have all: "keep_all (m # ms) s = keep_all ms ?s" by (simp add: keep_all_def)
  have "content ?s n = (if unat n = unat (next_out s) then Some m else content s n)" for n
    by (simp add: s word_unat_eq_iff)
  then show ?case
    unfolding all using IH u s(2) by (auto simp: nth_Cons' Suc_diff_Suc)
qed (auto simp: keep_all_def)

text \<open>A run of messages that was stored is read back, whole and in order.\<close>

lemma run_read_back:
  assumes "ok s" and "ms \<noteq> []" and "unat (next_out s) + length ms < 2 ^ 64"
  shows "get (next_out s) (next_out s + word_of_nat (length ms) - 1) (keep_all ms s) = ms"
proof -
  let ?b = "next_out s" and ?s = "keep_all ms s"
  let ?B = "unat ?b" and ?L = "length ms"
  note laws = keep_all_laws [OF assms(1,3)]
  have pos: "0 < ?L" using assms(2) by simp
  let ?e = "?b + word_of_nat ?L - 1"
  have "?e = word_of_nat (?B + (?L - 1))"
    using pos by (simp add: of_nat_diff Suc_le_eq)
  then have "unat ?e = ?B + (?L - 1)"
    using assms(3) by (simp only: unat_of_nat) simp
  then have e: "Suc (unat ?e) = ?B + ?L" using pos by simp
  have "(\<exists>m. content ?s n = Some m) \<and> ?b \<le> n \<and> n \<le> ?e \<longleftrightarrow> ?B \<le> unat n \<and> unat n < ?B + ?L" for n
    using laws e by (auto simp: word_le_nat_alt)
  then have span: "{n. content ?s n \<noteq> None \<and> ?b \<le> n \<and> n \<le> ?e} = {n. ?B \<le> unat n \<and> unat n < ?B + ?L}"
    by auto
  let ?keys = "map (word_of_nat :: nat \<Rightarrow> seqnum) [?B ..< ?B + ?L]"
  have num: "unat (word_of_nat n :: seqnum) = n" if "n < ?B + ?L" for n
    using that assms(3) by (simp add: unat_of_nat)
  have "set ?keys = {n. ?B \<le> unat n \<and> unat n < ?B + ?L}"
  proof -
    have "x \<in> word_of_nat ` {?B ..< ?B + ?L}" if "?B \<le> unat x" "unat x < ?B + ?L" for x :: seqnum
      using that by (intro image_eqI [of x word_of_nat "unat x"]) (simp_all add: unsigned_ucast_eq)
    then show ?thesis using num by auto
  qed
  moreover have "sorted_wrt (<) ?keys"
    unfolding sorted_wrt_map
    by (rule sorted_wrt_mono_rel [OF _ sorted_wrt_upt]) (simp only: word_less_nat_alt num set_upt atLeastLessThan_iff)
  ultimately have keys: "sorted_list_of_set {n. ?B \<le> unat n \<and> unat n < ?B + ?L} = ?keys"
    by (intro sorted_key_list_unique)
  have held: "content ?s n = Some (ms ! (unat n - ?B))" if "?B \<le> unat n" "unat n < ?B + ?L" for n
    using laws that by simp
  then have "content ?s ?b \<noteq> None" using pos by simp
  from get_range [OF laws [THEN conjunct1] this, of ?e]
  have "get ?b ?e ?s = map (\<lambda>n. the (content ?s n)) ?keys" by (simp only: span keys)
  also have "\<dots> = map (\<lambda>n. ms ! (n - ?B)) [?B ..< ?B + ?L]"
    unfolding map_map by (rule map_cong [OF refl]) (simp only: comp_def held num set_upt atLeastLessThan_iff option.sel)
  also have "\<dots> = ms" by (rule nth_equalityI) simp_all
  finally show ?thesis .
qed

end

section \<open>The store keeps its promise\<close>

definition store_ok :: "MemoryStore \<Rightarrow> bool" where
  "store_ok s = map_ok (ms_messages s)"

lemma sorted_dropWhile: "map_ok es \<Longrightarrow> b \<in> fst ` set es \<Longrightarrow> dropWhile (\<lambda>p. fst p \<noteq> b) es = filter (\<lambda>p. b \<le> fst p) es"
proof (induction es)
  case (Cons p es)
  then have above: "\<forall>q \<in> set es. fst p < fst q" and ok: "map_ok es" by (auto simp: map_ok_def)
  show ?case
  proof (cases "fst p = b")
    case True
    then have "filter (\<lambda>p. b \<le> fst p) es = es" using above by (intro filter_True) auto
    with True show ?thesis by simp
  next
    case False
    with Cons.prems(2) have "b \<in> fst ` set es" by auto
    then have "fst p < b" using above by auto
    with False Cons.IH [OF ok \<open>b \<in> fst ` set es\<close>] show ?thesis by simp
  qed
qed simp

lemma sorted_takeWhile: "map_ok es \<Longrightarrow> takeWhile (\<lambda>p. fst p \<le> e) es = filter (\<lambda>p. fst p \<le> e) es"
proof (induction es)
  case (Cons p es)
  then have above: "\<forall>q \<in> set es. fst p < fst q" and ok: "map_ok es" by (auto simp: map_ok_def)
  show ?case
  proof (cases "fst p \<le> e")
    case False
    then have "filter (\<lambda>p. fst p \<le> e) es = []" using above by (intro filter_False) auto
    with False show ?thesis by simp
  qed (use Cons.IH [OF ok] in simp)
qed simp

lemma map_ok_filter: "map_ok es \<Longrightarrow> map_ok (filter P es)"
  by (auto simp: map_ok_def sorted_wrt_map sorted_wrt_filter)

lemma map_ok_entries:
  assumes "map_ok es"
  shows "map snd es = map (\<lambda>n. the (map_of es n)) (sorted_list_of_set (fst ` set es))"
proof -
  have "sorted_list_of_set (fst ` set es) = map fst es"
    using assms by (intro sorted_key_list_unique) (simp_all add: map_ok_def)
  moreover have "distinct (map fst es)" using assms strict_sorted_iff unfolding map_ok_def by blast
  then have "map (\<lambda>n. the (map_of es n)) (map fst es) = map snd es"
    by (auto simp: map_of_is_SomeI)
  ultimately show ?thesis by simp
qed

lemma MemoryStore_get_eq:
  assumes "store_ok s" and "map_of (ms_messages s) b \<noteq> None"
  shows "MemoryStore_get b e s =
    map (\<lambda>n. the (map_of (ms_messages s) n)) (sorted_list_of_set {n. map_of (ms_messages s) n \<noteq> None \<and> b \<le> n \<and> n \<le> e})"
proof -
  let ?es = "ms_messages s"
  let ?part = "filter (\<lambda>p. fst p \<le> e) (filter (\<lambda>p. b \<le> fst p) ?es)"
  have ok: "map_ok ?es" using assms(1) by (simp add: store_ok_def)
  have "b \<in> fst ` set ?es" using assms(2) by (metis map_of_eq_None_iff)
  then have "MemoryStore_get b e s = map snd ?part"
    using ok by (simp add: MemoryStore_get_def sorted_dropWhile sorted_takeWhile map_ok_filter)
  also have "\<dots> = map (\<lambda>n. the (map_of ?part n)) (sorted_list_of_set (fst ` set ?part))"
    using ok by (intro map_ok_entries map_ok_filter)
  also have "fst ` set ?part = {n. map_of ?es n \<noteq> None \<and> b \<le> n \<and> n \<le> e}"
    by (auto simp: map_of_eq_None_iff image_iff)
  also have "map (\<lambda>n. the (map_of ?part n)) (sorted_list_of_set \<dots>) =
    map (\<lambda>n. the (map_of ?es n)) (sorted_list_of_set {n. map_of ?es n \<noteq> None \<and> b \<le> n \<and> n \<le> e})"
  proof (rule map_cong [OF refl])
    fix n
    assume "n \<in> set (sorted_list_of_set {n. map_of ?es n \<noteq> None \<and> b \<le> n \<and> n \<le> e})"
    then have n: "map_of ?es n \<noteq> None" "b \<le> n" "n \<le> e" by simp_all
    then obtain v where v: "(n, v) \<in> set ?es" "map_of ?es n = Some v" by (metis map_of_SomeD not_None_eq)
    have "distinct (map fst ?part)"
      using ok by (metis map_ok_filter map_ok_def strict_sorted_iff)
    moreover have "(n, v) \<in> set ?part" using v(1) n by simp
    ultimately have "map_of ?part n = Some v" by (rule map_of_is_SomeI)
    with v(2) show "the (map_of ?part n) = the (map_of ?es n)" by simp
  qed
  finally show ?thesis .
qed

interpretation memory: message_store store_ok "\<lambda>s. map_of (ms_messages s)" MemoryStore_get
    "\<lambda>n m s. snd (MemoryStore_set n m s)" ms_nextSenderMsgSeqNum incrNextSender
  by unfold_locales
    (simp_all add: store_ok_def MemoryStore_set_def incrNextSender_def MemoryStore_get_eq)

lemma store_ok_ops [simp]:
  "store_ok (MemoryStore_new now)" "store_ok (MemoryStore_reset now s)" "store_ok (MemoryStore_refresh s) = store_ok s"
  "store_ok s \<Longrightarrow> store_ok (snd (MemoryStore_set n m s))" "store_ok (setNextSender n s) = store_ok s"
  "store_ok (setNextTarget n s) = store_ok s" "store_ok (incrNextSender s) = store_ok s"
  "store_ok (incrNextTarget s) = store_ok s" "store_ok (setCreationTime t s) = store_ok s"
  by (simp_all add: store_ok_def MemoryStore_new_def MemoryStore_reset_def MemoryStore_refresh_def MemoryStore_set_def
      setNextSender_def setNextTarget_def incrNextSender_def incrNextTarget_def setCreationTime_def map_ok_def [of "[]"])

text \<open>
  A range whose first message is missing reads nothing, whatever follows.
\<close>

lemma missing_start:
  "MemoryStore_get 1 3 (snd (MemoryStore_set 2 ''two'' (MemoryStore_new t))) = []"
  by (simp add: MemoryStore_get_def MemoryStore_set_def MemoryStore_new_def)

section \<open>A run of messages\<close>

text \<open>C40. Messages stored one after the other, each under the next number, are read back by their range
  whole and in order, and nothing else comes with them.\<close>

theorem stored_run_read_back:
  assumes "store_ok s" and "ms \<noteq> []" and "unat (ms_nextSenderMsgSeqNum s) + length ms < 2 ^ 64"
  shows "MemoryStore_get (ms_nextSenderMsgSeqNum s) (ms_nextSenderMsgSeqNum s + word_of_nat (length ms) - 1)
    (foldl (\<lambda>s m. incrNextSender (snd (MemoryStore_set (ms_nextSenderMsgSeqNum s) m s))) s ms) = ms"
  using memory.run_read_back [OF assms] by (simp add: memory.keep_all_def memory.keep_def)

theorem stored_run_read_back_witness:
  "MemoryStore_get 1 (1 + word_of_nat 2 - 1) (foldl (\<lambda>s m. incrNextSender (snd (MemoryStore_set (ms_nextSenderMsgSeqNum s) m s)))
     (MemoryStore_new (DateTime_of 0 0)) [''one'', ''two'']) = [''one'', ''two'']"
proof -
  have "ms_nextSenderMsgSeqNum (MemoryStore_new t) = 1" for t by (simp add: MemoryStore_new_def)
  then show ?thesis
    using stored_run_read_back [of "MemoryStore_new (DateTime_of 0 0)" "[''one'', ''two'']"] by simp
qed

end
