(* ===== verification/Session_State.thy ===== *)
theory Session_State
  imports Message_Store Dictionary_Check
begin

text \<open>
  The state of a session (flashfix/include/SessionState.h): its flags, its timers, the queue of the
  messages that came too early, the range that was asked for again, and the store. The interval of
  the heartbeat is a field, kept as its text: it may have come from the counterparty and is converted
  when it is used. The multiples 2.4 and 1.2 of the interval are written in fifths; for an interval
  that is not negative the products in double precision fall on the same side of every number of
  seconds.
\<close>

section \<open>Values of typed fields\<close>

text \<open>Reading a typed field converts its text; a text that does not convert is \<^verbatim>\<open>IncorrectDataFormat\<close>.\<close>

definition converted :: "FieldBase \<Rightarrow> 'a option \<Rightarrow> fix_exception + 'a" where
  "converted f v = (case v of None \<Rightarrow> Inl (IncorrectDataFormat (f_tag f) (f_string f)) | Some x \<Rightarrow> Inr x)"

definition int_value :: "FieldBase \<Rightarrow> fix_exception + int" where
  "int_value f = converted f (map_option sint (IntT_parse True (f_string f) :: 32 word option))"

definition seqnum_value :: "FieldBase \<Rightarrow> fix_exception + seqnum" where
  "seqnum_value f = converted f (IntT_parse False (f_string f))"

definition bool_value :: "FieldBase \<Rightarrow> fix_exception + bool" where
  "bool_value f = converted f (Bool_parse (f_string f))"

definition stamp_value :: "FieldBase \<Rightarrow> fix_exception + DateTime" where
  "stamp_value f = converted f (UtcTimeStamp_parse (f_string f))"

definition seqnum_text :: "seqnum \<Rightarrow> string" where
  "seqnum_text n = IntT_convert False n"

definition int_text :: "int \<Rightarrow> string" where
  "int_text n = IntT_convert True (word_of_int n :: 32 word)"

section \<open>State\<close>

record SessionState =
  st_enabled :: bool
  st_receivedLogon :: bool
  st_sentLogout :: bool
  st_sentLogon :: bool
  st_sentReset :: bool
  st_receivedReset :: bool
  st_initiate :: bool
  st_logonTimeout :: int
  st_logoutTimeout :: int
  st_testRequest :: int
  st_resendRange :: "seqnum \<times> seqnum"
  st_heartBtInt :: string
  st_lastSentTime :: DateTime
  st_lastReceivedTime :: DateTime
  st_logoutReason :: string
  st_queue :: "(seqnum \<times> Message) list"
  st_store :: MemoryStore

definition SessionState_new :: "DateTime \<Rightarrow> MemoryStore \<Rightarrow> SessionState" where
  "SessionState_new now s =
     \<lparr>st_enabled = True, st_receivedLogon = False, st_sentLogout = False, st_sentLogon = False,
      st_sentReset = False, st_receivedReset = False, st_initiate = False, st_logonTimeout = 10,
      st_logoutTimeout = 2, st_testRequest = 0, st_resendRange = (0, 0), st_heartBtInt = [],
      st_lastSentTime = now, st_lastReceivedTime = now, st_logoutReason = [], st_queue = [], st_store = s\<rparr>"

definition resendRequested :: "SessionState \<Rightarrow> bool" where
  "resendRequested st = (\<not> (fst (st_resendRange st) = 0 \<and> snd (st_resendRange st) = 0))"

definition shouldSendLogon :: "SessionState \<Rightarrow> bool" where
  "shouldSendLogon st = (st_initiate st \<and> \<not> st_sentLogon st)"

definition alreadySentLogon :: "SessionState \<Rightarrow> bool" where
  "alreadySentLogon st = (st_initiate st \<and> st_sentLogon st)"

section \<open>Timers\<close>

definition heartBtInt_value :: "SessionState \<Rightarrow> fix_exception + int" where
  "heartBtInt_value st = int_value (FieldBase_new 108 (st_heartBtInt st))"

definition logonTimedOut :: "DateTime \<Rightarrow> SessionState \<Rightarrow> bool" where
  "logonTimedOut now st = (dt_minus now (st_lastReceivedTime st) \<ge> st_logonTimeout st)"

definition logoutTimedOut :: "DateTime \<Rightarrow> SessionState \<Rightarrow> bool" where
  "logoutTimedOut now st = (st_sentLogout st \<and> dt_minus now (st_lastSentTime st) \<ge> st_logoutTimeout st)"

definition withinHeartBeat :: "int \<Rightarrow> DateTime \<Rightarrow> SessionState \<Rightarrow> bool" where
  "withinHeartBeat heartBtInt now st =
     (dt_minus now (st_lastSentTime st) < heartBtInt \<and> dt_minus now (st_lastReceivedTime st) < heartBtInt)"

definition timedOut :: "int \<Rightarrow> DateTime \<Rightarrow> SessionState \<Rightarrow> bool" where
  "timedOut heartBtInt now st = (5 * dt_minus now (st_lastReceivedTime st) \<ge> 12 * heartBtInt)"

definition needHeartbeat :: "int \<Rightarrow> DateTime \<Rightarrow> SessionState \<Rightarrow> bool" where
  "needHeartbeat heartBtInt now st =
     (dt_minus now (st_lastSentTime st) \<ge> heartBtInt \<and> st_testRequest st = 0)"

definition needTestRequest :: "int \<Rightarrow> DateTime \<Rightarrow> SessionState \<Rightarrow> bool" where
  "needTestRequest heartBtInt now st =
     (5 * dt_minus now (st_lastReceivedTime st) \<ge> 6 * (st_testRequest st + 1) * heartBtInt)"

section \<open>The queue\<close>

definition st_enqueue :: "seqnum \<Rightarrow> Message \<Rightarrow> SessionState \<Rightarrow> SessionState" where
  "st_enqueue n m st = st\<lparr>st_queue := map_put n m (st_queue st)\<rparr>"

definition st_retrieve :: "seqnum \<Rightarrow> SessionState \<Rightarrow> (Message \<times> SessionState) option" where
  "st_retrieve n st =
     (case map_of (st_queue st) n of
        None \<Rightarrow> None
      | Some m \<Rightarrow> Some (m, st\<lparr>st_queue := map_drop n (st_queue st)\<rparr>))"

definition st_clearQueue :: "SessionState \<Rightarrow> SessionState" where
  "st_clearQueue st = st\<lparr>st_queue := []\<rparr>"

section \<open>The store behind it\<close>

definition st_set :: "seqnum \<Rightarrow> string \<Rightarrow> SessionState \<Rightarrow> bool \<times> SessionState" where
  "st_set n m st = (case MemoryStore_set n m (st_store st) of (b, s) \<Rightarrow> (b, st\<lparr>st_store := s\<rparr>))"

definition st_get :: "seqnum \<Rightarrow> seqnum \<Rightarrow> SessionState \<Rightarrow> string list" where
  "st_get b e st = MemoryStore_get b e (st_store st)"

definition getNextSenderMsgSeqNum :: "SessionState \<Rightarrow> seqnum" where
  "getNextSenderMsgSeqNum st = ms_nextSenderMsgSeqNum (st_store st)"

definition getNextTargetMsgSeqNum :: "SessionState \<Rightarrow> seqnum" where
  "getNextTargetMsgSeqNum st = ms_nextTargetMsgSeqNum (st_store st)"

definition setNextSenderMsgSeqNum :: "seqnum \<Rightarrow> SessionState \<Rightarrow> SessionState" where
  "setNextSenderMsgSeqNum n st = st\<lparr>st_store := setNextSender n (st_store st)\<rparr>"

definition setNextTargetMsgSeqNum :: "seqnum \<Rightarrow> SessionState \<Rightarrow> SessionState" where
  "setNextTargetMsgSeqNum n st = st\<lparr>st_store := setNextTarget n (st_store st)\<rparr>"

definition incrNextSenderMsgSeqNum :: "SessionState \<Rightarrow> SessionState" where
  "incrNextSenderMsgSeqNum st = st\<lparr>st_store := incrNextSender (st_store st)\<rparr>"

definition incrNextTargetMsgSeqNum :: "SessionState \<Rightarrow> SessionState" where
  "incrNextTargetMsgSeqNum st = st\<lparr>st_store := incrNextTarget (st_store st)\<rparr>"

definition getCreationTime :: "SessionState \<Rightarrow> DateTime" where
  "getCreationTime st = ms_creationTime (st_store st)"

definition st_reset :: "DateTime \<Rightarrow> SessionState \<Rightarrow> SessionState" where
  "st_reset now st = st\<lparr>st_store := MemoryStore_reset now (st_store st)\<rparr>"

definition st_refresh :: "SessionState \<Rightarrow> SessionState" where
  "st_refresh st = st\<lparr>st_store := MemoryStore_refresh (st_store st)\<rparr>"

lemmas st_store_defs =
  st_set_def st_get_def getNextSenderMsgSeqNum_def getNextTargetMsgSeqNum_def setNextSenderMsgSeqNum_def
  setNextTargetMsgSeqNum_def incrNextSenderMsgSeqNum_def incrNextTargetMsgSeqNum_def getCreationTime_def
  st_reset_def st_refresh_def MemoryStore_set_def setNextSender_def setNextTarget_def incrNextSender_def
  incrNextTarget_def MemoryStore_reset_def MemoryStore_refresh_def

end
