(* ===== verification/Session_Id.thy ===== *)
theory Session_Id
  imports Dictionary_Check
begin

text \<open>
  The identity of a session (flashfix/include/SessionID.h), the dictionaries of a session
  (flashfix/src/DataDictionaryProvider.cpp) and the registry of sessions (the static functions of
  flashfix/src/Session.cpp). Identities are compared by their text. A session of the registry is the
  pointer to it, a type variable; sending through a session is an argument, with its exceptions.
\<close>

section \<open>Identity\<close>

record SessionID =
  sid_beginString :: string
  sid_senderCompID :: string
  sid_targetCompID :: string
  sid_sessionQualifier :: string
  sid_isFIXT :: bool
  sid_frozenString :: string

definition SessionID_toString :: "SessionID \<Rightarrow> string" where
  "SessionID_toString sid =
     sid_beginString sid @ '':'' @ sid_senderCompID sid @ ''->'' @ sid_targetCompID sid @
     (if length (sid_sessionQualifier sid) \<noteq> 0 then '':'' @ sid_sessionQualifier sid else [])"

definition sid_freeze :: "SessionID \<Rightarrow> SessionID" where
  "sid_freeze sid = sid\<lparr>sid_frozenString := SessionID_toString sid\<rparr>"

text \<open>The default constructor leaves \<^verbatim>\<open>m_isFIXT\<close> as it is in memory; here it is \<open>False\<close>.\<close>

definition SessionID_default :: SessionID where
  "SessionID_default = sid_freeze \<lparr>sid_beginString = [], sid_senderCompID = [], sid_targetCompID = [],
     sid_sessionQualifier = [], sid_isFIXT = False, sid_frozenString = []\<rparr>"

definition SessionID_new :: "string \<Rightarrow> string \<Rightarrow> string \<Rightarrow> string \<Rightarrow> SessionID" where
  "SessionID_new beginString senderCompID targetCompID sessionQualifier =
     (let sid = sid_freeze \<lparr>sid_beginString = beginString, sid_senderCompID = senderCompID,
            sid_targetCompID = targetCompID, sid_sessionQualifier = sessionQualifier, sid_isFIXT = False,
            sid_frozenString = []\<rparr>
      in if take 4 beginString = ''FIXT'' then sid\<lparr>sid_isFIXT := True\<rparr> else sid)"

text \<open>
  \<^verbatim>\<open>substr\<close> with a length computed by subtraction: one below zero wraps around to the rest of the
  text.
\<close>

definition substr :: "string \<Rightarrow> nat \<Rightarrow> int \<Rightarrow> string" where
  "substr s pos n = (if n < 0 then drop pos s else take (nat n) (drop pos s))"

definition find_last_of :: "char \<Rightarrow> string \<Rightarrow> nat" where
  "find_last_of c s = length s - 1 - length (takeWhile (\<lambda>d. d \<noteq> c) (rev s))"

definition SessionID_fromString :: "string \<Rightarrow> SessionID \<Rightarrow> SessionID" where
  "SessionID_fromString str sid =
     (case find_sub '':'' str of
        None \<Rightarrow> sid
      | Some first \<Rightarrow>
      case find_sub ''->'' str of
        None \<Rightarrow> sid
      | Some second \<Rightarrow>
          let third = find_last_of (CHR '':'') str;
              sid = sid\<lparr>sid_beginString := substr str 0 (int first),
                sid_senderCompID := substr str (first + 1) (int second - int first - 1)\<rparr>;
              sid = (if first = third
                then sid\<lparr>sid_targetCompID := drop (second + 2) str, sid_sessionQualifier := []\<rparr>
                else sid\<lparr>sid_targetCompID := substr str (second + 2) (int third - int second - 2),
                  sid_sessionQualifier := drop (third + 1) str\<rparr>)
          in sid_freeze sid)"

fun string_less :: "string \<Rightarrow> string \<Rightarrow> bool" where
  "string_less [] t = (t \<noteq> [])"
| "string_less (c # s) [] = False"
| "string_less (c # s) (d # t) =
     (if (of_char c :: nat) < of_char d then True else if c = d then string_less s t else False)"

definition SessionID_less :: "SessionID \<Rightarrow> SessionID \<Rightarrow> bool" where
  "SessionID_less lhs rhs = string_less (sid_frozenString lhs) (sid_frozenString rhs)"

definition SessionID_equal :: "SessionID \<Rightarrow> SessionID \<Rightarrow> bool" where
  "SessionID_equal lhs rhs = (sid_frozenString lhs = sid_frozenString rhs)"

definition SessionID_reverse :: "SessionID \<Rightarrow> SessionID" where
  "SessionID_reverse sid =
     SessionID_new (sid_beginString sid) (sid_targetCompID sid) (sid_senderCompID sid) (sid_sessionQualifier sid)"

section \<open>Messages\<close>

definition field_ref :: "int \<Rightarrow> FieldMap \<Rightarrow> fix_exception + FieldBase" where
  "field_ref tag m = (case getFieldRef tag m of None \<Rightarrow> Inl (FieldNotFound tag) | Some f \<Rightarrow> Inr f)"

definition Message_getSessionID :: "string \<Rightarrow> Message \<Rightarrow> fix_exception + SessionID" where
  "Message_getSessionID qualifier m =
     and_then (field_ref 8 (msg_header m)) (\<lambda>beginString.
     and_then (field_ref 49 (msg_header m)) (\<lambda>senderCompID.
     and_then (field_ref 56 (msg_header m)) (\<lambda>targetCompID.
       Inr (SessionID_new (f_string beginString) (f_string senderCompID) (f_string targetCompID) qualifier))))"

definition Message_setSessionID :: "SessionID \<Rightarrow> Message \<Rightarrow> Message" where
  "Message_setSessionID sid m = m\<lparr>msg_header :=
     setField (FieldBase_new 56 (sid_targetCompID sid))
       (setField (FieldBase_new 49 (sid_senderCompID sid))
         (setField (FieldBase_new 8 (sid_beginString sid)) (msg_header m)))\<rparr>"

section \<open>Dictionaries\<close>

record DataDictionaryProvider =
  transportDictionaries :: "string \<rightharpoonup> DataDictionary"
  applicationDictionaries :: "string \<rightharpoonup> DataDictionary"

definition getSessionDataDictionary :: "string \<Rightarrow> DataDictionaryProvider \<Rightarrow> DataDictionary" where
  "getSessionDataDictionary beginString p =
     (case transportDictionaries p beginString of None \<Rightarrow> DataDictionary_new | Some d \<Rightarrow> d)"

definition getApplicationDataDictionary :: "string \<Rightarrow> DataDictionaryProvider \<Rightarrow> DataDictionary" where
  "getApplicationDataDictionary applVerID p =
     (case applicationDictionaries p applVerID of None \<Rightarrow> DataDictionary_new | Some d \<Rightarrow> d)"

definition addTransportDataDictionary :: "string \<Rightarrow> DataDictionary \<Rightarrow> DataDictionaryProvider \<Rightarrow> DataDictionaryProvider" where
  "addTransportDataDictionary beginString d p =
     p\<lparr>transportDictionaries := (transportDictionaries p)(beginString \<mapsto> d)\<rparr>"

definition addApplicationDataDictionary :: "string \<Rightarrow> DataDictionary \<Rightarrow> DataDictionaryProvider \<Rightarrow> DataDictionaryProvider" where
  "addApplicationDataDictionary applVerID d p =
     p\<lparr>applicationDictionaries := (applicationDictionaries p)(applVerID \<mapsto> d)\<rparr>"

section \<open>The registry\<close>

text \<open>The maps are keyed by the text of an identity; the set of identities keeps the first of each text.\<close>

record 'p registry =
  s_sessions :: "(string \<times> 'p) list"
  s_sessionIDs :: "string \<rightharpoonup> SessionID"
  s_registered :: "string \<rightharpoonup> 'p"

definition doesSessionExist :: "SessionID \<Rightarrow> 'p registry \<Rightarrow> bool" where
  "doesSessionExist sid r = (map_of (s_sessions r) (sid_frozenString sid) \<noteq> None)"

definition lookupSession :: "SessionID \<Rightarrow> 'p registry \<Rightarrow> 'p option" where
  "lookupSession sid r = map_of (s_sessions r) (sid_frozenString sid)"

text \<open>An exception of the parser leaves the function; a header that is not one is a null pointer.\<close>

definition lookupSession_text :: "string \<Rightarrow> bool \<Rightarrow> 'p registry \<Rightarrow> message_error + 'p option" where
  "lookupSession_text s reversed r =
     and_then (setStringHeader s Message_new) (\<lambda>(b, message).
       if \<not> b then Inr None
       else
         let header = msg_header message in
         case (getFieldRef 8 header, getFieldRef 49 header, getFieldRef 56 header) of
           (Some beginString, Some senderCompID, Some targetCompID) \<Rightarrow>
             Inr (if reversed
               then lookupSession (SessionID_new (f_string beginString) (f_string targetCompID) (f_string senderCompID) []) r
               else lookupSession (SessionID_new (f_string beginString) (f_string senderCompID) (f_string targetCompID) []) r)
         | _ \<Rightarrow> Inr None)"

definition isSessionRegistered :: "SessionID \<Rightarrow> 'p registry \<Rightarrow> bool" where
  "isSessionRegistered sid r = (s_registered r (sid_frozenString sid) \<noteq> None)"

definition registerSession :: "SessionID \<Rightarrow> 'p registry \<Rightarrow> 'p option \<times> 'p registry" where
  "registerSession sid r =
     (case lookupSession sid r of
        None \<Rightarrow> (None, r)
      | Some p \<Rightarrow>
          if isSessionRegistered sid r then (None, r)
          else (Some p, r\<lparr>s_registered := (s_registered r)(sid_frozenString sid \<mapsto> p)\<rparr>))"

definition unregisterSession :: "SessionID \<Rightarrow> 'p registry \<Rightarrow> 'p registry" where
  "unregisterSession sid r = r\<lparr>s_registered := (s_registered r)(sid_frozenString sid := None)\<rparr>"

definition numSessions :: "'p registry \<Rightarrow> nat" where
  "numSessions r = length (s_sessions r)"

definition addSession :: "SessionID \<Rightarrow> 'p \<Rightarrow> 'p registry \<Rightarrow> bool \<times> 'p registry" where
  "addSession sid p r =
     (if map_of (s_sessions r) (sid_frozenString sid) = None
      then (True, r\<lparr>s_sessions := (sid_frozenString sid, p) # s_sessions r,
        s_sessionIDs := (case s_sessionIDs r (sid_frozenString sid) of
          None \<Rightarrow> (s_sessionIDs r)(sid_frozenString sid \<mapsto> sid) | Some old \<Rightarrow> s_sessionIDs r)\<rparr>)
      else (False, r))"

definition removeSession :: "SessionID \<Rightarrow> 'p registry \<Rightarrow> 'p registry" where
  "removeSession sid r = r\<lparr>s_sessions := filter (\<lambda>e. fst e \<noteq> sid_frozenString sid) (s_sessions r),
     s_sessionIDs := (s_sessionIDs r)(sid_frozenString sid := None),
     s_registered := (s_registered r)(sid_frozenString sid := None)\<rparr>"

definition sendToTarget ::
  "('p \<Rightarrow> Message \<Rightarrow> fix_exception + 'r) \<Rightarrow> Message \<Rightarrow> SessionID \<Rightarrow> 'p registry \<Rightarrow> fix_exception + 'r" where
  "sendToTarget send message sid r =
     (let message = Message_setSessionID sid message in
      case lookupSession sid r of None \<Rightarrow> Inl SessionNotFound | Some p \<Rightarrow> send p message)"

text \<open>A field that is not found anywhere below is a session that is not found.\<close>

definition sendToTarget_qualified ::
  "('p \<Rightarrow> Message \<Rightarrow> fix_exception + 'r) \<Rightarrow> Message \<Rightarrow> string \<Rightarrow> 'p registry \<Rightarrow> fix_exception + 'r" where
  "sendToTarget_qualified send message qualifier r =
     (case and_then (Message_getSessionID qualifier message) (\<lambda>sid. sendToTarget send message sid r) of
        Inl e \<Rightarrow> (case e of FieldNotFound field \<Rightarrow> Inl SessionNotFound | _ \<Rightarrow> Inl e)
      | Inr x \<Rightarrow> Inr x)"

definition sendToTarget_parties ::
  "('p \<Rightarrow> Message \<Rightarrow> fix_exception + 'r) \<Rightarrow> Message \<Rightarrow> string \<Rightarrow> string \<Rightarrow> string \<Rightarrow> 'p registry \<Rightarrow> fix_exception + 'r" where
  "sendToTarget_parties send message sender target qualifier r =
     sendToTarget_qualified send
       (message\<lparr>msg_header := setField (FieldBase_new 56 target) (setField (FieldBase_new 49 sender) (msg_header message))\<rparr>)
       qualifier r"

section \<open>Facts\<close>

text \<open>Reading the text of another identity keeps the old mark of a FIXT session.\<close>

lemma fromString_keeps_FIXT:
  "sid_isFIXT (SessionID_fromString ''FIXT.1.1:BOT->SPOT'' SessionID_default) = False"
  "sid_isFIXT (SessionID_new ''FIXT.1.1'' ''BOT'' ''SPOT'' []) = True"
  by code_simp+

lemma SessionID_reverse_reverse:
  "sid = SessionID_new b s t q \<Longrightarrow> SessionID_reverse (SessionID_reverse sid) = sid"
  by (simp add: SessionID_reverse_def SessionID_new_def sid_freeze_def Let_def)

lemma registered_exists:
  "fst (registerSession sid r) = Some p \<Longrightarrow> doesSessionExist sid r \<and> isSessionRegistered sid (snd (registerSession sid r))"
  by (auto simp: registerSession_def doesSessionExist_def lookupSession_def isSessionRegistered_def split: option.splits if_splits)

end
