(* ===== verification/Session_Action.thy ===== *)
theory Session_Action
  imports Session_State Session_Id
begin

text \<open>
  Statements of the session as functions of its state: a statement returns a value or an exception,
  and the state it leaves, also when it throws. \<open>reaches\<close> lifts a relation between states that is
  reflexive and transitive through the statements, together with the absence of an exception; the
  rules for it are collected in \<open>reach_rules\<close>.
\<close>

section \<open>Statements\<close>

text \<open>What can be thrown. The last two are no exceptions of the code: nothing catches them.\<close>

datatype throwable =
    Fix fix_exception
  | Std_logic_error string
  | Std_runtime_error string
  | Undefined \<comment> \<open>the code leaves its buffers\<close>
  | No_fuel \<comment> \<open>not a result of the code\<close>

fun is_std_exception :: "throwable \<Rightarrow> bool" where
  "is_std_exception Undefined = False"
| "is_std_exception No_fuel = False"
| "is_std_exception _ = True"

type_synonym ('s, 'a) act = "'s \<Rightarrow> (throwable + 'a) \<times> 's"

definition return :: "'a \<Rightarrow> ('s, 'a) act" where
  "return x s = (Inr x, s)"

definition throw :: "throwable \<Rightarrow> ('s, 'a) act" where
  "throw e s = (Inl e, s)"

definition bind :: "('s, 'a) act \<Rightarrow> ('a \<Rightarrow> ('s, 'b) act) \<Rightarrow> ('s, 'b) act" where
  "bind m f s = (case m s of (Inl e, s') \<Rightarrow> (Inl e, s') | (Inr x, s') \<Rightarrow> f x s')"

definition skip :: "('s, unit) act" where
  "skip = return ()"

definition gets :: "('s \<Rightarrow> 'a) \<Rightarrow> ('s, 'a) act" where
  "gets f s = (Inr (f s), s)"

definition modify :: "('s \<Rightarrow> 's) \<Rightarrow> ('s, unit) act" where
  "modify f s = (Inr (), f s)"

definition only_if :: "bool \<Rightarrow> ('s, unit) act \<Rightarrow> ('s, unit) act" where
  "only_if b m = (if b then m else skip)"

definition ignore :: "('s, 'a) act \<Rightarrow> ('s, unit) act" where
  "ignore m = bind m (\<lambda>x. skip)"

text \<open>Statements one after the other, and statements that look at the state.\<close>

definition after :: "('s, unit) act \<Rightarrow> ('s, 'a) act \<Rightarrow> ('s, 'a) act" where
  "after m n = bind m (\<lambda>x. n)"

fun block :: "('s, unit) act list \<Rightarrow> ('s, unit) act" where
  "block [] = skip"
| "block (m # ms) = after m (block ms)"

definition look :: "('s \<Rightarrow> ('s, 'a) act) \<Rightarrow> ('s, 'a) act" where
  "look f s = f s s"

definition lift :: "fix_exception + 'a \<Rightarrow> ('s, 'a) act" where
  "lift r s = (case r of Inl e \<Rightarrow> (Inl (Fix e), s) | Inr x \<Rightarrow> (Inr x, s))"

text \<open>\<^verbatim>\<open>try\<close> and \<^verbatim>\<open>catch\<close>: the handler says what it does with an exception, \<open>None\<close> when it is not its own.\<close>

definition catch :: "('s, 'a) act \<Rightarrow> (throwable \<Rightarrow> ('s, 'a) act option) \<Rightarrow> ('s, 'a) act" where
  "catch m h s = (case m s of
     (Inl e, s') \<Rightarrow> (case h e of None \<Rightarrow> (Inl e, s') | Some n \<Rightarrow> n s')
   | (Inr x, s') \<Rightarrow> (Inr x, s'))"

lemmas act_defs = return_def throw_def bind_def skip_def gets_def modify_def only_if_def ignore_def after_def look_def
  lift_def catch_def

lemma bind_result:
  "bind m f s = (r, s'') \<longleftrightarrow> (\<exists>e. m s = (Inl e, s'') \<and> r = Inl e) \<or> (\<exists>x s'. m s = (Inr x, s') \<and> f x s' = (r, s''))"
  by (auto simp: bind_def split: prod.splits sum.splits)

lemma catch_result:
  "catch m h s = (r, s'') \<longleftrightarrow>
     (\<exists>x. m s = (Inr x, s'') \<and> r = Inr x) \<or> (\<exists>e. m s = (Inl e, s'') \<and> h e = None \<and> r = Inl e) \<or>
     (\<exists>e s' n. m s = (Inl e, s') \<and> h e = Some n \<and> n s' = (r, s''))"
  by (auto simp: catch_def split: prod.splits sum.splits option.splits)

section \<open>Relations through statements\<close>

text \<open>
  \<open>R\<close> relates the states before and after, \<open>bad\<close> exceptions are not thrown from a state with \<open>I\<close>.
  \<open>good\<close> is about one state, \<open>reaches\<close> about all of them.
\<close>

locale step_relation =
  fixes R :: "'s \<Rightarrow> 's \<Rightarrow> bool" and I :: "'s \<Rightarrow> bool" and bad :: "throwable \<Rightarrow> bool"
  assumes R_refl: "R s s" and R_trans: "R s t \<Longrightarrow> R t u \<Longrightarrow> R s u" and I_R: "R s t \<Longrightarrow> I s \<Longrightarrow> I t"
begin

definition good :: "('s, 'a) act \<Rightarrow> 's \<Rightarrow> bool" where
  "good m s \<longleftrightarrow> R s (snd (m s)) \<and> (I s \<longrightarrow> (\<forall>e. fst (m s) = Inl e \<longrightarrow> \<not> bad e))"

definition reaches :: "('s, 'a) act \<Rightarrow> bool" where
  "reaches m \<longleftrightarrow> (\<forall>s. good m s)"

lemma reachesI: "(\<And>s. good m s) \<Longrightarrow> reaches m"
  by (simp add: reaches_def)

lemma reachesD: "reaches m \<Longrightarrow> good m s"
  by (simp add: reaches_def)

lemma good_return: "good (return x) s"
  by (simp add: good_def return_def R_refl)

lemma good_skip: "good skip s"
  by (simp add: skip_def good_return)

lemma good_throw: "\<not> bad e \<Longrightarrow> good (throw e) s"
  by (simp add: good_def throw_def R_refl)

lemma good_modify: "R s (f s) \<Longrightarrow> good (modify f) s"
  by (simp add: good_def modify_def)

lemma good_bind:
  assumes "good m s" and "\<And>x s'. m s = (Inr x, s') \<Longrightarrow> R s s' \<Longrightarrow> good (f x) s'"
  shows "good (bind m f) s"
proof (cases "m s")
  case (Pair r s')
  have R: "R s s'" using assms(1) Pair by (simp add: good_def)
  show ?thesis
  proof (cases r)
    case (Inl e)
    with assms(1) Pair R show ?thesis by (simp add: good_def bind_def)
  next
    case (Inr x)
    with assms(2) Pair R have f: "good (f x) s'" by simp
    then have "R s (snd (f x s'))" using R_trans [OF R] by (simp add: good_def)
    with f Inr Pair I_R [OF R] show ?thesis by (simp add: good_def bind_def)
  qed
qed

lemma good_after: "good m s \<Longrightarrow> (\<And>x s'. m s = (Inr x, s') \<Longrightarrow> R s s' \<Longrightarrow> good n s') \<Longrightarrow> good (after m n) s"
  unfolding after_def by (rule good_bind)

lemma good_look: "good (f s) s \<Longrightarrow> good (look f) s"
  by (simp add: good_def look_def)

lemma good_only_if: "(b \<Longrightarrow> good m s) \<Longrightarrow> good (only_if b m) s"
  by (simp add: only_if_def good_skip)

lemma good_catch:
  assumes "good m s" and "\<And>e s' n. m s = (Inl e, s') \<Longrightarrow> R s s' \<Longrightarrow> h e = Some n \<Longrightarrow> good n s'"
  shows "good (catch m h) s"
proof (cases "m s")
  case (Pair r s')
  have R: "R s s'" using assms(1) Pair by (simp add: good_def)
  have n: "good n s'" if "r = Inl e" "h e = Some n" for e n using assms(2) Pair R that by simp
  then have "R s (snd (n s'))" if "r = Inl e" "h e = Some n" for e n
    using that R_trans [OF R] by (simp add: good_def)
  with n R assms(1) Pair I_R [OF R] show ?thesis
    by (auto simp: good_def catch_def split: sum.split option.split)
qed

lemma reaches_return: "reaches (return x)"
  by (intro reachesI good_return)

lemma reaches_throw: "\<not> bad e \<Longrightarrow> reaches (throw e)"
  by (intro reachesI good_throw)

lemma reaches_skip: "reaches skip"
  by (intro reachesI good_skip)

lemma reaches_gets: "reaches (gets f)"
  by (simp add: reaches_def good_def gets_def R_refl)

lemma reaches_modify: "(\<And>s. R s (f s)) \<Longrightarrow> reaches (modify f)"
  by (intro reachesI good_modify)

lemma reaches_bind: "reaches m \<Longrightarrow> (\<And>x. reaches (f x)) \<Longrightarrow> reaches (bind m f)"
  by (rule reachesI, rule good_bind, erule reachesD, rule reachesD)

lemma reaches_after: "reaches m \<Longrightarrow> reaches n \<Longrightarrow> reaches (after m n)"
  by (simp add: after_def reaches_bind)

lemma reaches_only_if: "(b \<Longrightarrow> reaches m) \<Longrightarrow> reaches (only_if b m)"
  by (simp add: only_if_def reaches_skip)

lemma reaches_ignore: "reaches m \<Longrightarrow> reaches (ignore m)"
  by (simp add: ignore_def reaches_bind reaches_skip)

lemma reaches_nil: "reaches (block [])"
  by (simp add: reaches_skip)

lemma reaches_cons: "reaches m \<Longrightarrow> reaches (block ms) \<Longrightarrow> reaches (block (m # ms))"
  by (simp add: reaches_after)

lemma reaches_look: "(\<And>s. reaches (f s)) \<Longrightarrow> reaches (look f)"
  by (rule reachesI, rule good_look, rule reachesD)

lemma reaches_if: "(b \<Longrightarrow> reaches m) \<Longrightarrow> (\<not> b \<Longrightarrow> reaches n) \<Longrightarrow> reaches (if b then m else n)"
  by simp

lemma reaches_option: "reaches m \<Longrightarrow> (\<And>x. reaches (f x)) \<Longrightarrow> reaches (case v of None \<Rightarrow> m | Some x \<Rightarrow> f x)"
  by (simp split: option.split)

lemma reaches_prod: "(\<And>x y. reaches (f x y)) \<Longrightarrow> reaches (case p of (x, y) \<Rightarrow> f x y)"
  by (simp split: prod.split)

lemma reaches_let: "(\<And>x. reaches (f x)) \<Longrightarrow> reaches (let y = x in f y)"
  by simp

lemma reaches_catch: "reaches m \<Longrightarrow> (\<And>e n. h e = Some n \<Longrightarrow> reaches n) \<Longrightarrow> reaches (catch m h)"
  by (rule reachesI, rule good_catch, erule reachesD, rule reachesD)

lemma reaches_catch_if: "reaches m \<Longrightarrow> (\<And>e. reaches (n e)) \<Longrightarrow> reaches (catch m (\<lambda>e. if P e then Some (n e) else None))"
  by (rule reaches_catch) (auto split: if_splits)

lemmas reach_rules = reaches_return reaches_skip reaches_gets reaches_bind reaches_after reaches_only_if
  reaches_ignore reaches_nil reaches_cons reaches_look reaches_if reaches_option reaches_prod reaches_let reaches_catch_if

end

end
