(* ===== verification/Application_Reading.thy ===== *)
theory Application_Reading
  imports Session_Action Precise_Text Worker_Model
begin

text \<open>
  What the application reads from messages (src/HarjusApplication.cpp): the report on an order, the
  prices of a full and of an incremental refresh; the texts of the exceptions of the engine
  (flashfix/include/Exceptions.h), and the division of the symbols among the sessions. A reader
  returns its value or the exception it leaves with. What is not part of the sources is the record
  \<open>app_library\<close>. The symbol map is the set of its keys, a pointer into it is the key.
\<close>

section \<open>What is not part of the sources\<close>

text \<open>
  The decimal type and the texts of its errors, the signature, the clock, the capacity of the queues,
  the details of the exceptions that are kept without them; and what is behind the registry of the
  sessions: sending through another session, and the version that one sends by default.
\<close>

record 'd app_library =
  l_decimal :: "'d decimal_lib"
  l_noNumber :: "string \<Rightarrow> string"
  l_sign :: "string \<Rightarrow> string \<Rightarrow> throwable + string" \<comment> \<open>\<^verbatim>\<open>Ed25519::sign\<close>\<close>
  l_time :: int \<comment> \<open>\<^verbatim>\<open>std::time(nullptr)\<close>\<close>
  l_room :: "nat \<Rightarrow> nat \<Rightarrow> bool" \<comment> \<open>whether a queue of a capacity takes another element at a length\<close>
  l_detail :: "fix_exception \<Rightarrow> string"
  l_sendToTarget :: "Message \<Rightarrow> SessionID \<Rightarrow> throwable option" \<comment> \<open>what it throws\<close>
  l_senderDefaultApplVerID :: "SessionID \<Rightarrow> string option" \<comment> \<open>\<open>None\<close>: no such session\<close>

section \<open>Texts of exceptions\<close>

definition Exception_what :: "string \<Rightarrow> string \<Rightarrow> string" where
  "Exception_what ty detail = (if length detail \<noteq> 0 then ty @ '': '' @ detail else ty)"

definition to_string :: "int \<Rightarrow> string" where
  "to_string n = (if n < 0 then ''-'' else []) @ nat_digits (nat \<bar>n\<bar>)"

fun fix_what :: "'d app_library \<Rightarrow> fix_exception \<Rightarrow> string" where
  "fix_what L (DataDictionaryNotFound version) = Exception_what ''Could not find data dictionary'' (l_detail L (DataDictionaryNotFound version))"
| "fix_what L (FieldNotFound field) = Exception_what (''Field not found: '' @ to_string field) []"
| "fix_what L FieldConvertError = Exception_what ''Could not convert field'' (l_detail L FieldConvertError)"
| "fix_what L MessageParseError = Exception_what ''Could not parse message'' (l_detail L MessageParseError)"
| "fix_what L (InvalidMessage e) = Exception_what ''Invalid message'' (l_detail L (InvalidMessage e))"
| "fix_what L (ConfigError detail) = Exception_what ''Configuration failed'' detail"
| "fix_what L (RuntimeError detail) = Exception_what ''Runtime error'' detail"
| "fix_what L (InvalidTagNumber field) = Exception_what (''Invalid tag number: '' @ to_string field) []"
| "fix_what L (RequiredTagMissing field) = Exception_what (''Required tag missing: '' @ to_string field) []"
| "fix_what L (TagNotDefinedForMessage field) = Exception_what (''Tag not defined for this message type: '' @ to_string field) []"
| "fix_what L (NoTagValue field) = Exception_what (''Tag specified without a value: '' @ to_string field) []"
| "fix_what L (IncorrectTagValue field) = Exception_what (''Value is incorrect (out of range) for this tag: '' @ to_string field) []"
| "fix_what L (IncorrectDataFormat field detail) = Exception_what (''Incorrect data format for value with tag: '' @ to_string field) detail"
| "fix_what L IncorrectMessageStructure = Exception_what ''Incorrect message structure'' []"
| "fix_what L InvalidMessageType = Exception_what ''Invalid Message Type'' []"
| "fix_what L UnsupportedMessageType = Exception_what ''Unsupported Message Type'' []"
| "fix_what L UnsupportedVersion = Exception_what ''Unsupported Version'' []"
| "fix_what L (TagOutOfOrder field) = Exception_what ''Tag specified out of required order'' []"
| "fix_what L (RepeatedTag field) = Exception_what ''Repeated tag not part of repeating group'' []"
| "fix_what L (RepeatingGroupCountMismatch field) = Exception_what ''Repeating group count mismatch'' []"
| "fix_what L DoNotSend = Exception_what ''Do Not Send Message'' []"
| "fix_what L (RejectLogon detail) = Exception_what ''Rejected Logon Attempt'' detail"
| "fix_what L SessionNotFound = Exception_what ''Session Not Found'' []"
| "fix_what L (IOException detail) = Exception_what ''IO Error'' detail"

fun what_of :: "'d app_library \<Rightarrow> throwable \<Rightarrow> string" where
  "what_of L (Fix e) = fix_what L e"
| "what_of L (Std_logic_error w) = w"
| "what_of L (Std_runtime_error w) = w"
| "what_of L Undefined = []"
| "what_of L No_fuel = []"

section \<open>Reading fields\<close>

definition fixed :: "fix_exception + 'b \<Rightarrow> throwable + 'b" where
  "fixed r = (case r of Inl e \<Rightarrow> Inl (Fix e) | Inr x \<Rightarrow> Inr x)"

definition get_field :: "int \<Rightarrow> FieldMap \<Rightarrow> throwable + FieldBase" where
  "get_field tag fm = fixed (field_ref tag fm)"

definition char_value :: "FieldBase \<Rightarrow> throwable + char" where
  "char_value f = fixed (converted f (Char_parse (f_string f)))"

text \<open>\<^verbatim>\<open>getGroup\<close> copies the group; \<^verbatim>\<open>isSetField\<close> and \<^verbatim>\<open>get\<close> for a field that may be missing.\<close>

definition get_group :: "int \<Rightarrow> int \<Rightarrow> FieldMap \<Rightarrow> throwable + FieldMap" where
  "get_group num tag fm = (case getGroupRef num tag fm of None \<Rightarrow> Inl (Fix (FieldNotFound tag)) | Some g \<Rightarrow> Inr g)"

definition optional_field :: "int \<Rightarrow> FieldBase \<Rightarrow> FieldMap \<Rightarrow> throwable + FieldBase" where
  "optional_field tag def fm = (if isSetField tag fm then get_field tag fm else Inr def)"

text \<open>\<^verbatim>\<open>PreciseNumber{text}\<close> throws when the text is no number.\<close>

definition amount :: "'d app_library \<Rightarrow> FieldBase \<Rightarrow> throwable + precise_number" where
  "amount L f = (case PreciseNumber_ofString (l_decimal L) (f_string f) of
     None \<Rightarrow> Inl (Std_runtime_error (l_noNumber L (f_string f))) | Some n \<Rightarrow> Inr n)"

definition symbol_at :: "string set \<Rightarrow> string \<Rightarrow> throwable + symbol_ref" where
  "symbol_at symbolMap s = (if s \<in> symbolMap then Inr s else Inl (Std_logic_error ''_Map_base::at''))"

section \<open>Reports\<close>

text \<open>\<^verbatim>\<open>std::to_string\<close> of a \<^verbatim>\<open>char\<close>, which is signed.\<close>

definition char_int :: "char \<Rightarrow> int" where
  "char_int c = (if of_char c < (128 :: int) then of_char c else of_char c - 256)"

definition exec_status :: "char \<Rightarrow> FieldMap \<Rightarrow> throwable + TradeExecutionStatus" where
  "exec_status execTypeValue execReport =
     (if execTypeValue = CHR ''0'' then Inr NEW
      else if execTypeValue = CHR ''F'' then Inr FILLED
      else if execTypeValue = CHR ''C'' then Inr EXPIRED
      else if execTypeValue = CHR ''8'' then
        and_then (optional_field 58 (FieldBase_new 58 ''Unknown error (Text field not set)'') execReport) (\<lambda>errorMsg.
          if find_sub ''insufficient balance'' (f_string errorMsg) = None
          then Inl (Std_runtime_error (''Order rejected for unexpected reason: '' @ f_string errorMsg))
          else Inr REJECTED)
      else Inl (Std_runtime_error
        (''Received ExecutionReport with unhandled ExecType: '' @ to_string (char_int execTypeValue))))"

text \<open>The fees, from the \<open>i\<close>-th on; \<open>left\<close> of them.\<close>

fun fee_loop :: "'d app_library \<Rightarrow> FieldMap \<Rightarrow> int \<Rightarrow> nat \<Rightarrow> (string \<rightharpoonup> precise_number) \<Rightarrow>
    throwable + (string \<rightharpoonup> precise_number)" where
  "fee_loop L execReport i 0 feeDelta = Inr feeDelta"
| "fee_loop L execReport i (Suc left) feeDelta =
     and_then (get_group i 136 execReport) (\<lambda>grp.
     and_then (get_field 139 grp) (\<lambda>feeType.
     and_then
       (if f_string feeType = ''4'' then
          and_then (get_field 138 grp) (\<lambda>feeCurrency.
          and_then (get_field 137 grp) (\<lambda>feeAmount.
          and_then (amount L feeAmount) (\<lambda>n.
            Inr (map_sub_at feeDelta (f_string feeCurrency) n))))
        else Inr feeDelta)
     (\<lambda>feeDelta. fee_loop L execReport (i + 1) left feeDelta)))"

definition parseExecutionReport :: "'d app_library \<Rightarrow> FieldMap \<Rightarrow> throwable + ExecutionReport" where
  "parseExecutionReport L execReport =
     and_then (get_field 11 execReport) (\<lambda>clOrdID.
     and_then (get_field 150 execReport) (\<lambda>execType.
     and_then (char_value execType) (\<lambda>execTypeValue.
     and_then (exec_status execTypeValue execReport) (\<lambda>status.
     and_then (get_field 14 execReport) (\<lambda>cumQty.
     and_then (amount L cumQty) (\<lambda>qtyBase.
     and_then (get_field 25017 execReport) (\<lambda>cumQuoteQty.
     and_then (amount L cumQuoteQty) (\<lambda>qtyQuote.
     and_then (get_field 54 execReport) (\<lambda>side.
     and_then (char_value side) (\<lambda>side.
       let position = (if side = CHR ''1'' then LONG else SHORT);
           usedQty = (if position = LONG then qtyQuote else qtyBase);
           recvQty = (if position = LONG then qtyBase else qtyQuote) in
     and_then (if isSetField 136 execReport then and_then (get_field 136 execReport) (\<lambda>f. fixed (int_value f)) else Inr 0)
       (\<lambda>numMiscFees.
     and_then (fee_loop L execReport 1 (nat numMiscFees) Map.empty) (\<lambda>feeDelta.
       Inr \<lparr>er_id = f_string clOrdID, er_status = status, er_usedQty = usedQty, er_recvQty = recvQty,
            er_feeDelta = feeDelta\<rparr>))))))))))))"

section \<open>Full refresh\<close>

record quotes =
  q_bidPrice :: precise_number
  q_bidQty :: precise_number
  q_askPrice :: precise_number
  q_askQty :: precise_number

fun snapshot_loop :: "'d app_library \<Rightarrow> FieldMap \<Rightarrow> int \<Rightarrow> nat \<Rightarrow> quotes \<Rightarrow> throwable + quotes" where
  "snapshot_loop L message i 0 q = Inr q"
| "snapshot_loop L message i (Suc left) q =
     and_then (get_group i 268 message) (\<lambda>grp.
     and_then (get_field 269 grp) (\<lambda>entryType.
     and_then (char_value entryType) (\<lambda>entryType.
     and_then
       (if entryType = CHR ''0'' \<or> entryType = CHR ''1'' then
          and_then (get_field 270 grp) (\<lambda>entryPrice.
          and_then (get_field 271 grp) (\<lambda>entrySize.
          and_then (amount L entryPrice) (\<lambda>price.
          and_then (amount L entrySize) (\<lambda>qty.
            Inr (if entryType = CHR ''0'' then q\<lparr>q_bidPrice := price, q_bidQty := qty\<rparr>
                 else q\<lparr>q_askPrice := price, q_askQty := qty\<rparr>)))))
        else Inr q)
     (\<lambda>q. snapshot_loop L message (i + 1) left q))))"

definition parsePriceUpdateFromMarketDataSnapshotFullRefresh ::
  "'d app_library \<Rightarrow> string set \<Rightarrow> FieldMap \<Rightarrow> throwable + PriceUpdate" where
  "parsePriceUpdateFromMarketDataSnapshotFullRefresh L symbolMap message =
     and_then (get_field 55 message) (\<lambda>symbol.
     and_then (get_field 268 message) (\<lambda>noMDEntries.
     and_then (fixed (int_value noMDEntries)) (\<lambda>numEntries.
     and_then (snapshot_loop L message 1 (nat numEntries) \<lparr>q_bidPrice = 0, q_bidQty = 0, q_askPrice = 0, q_askQty = 0\<rparr>) (\<lambda>q.
     and_then (symbol_at symbolMap (f_string symbol)) (\<lambda>s.
       Inr \<lparr>pu_symbol = s, pu_bidPrice = q_bidPrice q, pu_askPrice = q_askPrice q, pu_bidQty = q_bidQty q,
            pu_askQty = q_askQty q\<rparr>)))))"

section \<open>Incremental refresh\<close>

text \<open>\<open>updates\<close> says where the update of a symbol is; a new symbol gets an update of zeros at the end.\<close>

definition seen_update :: "string set \<Rightarrow> string \<Rightarrow> (string \<rightharpoonup> nat) \<Rightarrow> PriceUpdate list \<Rightarrow>
    throwable + (string \<rightharpoonup> nat) \<times> PriceUpdate list" where
  "seen_update symbolMap symbolValue updates priceUpdates =
     (if updates symbolValue = None then
        and_then (symbol_at symbolMap symbolValue) (\<lambda>s.
          let priceUpdates = priceUpdates @
            [\<lparr>pu_symbol = s, pu_bidPrice = 0, pu_askPrice = 0, pu_bidQty = 0, pu_askQty = 0\<rparr>]
          in Inr (updates(symbolValue \<mapsto> length priceUpdates - 1), priceUpdates))
      else Inr (updates, priceUpdates))"

text \<open>What an entry does to the update of its symbol.\<close>

definition entry_change :: "'d app_library \<Rightarrow> FieldMap \<Rightarrow> FieldBase \<Rightarrow> PriceUpdate \<Rightarrow> throwable + PriceUpdate" where
  "entry_change L grp entryType u =
     and_then (get_field 279 grp) (\<lambda>action.
     and_then (char_value action) (\<lambda>action.
       if action = CHR ''0'' \<or> action = CHR ''1'' then
         and_then (get_field 270 grp) (\<lambda>entryPrice.
           if isSetField 271 grp then
             and_then (get_field 271 grp) (\<lambda>entrySize.
             and_then (char_value entryType) (\<lambda>ty.
               if ty = CHR ''0'' then
                 and_then (amount L entryPrice) (\<lambda>price.
                 and_then (amount L entrySize) (\<lambda>qty. Inr (u\<lparr>pu_bidPrice := price, pu_bidQty := qty\<rparr>)))
               else if ty = CHR ''1'' then
                 and_then (amount L entryPrice) (\<lambda>price.
                 and_then (amount L entrySize) (\<lambda>qty. Inr (u\<lparr>pu_askPrice := price, pu_askQty := qty\<rparr>)))
               else Inr u))
           else Inr u)
       else Inr u))"

text \<open>\<open>symbol0\<close> is the symbol of the entry before; the index is the one \<open>updates\<close> has for the symbol.\<close>

fun refresh_loop :: "'d app_library \<Rightarrow> string set \<Rightarrow> FieldMap \<Rightarrow> int \<Rightarrow> nat \<Rightarrow> string \<Rightarrow> (string \<rightharpoonup> nat) \<Rightarrow>
    PriceUpdate list \<Rightarrow> throwable + PriceUpdate list" where
  "refresh_loop L symbolMap message i 0 symbol0 updates priceUpdates = Inr priceUpdates"
| "refresh_loop L symbolMap message i (Suc left) symbol0 updates priceUpdates =
     and_then (get_group i 268 message) (\<lambda>grp.
     and_then (get_field 269 grp) (\<lambda>entryType.
     and_then (optional_field 55 (FieldBase_new 55 symbol0) grp) (\<lambda>sym.
     let symbolValue = f_string sym in
     and_then (seen_update symbolMap symbolValue updates priceUpdates) (\<lambda>(updates, priceUpdates).
     let k = (case updates symbolValue of None \<Rightarrow> 0 | Some k \<Rightarrow> k) in
     and_then (entry_change L grp entryType (priceUpdates ! k)) (\<lambda>u.
       refresh_loop L symbolMap message (i + 1) left symbolValue updates (priceUpdates[k := u]))))))"

definition parsePriceUpdateFromMarketDataIncrementalRefresh ::
  "'d app_library \<Rightarrow> string set \<Rightarrow> FieldMap \<Rightarrow> throwable + PriceUpdate list" where
  "parsePriceUpdateFromMarketDataIncrementalRefresh L symbolMap message =
     and_then (get_field 268 message) (\<lambda>noMDEntries.
     and_then (fixed (int_value noMDEntries)) (\<lambda>numEntries.
       refresh_loop L symbolMap message 1 (nat numEntries) [] Map.empty []))"

section \<open>Symbols of the sessions\<close>

text \<open>\<^verbatim>\<open>symbols.at\<close> for a run of indices.\<close>

definition run_at :: "nat \<Rightarrow> nat \<Rightarrow> 'b list \<Rightarrow> throwable + 'b list" where
  "run_at i n xs = (if n = 0 then Inr [] else if i + n \<le> length xs then Inr (take n (drop i xs))
     else Inl (Std_logic_error ''vector::_M_range_check''))"

fun divide_loop :: "'b list \<Rightarrow> nat \<Rightarrow> nat \<Rightarrow> nat \<Rightarrow> nat \<Rightarrow> nat \<Rightarrow> throwable + 'b list list" where
  "divide_loop symbols symbolsPerSession remainder i 0 symbolIndex = Inr []"
| "divide_loop symbols symbolsPerSession remainder i (Suc left) symbolIndex =
     (let num = symbolsPerSession + (if i < remainder then 1 else 0) in
      and_then (run_at symbolIndex num symbols) (\<lambda>part.
      and_then (divide_loop symbols symbolsPerSession remainder (Suc i) left (symbolIndex + num)) (\<lambda>parts.
        Inr (part # parts))))"

text \<open>A division by zero is undefined.\<close>

definition divideSymbolsEvenly :: "'b list \<Rightarrow> nat \<Rightarrow> throwable + 'b list list" where
  "divideSymbolsEvenly symbols num_sessions =
     (if num_sessions = 0 then Inl Undefined
      else divide_loop symbols (length symbols div num_sessions) (length symbols mod num_sessions) 0 num_sessions 0)"

end
