(* ===== verification/Fix_Session.thy ===== *)
theory Fix_Session
  imports Session_Action Time_Range
begin

text \<open>
  The session of the FIX engine (flashfix/include/Session.h, flashfix/src/Session.cpp), first part:
  its members, and everything it sends. A statement is an action on the record of the members. What
  the session is given is an environment: the clock, which answers the n-th call, the time zone, the
  transport, and the callbacks of the application, which act on a state of their own. The callbacks
  do not call back into the session. The locks have no counterpart: one thread runs the session.
  Null pointers are \<open>None\<close> or \<open>False\<close>; what goes out on the transport is kept as a list.
\<close>

section \<open>Members\<close>

datatype log_line =
    Incoming string
  | Outgoing string
  | Event string
  | Event_of throwable \<comment> \<open>the text of the exception\<close>

record 'a Session =
  m_sessionID :: SessionID
  m_sessionTime :: TimeRange
  m_logonTime :: TimeRange
  m_senderDefaultApplVerID :: string
  m_targetDefaultApplVerID :: string
  m_sendRedundantResendRequests :: bool
  m_checkCompId :: bool
  m_checkLatency :: bool
  m_maxLatency :: int
  m_resetOnLogon :: bool
  m_resetOnLogout :: bool
  m_resetOnDisconnect :: bool
  m_refreshOnLogon :: bool
  m_timestampPrecision :: int
  m_persistMessages :: bool
  m_validateLengthAndChecksum :: bool
  m_sendNextExpectedMsgSeqNum :: bool
  m_isNonStopSession :: bool
  m_allowedRemoteAddresses :: "string set"
  m_state :: SessionState
  m_dataDictionaryProvider :: DataDictionaryProvider
  m_log :: "log_line list option"
  m_pResponder :: bool
  x_clock :: nat
  x_sent :: "string list"
  x_disconnects :: nat
  x_app :: 'a

record 'a environment =
  e_timestamper :: "nat \<Rightarrow> DateTime"
  e_localtime :: "int \<Rightarrow> tm"
  e_responder :: "string \<Rightarrow> bool"
  e_onCreate :: "SessionID \<Rightarrow> ('a, unit) act"
  e_onLogon :: "SessionID \<Rightarrow> ('a, unit) act"
  e_onLogout :: "SessionID \<Rightarrow> ('a, unit) act"
  e_toAdmin :: "Message \<Rightarrow> SessionID \<Rightarrow> ('a, Message) act"
  e_toApp :: "Message \<Rightarrow> SessionID \<Rightarrow> ('a, Message) act"
  e_fromAdmin :: "Message \<Rightarrow> SessionID \<Rightarrow> ('a, unit) act"
  e_fromApp :: "Message \<Rightarrow> SessionID \<Rightarrow> ('a, unit) act"

type_synonym ('a, 'b) session_act = "('a Session, 'b) act"

text \<open>A callback, on the state of the application.\<close>

definition callback :: "('a, 'b) act \<Rightarrow> ('a, 'b) session_act" where
  "callback m s = (case m (x_app s) of (r, a) \<Rightarrow> (r, s\<lparr>x_app := a\<rparr>))"

definition timestamper :: "'a environment \<Rightarrow> ('a, DateTime) session_act" where
  "timestamper E s = (Inr (e_timestamper E (x_clock s)), s\<lparr>x_clock := x_clock s + 1\<rparr>)"

definition state :: "(SessionState \<Rightarrow> SessionState) \<Rightarrow> ('a, unit) session_act" where
  "state f = modify (\<lambda>s. s\<lparr>m_state := f (m_state s)\<rparr>)"

definition log_add :: "log_line \<Rightarrow> ('a, unit) session_act" where
  "log_add l = modify (\<lambda>s. s\<lparr>m_log := map_option (\<lambda>ls. ls @ [l]) (m_log s)\<rparr>)"

abbreviation onEvent :: "string \<Rightarrow> ('a, unit) session_act" where
  "onEvent t \<equiv> log_add (Event t)"

section \<open>Questions\<close>

abbreviation beginString_of :: "'a Session \<Rightarrow> string" where
  "beginString_of s \<equiv> sid_beginString (m_sessionID s)"

definition isEnabled :: "'a Session \<Rightarrow> bool" where
  "isEnabled s = st_enabled (m_state s)"

definition isLoggedOn :: "'a Session \<Rightarrow> bool" where
  "isLoggedOn s = (st_receivedLogon (m_state s) \<and> st_sentLogon (m_state s))"

definition getExpectedSenderNum :: "'a Session \<Rightarrow> seqnum" where
  "getExpectedSenderNum s = getNextSenderMsgSeqNum (m_state s)"

definition getExpectedTargetNum :: "'a Session \<Rightarrow> seqnum" where
  "getExpectedTargetNum s = getNextTargetMsgSeqNum (m_state s)"

definition isSessionTime :: "'a environment \<Rightarrow> DateTime \<Rightarrow> 'a Session \<Rightarrow> bool" where
  "isSessionTime E now s = TimeRange_isInRange (e_localtime E) (m_sessionTime s) now"

definition isLogonTime :: "'a environment \<Rightarrow> DateTime \<Rightarrow> 'a Session \<Rightarrow> bool" where
  "isLogonTime E now s = TimeRange_isInRange (e_localtime E) (m_logonTime s) now"

definition isInitiator :: "'a Session \<Rightarrow> bool" where
  "isInitiator s = st_initiate (m_state s)"

definition isAcceptor :: "'a Session \<Rightarrow> bool" where
  "isAcceptor s = (\<not> st_initiate (m_state s))"

definition checkSessionTime :: "'a environment \<Rightarrow> DateTime \<Rightarrow> 'a Session \<Rightarrow> bool" where
  "checkSessionTime E now s =
     (if m_isNonStopSession s then True
      else TimeRange_isInSameRange (e_localtime E) (m_sessionTime s) now (getCreationTime (m_state s)))"

definition isTargetTooHigh :: "seqnum \<Rightarrow> 'a Session \<Rightarrow> bool" where
  "isTargetTooHigh msgSeqNum s = (msgSeqNum > getNextTargetMsgSeqNum (m_state s))"

definition isTargetTooLow :: "seqnum \<Rightarrow> 'a Session \<Rightarrow> bool" where
  "isTargetTooLow msgSeqNum s = (msgSeqNum < getNextTargetMsgSeqNum (m_state s))"

definition isCorrectCompID :: "string \<Rightarrow> string \<Rightarrow> 'a Session \<Rightarrow> bool" where
  "isCorrectCompID senderCompID targetCompID s =
     (if \<not> m_checkCompId s then True
      else sid_senderCompID (m_sessionID s) = targetCompID \<and> sid_targetCompID (m_sessionID s) = senderCompID)"

definition shouldSendReset :: "'a Session \<Rightarrow> bool" where
  "shouldSendReset s =
     (string_le ''FIX.4.1'' (beginString_of s) \<and> (m_resetOnLogon s \<or> m_resetOnLogout s \<or> m_resetOnDisconnect s) \<and>
      getExpectedSenderNum s = 1 \<and> getExpectedTargetNum s = 1)"

definition validLogonState :: "string \<Rightarrow> 'a Session \<Rightarrow> bool" where
  "validLogonState msgType s =
     (let st = m_state s in
      if (msgType = ''A'' \<and> st_sentReset st) \<or> st_receivedReset st then True
      else if (msgType = ''A'' \<and> \<not> st_receivedLogon st) \<or> (msgType \<noteq> ''A'' \<and> st_receivedLogon st) then True
      else if msgType = ''5'' \<and> st_sentLogon st then True
      else if msgType \<noteq> ''5'' \<and> st_sentLogout st then True
      else if msgType = ''4'' then True
      else if msgType = ''3'' then True
      else False)"

definition supportsSubSecondTimestamps :: "string \<Rightarrow> bool" where
  "supportsSubSecondTimestamps beginString =
     (if beginString = ''FIXT.1.1'' then True else string_le ''FIX.4.2'' beginString)"

definition getSupportedTimestampPrecision :: "'a Session \<Rightarrow> int" where
  "getSupportedTimestampPrecision s =
     (if supportsSubSecondTimestamps (beginString_of s) then m_timestampPrecision s else 0)"

section \<open>Settings\<close>

definition logon :: "'a Session \<Rightarrow> 'a Session" where
  "logon s = s\<lparr>m_state := (m_state s)\<lparr>st_enabled := True, st_logoutReason := []\<rparr>\<rparr>"

definition logout :: "string \<Rightarrow> 'a Session \<Rightarrow> 'a Session" where
  "logout reason s = s\<lparr>m_state := (m_state s)\<lparr>st_enabled := False, st_logoutReason := reason\<rparr>\<rparr>"

definition setLogonTimeout :: "int \<Rightarrow> 'a Session \<Rightarrow> 'a Session" where
  "setLogonTimeout val s = s\<lparr>m_state := (m_state s)\<lparr>st_logonTimeout := val\<rparr>\<rparr>"

definition setLogoutTimeout :: "int \<Rightarrow> 'a Session \<Rightarrow> 'a Session" where
  "setLogoutTimeout val s = s\<lparr>m_state := (m_state s)\<lparr>st_logoutTimeout := val\<rparr>\<rparr>"

definition setMillisecondsInTimeStamp :: "bool \<Rightarrow> 'a Session \<Rightarrow> 'a Session" where
  "setMillisecondsInTimeStamp val s = (if val then s\<lparr>m_timestampPrecision := 3\<rparr> else s\<lparr>m_timestampPrecision := 0\<rparr>)"

definition setTimestampPrecision :: "int \<Rightarrow> 'a Session \<Rightarrow> 'a Session" where
  "setTimestampPrecision precision s =
     (if precision < 0 \<or> precision > 9 then s else s\<lparr>m_timestampPrecision := precision\<rparr>)"

definition inAllowedRemoteAddresses :: "string \<Rightarrow> 'a Session \<Rightarrow> bool" where
  "inAllowedRemoteAddresses val s = (val \<in> m_allowedRemoteAddresses s)"

section \<open>The header of what is sent\<close>

definition stamp_text :: "DateTime \<Rightarrow> ('a, string) session_act" where
  "stamp_text t = look (\<lambda>s. case UtcTimeStamp_convert t (getSupportedTimestampPrecision s) of
     None \<Rightarrow> throw Undefined | Some txt \<Rightarrow> return txt)"

definition insertSendingTime :: "'a environment \<Rightarrow> FieldMap \<Rightarrow> ('a, FieldMap) session_act" where
  "insertSendingTime E header =
     bind (timestamper E) (\<lambda>t. bind (stamp_text t) (\<lambda>txt. return (setField (FieldBase_new 52 txt) header)))"

definition insertOrigSendingTime :: "FieldMap \<Rightarrow> DateTime \<Rightarrow> ('a, FieldMap) session_act" where
  "insertOrigSendingTime header now =
     bind (stamp_text now) (\<lambda>txt. return (setField (FieldBase_new 122 txt) header))"

definition fill :: "'a environment \<Rightarrow> FieldMap \<Rightarrow> ('a, FieldMap) session_act" where
  "fill E header =
     bind (timestamper E) (\<lambda>t.
     after (state (\<lambda>st. st\<lparr>st_lastSentTime := t\<rparr>))
     (look (\<lambda>s.
       let sid = m_sessionID s;
           header = setField (FieldBase_new 8 (sid_beginString sid)) header;
           header = setField (FieldBase_new 49 (sid_senderCompID sid)) header;
           header = setField (FieldBase_new 56 (sid_targetCompID sid)) header;
           header = setField (FieldBase_new 34 (seqnum_text (getExpectedSenderNum s))) header
       in insertSendingTime E header)))"

definition fill_message :: "'a environment \<Rightarrow> Message \<Rightarrow> ('a, Message) session_act" where
  "fill_message E m = bind (fill E (msg_header m)) (\<lambda>h. return (m\<lparr>msg_header := h\<rparr>))"

definition body_field :: "int \<Rightarrow> string \<Rightarrow> Message \<Rightarrow> Message" where
  "body_field tag txt m = m\<lparr>msg_body := setField (FieldBase_new tag txt) (msg_body m)\<rparr>"

definition header_field :: "int \<Rightarrow> string \<Rightarrow> Message \<Rightarrow> Message" where
  "header_field tag txt m = m\<lparr>msg_header := setField (FieldBase_new tag txt) (msg_header m)\<rparr>"

section \<open>New messages\<close>

definition stored_order :: "string \<Rightarrow> message_order option \<Rightarrow> ('s, message_order) act" where
  "stored_order what ord = (case ord of
     None \<Rightarrow> throw (Fix (ConfigError (what @ '' does not have a stored message order''))) | Some mo \<Rightarrow> return mo)"

definition newMessage :: "string \<Rightarrow> ('a, Message) session_act" where
  "newMessage msgType = look (\<lambda>s.
     let sessionDD = getSessionDataDictionary (beginString_of s) (m_dataDictionaryProvider s) in
     if \<not> isMessageFieldsOrderPreserved sessionDD then return (header_field 35 msgType Message_new)
     else
       bind (stored_order ''<Header>'' (getHeaderOrderedFields sessionDD)) (\<lambda>headerOrder.
       bind (stored_order ''<Trailer>'' (getTrailerOrderedFields sessionDD)) (\<lambda>trailerOrder.
         let dd = (if \<not> sid_isFIXT (m_sessionID s) \<or> isAdminMsgType msgType then sessionDD
           else getApplicationDataDictionary (m_senderDefaultApplVerID s) (m_dataDictionaryProvider s))
         in bind (stored_order (''<Message> '' @ msgType) (getMessageOrderedFields msgType dd)) (\<lambda>messageOrder.
              return (header_field 35 msgType (Message_orders headerOrder trailerOrder messageOrder))))))"

section \<open>Sending\<close>

definition send_text :: "'a environment \<Rightarrow> string \<Rightarrow> ('a, bool) session_act" where
  "send_text E txt = look (\<lambda>s.
     if \<not> m_pResponder s then return False
     else after (log_add (Outgoing txt)) (after (modify (\<lambda>s. s\<lparr>x_sent := x_sent s @ [txt]\<rparr>)) (return (e_responder E txt))))"

definition message_text :: "Message \<Rightarrow> ('s, string \<times> Message) act" where
  "message_text m = (case toString m of None \<Rightarrow> throw Undefined | Some r \<Rightarrow> return r)"

definition persist :: "Message \<Rightarrow> string \<Rightarrow> ('a, unit) session_act" where
  "persist message messageString =
     bind (lift (field_ref 34 (msg_header message))) (\<lambda>msgSeqNum. look (\<lambda>s.
       after
         (if m_persistMessages s
          then bind (lift (seqnum_value msgSeqNum)) (\<lambda>n. state (\<lambda>st. snd (st_set n messageString st)))
          else skip)
         (state incrNextSenderMsgSeqNum)))"

definition io_exception :: "throwable \<Rightarrow> bool" where
  "io_exception e = (case e of Fix (IOException what) \<Rightarrow> True | _ \<Rightarrow> False)"

text \<open>A logon asks for a reset of the sequence numbers: they are reset before it goes out.\<close>

definition reset_for_logon :: "'a environment \<Rightarrow> string \<Rightarrow> Message \<Rightarrow> ('a, Message) session_act" where
  "reset_for_logon E msgType message = look (\<lambda>s.
     if msgType = ''A'' \<and> \<not> st_receivedReset (m_state s) then
       bind (case getFieldIfSet 141 (msg_body message) of None \<Rightarrow> return False | Some f \<Rightarrow> lift (bool_value f)) (\<lambda>resetSeqNumFlag.
       bind (if resetSeqNumFlag
             then bind (timestamper E) (\<lambda>now. after (state (st_reset now))
               (look (\<lambda>s. return (header_field 34 (seqnum_text (getExpectedSenderNum s)) message))))
             else return message) (\<lambda>message.
         after (state (\<lambda>st. st\<lparr>st_sentReset := resetSeqNumFlag\<rparr>)) (return message)))
     else return message)"

definition sendRaw :: "'a environment \<Rightarrow> Message \<Rightarrow> seqnum \<Rightarrow> ('a, bool \<times> Message) session_act" where
  "sendRaw E message num =
     catch
       (let msgType = (case getFieldIfSet 35 (msg_header message) of None \<Rightarrow> [] | Some f \<Rightarrow> f_string f) in
        bind (fill_message E message) (\<lambda>message.
        let message = (if num \<noteq> 0 then header_field 34 (seqnum_text num) message else message) in
        if isAdminMsgType msgType then
          bind (look (\<lambda>s. callback (e_toAdmin E message (m_sessionID s)))) (\<lambda>message.
          bind (reset_for_logon E msgType message) (\<lambda>message.
          bind (message_text message) (\<lambda>(messageString, message).
          after (only_if (num = 0) (persist message messageString))
          (after (look (\<lambda>s. only_if (msgType \<in> {''A'', ''5'', ''2'', ''4''} \<or> isLoggedOn s) (ignore (send_text E messageString))))
            (return (True, message))))))
        else look (\<lambda>s.
          if \<not> isLoggedOn s \<and> shouldSendReset s then return (False, message)
          else
            catch
              (bind (callback (e_toApp E message (m_sessionID s))) (\<lambda>message.
               bind (message_text message) (\<lambda>(messageString, message).
               after (only_if (num = 0) (persist message messageString))
               (after (look (\<lambda>s. only_if (isLoggedOn s) (ignore (send_text E messageString))))
                 (return (True, message))))))
              (\<lambda>e. if e = Fix DoNotSend then Some (return (False, message)) else None))))
       (\<lambda>e. if io_exception e then Some (after (log_add (Event_of e)) (return (False, message))) else None)"

definition send :: "'a environment \<Rightarrow> Message \<Rightarrow> ('a, bool \<times> Message) session_act" where
  "send E message =
     sendRaw E (message\<lparr>msg_header := removeField 122 (removeField 43 (msg_header message))\<rparr>) 0"

abbreviation send_out :: "'a environment \<Rightarrow> Message \<Rightarrow> ('a, unit) session_act" where
  "send_out E message \<equiv> ignore (sendRaw E message 0)"

section \<open>Disconnecting\<close>

definition disconnect :: "'a environment \<Rightarrow> ('a, unit) session_act" where
  "disconnect E = block
     [look (\<lambda>s. only_if (m_pResponder s) (block
        [onEvent ''Disconnecting'',
         modify (\<lambda>s. s\<lparr>x_disconnects := x_disconnects s + 1, m_pResponder := False\<rparr>)])),
      look (\<lambda>s. only_if (st_receivedLogon (m_state s) \<or> st_sentLogon (m_state s)) (block
        [state (\<lambda>st. st\<lparr>st_receivedLogon := False, st_sentLogon := False\<rparr>),
         callback (e_onLogout E (m_sessionID s))])),
      state (\<lambda>st. st_clearQueue (st\<lparr>st_sentLogout := False, st_receivedReset := False, st_sentReset := False\<rparr>)),
      look (\<lambda>s. only_if (m_resetOnDisconnect s) (bind (timestamper E) (\<lambda>now. state (st_reset now)))),
      state (\<lambda>st. st\<lparr>st_resendRange := (0, 0)\<rparr>)]"

end
