(* ===== verification/Session_Generate.thy ===== *)
theory Session_Generate
  imports Fix_Session
begin

text \<open>
  The messages the session makes by itself (flashfix/src/Session.cpp): logon, heartbeat, test
  request, resend request, gap fill, the rejects, logout, and the retransmission of stored messages.
\<close>

section \<open>Administrative messages\<close>

definition generateLogon :: "'a environment \<Rightarrow> ('a, unit) session_act" where
  "generateLogon E =
     bind (newMessage ''A'') (\<lambda>logon. look (\<lambda>s.
       let logon = body_field 98 (int_text 0) logon;
           logon = body_field 108 (st_heartBtInt (m_state s)) logon;
           logon = (if sid_isFIXT (m_sessionID s) then body_field 1137 (m_senderDefaultApplVerID s) logon else logon)
       in block
         [only_if (m_refreshOnLogon s) (state st_refresh),
          only_if (m_resetOnLogon s) (bind (timestamper E) (\<lambda>now. state (st_reset now))),
          look (\<lambda>s.
            let logon = (if shouldSendReset s then body_field 141 (Bool_convert True) logon else logon);
                logon = (if m_sendNextExpectedMsgSeqNum s
                  then body_field 789 (seqnum_text (getExpectedTargetNum s)) logon else logon)
            in bind (fill_message E logon) (\<lambda>logon. block
              [bind (timestamper E) (\<lambda>now. state (\<lambda>st. st\<lparr>st_lastReceivedTime := now\<rparr>)),
               state (\<lambda>st. st\<lparr>st_testRequest := 0\<rparr>),
               state (\<lambda>st. st\<lparr>st_sentLogon := True\<rparr>),
               send_out E logon]))]))"

definition generateLogon_to :: "'a environment \<Rightarrow> Message \<Rightarrow> ('a, unit) session_act" where
  "generateLogon_to E aLogon =
     bind (newMessage ''A'') (\<lambda>logon. look (\<lambda>s.
       let logon = body_field 98 (int_text 0) logon;
           logon = (if sid_isFIXT (m_sessionID s) then body_field 1137 (m_senderDefaultApplVerID s) logon else logon);
           logon = (if st_receivedReset (m_state s) then body_field 141 (Bool_convert True) logon else logon)
       in bind (lift (field_ref 108 (msg_body aLogon))) (\<lambda>heartBtInt.
         let logon = body_field 108 (f_string heartBtInt) logon;
             logon = (if m_sendNextExpectedMsgSeqNum s
               then body_field 789 (seqnum_text (getExpectedTargetNum s + 1)) logon else logon)
         in bind (fill_message E logon) (\<lambda>logon.
              block [send_out E logon, state (\<lambda>st. st\<lparr>st_sentLogon := True\<rparr>)]))))"

text \<open>The first number goes through \<^verbatim>\<open>int\<close>.\<close>

definition through_int :: "seqnum \<Rightarrow> seqnum" where
  "through_int n = signed (ucast n :: 32 word)"

definition generateResendRequest :: "'a environment \<Rightarrow> string \<Rightarrow> FieldBase \<Rightarrow> ('a, unit) session_act" where
  "generateResendRequest E beginString msgSeqNum =
     bind (newMessage ''2'') (\<lambda>resendRequest. look (\<lambda>s.
       let beginSeqNo = through_int (getExpectedTargetNum s)
       in bind (lift (seqnum_value msgSeqNum)) (\<lambda>n.
         let endSeqNo = n - 1;
             endSeqNo = (if string_le ''FIX.4.2'' beginString then 0
               else if string_le beginString ''FIX.4.1'' then 999999 else endSeqNo);
             resendRequest = body_field 7 (seqnum_text beginSeqNo) resendRequest;
             resendRequest = body_field 16 (seqnum_text endSeqNo) resendRequest
         in bind (fill_message E resendRequest) (\<lambda>resendRequest. block
           [send_out E resendRequest,
            onEvent (''Sent ResendRequest FROM: '' @ seqnum_text beginSeqNo @ '' TO: '' @ seqnum_text endSeqNo),
            state (\<lambda>st. st\<lparr>st_resendRange := (beginSeqNo, n - 1)\<rparr>)]))))"

definition generateSequenceReset :: "'a environment \<Rightarrow> seqnum \<Rightarrow> seqnum \<Rightarrow> ('a, unit) session_act" where
  "generateSequenceReset E beginSeqNo endSeqNo =
     bind (newMessage ''4'') (\<lambda>m.
     let m = header_field 43 (Bool_convert True) m;
         m = body_field 36 (seqnum_text endSeqNo) m
     in bind (fill_message E m) (\<lambda>m.
        bind (lift (and_then (field_ref 52 (msg_header m)) stamp_value)) (\<lambda>sendingTime.
        bind (insertOrigSendingTime (msg_header m) sendingTime) (\<lambda>h.
        let m = header_field 34 (seqnum_text beginSeqNo) (m\<lparr>msg_header := h\<rparr>);
            m = body_field 123 (Bool_convert True) m
        in block [ignore (sendRaw E m beginSeqNo), onEvent (''Sent SequenceReset TO: '' @ seqnum_text endSeqNo)]))))"

definition generateHeartbeat :: "'a environment \<Rightarrow> ('a, unit) session_act" where
  "generateHeartbeat E = bind (newMessage ''0'') (\<lambda>m. bind (fill_message E m) (send_out E))"

definition generateHeartbeat_to :: "'a environment \<Rightarrow> Message \<Rightarrow> ('a, unit) session_act" where
  "generateHeartbeat_to E testRequest =
     bind (newMessage ''0'') (\<lambda>m. bind (fill_message E m) (\<lambda>m.
       send_out E (case getFieldRef 112 (msg_body testRequest) of None \<Rightarrow> m | Some f \<Rightarrow> body_field 112 (f_string f) m)))"

definition generateTestRequest :: "'a environment \<Rightarrow> string \<Rightarrow> ('a, unit) session_act" where
  "generateTestRequest E ident =
     bind (newMessage ''1'') (\<lambda>m. bind (fill_message E m) (\<lambda>m. send_out E (body_field 112 ident m)))"

definition generateLogout :: "'a environment \<Rightarrow> string \<Rightarrow> ('a, unit) session_act" where
  "generateLogout E txt =
     bind (newMessage ''5'') (\<lambda>m. bind (fill_message E m) (\<lambda>m. block
       [send_out E (if length txt \<noteq> 0 then body_field 58 txt m else m),
        state (\<lambda>st. st\<lparr>st_sentLogout := True\<rparr>)]))"

section \<open>Rejects\<close>

definition session_reason :: "int \<Rightarrow> string option" where
  "session_reason err =
     (if err = 0 then Some ''Invalid tag number''
      else if err = 1 then Some ''Required tag missing''
      else if err = 2 then Some ''Tag not defined for this message type''
      else if err = 4 then Some ''Tag specified without a value''
      else if err = 5 then Some ''Value is incorrect (out of range) for this tag''
      else if err = 6 then Some ''Incorrect data format for value''
      else if err = 9 then Some ''CompID problem''
      else if err = 10 then Some ''SendingTime accuracy problem''
      else if err = 11 then Some ''Invalid MsgType''
      else if err = 13 then Some ''Tag appears more than once''
      else if err = 14 then Some ''Tag specified out of required order''
      else if err = 16 then Some ''Incorrect NumInGroup count for repeating group''
      else None)"

definition business_reason :: "int \<Rightarrow> string option" where
  "business_reason err =
     (if err = 0 then Some ''Other''
      else if err = 1 then Some ''Unknown ID''
      else if err = 2 then Some ''Unknown Security''
      else if err = 3 then Some ''Unsupported Message Type''
      else if err = 4 then Some ''Application Not Available''
      else if err = 5 then Some ''Conditionally Required Field Missing''
      else if err = 6 then Some ''Not Authorized''
      else if err = 7 then Some ''Deliver to firm not available at this time''
      else None)"

definition populateRejectReason_field :: "Message \<Rightarrow> int \<Rightarrow> string \<Rightarrow> ('a, Message) session_act" where
  "populateRejectReason_field reject field txt =
     bind (lift (field_ref 35 (msg_header reject))) (\<lambda>msgType. look (\<lambda>s.
       if f_string msgType = ''3'' \<and> string_le ''FIX.4.2'' (beginString_of s)
       then return (body_field 58 txt (body_field 371 (int_text field) reject))
       else return (body_field 58 (txt @ '' ('' @ int_text field @ '')'') reject)))"

definition populateRejectReason :: "Message \<Rightarrow> string \<Rightarrow> Message" where
  "populateRejectReason reject txt = body_field 58 txt reject"

text \<open>
  The end both rejects share: the reason goes into the message and into the log. \<open>named\<close> says that
  the field is named.
\<close>

definition give_reason :: "Message \<Rightarrow> string option \<Rightarrow> bool \<Rightarrow> int \<Rightarrow> string \<Rightarrow> ('a, Message) session_act" where
  "give_reason reject reason named field number =
     (case reason of
        None \<Rightarrow> after (onEvent (''Message '' @ number @ '' Rejected'')) (return reject)
      | Some r \<Rightarrow>
          if named
          then bind (populateRejectReason_field reject field r) (\<lambda>reject.
            after (onEvent (''Message '' @ number @ '' Rejected: '' @ r @ '':'' @ seqnum_text (word_of_int field))) (return reject))
          else after (onEvent (''Message '' @ number @ '' Rejected: '' @ r)) (return (populateRejectReason reject r)))"

definition generateReject :: "'a environment \<Rightarrow> Message \<Rightarrow> int \<Rightarrow> int \<Rightarrow> ('a, unit) session_act" where
  "generateReject E message err field = look (\<lambda>s.
     let beginString = beginString_of s in
     bind (newMessage ''3'') (\<lambda>reject.
     bind (fill_message E (reverseRoute (msg_header message) reject)) (\<lambda>reject.
     bind (lift (field_ref 35 (msg_header message))) (\<lambda>msgTypeField.
     let msgType = f_string msgTypeField;
         msgSeqNum = (case getFieldIfSet 34 (msg_header message) of None \<Rightarrow> FieldBase_new 34 [] | Some f \<Rightarrow> f)
     in bind (if f_string msgSeqNum \<noteq> []
              then bind (lift (seqnum_value msgSeqNum)) (\<lambda>n. return (body_field 45 (seqnum_text n) reject))
              else return reject) (\<lambda>reject.
     let reject = (if string_le ''FIX.4.2'' beginString \<and> msgType \<noteq> [] then body_field 372 msgType reject else reject);
         reject = (if string_le ''FIX.4.2'' beginString \<and> (beginString = ''FIX.4.2'' \<and> err \<le> 11 \<or> beginString \<noteq> ''FIX.4.2'')
           then body_field 373 (int_text err) reject else reject)
     in after
          (if msgType \<noteq> ''A'' \<and> msgType \<noteq> ''4''
           then bind (lift (seqnum_value msgSeqNum)) (\<lambda>n. look (\<lambda>s.
             only_if (n = getExpectedTargetNum s) (state incrNextTargetMsgSeqNum)))
           else skip)
          (bind (give_reason reject (session_reason err) (field \<noteq> 0 \<or> err = 0) field (f_string msgSeqNum)) (\<lambda>reject.
           look (\<lambda>s.
             if \<not> st_receivedLogon (m_state s)
             then throw (Std_runtime_error ''Tried to send a reject while not logged on'')
             else send_out E reject))))))))"

definition generateReject_text :: "'a environment \<Rightarrow> Message \<Rightarrow> string \<Rightarrow> ('a, unit) session_act" where
  "generateReject_text E message txt = look (\<lambda>s.
     let beginString = beginString_of s in
     bind (newMessage ''3'') (\<lambda>reject.
     bind (fill_message E (reverseRoute (msg_header message) reject)) (\<lambda>reject.
     bind (lift (field_ref 35 (msg_header message))) (\<lambda>msgType.
     bind (lift (field_ref 34 (msg_header message))) (\<lambda>msgSeqNum.
     let reject = (if string_le ''FIX.4.2'' beginString then body_field 372 (f_string msgType) reject else reject)
     in bind (lift (seqnum_value msgSeqNum)) (\<lambda>n.
     let reject = body_field 45 (seqnum_text n) reject
     in block
       [only_if (f_string msgType \<noteq> ''A'' \<and> f_string msgType \<noteq> ''4'') (state incrNextTargetMsgSeqNum),
        send_out E (body_field 58 txt reject),
        onEvent (''Message '' @ f_string msgSeqNum @ '' Rejected: '' @ txt)]))))))"

definition generateBusinessReject :: "'a environment \<Rightarrow> Message \<Rightarrow> int \<Rightarrow> int \<Rightarrow> ('a, unit) session_act" where
  "generateBusinessReject E message err field =
     bind (newMessage ''j'') (\<lambda>reject.
     bind (lift (field_ref 34 (msg_header message))) (\<lambda>msgSeqNum. look (\<lambda>s.
     let reject = (if sid_isFIXT (m_sessionID s) then body_field 1137 (m_senderDefaultApplVerID s) reject else reject)
     in bind (fill_message E reject) (\<lambda>reject.
        bind (lift (field_ref 35 (msg_header message))) (\<lambda>msgType.
        bind (lift (seqnum_value msgSeqNum)) (\<lambda>n.
        let reject = body_field 372 (f_string msgType) reject;
            reject = body_field 45 (seqnum_text n) reject;
            reject = body_field 380 (int_text err) reject
        in after (state incrNextTargetMsgSeqNum)
          (bind (give_reason reject (business_reason err) (field \<noteq> 0) field (f_string msgSeqNum)) (send_out E))))))))"

section \<open>Retransmission\<close>

definition resend :: "'a environment \<Rightarrow> Message \<Rightarrow> ('a, bool \<times> Message) session_act" where
  "resend E message =
     bind (lift (field_ref 52 (msg_header message))) (\<lambda>sendingTime.
     bind (lift (field_ref 34 (msg_header message))) (\<lambda>msgSeqNum.
     bind (lift (stamp_value sendingTime)) (\<lambda>t.
     bind (insertOrigSendingTime (msg_header message) t) (\<lambda>h.
     bind (insertSendingTime E (setField (FieldBase_new 43 (Bool_convert True)) h)) (\<lambda>h.
     let message = message\<lparr>msg_header := h\<rparr> in
     catch
       (look (\<lambda>s. bind (callback (e_toApp E message (m_sessionID s))) (\<lambda>message. return (True, message))))
       (\<lambda>e. if e = Fix DoNotSend then Some (return (False, message)) else None))))))"

text \<open>What the constructor of a message throws.\<close>

definition parsed :: "message_error + 'b \<Rightarrow> ('s, 'b) act" where
  "parsed r = (case r of
     Inl e \<Rightarrow> throw (if e = Out_of_bounds then Undefined else if e = Out_of_fuel then No_fuel else Fix (InvalidMessage e))
   | Inr m \<Rightarrow> return m)"

text \<open>The type is searched for in the text; positions wrap around when it is not there.\<close>

definition stored_type :: "string \<Rightarrow> ('s, string) act" where
  "stored_type s =
     (let equalSign = (case find_sub (CHR 0x01 # ''35='') s of None \<Rightarrow> 3 | Some p \<Rightarrow> p + 4) in
      if length s < equalSign then throw (Std_logic_error ''basic_string::substr'')
      else return (takeWhile (\<lambda>c. c \<noteq> CHR 0x01) (drop equalSign s)))"

definition read_stored :: "string \<Rightarrow> ('a, Message) session_act" where
  "read_stored i = look (\<lambda>s.
     let provider = m_dataDictionaryProvider s;
         sessionDD = getSessionDataDictionary (beginString_of s) provider;
         check = m_validateLengthAndChecksum s
     in bind (if isMessageFieldsOrderPreserved sessionDD then stored_type i else return []) (\<lambda>strMsgType.
        if sid_isFIXT (m_sessionID s) then
          bind (parsed (setStringHeader i Message_new)) (\<lambda>(b, msg).
          let applVerID = (case getFieldIfSet 1128 (msg_header msg) of None \<Rightarrow> m_senderDefaultApplVerID s | Some f \<Rightarrow> f_string f);
              applicationDD = getApplicationDataDictionary applVerID provider
          in if strMsgType = [] then parsed (setString i check (Some sessionDD) (Some applicationDD) Message_new)
             else
               bind (stored_order ''<Header>'' (getHeaderOrderedFields sessionDD)) (\<lambda>headerOrder.
               bind (stored_order ''<Trailer>'' (getTrailerOrderedFields sessionDD)) (\<lambda>trailerOrder.
               bind (stored_order (''<Message> '' @ strMsgType) (getMessageOrderedFields strMsgType applicationDD)) (\<lambda>messageOrder.
                 parsed (Message_of_string headerOrder trailerOrder messageOrder i sessionDD applicationDD check)))))
        else if strMsgType = [] then parsed (setString i check (Some sessionDD) (Some sessionDD) Message_new)
        else
          bind (stored_order ''<Header>'' (getHeaderOrderedFields sessionDD)) (\<lambda>headerOrder.
          bind (stored_order ''<Trailer>'' (getTrailerOrderedFields sessionDD)) (\<lambda>trailerOrder.
          bind (stored_order (''<Message> '' @ strMsgType) (getMessageOrderedFields strMsgType sessionDD)) (\<lambda>messageOrder.
            parsed (setString i check (Some sessionDD) (Some sessionDD) (Message_orders headerOrder trailerOrder messageOrder)))))))"

text \<open>
  The loop over the stored messages: the first number of the gap that is open (0: none), the number
  expected next, the number read last, and whether the last one was sent as an application message.
\<close>

fun retransmit_loop ::
  "'a environment \<Rightarrow> string list \<Rightarrow> seqnum \<Rightarrow> seqnum \<Rightarrow> seqnum \<Rightarrow> bool \<Rightarrow> ('a, seqnum \<times> seqnum \<times> bool) session_act" where
  "retransmit_loop E [] first current msgSeqNum appMessageJustSent = return (first, msgSeqNum, appMessageJustSent)"
| "retransmit_loop E (i # is) first current msgSeqNum appMessageJustSent =
     bind (read_stored i) (\<lambda>msg.
     bind (lift (field_ref 34 (msg_header msg))) (\<lambda>msgSeqNumField.
     bind (lift (field_ref 35 (msg_header msg))) (\<lambda>msgType.
     bind (lift (seqnum_value msgSeqNumField)) (\<lambda>msgSeqNum.
     let first = (if current \<noteq> msgSeqNum \<and> first = 0 then current else first);
         gap = (if first = 0 then msgSeqNum else first)
     in if isAdminMsgType (f_string msgType) then retransmit_loop E is gap (msgSeqNum + 1) msgSeqNum False
        else bind (resend E msg) (\<lambda>(ok, msg).
          if ok then
            after (only_if (first \<noteq> 0) (generateSequenceReset E first msgSeqNum))
            (bind (message_text msg) (\<lambda>(messageString, msg).
             after (ignore (send_text E messageString))
             (after (onEvent (''Resending Message: '' @ seqnum_text msgSeqNum))
               (retransmit_loop E is 0 (msgSeqNum + 1) msgSeqNum True))))
          else retransmit_loop E is gap (msgSeqNum + 1) msgSeqNum False)))))"

definition generateRetransmits :: "'a environment \<Rightarrow> seqnum \<Rightarrow> seqnum \<Rightarrow> ('a, unit) session_act" where
  "generateRetransmits E beginSeqNo endSeqNo = look (\<lambda>s.
     bind (retransmit_loop E (st_get beginSeqNo endSeqNo (m_state s)) 0 beginSeqNo 0 False)
       (\<lambda>(first, msgSeqNum, appMessageJustSent).
       after (only_if (first \<noteq> 0) (generateSequenceReset E first (msgSeqNum + 1)))
       (look (\<lambda>s. only_if (endSeqNo > msgSeqNum)
         (let next = getNextSenderMsgSeqNum (m_state s);
              endSeqNo = (if endSeqNo + 1 > next then next else endSeqNo + 1)
          in generateSequenceReset E (if appMessageJustSent then msgSeqNum + 1 else beginSeqNo) endSeqNo)))))"

end
