(* ===== verification/Session_Next.thy ===== *)
theory Session_Next
  imports Session_Generate
begin

text \<open>
  The session of the FIX engine, last part (flashfix/src/Session.cpp): the checks of a message that
  came in, the handler of every administrative type, the queue of messages that came too early, the
  timer, and the entry points. A handler that works off the queue calls the entry point again; the
  recursion is on fuel, the number of queued messages is enough of it.
\<close>

section \<open>Checks\<close>

definition isGoodTime :: "'a environment \<Rightarrow> FieldBase \<Rightarrow> ('a, bool) session_act" where
  "isGoodTime E sendingTime = look (\<lambda>s.
     if \<not> m_checkLatency s then return True
     else bind (timestamper E) (\<lambda>now. bind (lift (stamp_value sendingTime)) (\<lambda>t.
       return (\<bar>dt_minus now t\<bar> \<le> m_maxLatency s))))"

definition doBadTime :: "'a environment \<Rightarrow> Message \<Rightarrow> ('a, unit) session_act" where
  "doBadTime E msg = block [generateReject E msg 10 0, generateLogout E []]"

definition doBadCompID :: "'a environment \<Rightarrow> Message \<Rightarrow> ('a, unit) session_act" where
  "doBadCompID E msg = block [generateReject E msg 9 0, generateLogout E []]"

definition doPossDup :: "'a environment \<Rightarrow> Message \<Rightarrow> ('a, bool) session_act" where
  "doPossDup E msg =
     bind (timestamper E) (\<lambda>now.
     bind (lift (field_ref 35 (msg_header msg))) (\<lambda>msgType.
     bind (lift (field_ref 52 (msg_header msg))) (\<lambda>sendingTime.
     if f_string msgType \<noteq> ''4'' then
       (case getFieldIfSet 122 (msg_header msg) of
          None \<Rightarrow> after (generateReject E msg 1 122) (return False)
        | Some origSendingTime \<Rightarrow>
            bind (lift (stamp_value origSendingTime)) (\<lambda>t1.
            bind (lift (stamp_value sendingTime)) (\<lambda>t2.
            if dt_greater t1 t2
            then after (generateReject E msg 10 0) (after (generateLogout E []) (return False))
            else return True)))
     else return True)))"

definition doTargetTooLow :: "'a environment \<Rightarrow> Message \<Rightarrow> ('a, bool) session_act" where
  "doTargetTooLow E msg =
     (let possDupFlag = (case getFieldIfSet 43 (msg_header msg) of
            None \<Rightarrow> FieldBase_new 43 (Bool_convert False) | Some f \<Rightarrow> f) in
      bind (lift (field_ref 34 (msg_header msg))) (\<lambda>msgSeqNum.
      bind (lift (bool_value possDupFlag)) (\<lambda>dup. look (\<lambda>s.
      if \<not> dup then
        let txt = ''MsgSeqNum too low, expecting '' @ seqnum_text (getExpectedTargetNum s) @ '' but received '' @
              f_string msgSeqNum
        in after (generateLogout E txt) (throw (Std_logic_error txt))
      else doPossDup E msg))))"

definition doTargetTooHigh :: "'a environment \<Rightarrow> Message \<Rightarrow> ('a, unit) session_act" where
  "doTargetTooHigh E msg =
     bind (lift (field_ref 8 (msg_header msg))) (\<lambda>beginString.
     bind (lift (field_ref 34 (msg_header msg))) (\<lambda>msgSeqNum.
     bind (lift (seqnum_value msgSeqNum)) (\<lambda>n. look (\<lambda>s. block
       [onEvent (''MsgSeqNum too high, expecting '' @ seqnum_text (getExpectedTargetNum s) @ '' but received '' @ seqnum_text n),
        state (st_enqueue n msg),
        look (\<lambda>s.
          let range = st_resendRange (m_state s) in
          if resendRequested (m_state s) \<and> \<not> m_sendRedundantResendRequests s \<and> n \<ge> fst range
          then onEvent (''Already sent ResendRequest FROM: '' @ seqnum_text (fst range) @ '' TO: '' @
            seqnum_text (snd range) @ ''.  Not sending another.'')
          else generateResendRequest E (f_string beginString) msgSeqNum)]))))"

definition fromCallback :: "'a environment \<Rightarrow> string \<Rightarrow> Message \<Rightarrow> ('a, unit) session_act" where
  "fromCallback E msgType msg = look (\<lambda>s.
     if isAdminMsgType msgType then callback (e_fromAdmin E msg (m_sessionID s))
     else callback (e_fromApp E msg (m_sessionID s)))"

text \<open>The part of \<open>verify\<close> inside \<^verbatim>\<open>try\<close>: the type of the message when it passes.\<close>

definition verify_checks :: "'a environment \<Rightarrow> Message \<Rightarrow> bool \<Rightarrow> bool \<Rightarrow> ('a, string option) session_act" where
  "verify_checks E msg checkTooHigh checkTooLow =
     (let header = msg_header msg in
      bind (lift (field_ref 35 header)) (\<lambda>msgTypeField.
      bind (lift (field_ref 49 header)) (\<lambda>senderCompID.
      bind (lift (field_ref 56 header)) (\<lambda>targetCompID.
      bind (lift (field_ref 52 header)) (\<lambda>sendingTime.
      bind (if checkTooHigh \<or> checkTooLow then bind (lift (field_ref 34 header)) (\<lambda>f. return (Some f)) else return None) (\<lambda>msgSeqNum.
      let msgType = f_string msgTypeField in look (\<lambda>s.
      if \<not> validLogonState msgType s then throw (Std_logic_error ''Logon state is not valid for message'')
      else
      bind (isGoodTime E sendingTime) (\<lambda>good.
      if \<not> good then after (doBadTime E msg) (return None)
      else if \<not> isCorrectCompID (f_string senderCompID) (f_string targetCompID) s
      then after (doBadCompID E msg) (return None)
      else
      case msgSeqNum of
        None \<Rightarrow> return (Some msgType)
      | Some f \<Rightarrow>
          bind (lift (seqnum_value f)) (\<lambda>n. look (\<lambda>s.
          if checkTooHigh \<and> isTargetTooHigh n s then after (doTargetTooHigh E msg) (return None)
          else if checkTooLow \<and> isTargetTooLow n s then after (ignore (doTargetTooLow E msg)) (return None)
          else
            let range = st_resendRange (m_state s) in
            after (only_if (resendRequested (m_state s) \<and> n \<ge> snd range) (block
                [onEvent (''ResendRequest for messages FROM: '' @ seqnum_text (fst range) @ '' TO: '' @
                   seqnum_text (snd range) @ '' has been satisfied.''),
                 state (\<lambda>st. st\<lparr>st_resendRange := (0, 0)\<rparr>)]))
              (return (Some msgType))))))))))))"

definition verify :: "'a environment \<Rightarrow> Message \<Rightarrow> bool \<Rightarrow> bool \<Rightarrow> ('a, bool) session_act" where
  "verify E msg checkTooHigh checkTooLow =
     bind (catch (verify_checks E msg checkTooHigh checkTooLow)
       (\<lambda>e. if is_std_exception e then Some (after (log_add (Event_of e)) (after (disconnect E) (return None))) else None))
     (\<lambda>passed. case passed of
        None \<Rightarrow> return False
      | Some msgType \<Rightarrow>
          after (bind (timestamper E) (\<lambda>now. state (\<lambda>st. st\<lparr>st_lastReceivedTime := now\<rparr>)))
          (after (state (\<lambda>st. st\<lparr>st_testRequest := 0\<rparr>))
          (after (fromCallback E msgType msg) (return True))))"

section \<open>The timer\<close>

definition reset :: "'a environment \<Rightarrow> ('a, unit) session_act" where
  "reset E = block [generateLogout E [], disconnect E, bind (timestamper E) (\<lambda>now. state (st_reset now))]"

definition on_io_exception :: "'a environment \<Rightarrow> throwable \<Rightarrow> ('a, unit) session_act option" where
  "on_io_exception E e = (if io_exception e then Some (block [log_add (Event_of e), disconnect E]) else None)"

text \<open>The heartbeats, once both sides are logged on.\<close>

definition next_heartbeats :: "'a environment \<Rightarrow> ('a, unit) session_act" where
  "next_heartbeats E = look (\<lambda>s.
     bind (lift (heartBtInt_value (m_state s))) (\<lambda>heartBtInt.
     if heartBtInt = 0 then skip
     else
       after (bind (timestamper E) (\<lambda>now. look (\<lambda>s. only_if (logoutTimedOut now (m_state s)) (block
         [onEvent ''Timed out waiting for logout response'', disconnect E]))))
       (bind (timestamper E) (\<lambda>now. look (\<lambda>s.
         if withinHeartBeat heartBtInt now (m_state s) then skip
         else bind (timestamper E) (\<lambda>now. look (\<lambda>s.
           if timedOut heartBtInt now (m_state s)
           then block [onEvent ''Timed out waiting for heartbeat'', disconnect E]
           else bind (timestamper E) (\<lambda>now. look (\<lambda>s.
             if needTestRequest heartBtInt now (m_state s)
             then block
               [generateTestRequest E ''TEST'',
                state (\<lambda>st. st\<lparr>st_testRequest := st_testRequest st + 1\<rparr>),
                onEvent ''Sent test request TEST'']
             else bind (timestamper E) (\<lambda>now. look (\<lambda>s.
               only_if (needHeartbeat heartBtInt now (m_state s)) (generateHeartbeat E))))))))))))"

definition next_time :: "'a environment \<Rightarrow> DateTime \<Rightarrow> ('a, unit) session_act" where
  "next_time E now =
     catch
       (look (\<lambda>s.
          if \<not> checkSessionTime E now s then reset E
          else if (\<not> isEnabled s \<or> \<not> isLogonTime E now s) \<and> \<not> isLoggedOn s then skip
          else
            after (only_if ((\<not> isEnabled s \<or> \<not> isLogonTime E now s) \<and> \<not> st_sentLogout (m_state s)) (block
              [onEvent ''Initiated logout request'', generateLogout E (st_logoutReason (m_state s))]))
            (look (\<lambda>s.
              if \<not> st_receivedLogon (m_state s) then
                if shouldSendLogon (m_state s) \<and> isLogonTime E now s
                then block [generateLogon E, onEvent ''Initiated logon request'']
                else if alreadySentLogon (m_state s)
                then bind (timestamper E) (\<lambda>t. look (\<lambda>s. only_if (logonTimedOut t (m_state s)) (block
                  [onEvent ''Timed out waiting for logon response'', disconnect E])))
                else skip
              else next_heartbeats E))))
       (on_io_exception E)"

section \<open>Handlers\<close>

text \<open>\<open>queued_next\<close> works off the queue.\<close>

definition incr_target :: "('a, unit) session_act" where
  "incr_target = state incrNextTargetMsgSeqNum"

definition optional_value :: "int \<Rightarrow> (FieldBase \<Rightarrow> fix_exception + 'b) \<Rightarrow> 'b \<Rightarrow> FieldMap \<Rightarrow> ('s, 'b) act" where
  "optional_value tag val def m = (case getFieldIfSet tag m of None \<Rightarrow> return def | Some f \<Rightarrow> lift (val f))"

text \<open>The answer to a range of numbers when messages are not kept, or else the messages.\<close>

definition answer_range :: "'a environment \<Rightarrow> seqnum \<Rightarrow> seqnum \<Rightarrow> ('a, unit) session_act" where
  "answer_range E beginSeqNo endSeqNo = look (\<lambda>s.
     if \<not> m_persistMessages s then
       let next = getNextSenderMsgSeqNum (m_state s)
       in generateSequenceReset E beginSeqNo (if endSeqNo + 1 > next then next else endSeqNo + 1)
     else generateRetransmits E beginSeqNo endSeqNo)"

definition logon_accepted ::
  "'a environment \<Rightarrow> ('a, unit) session_act \<Rightarrow> Message \<Rightarrow> bool \<Rightarrow> seqnum option \<Rightarrow> ('a, unit) session_act" where
  "logon_accepted E queued_next message resetSeqNumFlag retransmitFrom = block
     [look (\<lambda>s.
        if \<not> st_initiate (m_state s) \<or> (st_receivedReset (m_state s) \<and> \<not> st_sentReset (m_state s)) then block
          [(case getFieldIfSet 108 (msg_body message) of
              None \<Rightarrow> skip | Some f \<Rightarrow> state (\<lambda>st. st\<lparr>st_heartBtInt := f_string f\<rparr>)),
           onEvent ''Received logon request'',
           generateLogon_to E message,
           onEvent ''Responding to logon request'']
        else onEvent ''Received logon response''),
      state (\<lambda>st. st\<lparr>st_sentReset := False, st_receivedReset := False\<rparr>),
      bind (lift (field_ref 34 (msg_header message))) (\<lambda>msgSeqNumField.
      bind (lift (seqnum_value msgSeqNumField)) (\<lambda>msgSeqNum. look (\<lambda>s.
        if isTargetTooHigh msgSeqNum s \<and> \<not> resetSeqNumFlag then
          if m_sendNextExpectedMsgSeqNum s then block
            [onEvent (''Expecting retransmits FROM: '' @ seqnum_text (getExpectedTargetNum s) @ '' TO: '' @
               seqnum_text (msgSeqNum - 1)),
             state (st_enqueue msgSeqNum message),
             look (\<lambda>s. state (\<lambda>st. st\<lparr>st_resendRange := (getExpectedTargetNum s, msgSeqNum - 1)\<rparr>))]
          else doTargetTooHigh E message
        else block [incr_target, queued_next]))),
      look (\<lambda>s. only_if (isLoggedOn s) (callback (e_onLogon E (m_sessionID s)))),
      (case retransmitFrom of
         None \<Rightarrow> skip
       | Some beginSeqNo \<Rightarrow> look (\<lambda>s.
           let endSeqNo = getExpectedSenderNum s - 1 in block
           [onEvent (''Sending retransmits due to received NextExpectedMsgSeqNum is too low. FROM: '' @
              seqnum_text beginSeqNo @ '' TO: '' @ seqnum_text endSeqNo),
            answer_range E beginSeqNo endSeqNo]))]"

definition nextLogon ::
  "'a environment \<Rightarrow> ('a, unit) session_act \<Rightarrow> Message \<Rightarrow> DateTime \<Rightarrow> ('a, unit) session_act" where
  "nextLogon E queued_next message now =
     bind (lift (field_ref 49 (msg_header message))) (\<lambda>senderCompID.
     bind (lift (field_ref 56 (msg_header message))) (\<lambda>targetCompID.
     after (look (\<lambda>s. only_if (m_refreshOnLogon s) (state st_refresh)))
     (look (\<lambda>s.
     if \<not> isEnabled s then block [onEvent ''Session is not enabled for logon'', disconnect E]
     else if \<not> isLogonTime E now s
     then block [onEvent ''Received logon outside of valid logon time'', disconnect E]
     else
     bind (optional_value 141 bool_value False (msg_body message)) (\<lambda>resetSeqNumFlag.
     after (state (\<lambda>st. st\<lparr>st_receivedReset := resetSeqNumFlag\<rparr>))
     (after (only_if resetSeqNumFlag (block
        [onEvent ''Logon contains ResetSeqNumFlag=Y, reseting sequence numbers to 1'',
         look (\<lambda>s. only_if (\<not> st_sentReset (m_state s)) (bind (timestamper E) (\<lambda>now. state (st_reset now))))]))
     (look (\<lambda>s.
     if shouldSendLogon (m_state s) \<and> \<not> st_receivedReset (m_state s)
     then block [onEvent ''Received logon response before sending request'', disconnect E]
     else
     after (only_if (\<not> st_initiate (m_state s) \<and> m_resetOnLogon s) (bind (timestamper E) (\<lambda>now. state (st_reset now))))
     (bind (verify E message False True) (\<lambda>ok.
     if \<not> ok then skip
     else
     after (state (\<lambda>st. st\<lparr>st_receivedLogon := True\<rparr>))
     (bind (case getFieldIfSet 789 (msg_body message) of
              None \<Rightarrow> return None | Some f \<Rightarrow> bind (lift (seqnum_value f)) (\<lambda>n. return (Some (f, n)))) (\<lambda>nextExpected. look (\<lambda>s.
     case nextExpected of
       None \<Rightarrow> logon_accepted E queued_next message resetSeqNumFlag None
     | Some (f, n) \<Rightarrow>
         if n > getExpectedSenderNum s then
           let txt = ''NextExpectedMsgSeqNum too high, expecting '' @ seqnum_text (getExpectedSenderNum s) @
                 '' but received '' @ f_string f
           in block [onEvent txt, generateLogout E txt, disconnect E]
         else logon_accepted E queued_next message resetSeqNumFlag
           (if n < getExpectedSenderNum s then Some n else None))))))))))))))"

definition nextHeartbeat ::
  "'a environment \<Rightarrow> ('a, unit) session_act \<Rightarrow> Message \<Rightarrow> ('a, unit) session_act" where
  "nextHeartbeat E queued_next heartbeat =
     bind (verify E heartbeat True True) (\<lambda>ok. only_if ok (block [incr_target, queued_next]))"

definition nextTestRequest ::
  "'a environment \<Rightarrow> ('a, unit) session_act \<Rightarrow> Message \<Rightarrow> ('a, unit) session_act" where
  "nextTestRequest E queued_next testRequest =
     bind (verify E testRequest True True) (\<lambda>ok. only_if ok (block
       [generateHeartbeat_to E testRequest, incr_target, queued_next]))"

definition nextLogout :: "'a environment \<Rightarrow> Message \<Rightarrow> ('a, unit) session_act" where
  "nextLogout E message =
     bind (verify E message False False) (\<lambda>ok. only_if ok (block
       [look (\<lambda>s. if \<not> st_sentLogout (m_state s)
          then block [onEvent ''Received logout request'', generateLogout E [], onEvent ''Sending logout response'']
          else onEvent ''Received logout response''),
        incr_target,
        look (\<lambda>s. only_if (m_resetOnLogout s) (bind (timestamper E) (\<lambda>now. state (st_reset now)))),
        disconnect E]))"

definition nextReject ::
  "'a environment \<Rightarrow> ('a, unit) session_act \<Rightarrow> Message \<Rightarrow> ('a, unit) session_act" where
  "nextReject E queued_next reject =
     bind (verify E reject False True) (\<lambda>ok. only_if ok (block [incr_target, queued_next]))"

definition nextSequenceReset :: "'a environment \<Rightarrow> Message \<Rightarrow> ('a, unit) session_act" where
  "nextSequenceReset E sequenceReset =
     bind (optional_value 123 bool_value False (msg_body sequenceReset)) (\<lambda>isGapFill.
     bind (verify E sequenceReset isGapFill isGapFill) (\<lambda>ok.
       if \<not> ok then skip
       else case getFieldIfSet 36 (msg_body sequenceReset) of
         None \<Rightarrow> skip
       | Some f \<Rightarrow> bind (lift (seqnum_value f)) (\<lambda>newSeqNo. look (\<lambda>s. block
           [onEvent (''Received SequenceReset FROM: '' @ seqnum_text (getExpectedTargetNum s) @ '' TO: '' @ seqnum_text newSeqNo),
            if newSeqNo > getExpectedTargetNum s then state (setNextTargetMsgSeqNum newSeqNo)
            else if newSeqNo < getExpectedTargetNum s then generateReject E sequenceReset 5 0
            else skip]))))"

definition nextResendRequest :: "'a environment \<Rightarrow> Message \<Rightarrow> ('a, unit) session_act" where
  "nextResendRequest E resendRequest =
     bind (verify E resendRequest False False) (\<lambda>ok.
       if \<not> ok then skip
       else
         bind (lift (field_ref 7 (msg_body resendRequest))) (\<lambda>beginField.
         bind (lift (field_ref 16 (msg_body resendRequest))) (\<lambda>endField.
         bind (lift (seqnum_value beginField)) (\<lambda>beginSeqNo.
         bind (lift (seqnum_value endField)) (\<lambda>endSeqNo. look (\<lambda>s.
         let beginString = beginString_of s;
             upto = (if (string_le ''FIX.4.2'' beginString \<and> endSeqNo = 0) \<or>
                  (string_le beginString ''FIX.4.2'' \<and> endSeqNo = 999999) \<or> endSeqNo \<ge> getExpectedSenderNum s
               then getExpectedSenderNum s - 1 else endSeqNo)
         in block
           [onEvent (''Received ResendRequest FROM: '' @ seqnum_text beginSeqNo @ '' TO: '' @ seqnum_text endSeqNo),
            answer_range E beginSeqNo upto,
            bind (lift (field_ref 34 (msg_header resendRequest))) (\<lambda>f.
            bind (lift (seqnum_value f)) (\<lambda>msgSeqNum. look (\<lambda>s.
              only_if (\<not> isTargetTooHigh msgSeqNum s \<and> \<not> isTargetTooLow msgSeqNum s) incr_target)))]))))))"

section \<open>A message\<close>

definition setTargetDefaultApplVerID :: "string \<Rightarrow> ('a, unit) session_act" where
  "setTargetDefaultApplVerID v = modify (\<lambda>s. s\<lparr>m_targetDefaultApplVerID := v\<rparr>)"

text \<open>The body of \<^verbatim>\<open>try\<close> in \<open>next\<close>: whether the function goes on behind it.\<close>

definition next_body ::
  "'a environment \<Rightarrow> ('a, unit) session_act \<Rightarrow> Message \<Rightarrow> DateTime \<Rightarrow> ('a, bool) session_act" where
  "next_body E queued_next message now = look (\<lambda>s.
     let header = msg_header message in
     if \<not> checkSessionTime E now s then after (reset E) (return False)
     else
     bind (lift (field_ref 35 header)) (\<lambda>msgTypeField.
     bind (lift (field_ref 8 header)) (\<lambda>beginString.
     if \<not> isSetField 49 header then throw (Fix (FieldNotFound 49))
     else if \<not> isSetField 56 header then throw (Fix (FieldNotFound 56))
     else if f_string beginString \<noteq> beginString_of s then throw (Fix UnsupportedVersion)
     else
     let msgType = f_string msgTypeField in
     after
       (if msgType = ''A'' then
          if sid_isFIXT (m_sessionID s)
          then bind (lift (field_ref 1137 (msg_body message))) (\<lambda>v. setTargetDefaultApplVerID (f_string v))
          else setTargetDefaultApplVerID (toApplVerID (f_string beginString))
        else skip)
     (look (\<lambda>s.
     let provider = m_dataDictionaryProvider s;
         sessionDataDictionary = getSessionDataDictionary (beginString_of s) provider;
         problem = (if sid_isFIXT (m_sessionID s) \<and> Message_isApp message then
             let applVerID = (case getFieldIfSet 1128 header of None \<Rightarrow> m_targetDefaultApplVerID s | Some f \<Rightarrow> f_string f)
             in DataDictionary_validate message (Some sessionDataDictionary)
                  (Some (getApplicationDataDictionary applVerID provider))
           else DataDictionary_validate_one message False sessionDataDictionary)
     in case problem of
       Some e \<Rightarrow> throw (Fix e)
     | None \<Rightarrow>
         if msgType = ''A'' then after (nextLogon E queued_next message now) (return True)
         else if msgType = ''0'' then after (nextHeartbeat E queued_next message) (return True)
         else if msgType = ''1'' then after (nextTestRequest E queued_next message) (return True)
         else if msgType = ''4'' then after (nextSequenceReset E message) (return True)
         else if msgType = ''5'' then after (nextLogout E message) (return True)
         else if msgType = ''2'' then after (nextResendRequest E message) (return True)
         else if msgType = ''3'' then after (nextReject E queued_next message) (return True)
         else bind (verify E message True True) (\<lambda>ok.
           if \<not> ok then return False else after incr_target (return True)))))))"

text \<open>\<^verbatim>\<open>LOGEX\<close>.\<close>

definition logex :: "('a, unit) session_act \<Rightarrow> ('a, unit) session_act" where
  "logex m = catch m (\<lambda>e. if is_std_exception e then Some (log_add (Event_of e)) else None)"

definition what_RejectLogon :: "string \<Rightarrow> string" where
  "what_RejectLogon detail =
     (if length detail \<noteq> 0 then ''Rejected Logon Attempt: '' @ detail else ''Rejected Logon Attempt'')"

definition next_failed :: "'a environment \<Rightarrow> Message \<Rightarrow> throwable \<Rightarrow> ('a, unit) session_act option" where
  "next_failed E message e =
     (let header = msg_header message; reject = (\<lambda>err field. Some (logex (generateReject E message err field))) in
      case e of
        Fix x \<Rightarrow> (case x of
          MessageParseError \<Rightarrow> Some (log_add (Event_of e))
        | RequiredTagMissing field \<Rightarrow> reject 1 field
        | FieldNotFound field \<Rightarrow> Some (
            bind (lift (field_ref 8 header)) (\<lambda>beginString.
            if string_le ''FIX.4.2'' (f_string beginString) \<and> Message_isApp message
            then logex (generateBusinessReject E message 5 field)
            else block
              [logex (generateReject E message 1 field),
               bind (lift (field_ref 35 header)) (\<lambda>msgType. only_if (f_string msgType = ''A'') (block
                 [onEvent ''Required field missing from logon'', disconnect E]))]))
        | InvalidTagNumber field \<Rightarrow> reject 0 field
        | NoTagValue field \<Rightarrow> reject 4 field
        | TagNotDefinedForMessage field \<Rightarrow> reject 2 field
        | InvalidMessageType \<Rightarrow> reject 11 0
        | UnsupportedMessageType \<Rightarrow> Some (
            bind (lift (field_ref 8 header)) (\<lambda>beginString.
            if string_le ''FIX.4.2'' (f_string beginString)
            then logex (generateBusinessReject E message 3 0)
            else logex (generateReject_text E message ''Unsupported message type'')))
        | TagOutOfOrder field \<Rightarrow> reject 14 field
        | IncorrectDataFormat field val \<Rightarrow> reject 6 field
        | IncorrectTagValue field \<Rightarrow> reject 5 field
        | RepeatedTag field \<Rightarrow> reject 13 field
        | RepeatingGroupCountMismatch field \<Rightarrow> reject 16 field
        | InvalidMessage why \<Rightarrow> Some (log_add (Event_of e))
        | RejectLogon detail \<Rightarrow> Some (block
            [log_add (Event_of e), generateLogout E (what_RejectLogon detail), disconnect E])
        | UnsupportedVersion \<Rightarrow> Some (
            bind (lift (field_ref 35 header)) (\<lambda>msgType.
            if f_string msgType = ''5'' then nextLogout E message
            else block [generateLogout E ''Incorrect BeginString'', incr_target]))
        | IOException detail \<Rightarrow> Some (block [log_add (Event_of e), disconnect E])
        | _ \<Rightarrow> None)
      | _ \<Rightarrow> None)"

definition next_message_with ::
  "'a environment \<Rightarrow> ('a, unit) session_act \<Rightarrow> Message \<Rightarrow> DateTime \<Rightarrow> bool \<Rightarrow> ('a, unit) session_act" where
  "next_message_with E queued_next message now queued =
     bind (catch (next_body E queued_next message now)
       (\<lambda>e. map_option (\<lambda>h. after h (return True)) (next_failed E message e)))
     (\<lambda>go_on. only_if go_on (block
       [only_if (\<not> queued) queued_next,
        look (\<lambda>s. only_if (isLoggedOn s) (bind (timestamper E) (next_time E)))]))"

text \<open>One turn of the loop over the queue, for the number expected next: whether there was a message.\<close>

definition next_queued_with ::
  "'a environment \<Rightarrow> ('a, unit) session_act \<Rightarrow> DateTime \<Rightarrow> seqnum \<Rightarrow> ('a, bool) session_act" where
  "next_queued_with E queued_next now num = look (\<lambda>s.
     case st_retrieve num (m_state s) of
       None \<Rightarrow> return False
     | Some (msg, st) \<Rightarrow>
         after (state (\<lambda>old. st))
         (after (onEvent (''Processing QUEUED message: '' @ seqnum_text num))
         (bind (lift (field_ref 35 (msg_header msg))) (\<lambda>msgType.
          after (if f_string msgType = ''A'' \<or> f_string msgType = ''2'' then incr_target
                 else next_message_with E queued_next msg now True)
            (return True)))))"

fun nextQueued :: "'a environment \<Rightarrow> nat \<Rightarrow> DateTime \<Rightarrow> ('a, unit) session_act" where
  "nextQueued E 0 now = throw No_fuel"
| "nextQueued E (Suc fuel) now = look (\<lambda>s.
     bind (next_queued_with E (nextQueued E fuel now) now (getExpectedTargetNum s)) (\<lambda>more.
       if more then nextQueued E fuel now else skip))"

text \<open>The entry points. A queue never grows while it is worked off.\<close>

definition queue_fuel :: "'a Session \<Rightarrow> nat" where
  "queue_fuel s = length (st_queue (m_state s)) + 2"

definition next_message :: "'a environment \<Rightarrow> Message \<Rightarrow> DateTime \<Rightarrow> bool \<Rightarrow> ('a, unit) session_act" where
  "next_message E message now queued = look (\<lambda>s.
     next_message_with E (nextQueued E (queue_fuel s) now) message now queued)"

definition next_text :: "'a environment \<Rightarrow> string \<Rightarrow> DateTime \<Rightarrow> bool \<Rightarrow> ('a, unit) session_act" where
  "next_text E msg now queued =
     catch
       (after (log_add (Incoming msg)) (look (\<lambda>s.
          let provider = m_dataDictionaryProvider s;
              sessionDD = getSessionDataDictionary (beginString_of s) provider;
              check = m_validateLengthAndChecksum s;
              applicationDD = (if sid_isFIXT (m_sessionID s)
                then getApplicationDataDictionary (m_senderDefaultApplVerID s) provider else sessionDD)
          in bind (parsed (setString msg check (Some sessionDD) (Some applicationDD) Message_new))
               (\<lambda>message. next_message E message now queued))))
       (\<lambda>e. case e of
          Fix (InvalidMessage why) \<Rightarrow> Some (block
            [log_add (Event_of e),
             only_if (identifyType msg = Some ''A'') (block [onEvent ''Logon message is not valid'', disconnect E]),
             throw e])
        | _ \<Rightarrow> None)"

section \<open>Setting up\<close>

definition refresh :: "('a, unit) session_act" where
  "refresh = state st_refresh"

definition setResponder :: "'a environment \<Rightarrow> bool \<Rightarrow> ('a, unit) session_act" where
  "setResponder E pR = block
     [look (\<lambda>s. only_if (m_refreshOnLogon s) refresh),
      bind (timestamper E) (\<lambda>now. look (\<lambda>s. only_if (\<not> checkSessionTime E now s) (reset E))),
      modify (\<lambda>s. s\<lparr>m_pResponder := pR\<rparr>)]"

text \<open>The constructor. The clock is read for the state, for the store, for the check and for a reset. Its
  \<open>addSession\<close> is the operation of that name on the registry, in \<open>Session_Id\<close>.\<close>

definition Session_new ::
  "'a environment \<Rightarrow> SessionID \<Rightarrow> DataDictionaryProvider \<Rightarrow> TimeRange \<Rightarrow> int \<Rightarrow> bool \<Rightarrow> 'a \<Rightarrow>
   (throwable + unit) \<times> 'a Session" where
  "Session_new E sessionID dataDictionaryProvider sessionTime heartBtInt hasLog app =
     (let t0 = e_timestamper E 0; t1 = e_timestamper E 1;
          st = (SessionState_new t0 (MemoryStore_new t1))\<lparr>st_heartBtInt := int_text heartBtInt,
            st_initiate := heartBtInt \<noteq> 0\<rparr>;
          s = \<lparr>m_sessionID = sessionID, m_sessionTime = sessionTime, m_logonTime = sessionTime,
            m_senderDefaultApplVerID = ''7'', m_targetDefaultApplVerID = ''7'',
            m_sendRedundantResendRequests = False, m_checkCompId = True, m_checkLatency = True,
            m_maxLatency = 120, m_resetOnLogon = False, m_resetOnLogout = False, m_resetOnDisconnect = False,
            m_refreshOnLogon = False, m_timestampPrecision = 3, m_persistMessages = True,
            m_validateLengthAndChecksum = True, m_sendNextExpectedMsgSeqNum = False, m_isNonStopSession = False,
            m_allowedRemoteAddresses = {}, m_state = st, m_dataDictionaryProvider = dataDictionaryProvider,
            m_log = (if hasLog then Some [] else None), m_pResponder = False, x_clock = 2, x_sent = [],
            x_disconnects = 0, x_app = app\<rparr>
      in block
        [bind (timestamper E) (\<lambda>now. look (\<lambda>s. only_if (\<not> checkSessionTime E now s)
           (bind (timestamper E) (\<lambda>now. state (st_reset now))))),
         look (\<lambda>s. callback (e_onCreate E (m_sessionID s))),
         onEvent ''Created session''] s)"

end
