(* ===== verification/Message_Total.thy ===== *)
theory Message_Total
  imports Fix_Message
begin

text \<open>
  Reading a message always ends (flashfix/src/Message.cpp): every field read takes at least one
  character, reading the groups of a field never goes back behind it, so the length of the text is
  enough fuel for the loops, also for the nested groups.
\<close>

section \<open>Progress\<close>

definition ends :: "message_error + 'b \<Rightarrow> bool" where
  "ends r \<longleftrightarrow> r \<noteq> Inl Out_of_fuel"

lemma ends_simps [simp]: "ends (Inr x)" "ends (Inl e) \<longleftrightarrow> e \<noteq> Out_of_fuel"
  by (simp_all add: ends_def)

lemma ends_and_then: "ends r \<Longrightarrow> (\<And>x. r = Inr x \<Longrightarrow> ends (f x)) \<Longrightarrow> ends (and_then r f)"
  by (cases r) simp_all

lemma ends_option: "ends a \<Longrightarrow> (\<And>x. ends (f x)) \<Longrightarrow> ends (case v of None \<Rightarrow> a | Some x \<Rightarrow> f x)"
  by (simp split: option.split)

lemma ends_if: "ends a \<Longrightarrow> ends b \<Longrightarrow> ends (if c then a else b)"
  by simp

lemma ends_rest: "ends (Inr x)" "ends (Inl Equal_sign_not_found)" "ends (Inl (Field_tag_invalid t))" "ends (Inl SOH_not_found)"
  "ends (Inl (Data_length_not_found i))" "ends (Inl (Data_length_invalid i))" "ends (Inl Out_of_bounds)"
  by simp_all

lemma and_then_result: "and_then r f = Inr y \<longleftrightarrow> (\<exists>x. r = Inr x \<and> f x = Inr y)"
  by (cases r) simp_all

lemma extractField_progress: "extractField s pos sdd add g m = Inr (f, pos') \<Longrightarrow> pos < pos'"
proof -
  assume x: "extractField s pos sdd add g m = Inr (f, pos')"
  then obtain e where e: "find_sub ''='' (drop pos s) = Some e"
    by (cases "find_sub ''='' (drop pos s)") (simp_all add: extractField_def)
  from x obtain tag :: "32 word" where tag: "IntT_parse True (take e (drop pos s)) = Some tag"
    by (cases "IntT_parse True (take e (drop pos s)) :: 32 word option") (simp_all add: extractField_def e)
  from x obtain n where n: "find_sub [SOH] (drop (e + 1) (drop pos s)) = Some n"
    by (cases "find_sub [SOH] (drop (e + 1) (drop pos s))") (simp_all add: extractField_def Let_def e tag)
  from x show "pos < pos'"
    unfolding extractField_def Let_def e tag n option.case and_then_result by auto
qed

lemma extractField_ends: "ends (extractField s pos sdd add g m)"
  unfolding extractField_def Let_def
  by (intro ends_option ends_if ends_and_then ends_rest)

section \<open>Groups\<close>

definition goes_on_from :: "nat \<Rightarrow> message_error + FieldMap \<times> nat \<Rightarrow> bool" where
  "goes_on_from pos r \<longleftrightarrow> ends r \<and> (\<forall>fm pos'. r = Inr (fm, pos') \<longrightarrow> pos \<le> pos')"

lemma group_loop_total:
  assumes nest: "\<And>f p g. goes_on_from p (nest f p g)" and "length s < pos + fuel" and "0 < fuel"
  shows "goes_on_from pos (group_loop nest grp delim pDD dd s m fuel pGroup fm pos)"
  using assms(2,3)
proof (induction fuel arbitrary: pGroup fm pos)
  case (Suc fuel)
  show ?case
  proof (cases "pos < length s")
    case True
    have turn: "goes_on_from pos (and_then (nest f p g) (\<lambda>(g, p). group_loop nest grp delim pDD dd s m fuel (Some g) fm p))"
      if "pos < p" for f p g fm
    proof (cases "nest f p g")
      case (Inl e)
      then show ?thesis using nest [of p f g] by (simp add: goes_on_from_def)
    next
      case (Inr gp)
      then obtain g' p' where n: "nest f p g = Inr (g', p')" by (cases gp) auto
      then have p': "p \<le> p'" using nest [of p f g] by (simp add: goes_on_from_def)
      with that True Suc.prems have "length s < p' + fuel" "0 < fuel" by simp_all
      from Suc.IH [OF this, of "Some g'" fm] p' that show ?thesis
        by (auto simp: n goes_on_from_def)
    qed
    show ?thesis
    proof (cases "extractField s pos (Some dd) (Some dd) pGroup m")
      case (Inl e)
      then show ?thesis
        using True extractField_ends [of s pos "Some dd" "Some dd" pGroup m] by (simp add: goes_on_from_def)
    next
      case (Inr fp)
      then obtain f p where x: "extractField s pos (Some dd) (Some dd) pGroup m = Inr (f, p)" by (cases fp) auto
      then have "pos < p" by (rule extractField_progress)
      then show ?thesis
        using True turn [OF \<open>pos < p\<close>] by (auto simp: x Let_def goes_on_from_def split: option.split)
    qed
  qed (simp add: goes_on_from_def)
qed simp

lemma setGroup_total: "goes_on_from pos (setGroup msg s m dd field pos fm)"
proof (induction msg s m dd field pos fm rule: setGroup.induct)
  case (1 msg s m dd field pos fm)
  show ?case
  proof (cases "getGroup msg (f_tag field) dd")
    case (Some dp)
    then obtain delim pDD where g: "getGroup msg (f_tag field) dd = Some (delim, pDD)" by (cases dp) auto
    have "goes_on_from p (setGroup msg s m pDD f p x)" for f p x
      using 1 [OF g refl] by blast
    then have "goes_on_from pos (group_loop (\<lambda>f p x. setGroup msg s m pDD f p x) (f_tag field) delim pDD dd s m
        (length s + 1) None fm pos)"
      by (intro group_loop_total) simp_all
    then show ?thesis
      by (subst setGroup.simps) (simp only: g option.case prod.case)
  qed (subst setGroup.simps, simp add: goes_on_from_def)
qed

lemma read_groups_total:
  "ends (read_groups part put msg pDD field s pos m)"
  "read_groups part put msg pDD field s pos m = Inr (m', pos') \<Longrightarrow> pos \<le> pos'"
  using setGroup_total [of pos msg s m _ field "part m"]
  by (auto simp: read_groups_def goes_on_from_def and_then_result intro!: ends_and_then split: option.splits)

section \<open>Messages\<close>

lemma setString_loop_total:
  "length s < pos + fuel \<Longrightarrow> 0 < fuel \<Longrightarrow> ends (setString_loop v sdd s fuel add pos idx msg part m)"
proof (induction fuel arbitrary: add pos idx msg part m)
  case (Suc fuel)
  have turn: "ends (and_then (read_groups pt put msg' pDD f s p m') (\<lambda>(m, p). setString_loop v sdd s fuel add' p idx' msg'' part' m))"
    if "pos < p" "pos < length s" for pt put msg' pDD f p m' add' idx' msg'' part'
  proof (intro ends_and_then read_groups_total)
    fix x
    assume x: "read_groups pt put msg' pDD f s p m' = Inr x"
    obtain m2 p2 where "x = (m2, p2)" by (cases x)
    with x have "p \<le> p2" using read_groups_total(2) by blast
    with that Suc.prems have "length s < p2 + fuel" "0 < fuel" by simp_all
    from Suc.IH [OF this] show "ends (case x of (m, p) \<Rightarrow> setString_loop v sdd s fuel add' p idx' msg'' part' m)"
      by (simp add: \<open>x = (m2, p2)\<close>)
  qed
  show ?case
  proof (cases "pos < length s")
    case True
    show ?thesis
    proof (cases "extractField s pos sdd add None m")
      case (Inl e)
      then show ?thesis using True extractField_ends [of s pos sdd add None m] by simp
    next
      case (Inr fp)
      then obtain f p where x: "extractField s pos sdd add None m = Inr (f, p)" by (cases fp) auto
      have "pos < p" using x by (rule extractField_progress)
      then show ?thesis using True by (simp add: x Let_def turn)
    qed
  qed simp
qed simp

lemma validate_not_fuel: "Message_validate m \<noteq> Some Out_of_fuel"
  by (simp add: Message_validate_def Let_def split: option.split)

lemma setString_total: "ends (setString s v sdd add m)"
proof -
  have "ends (setString_loop v sdd s (length s + 1) add 0 0 [] header_part (Message_clear m))"
    by (rule setString_loop_total) simp_all
  then show ?thesis
    unfolding setString_def
    using validate_not_fuel by (rule_tac ends_and_then) (auto simp: Let_def split: option.split)
qed

lemma setStringHeader_loop_total:
  "length s < pos + fuel \<Longrightarrow> 0 < fuel \<Longrightarrow> ends (setStringHeader_loop s fuel pos idx m)"
proof (induction fuel arbitrary: pos idx m)
  case (Suc fuel)
  show ?case
  proof (cases "pos < length s")
    case True
    show ?thesis
    proof (cases "extractField s pos None None None m")
      case (Inl e)
      then show ?thesis using True extractField_ends [of s pos None None None m] by simp
    next
      case (Inr fp)
      then obtain f p where x: "extractField s pos None None None m = Inr (f, p)" by (cases fp) auto
      from extractField_progress [OF x] True Suc.prems have "length s < p + fuel" "0 < fuel" by simp_all
      then show ?thesis using True by (simp add: x Let_def Suc.IH)
    qed
  qed simp
qed simp

lemma setStringHeader_total: "ends (setStringHeader s m)"
  unfolding setStringHeader_def by (rule setStringHeader_loop_total) simp_all

lemma Message_of_string_total: "ends (Message_of_string ho tr bo s sdd add v)"
  by (auto simp: Message_of_string_def setString_total intro!: ends_and_then setStringHeader_total)

text \<open>C32. Reading a message ends, whatever the text, the dictionaries and the groups they nest: the
  three ways a message is read never run out of the fuel they start with.\<close>

theorem reading_ends:
  "setString s v sdd add m \<noteq> Inl Out_of_fuel \<and> setStringHeader s m \<noteq> Inl Out_of_fuel \<and>
   Message_of_string ho tr bo s dd dd' v \<noteq> Inl Out_of_fuel"
  using setString_total setStringHeader_total Message_of_string_total by (auto simp: ends_def)

text \<open>Writing a message always succeeds: the checksum is a remainder.\<close>

lemma toString_total: "toString m \<noteq> None"
proof -
  have "sint (word_of_int (checkSum t m') :: 32 word) = checkSum t m'" "0 \<le> checkSum t m'" "checkSum t m' \<le> 255" for t m'
    using pos_mod_bound [of 256] by (simp_all add: checkSum_def sint_sbintrunc' signed_take_bit_int_eq_self)
  then show ?thesis
    by (simp add: Message_toString_def CheckSum_convert_def Let_def not_less)
qed

end
