(* ===== verification/Session_Relation.thy ===== *)
theory Session_Relation
  imports Session_Next Message_Total
begin

text \<open>
  What holds of every statement of a session that only changes it in the ways a session does. The
  locale \<open>session_relation\<close> names these ways: writing the log, reading the clock, sending, calling the
  application, setting flags, clearing and working off the queue, and the operations of the store.
  A relation that allows them holds across everything a session sends and receives; what a message
  that comes too early may do to the queue is the assumption \<open>may_queue\<close>.
\<close>

section \<open>The number of a message\<close>

definition number_of :: "Message \<Rightarrow> seqnum option" where
  "number_of m = (case and_then (field_ref 34 (msg_header m)) seqnum_value of Inl e \<Rightarrow> None | Inr n \<Rightarrow> Some n)"

lemma number_of_Some: "number_of m = Some n \<longleftrightarrow> (\<exists>f. field_ref 34 (msg_header m) = Inr f \<and> seqnum_value f = Inr n)"
  by (cases "field_ref 34 (msg_header m)") (auto simp: number_of_def split: sum.split)

lemma lift_result: "lift r s = (Inr x, s') \<longleftrightarrow> r = Inr x \<and> s' = s"
  by (auto simp: lift_def split: sum.split)

lemma field_ref_not_fuel: "lift r s = (Inl e, s') \<Longrightarrow> e \<noteq> No_fuel"
  by (auto simp: lift_def split: sum.splits)

section \<open>The relation\<close>

locale session_relation = step_relation R I bad
  for R :: "'a Session \<Rightarrow> 'a Session \<Rightarrow> bool" and I bad +
  fixes E :: "'a environment"
  assumes R_log: "R s (s\<lparr>m_log := l\<rparr>)"
    and R_clock: "R s (s\<lparr>x_clock := x_clock s + 1\<rparr>)"
    and R_sent: "R s (s\<lparr>x_sent := x_sent s @ [txt]\<rparr>)"
    and R_app: "R s (s\<lparr>x_app := a\<rparr>)"
    and R_disconnect: "R s (s\<lparr>x_disconnects := x_disconnects s + 1, m_pResponder := False\<rparr>)"
    and R_responder: "R s (s\<lparr>m_pResponder := b\<rparr>)"
    and R_version: "R s (s\<lparr>m_targetDefaultApplVerID := v\<rparr>)"
    and R_flags: "st_queue st = st_queue (m_state s) \<Longrightarrow> st_store st = st_store (m_state s) \<Longrightarrow> R s (s\<lparr>m_state := st\<rparr>)"
    and R_clear: "R s (s\<lparr>m_state := (m_state s)\<lparr>st_queue := []\<rparr>\<rparr>)"
    and R_reset: "R s (s\<lparr>m_state := st_reset now (m_state s)\<rparr>)"
    and R_persist: "R s (s\<lparr>m_state := snd (st_set n txt (m_state s))\<rparr>)"
    and R_sender: "R s (s\<lparr>m_state := incrNextSenderMsgSeqNum (m_state s)\<rparr>)"
    and R_target: "R s (s\<lparr>m_state := setNextTargetMsgSeqNum n (m_state s)\<rparr>)"
    and bad_fuel: "bad e \<Longrightarrow> e = No_fuel"
    and calm: "fst (e_onLogon E sid a) = Inl e \<Longrightarrow> \<not> bad e" "fst (e_onLogout E sid a) = Inl e \<Longrightarrow> \<not> bad e"
      "fst (e_toAdmin E m sid a) = Inl e \<Longrightarrow> \<not> bad e" "fst (e_toApp E m sid a) = Inl e \<Longrightarrow> \<not> bad e"
      "fst (e_fromAdmin E m sid a) = Inl e \<Longrightarrow> \<not> bad e" "fst (e_fromApp E m sid a) = Inl e \<Longrightarrow> \<not> bad e"
begin

section \<open>Primitive statements\<close>

lemma fine: "\<not> bad (Fix x)" "\<not> bad (Std_logic_error t)" "\<not> bad (Std_runtime_error t)" "\<not> bad Undefined"
  using bad_fuel by blast+

lemma reaches_lift: "reaches (lift r)"
  by (rule reachesI) (auto simp: good_def lift_def R_refl fine split: sum.split)

lemma reaches_throw_fine: "reaches (throw (Fix x))" "reaches (throw (Std_logic_error t))"
    "reaches (throw (Std_runtime_error t))" "reaches (throw Undefined)"
  by (simp_all add: reaches_throw fine)

lemma reaches_callback: "(\<And>a e. fst (m a) = Inl e \<Longrightarrow> \<not> bad e) \<Longrightarrow> reaches (callback m)"
  by (rule reachesI) (auto simp: good_def callback_def R_app split: prod.split, metis fst_conv)

lemmas reaches_callbacks = calm [THEN reaches_callback]

lemma reaches_timestamper: "reaches (timestamper E)"
  using R_clock by (intro reachesI) (simp add: good_def timestamper_def)

lemma reaches_log: "reaches (log_add l)"
  unfolding log_add_def by (intro reaches_modify R_log)

lemma reaches_flags: "(\<And>st. st_queue (f st) = st_queue st \<and> st_store (f st) = st_store st) \<Longrightarrow> reaches (state f)"
  unfolding state_def by (intro reaches_modify R_flags) auto

lemma reaches_reset_store: "reaches (state (st_reset now))"
  unfolding state_def by (intro reaches_modify R_reset)

lemma reaches_refresh_store: "reaches (state st_refresh)"
  by (rule reaches_flags) (simp add: st_refresh_def MemoryStore_refresh_def)

lemma reaches_set_target: "reaches (state (setNextTargetMsgSeqNum n))"
  unfolding state_def by (intro reaches_modify R_target)

lemma incr_as_set: "incrNextTargetMsgSeqNum st = setNextTargetMsgSeqNum (getNextTargetMsgSeqNum st + 1) st"
  by (simp add: st_store_defs)

lemma reaches_incr_target: "reaches (state incrNextTargetMsgSeqNum)" "reaches incr_target"
  unfolding incr_target_def state_def incr_as_set by (intro reaches_modify R_target)+

lemma reaches_persisting: "reaches (state (\<lambda>st. snd (st_set n txt st)))" "reaches (state incrNextSenderMsgSeqNum)"
  unfolding state_def by (intro reaches_modify R_persist R_sender)+

lemma reaches_clear: "(\<And>st. st_queue (f st) = st_queue st \<and> st_store (f st) = st_store st) \<Longrightarrow> reaches (state (\<lambda>st. st_clearQueue (f st)))"
proof (rule reachesI)
  fix s :: "'a Session"
  assume f: "\<And>st. st_queue (f st) = st_queue st \<and> st_store (f st) = st_store st"
  let ?t = "s\<lparr>m_state := f (m_state s)\<rparr>"
  have "R s ?t" using f by (intro R_flags) auto
  from R_trans [OF this R_clear [of ?t]] show "good (state (\<lambda>st. st_clearQueue (f st))) s"
    by (simp add: state_def good_modify st_clearQueue_def)
qed

lemmas primitives = reaches_lift reaches_throw_fine reaches_callbacks reaches_timestamper reaches_log reaches_reset_store
  reaches_refresh_store reaches_set_target reaches_incr_target reaches_persisting

section \<open>Sending\<close>

lemma reaches_stamp_text: "reaches (stamp_text t)"
  unfolding stamp_text_def by (intro reach_rules primitives)

lemma reaches_sending_time: "reaches (insertSendingTime E h)" "reaches (insertOrigSendingTime h now)"
  unfolding insertSendingTime_def insertOrigSendingTime_def by (intro reach_rules primitives reaches_stamp_text)+

lemma reaches_fill: "reaches (fill E h)" "reaches (fill_message E m)"
proof -
  show "reaches (fill E h)" for h
    unfolding fill_def by (intro reach_rules primitives reaches_sending_time reaches_flags) simp
  then show "reaches (fill_message E m)"
    unfolding fill_message_def by (intro reach_rules)
qed

lemma reaches_stored_order: "reaches (stored_order what ord)"
  unfolding stored_order_def by (intro reach_rules primitives)

lemma reaches_newMessage: "reaches (newMessage msgType)"
  unfolding newMessage_def by (intro reach_rules primitives reaches_stored_order)

lemma reaches_send_text: "reaches (send_text E txt)"
  unfolding send_text_def by (intro reach_rules primitives reaches_modify R_sent)

lemma reaches_message_text: "reaches (message_text m)"
  unfolding message_text_def by (intro reach_rules primitives)

lemma reaches_persist: "reaches (persist m txt)"
  unfolding persist_def by (intro reach_rules primitives)

lemma reaches_reset_for_logon: "reaches (reset_for_logon E msgType m)"
  unfolding reset_for_logon_def by (intro reach_rules primitives reaches_flags) simp_all

lemmas sending = primitives reaches_stamp_text reaches_sending_time reaches_fill reaches_stored_order reaches_newMessage
  reaches_send_text reaches_message_text reaches_persist reaches_reset_for_logon

lemma reaches_sendRaw: "reaches (sendRaw E m num)"
  unfolding sendRaw_def by (intro reach_rules sending)

lemma reaches_send: "reaches (send E m)"
  unfolding send_def by (rule reaches_sendRaw)

lemma reaches_disconnect: "reaches (disconnect E)"
  unfolding disconnect_def
  by (intro reach_rules sending reaches_modify R_disconnect reaches_clear reaches_flags) simp_all

section \<open>Messages of its own\<close>

lemma reaches_generate: "reaches (generateLogon E)" "reaches (generateLogon_to E m)" "reaches (generateResendRequest E b f)"
    "reaches (generateSequenceReset E n n')" "reaches (generateHeartbeat E)" "reaches (generateHeartbeat_to E m)"
    "reaches (generateTestRequest E t)" "reaches (generateLogout E t)"
  unfolding generateLogon_def generateLogon_to_def generateResendRequest_def generateSequenceReset_def
    generateHeartbeat_def generateHeartbeat_to_def generateTestRequest_def generateLogout_def
  by (intro reach_rules sending reaches_sendRaw reaches_flags; simp)+

lemma reaches_reasons: "reaches (populateRejectReason_field m i t)" "reaches (give_reason m r b i t)"
proof -
  show p: "reaches (populateRejectReason_field m i t)" for m i t
    unfolding populateRejectReason_field_def by (intro reach_rules sending)
  show "reaches (give_reason m r b i t)"
    unfolding give_reason_def by (intro reach_rules sending p)
qed

lemma reaches_reject: "reaches (generateReject E m err field)" "reaches (generateReject_text E m t)"
    "reaches (generateBusinessReject E m err field)"
  unfolding generateReject_def generateReject_text_def generateBusinessReject_def
  by (intro reach_rules sending reaches_sendRaw reaches_reasons)+

lemma reaches_resend: "reaches (resend E m)"
  unfolding resend_def by (intro reach_rules sending)

lemma reaches_parsed: "ends r \<Longrightarrow> reaches (parsed r)"
  unfolding parsed_def by (cases r) (auto intro!: reaches_return reaches_throw simp: ends_def fine)

lemmas reaches_reading = setString_total [THEN reaches_parsed] setStringHeader_total [THEN reaches_parsed]
  Message_of_string_total [THEN reaches_parsed]

lemma reaches_read_stored: "reaches (read_stored i)"
proof -
  have "reaches (stored_type i)"
    unfolding stored_type_def by (intro reach_rules sending)
  then show ?thesis
    unfolding read_stored_def by (intro reach_rules sending reaches_reading)
qed

lemma reaches_retransmit_loop: "reaches (retransmit_loop E is n n' n'' b)"
proof (induction "is" arbitrary: n n' n'' b)
  case (Cons i "is")
  show ?case
    unfolding retransmit_loop.simps
    by (intro reach_rules sending reaches_read_stored reaches_resend reaches_generate Cons.IH)
qed (simp add: reaches_return)

lemma reaches_generateRetransmits: "reaches (generateRetransmits E n n')"
  unfolding generateRetransmits_def by (intro reach_rules reaches_retransmit_loop reaches_generate)

lemmas generating = sending reaches_sendRaw reaches_send reaches_disconnect reaches_generate reaches_reject reaches_generateRetransmits

section \<open>The timer\<close>

lemma reaches_reset: "reaches (reset E)"
  unfolding reset_def by (intro reach_rules generating)

lemma reaches_next_heartbeats: "reaches (next_heartbeats E)"
  unfolding next_heartbeats_def by (intro reach_rules generating reaches_flags) simp

lemma reaches_next_time: "reaches (next_time E now)"
  unfolding next_time_def on_io_exception_def
  by (intro reach_rules generating reaches_reset reaches_next_heartbeats)

section \<open>Checks\<close>

definition may_queue :: "Message \<Rightarrow> bool" where
  "may_queue m \<longleftrightarrow> (\<forall>n s. number_of m = Some n \<longrightarrow> R s (s\<lparr>m_state := st_enqueue n m (m_state s)\<rparr>))"

lemma reaches_isGoodTime: "reaches (isGoodTime E f)"
  unfolding isGoodTime_def by (intro reach_rules generating)

lemma reaches_bad: "reaches (doBadTime E m)" "reaches (doBadCompID E m)"
  unfolding doBadTime_def doBadCompID_def by (intro reach_rules generating)+

lemma reaches_low: "reaches (doPossDup E m)" "reaches (doTargetTooLow E m)"
proof -
  show "reaches (doPossDup E m)" for m
    unfolding doPossDup_def by (intro reach_rules generating)
  then show "reaches (doTargetTooLow E m)"
    unfolding doTargetTooLow_def by (intro reach_rules generating)
qed

lemma reaches_fromCallback: "reaches (fromCallback E t m)"
  unfolding fromCallback_def by (intro reach_rules generating)

lemma reaches_enqueue: "may_queue m \<Longrightarrow> number_of m = Some n \<Longrightarrow> reaches (state (st_enqueue n m))"
  unfolding state_def by (intro reaches_modify) (auto simp: may_queue_def)

lemma good_lift_bind: "(\<And>x. r = Inr x \<Longrightarrow> good (f x) s) \<Longrightarrow> good (bind (lift r) f) s"
  by (rule good_bind) (auto simp: reaches_lift reachesD lift_result)

lemma reaches_lift_bind: "(\<And>x. r = Inr x \<Longrightarrow> reaches (f x)) \<Longrightarrow> reaches (bind (lift r) f)"
  by (intro reachesI good_lift_bind) (rule reachesD)

lemma reaches_high:
  assumes "may_queue m"
  shows "reaches (doTargetTooHigh E m)"
  unfolding doTargetTooHigh_def
proof (intro reaches_lift_bind)
  fix b f n
  assume f: "field_ref 34 (msg_header m) = Inr f" "seqnum_value f = Inr n"
  then have "number_of m = Some n" by (simp add: number_of_Some)
  with assms show "reaches (look (\<lambda>s. block
       [onEvent (''MsgSeqNum too high, expecting '' @ seqnum_text (getExpectedTargetNum s) @ '' but received '' @ seqnum_text n),
        state (st_enqueue n m),
        look (\<lambda>s.
          let range = st_resendRange (m_state s) in
          if resendRequested (m_state s) \<and> \<not> m_sendRedundantResendRequests s \<and> n \<ge> fst range
          then onEvent (''Already sent ResendRequest FROM: '' @ seqnum_text (fst range) @ '' TO: '' @
            seqnum_text (snd range) @ ''.  Not sending another.'')
          else generateResendRequest E (f_string b) f)]))"
    by (intro reach_rules generating reaches_enqueue)
qed

lemma reaches_verify_checks: "(h \<Longrightarrow> may_queue m) \<Longrightarrow> reaches (verify_checks E m h l)"
  unfolding verify_checks_def
  by (intro reach_rules generating reaches_isGoodTime reaches_bad reaches_high reaches_low reaches_flags; simp)

lemma reaches_verify: "(h \<Longrightarrow> may_queue m) \<Longrightarrow> reaches (verify E m h l)"
  unfolding verify_def
  by (intro reach_rules generating reaches_verify_checks reaches_flags reaches_fromCallback; simp)

end

end
