(* ===== verification/Session_Handled.thy ===== *)
theory Session_Handled
  imports Session_Relation
begin

text \<open>
  The handlers of a session and the entry points, for the relations of \<open>session_relation\<close>: a message
  with the number that is expected is never put into the queue, whatever else happens to it.
\<close>

section \<open>The expected number is not too high\<close>

definition same :: "'s \<Rightarrow> ('s, 'a) act \<Rightarrow> ('s, 'a) act \<Rightarrow> bool" where
  "same s m n \<longleftrightarrow> m s = n s"

lemma same_refl: "same s m m"
  by (simp add: same_def)

lemma same_bind: "(\<And>x s'. m s = (Inr x, s') \<Longrightarrow> same s' (f x) (g x)) \<Longrightarrow> same s (bind m f) (bind m g)"
  by (auto simp: same_def bind_def split: prod.split sum.split)

lemma same_lift: "(\<And>x. r = Inr x \<Longrightarrow> same s (f x) (g x)) \<Longrightarrow> same s (bind (lift r) f) (bind (lift r) g)"
  by (rule same_bind) (simp add: lift_result)

lemma same_look: "same s (f s) (g s) \<Longrightarrow> same s (look f) (look g)"
  by (simp add: same_def look_def)

lemma same_if: "(b \<Longrightarrow> same s m m') \<Longrightarrow> (\<not> b \<Longrightarrow> same s n n') \<Longrightarrow> same s (if b then m else n) (if b then m' else n')"
  by simp

lemma same_option: "(v = None \<Longrightarrow> same s m m') \<Longrightarrow> (\<And>x. v = Some x \<Longrightarrow> same s (f x) (g x)) \<Longrightarrow>
    same s (case v of None \<Rightarrow> m | Some x \<Rightarrow> f x) (case v of None \<Rightarrow> m' | Some x \<Rightarrow> g x)"
  by (simp split: option.split)

lemma isGoodTime_state: "isGoodTime E f s = (r, s') \<Longrightarrow> m_state s' = m_state s"
  by (auto simp: isGoodTime_def look_def return_def bind_def timestamper_def lift_def split: if_splits sum.splits)

lemma found_number: "bind (lift r) (\<lambda>f. return (Some f)) s = (Inr v, s') \<longleftrightarrow> (\<exists>f. r = Inr f \<and> v = Some f \<and> s' = s)"
  by (auto simp: bind_result lift_result return_def)

lemma verify_checks_expected:
  assumes "number_of m = Some (getExpectedTargetNum s)"
  shows "verify_checks E m True True s = verify_checks E m False True s"
proof -
  from assms obtain F where F: "field_ref 34 (msg_header m) = Inr F" "seqnum_value F = Inr (getExpectedTargetNum s)"
    by (auto simp: number_of_Some)
  have low: "\<not> isTargetTooHigh n t"
    if "bind (lift (field_ref 34 (msg_header m))) (\<lambda>f. return (Some f)) s = (Inr v, s')" "v = Some f" "seqnum_value f = Inr n"
      "isGoodTime E g s' = (r, t)" for v s' f n g r t
    using that F by (auto simp: found_number isTargetTooHigh_def getExpectedTargetNum_def dest!: isGoodTime_state)
  have "same s (verify_checks E m True True) (verify_checks E m False True)"
    unfolding verify_checks_def Let_def simp_thms if_True if_False
  proof (intro same_lift same_bind same_look same_if same_option same_refl, goal_cases)
    case (1 a b c d v s' good t f n)
    then have "\<not> isTargetTooHigh n t" by (intro low)
    then show ?case by (simp only: if_False same_refl)
  qed
  then show ?thesis by (simp add: same_def)
qed

lemma verify_expected: "number_of m = Some (getExpectedTargetNum s) \<Longrightarrow> verify E m True True s = verify E m False True s"
  using verify_checks_expected [of m s E] by (simp add: verify_def bind_def catch_def)

lemma optional_value_state: "optional_value tag val def m s = (Inr x, s') \<Longrightarrow> s' = s"
  by (auto simp: optional_value_def return_def lift_result split: option.splits)

section \<open>Handlers\<close>

context session_relation begin

text \<open>The message may be queued, or it will not be.\<close>

definition admitted :: "Message \<Rightarrow> 'a Session \<Rightarrow> bool" where
  "admitted m s \<longleftrightarrow> may_queue m \<or> number_of m = Some (getExpectedTargetNum s)"

lemma reaches_verify_low: "reaches (verify E m False l)"
  by (rule reaches_verify) simp

lemma good_verify:
  assumes "admitted m s"
  shows "good (verify E m True True) s"
proof (cases "may_queue m")
  case True
  then show ?thesis by (intro reachesD reaches_verify)
next
  case False
  with assms have "verify E m True True s = verify E m False True s"
    by (simp add: admitted_def verify_expected)
  then show ?thesis using reachesD [OF reaches_verify_low, of m True s] by (simp add: good_def)
qed

lemma good_verified: "admitted m s \<Longrightarrow> (\<And>ok. reaches (f ok)) \<Longrightarrow> good (bind (verify E m True True) f) s"
  by (intro good_bind good_verify reachesD)

lemma reaches_optional: "reaches (optional_value tag val def fm)"
  unfolding optional_value_def by (intro reach_rules primitives)

lemma reaches_answer_range: "reaches (answer_range E n n')"
  unfolding answer_range_def by (intro reach_rules generating)

lemma reaches_logon_accepted:
  assumes "reaches q" and "may_queue m"
  shows "reaches (logon_accepted E q m b n)"
  unfolding logon_accepted_def
  by (intro reach_rules generating reaches_answer_range reaches_lift_bind assms reaches_flags reaches_enqueue reaches_high)
    (auto simp: number_of_Some)

lemma reaches_nextLogon: "reaches q \<Longrightarrow> may_queue m \<Longrightarrow> reaches (nextLogon E q m now)"
  unfolding nextLogon_def
  by (intro reach_rules generating reaches_optional reaches_verify reaches_logon_accepted reaches_flags) simp_all

lemma good_handlers:
  assumes "reaches q" and "admitted m s"
  shows "good (nextHeartbeat E q m) s" "good (nextTestRequest E q m) s"
  unfolding nextHeartbeat_def nextTestRequest_def
  by (intro good_verified assms reach_rules generating)+

lemma reaches_nextLogout: "reaches (nextLogout E m)"
  unfolding nextLogout_def by (intro reach_rules generating reaches_verify_low)

lemma reaches_nextReject: "reaches q \<Longrightarrow> reaches (nextReject E q m)"
  unfolding nextReject_def by (intro reach_rules generating reaches_verify_low)

lemma reaches_nextResendRequest: "reaches (nextResendRequest E m)"
  unfolding nextResendRequest_def by (intro reach_rules generating reaches_verify_low reaches_answer_range)

lemma good_nextSequenceReset:
  assumes "admitted m s"
  shows "good (nextSequenceReset E m) s"
  unfolding nextSequenceReset_def
proof (rule good_bind)
  fix b s'
  assume "optional_value 123 bool_value False (msg_body m) s = (Inr b, s')"
  then have s': "s' = s" by (rule optional_value_state)
  have rest: "reaches (case getFieldIfSet 36 (msg_body m) of
         None \<Rightarrow> skip
       | Some f \<Rightarrow> bind (lift (seqnum_value f)) (\<lambda>newSeqNo. look (\<lambda>s. block
           [onEvent (''Received SequenceReset FROM: '' @ seqnum_text (getExpectedTargetNum s) @ '' TO: '' @ seqnum_text newSeqNo),
            if newSeqNo > getExpectedTargetNum s then state (setNextTargetMsgSeqNum newSeqNo)
            else if newSeqNo < getExpectedTargetNum s then generateReject E m 5 0
            else skip])))"
    by (intro reach_rules generating)
  have "good (verify E m b b) s"
    using good_verify [OF assms] reaches_verify_low [THEN reachesD] by (cases b) simp_all
  then show "good (bind (verify E m b b) (\<lambda>ok. if \<not> ok then skip else case getFieldIfSet 36 (msg_body m) of
         None \<Rightarrow> skip
       | Some f \<Rightarrow> bind (lift (seqnum_value f)) (\<lambda>newSeqNo. look (\<lambda>s. block
           [onEvent (''Received SequenceReset FROM: '' @ seqnum_text (getExpectedTargetNum s) @ '' TO: '' @ seqnum_text newSeqNo),
            if newSeqNo > getExpectedTargetNum s then state (setNextTargetMsgSeqNum newSeqNo)
            else if newSeqNo < getExpectedTargetNum s then generateReject E m 5 0
            else skip])))) s'"
    unfolding s' by (rule good_bind) (auto intro: reachesD reaches_skip rest)
qed (rule reaches_optional [THEN reachesD])

lemmas handlers = good_handlers good_nextSequenceReset reaches_nextLogout [THEN reachesD] reaches_nextReject [THEN reachesD]
  reaches_nextResendRequest [THEN reachesD] reaches_nextLogon [THEN reachesD]

section \<open>A message\<close>

text \<open>A logon may be queued; any other message may be, or it has the number that is expected.\<close>

definition admitted_now :: "Message \<Rightarrow> 'a Session \<Rightarrow> bool" where
  "admitted_now m s \<longleftrightarrow> may_queue m \<or>
     number_of m = Some (getExpectedTargetNum s) \<and> (\<forall>f. field_ref 35 (msg_header m) = Inr f \<longrightarrow> f_string f \<noteq> ''A'')"

lemma admitted_state: "admitted m s \<Longrightarrow> m_state t = m_state s \<Longrightarrow> admitted m t"
  by (simp add: admitted_def getExpectedTargetNum_def)

lemma good_if: "(b \<Longrightarrow> good m s) \<Longrightarrow> (\<not> b \<Longrightarrow> good n s) \<Longrightarrow> good (if b then m else n) s"
  by simp

lemma good_option: "(v = None \<Longrightarrow> good m s) \<Longrightarrow> (\<And>x. v = Some x \<Longrightarrow> good (f x) s) \<Longrightarrow>
    good (case v of None \<Rightarrow> m | Some x \<Rightarrow> f x) s"
  by (simp split: option.split)

lemma reaches_version: "reaches (setTargetDefaultApplVerID v)"
  unfolding setTargetDefaultApplVerID_def by (intro reaches_modify R_version)

lemma version_state:
  "(if b then if c then bind (lift r) (\<lambda>v. setTargetDefaultApplVerID (f_string v)) else setTargetDefaultApplVerID v else skip) s
     = (Inr x, s') \<Longrightarrow> m_state s' = m_state s"
  by (auto simp: setTargetDefaultApplVerID_def modify_def skip_def return_def bind_result lift_result split: if_splits)

lemma good_next_body:
  assumes q: "reaches q" and m: "admitted_now m s"
  shows "good (next_body E q m now) s"
proof -
  have a: "admitted m s" using m by (auto simp: admitted_now_def admitted_def)
  have logon: "may_queue m" if "field_ref 35 (msg_header m) = Inr f" "f_string f = ''A''" for f
    using m that by (auto simp: admitted_now_def)
  show ?thesis
    unfolding next_body_def Let_def
    by (intro good_look good_if good_after good_lift_bind good_throw good_option fine handlers good_verified q good_skip
        good_return reaches_reset [THEN reachesD] reaches_version [THEN reachesD] reach_rules primitives)
      ((erule (1) logon | erule admitted_state [OF a version_state])+)
qed

lemma reaches_logex: "reaches n \<Longrightarrow> reaches (logex n)"
  unfolding logex_def by (intro reach_rules generating)

lemma reaches_failed: "next_failed E m e = Some n \<Longrightarrow> reaches n"
proof (cases e)
  case (Fix x)
  assume h: "next_failed E m e = Some n"
  note failed = reach_rules generating reaches_logex reaches_nextLogout
  show ?thesis
    using h unfolding Fix next_failed_def Let_def
    by (cases x) (simp_all only: throwable.case fix_exception.case option.inject option.distinct, (hypsubst, intro failed)+)
qed (simp_all add: next_failed_def)

lemma good_next_message_with:
  assumes "reaches q" and "admitted_now m s"
  shows "good (next_message_with E q m now queued) s"
proof -
  have "good (catch (next_body E q m now) (\<lambda>e. map_option (\<lambda>h. after h (return True)) (next_failed E m e))) s"
    by (rule good_catch [OF good_next_body [OF assms]])
      (auto intro!: reachesD reaches_after reaches_return reaches_failed)
  then show ?thesis
    unfolding next_message_with_def
    by (rule good_bind) (intro reachesD reach_rules generating reaches_next_time assms)
qed

section \<open>The other entry points\<close>

lemma reaches_setResponder: "reaches (setResponder E b)"
  unfolding setResponder_def refresh_def
  by (intro reach_rules generating reaches_reset reaches_modify R_responder)

section \<open>Relations that the queue does not matter to\<close>

lemma reaches_nextQueued:
  assumes R_drop: "\<And>s n. R s (s\<lparr>m_state := (m_state s)\<lparr>st_queue := map_drop n (st_queue (m_state s))\<rparr>\<rparr>)"
    and any: "\<And>m. may_queue m" and fuel: "\<not> bad No_fuel"
  shows "reaches (nextQueued E fuel now)"
proof (induction fuel)
  case (Suc fuel)
  have m: "admitted_now m s" for m s using any by (simp add: admitted_now_def)
  have "good (next_queued_with E (nextQueued E fuel now) now n) s" for n s
  proof (cases "map_of (st_queue (m_state s)) n")
    case (Some m)
    have step: "reaches (next_message_with E (nextQueued E fuel now) m now True)"
      by (intro reachesI good_next_message_with Suc.IH m)
    have drop: "good (state (\<lambda>old. (m_state s)\<lparr>st_queue := map_drop n (st_queue (m_state s))\<rparr>)) s"
      unfolding state_def by (rule good_modify) (rule R_drop)
    then show ?thesis
      unfolding next_queued_with_def
      by (intro good_look, simp only: st_retrieve_def Some option.case prod.case)
        (rule good_after [OF drop], intro reachesD reach_rules generating step)
  qed (simp add: next_queued_with_def look_def good_def return_def st_retrieve_def R_refl)
  then show ?case
    unfolding nextQueued.simps by (intro reach_rules reachesI Suc.IH) 
qed (simp add: reaches_throw fuel)

lemma reaches_next_message:
  assumes "\<And>s n. R s (s\<lparr>m_state := (m_state s)\<lparr>st_queue := map_drop n (st_queue (m_state s))\<rparr>\<rparr>)"
    and "\<And>m. may_queue m" and "\<not> bad No_fuel"
  shows "reaches (next_message E m now queued)"
  unfolding next_message_def
  by (intro reach_rules reachesI good_next_message_with reaches_nextQueued assms) (simp add: admitted_now_def assms)

lemma reaches_next_text:
  assumes "\<And>m. reaches (next_message E m now queued)"
  shows "reaches (next_text E txt now queued)"
proof -
  have handled: "reaches n" if "(case e of Fix (InvalidMessage why) \<Rightarrow> Some (block
            [log_add (Event_of e),
             only_if (identifyType txt = Some ''A'') (block [onEvent ''Logon message is not valid'', disconnect E]),
             throw e])
        | _ \<Rightarrow> None) = Some n" for e and n :: "('a, unit) session_act"
    using that by (auto split: throwable.splits fix_exception.splits intro!: reach_rules generating)
  show ?thesis
    unfolding next_text_def
    by (rule reaches_catch) (intro reach_rules generating reaches_reading assms, rule handled)
qed

end

end
