(* ===== verification/Session_Invariant.thy ===== *)
theory Session_Invariant
  imports Session_Handled
begin

text \<open>
  The states a session can get into, and what holds in all of them: the queue holds every message
  under its own number, and working it off ends. Both rest on the locale \<open>session_relation\<close>.
\<close>

section \<open>Well-formed sessions\<close>

definition queue_ok :: "SessionState \<Rightarrow> bool" where
  "queue_ok st \<longleftrightarrow> map_ok (st_queue st) \<and> (\<forall>e \<in> set (st_queue st). number_of (snd e) = Some (fst e))"

definition well_formed :: "'a Session \<Rightarrow> bool" where
  "well_formed s \<longleftrightarrow> queue_ok (m_state s) \<and> store_ok (st_store (m_state s)) \<and>
     0 \<le> m_timestampPrecision s \<and> m_timestampPrecision s \<le> 9"

lemma set_map_put: "e \<in> set (map_put k v es) \<Longrightarrow> e = (k, v) \<or> e \<in> set es"
  by (induction k v es rule: map_put.induct) (auto split: if_splits)

lemma queue_ok_enqueue: "queue_ok st \<Longrightarrow> number_of m = Some n \<Longrightarrow> queue_ok (st_enqueue n m st)"
  by (auto simp: queue_ok_def st_enqueue_def dest!: set_map_put)

lemma queue_ok_simps [simp]:
  "queue_ok (st\<lparr>st_queue := []\<rparr>)" "queue_ok st \<Longrightarrow> queue_ok (st\<lparr>st_queue := map_drop n (st_queue st)\<rparr>)"
  by (simp_all add: queue_ok_def map_ok_def [of "[]"])

lemma store_ops:
  "st_queue (st_reset now st) = st_queue st" "st_store (st_reset now st) = MemoryStore_reset now (st_store st)"
  "st_queue (snd (st_set n txt st)) = st_queue st" "st_store (snd (st_set n txt st)) = snd (MemoryStore_set n txt (st_store st))"
  "st_queue (incrNextSenderMsgSeqNum st) = st_queue st" "st_store (incrNextSenderMsgSeqNum st) = incrNextSender (st_store st)"
  "st_queue (setNextTargetMsgSeqNum n st) = st_queue st" "st_store (setNextTargetMsgSeqNum n st) = setNextTarget n (st_store st)"
  "st_queue (st_enqueue n m st) = map_put n m (st_queue st)" "st_store (st_enqueue n m st) = st_store st"
  by (simp_all add: st_reset_def st_set_def incrNextSenderMsgSeqNum_def setNextTargetMsgSeqNum_def st_enqueue_def
      split: prod.split)

lemma queue_ok_ops [simp]: "queue_ok (st_reset now st) = queue_ok st" "queue_ok (snd (st_set n txt st)) = queue_ok st"
    "queue_ok (incrNextSenderMsgSeqNum st) = queue_ok st" "queue_ok (setNextTargetMsgSeqNum n st) = queue_ok st"
  by (simp_all add: queue_ok_def store_ops)

interpretation well: session_relation "\<lambda>s t. well_formed s \<longrightarrow> well_formed t" "\<lambda>s. True" "\<lambda>e. False" E for E
proof
  fix s :: "'a Session" and st :: SessionState
  assume "st_queue st = st_queue (m_state s)" "st_store st = st_store (m_state s)"
  then show "well_formed s \<longrightarrow> well_formed (s\<lparr>m_state := st\<rparr>)"
    by (simp add: well_formed_def queue_ok_def)
qed (simp_all add: well_formed_def store_ops)

lemma well_any_queued: "well.may_queue T m"
  unfolding well.may_queue_def by (auto simp: well_formed_def queue_ok_enqueue store_ops)

lemma well_drop: "well_formed s \<longrightarrow> well_formed (s\<lparr>m_state := (m_state s)\<lparr>st_queue := map_drop n (st_queue (m_state s))\<rparr>\<rparr>)"
  by (simp add: well_formed_def)

lemma well_message: "well.reaches (next_message E m now queued)"
  by (rule well.reaches_next_message [OF well_drop well_any_queued]) simp

lemma well_text: "well.reaches (next_text E txt now queued)"
  by (rule well.reaches_next_text [OF well_message])

lemma well_kept: "well.reaches m \<Longrightarrow> m s = (r, t) \<Longrightarrow> well_formed s \<Longrightarrow> well_formed t"
  by (simp add: well.reaches_def well.good_def) (metis snd_conv)

section \<open>Reachable sessions\<close>

text \<open>
  A session is constructed and then used: by the timer, with messages and their text, by whoever
  sends through it, and by the settings. A plain setter may change anything but the state and the
  precision of the time stamps.
\<close>

inductive reachable :: "'a environment \<Rightarrow> 'a Session \<Rightarrow> bool" for E where
  constructed: "Session_new E sessionID provider sessionTime heartBtInt hasLog app = (r, s) \<Longrightarrow> reachable E s"
| timer: "reachable E s \<Longrightarrow> next_time E now s = (r, t) \<Longrightarrow> reachable E t"
| message: "reachable E s \<Longrightarrow> next_message E m now queued s = (r, t) \<Longrightarrow> reachable E t"
| message_text: "reachable E s \<Longrightarrow> next_text E txt now queued s = (r, t) \<Longrightarrow> reachable E t"
| sending: "reachable E s \<Longrightarrow> send E m s = (r, t) \<Longrightarrow> reachable E t"
| responder: "reachable E s \<Longrightarrow> setResponder E b s = (r, t) \<Longrightarrow> reachable E t"
| disconnecting: "reachable E s \<Longrightarrow> disconnect E s = (r, t) \<Longrightarrow> reachable E t"
| resetting: "reachable E s \<Longrightarrow> reset E s = (r, t) \<Longrightarrow> reachable E t"
| logging_on: "reachable E s \<Longrightarrow> reachable E (logon s)"
| logging_out: "reachable E s \<Longrightarrow> reachable E (logout reason s)"
| logon_timeout: "reachable E s \<Longrightarrow> reachable E (setLogonTimeout v s)"
| logout_timeout: "reachable E s \<Longrightarrow> reachable E (setLogoutTimeout v s)"
| milliseconds: "reachable E s \<Longrightarrow> reachable E (setMillisecondsInTimeStamp b s)"
| precision: "reachable E s \<Longrightarrow> reachable E (setTimestampPrecision p s)"
| setting: "reachable E s \<Longrightarrow> m_state t = m_state s \<Longrightarrow> m_timestampPrecision t = m_timestampPrecision s \<Longrightarrow> reachable E t"

lemma well_formed_new:
  assumes "Session_new E sessionID provider sessionTime heartBtInt hasLog app = (r, s)"
  shows "well_formed s"
proof -
  let ?st = "(SessionState_new (e_timestamper E 0) (MemoryStore_new (e_timestamper E 1)))\<lparr>st_heartBtInt := int_text heartBtInt,
            st_initiate := heartBtInt \<noteq> 0\<rparr>"
  let ?m = "block
        [bind (timestamper E) (\<lambda>now. look (\<lambda>s. only_if (\<not> checkSessionTime E now s)
           (bind (timestamper E) (\<lambda>now. state (st_reset now))))),
         look (\<lambda>s. callback (e_onCreate E (m_sessionID s))),
         onEvent ''Created session'']"
  have m: "well.reaches ?m"
    by (intro well.reach_rules well.generating well.reaches_callback) simp
  obtain s0 where s0: "Session_new E sessionID provider sessionTime heartBtInt hasLog app = ?m s0"
      "m_state s0 = ?st" "m_timestampPrecision s0 = 3"
    by (rule that, unfold Session_new_def Let_def, rule refl) simp_all
  have "queue_ok ?st" "store_ok (st_store ?st)"
    by (simp_all add: SessionState_new_def queue_ok_def map_ok_def)
  then have "well_formed s0" using s0(2,3) by (simp add: well_formed_def)
  then show ?thesis by (rule well_kept [OF m s0(1) [symmetric, unfolded assms]])
qed

lemma well_formed_settings [simp]:
  "well_formed (logon s) = well_formed s" "well_formed (logout reason s) = well_formed s"
  "well_formed (setLogonTimeout v s) = well_formed s" "well_formed (setLogoutTimeout v s) = well_formed s"
  "well_formed s \<Longrightarrow> well_formed (setMillisecondsInTimeStamp b s)" "well_formed s \<Longrightarrow> well_formed (setTimestampPrecision p s)"
  by (auto simp: well_formed_def logon_def logout_def setLogonTimeout_def setLogoutTimeout_def setMillisecondsInTimeStamp_def setTimestampPrecision_def queue_ok_def)

lemma reachable_well: "reachable E s \<Longrightarrow> well_formed s"
proof (induction rule: reachable.induct)
  case (setting s t)
  then show ?case by (simp add: well_formed_def)
qed (auto dest: well_formed_new
    well_kept [OF well.reaches_next_time] well_kept [OF well_message] well_kept [OF well_text] well_kept [OF well.reaches_send]
    well_kept [OF well.reaches_setResponder] well_kept [OF well.reaches_disconnect] well_kept [OF well.reaches_reset])

section \<open>The queue is worked off\<close>

text \<open>
  \<open>room n k f\<close>: less than \<open>k\<close> messages wait under another number than \<open>n\<close>, and less than \<open>f\<close> in all.
  The application does not report \<open>No_fuel\<close>, which is no exception of the code.
\<close>

definition room :: "seqnum \<Rightarrow> nat \<Rightarrow> nat \<Rightarrow> 'a Session \<Rightarrow> bool" where
  "room n k f s \<longleftrightarrow> queue_ok (m_state s) \<and> length (map_drop n (st_queue (m_state s))) < k \<and> length (st_queue (m_state s)) < f"

definition application_ends :: "'a environment \<Rightarrow> bool" where
  "application_ends E \<longleftrightarrow> (\<forall>sid a m.
     fst (e_onLogon E sid a) \<noteq> Inl No_fuel \<and> fst (e_onLogout E sid a) \<noteq> Inl No_fuel \<and>
     fst (e_toAdmin E m sid a) \<noteq> Inl No_fuel \<and> fst (e_toApp E m sid a) \<noteq> Inl No_fuel \<and>
     fst (e_fromAdmin E m sid a) \<noteq> Inl No_fuel \<and> fst (e_fromApp E m sid a) \<noteq> Inl No_fuel)"

abbreviation out_of_fuel :: "'a environment \<Rightarrow> throwable \<Rightarrow> bool" where
  "out_of_fuel E e \<equiv> application_ends E \<and> e = No_fuel"

interpretation work: session_relation "\<lambda>s t. room n k f s \<longrightarrow> room n k f t" "room n k f" "out_of_fuel E" E for n k f E
proof
  fix s :: "'a Session" and st :: SessionState
  assume "st_queue st = st_queue (m_state s)" "st_store st = st_store (m_state s)"
  then show "room n k f s \<longrightarrow> room n k f (s\<lparr>m_state := st\<rparr>)"
    by (simp add: room_def queue_ok_def)
qed (auto simp: room_def store_ops map_drop_def application_ends_def)

lemma map_drop_put: "map_drop n (map_put n m q) = map_drop n q"
proof (induction n m q rule: map_put.induct)
  case (2 n m n' m' q)
  then show ?case by (cases "n < n'"; cases "n = n'") (simp_all add: map_drop_def)
qed (simp add: map_drop_def)

lemma length_map_drop_drop: "length (map_drop n (map_drop n' q)) \<le> length (map_drop n q)"
  by (induction q) (auto simp: map_drop_def)

lemma length_map_drop: "map_ok q \<Longrightarrow> length q \<le> Suc (length (map_drop n q))"
proof (induction q)
  case (Cons e q)
  then have above: "\<forall>x \<in> set q. fst e < fst x" and ok: "map_ok q" by (auto simp: map_ok_def)
  show ?case
  proof (cases "fst e = n")
    case True
    then have "map_drop n q = q" using above unfolding map_drop_def by (intro filter_True) auto
    with True show ?thesis by (simp add: map_drop_def)
  next
    case False
    with Cons.IH [OF ok] show ?thesis by (simp add: map_drop_def)
  qed
qed simp

lemma work_may_queue:
  fixes T :: "'a itself"
  assumes "number_of m = Some n \<or> number_of m = None"
  shows "work.may_queue T n k (Suc k) m"
proof -
  have queued: "room n k (Suc k) (s\<lparr>m_state := st_enqueue n m (m_state s)\<rparr>)"
    if "room n k (Suc k) s" "number_of m = Some n" for s :: "'a Session"
  proof -
    let ?q = "map_put n m (st_queue (m_state s))"
    have ok: "queue_ok (st_enqueue n m (m_state s))" using that by (simp add: room_def queue_ok_enqueue)
    then have "length ?q \<le> Suc (length (map_drop n ?q))" by (simp add: queue_ok_def store_ops length_map_drop)
    with that ok show ?thesis by (simp add: room_def store_ops map_drop_put)
  qed
  show ?thesis
    unfolding work.may_queue_def
  proof (intro allI impI)
    fix n' and s :: "'a Session"
    assume "number_of m = Some n'" and s: "room n k (Suc k) s"
    with assms have "n' = n" "number_of m = Some n" by auto
    with queued [OF s] show "room n k (Suc k) (s\<lparr>m_state := st_enqueue n' m (m_state s)\<rparr>)" by simp
  qed
qed

lemma log_state: "log_add l s = (r, t) \<Longrightarrow> m_state t = m_state s"
  by (auto simp: log_add_def modify_def)

lemma nextQueued_ends:
  fixes E :: "'a environment"
  shows "f \<le> fuel \<Longrightarrow> work.reaches n k f E (nextQueued E fuel now)"
proof (induction fuel arbitrary: f)
  case 0
  then show ?case by (intro work.reachesI, unfold work.good_def) (simp add: room_def)
next
  case (Suc fuel)
  show ?case
  proof (rule work.reachesI)
    fix s :: "'a Session"
    let ?n = "getExpectedTargetNum s" and ?q = "st_queue (m_state s)"
    show "work.good n k f E (nextQueued E (Suc fuel) now) s"
    proof (cases "room n k f s \<and> map_of ?q ?n \<noteq> None")
      case False
      then show ?thesis
        by (auto simp: work.good_def look_def bind_def next_queued_with_def st_retrieve_def return_def skip_def)
    next
      case True
      then obtain m where room: "room n k f s" and m: "map_of ?q ?n = Some m" by auto
      have num: "number_of m = Some ?n" using room map_of_SomeD [OF m] by (force simp: room_def queue_ok_def)
      let ?s = "s\<lparr>m_state := (m_state s)\<lparr>st_queue := map_drop ?n ?q\<rparr>\<rparr>"
      have "length (map_drop ?n ?q) < length ?q" using m by (intro map_drop_shorter) simp
      moreover have "length (map_drop n (map_drop ?n ?q)) \<le> length (map_drop n ?q)"
        by (rule length_map_drop_drop)
      ultimately have room': "room n k (f - 1) ?s" using room by (auto simp: room_def)
      let ?rest = "after (onEvent (''Processing QUEUED message: '' @ seqnum_text ?n))
         (bind (lift (field_ref 35 (msg_header m))) (\<lambda>msgType.
          after (if f_string msgType = ''A'' \<or> f_string msgType = ''2'' then incr_target
                 else next_message_with E (nextQueued E fuel now) m now True)
            (return True)))"
      let ?all = "bind ?rest (\<lambda>more. if more then nextQueued E fuel now else skip)"
      have eq: "nextQueued E (Suc fuel) now s = ?all ?s"
        by (simp add: look_def next_queued_with_def st_retrieve_def m bind_def after_def state_def modify_def)
      have fuel: "work.reaches n k (f - 1) E (nextQueued E fuel now)"
        using Suc.prems by (intro Suc.IH) simp
      have "work.good n k (f - 1) E ?rest ?s"
      proof (rule work.good_after [OF work.reachesD [OF work.reaches_log]], rule work.good_lift_bind,
          rule work.good_after, rule work.good_if)
        fix x t ty
        assume log: "onEvent (''Processing QUEUED message: '' @ seqnum_text ?n) ?s = (Inr x, t)"
          and ty: "field_ref 35 (msg_header m) = Inr ty" and "\<not> (f_string ty = ''A'' \<or> f_string ty = ''2'')"
        moreover have "getExpectedTargetNum t = ?n"
          using log_state [OF log] by (simp add: getExpectedTargetNum_def getNextTargetMsgSeqNum_def)
        ultimately have "work.admitted_now n k (f - 1) m t" by (simp add: work.admitted_now_def num)
        then show "work.good n k (f - 1) E (next_message_with E (nextQueued E fuel now) m now True) t"
          by (intro work.good_next_message_with fuel)
      qed (intro work.reachesD work.reach_rules work.reaches_incr_target)+
      then have "work.good n k (f - 1) E ?all ?s"
        by (rule work.good_bind) (intro work.reachesD work.reach_rules fuel)
      with room' show ?thesis unfolding work.good_def eq by (auto simp: room_def)
    qed
  qed
qed

lemma work_ends: "work.good n k f E m s \<Longrightarrow> application_ends E \<Longrightarrow> room n k f s \<Longrightarrow> fst (m s) \<noteq> Inl No_fuel"
  unfolding work.good_def by blast

lemma work_reaches_ends:
  assumes "\<And>n k f. work.reaches n k f E m" and "application_ends E" and "queue_ok (m_state s)"
  shows "fst (m s) \<noteq> Inl No_fuel"
proof -
  let ?l = "Suc (length (st_queue (m_state s)))"
  have "length (map_drop 0 (st_queue (m_state s))) < ?l" by (simp add: map_drop_def less_Suc_eq_le)
  then have "room 0 ?l ?l s" using assms(3) by (simp add: room_def)
  with work_ends [OF work.reachesD [OF assms(1)] assms(2)] show ?thesis by blast
qed

text \<open>A message that arrives may be queued itself: there is room for it and for what waits.\<close>

lemma next_message_ends:
  assumes "application_ends E" and "queue_ok (m_state s)"
  shows "fst (next_message E m now queued s) \<noteq> Inl No_fuel"
proof -
  let ?l = "length (st_queue (m_state s))"
  obtain n where n: "number_of m = Some n \<or> number_of m = None" by (cases "number_of m") auto
  have "length (map_drop n (st_queue (m_state s))) \<le> ?l" by (simp add: map_drop_def)
  then have "room n (Suc ?l) (Suc (Suc ?l)) s" using assms(2) by (simp add: room_def)
  moreover have good: "work.good n (Suc ?l) (Suc (Suc ?l)) E (next_message E m now queued) s"
    unfolding next_message_def queue_fuel_def
    by (intro work.good_look work.good_next_message_with nextQueued_ends)
      (simp_all add: work.admitted_now_def work_may_queue n)
  ultimately show ?thesis using work_ends [OF good assms(1)] by blast
qed

lemma next_text_ends:
  assumes "application_ends E" and "well_formed s"
  shows "fst (next_text E txt now queued s) \<noteq> Inl No_fuel"
proof -
  let ?body = "after (log_add (Incoming txt)) (look (\<lambda>s.
          let provider = m_dataDictionaryProvider s;
              sessionDD = getSessionDataDictionary (beginString_of s) provider;
              check = m_validateLengthAndChecksum s;
              applicationDD = (if sid_isFIXT (m_sessionID s)
                then getApplicationDataDictionary (m_senderDefaultApplVerID s) provider else sessionDD)
          in bind (parsed (setString txt check (Some sessionDD) (Some applicationDD) Message_new))
               (\<lambda>message. next_message E message now queued)))"
  let ?failed = "\<lambda>e. block
            [log_add (Event_of e),
             only_if (identifyType txt = Some ''A'') (block [onEvent ''Logon message is not valid'', disconnect E]),
             throw e]"
  have fst: "fst (?body s) \<noteq> Inl No_fuel"
  proof -
    obtain t where t: "log_add (Incoming txt) s = (Inr (), t)" "m_state t = m_state s"
      using log_state by (fastforce simp: log_add_def modify_def)
    have "fst (bind (parsed r) (\<lambda>message. next_message E message now queued) t) \<noteq> Inl No_fuel" if "ends r" for r
      using that next_message_ends [OF assms(1), of t] assms(2) t(2)
      by (cases r) (auto simp: parsed_def ends_def bind_def throw_def return_def well_formed_def)
    then show ?thesis using setString_total by (simp add: t(1) after_def bind_def [of "log_add _"] look_def Let_def)
  qed
  have kept: "well.reaches ?body"
    by (intro well.reach_rules well.generating well.reaches_reading well_message)
  have failed: "work.reaches n k f E (?failed (Fix (InvalidMessage why)))" for n k f why
    by (intro work.reach_rules work.generating)
  obtain r t where body: "?body s = (r, t)" by (cases "?body s")
  have "queue_ok (m_state t)" using well_kept [OF kept body assms(2)] by (simp add: well_formed_def)
  from work_reaches_ends [OF failed assms(1) this]
  have "fst (?failed (Fix (InvalidMessage why)) t) \<noteq> Inl No_fuel" for why .
  with fst show ?thesis
    unfolding next_text_def catch_def body
    by (auto split: sum.split throwable.split fix_exception.split)
qed

end
