(* ===== verification/Session_Sending.thy ===== *)
theory Session_Sending
  imports Session_Invariant Message_Laws
begin

text \<open>
  Sending a message (flashfix/src/Session.cpp): the text that goes out is the one that is kept for
  retransmission, under the number the message carries, and the next number is used for the next one.
  \<open>returns\<close> is about what a statement returns when it returns, and the state it leaves.
\<close>

section \<open>Results of statements\<close>

definition returns :: "('a \<Rightarrow> 's \<Rightarrow> bool) \<Rightarrow> 's \<Rightarrow> ('s, 'a) act \<Rightarrow> bool" where
  "returns P s m \<longleftrightarrow> (\<forall>x s'. m s = (Inr x, s') \<longrightarrow> P x s')"

lemma returns_return: "P x s \<Longrightarrow> returns P s (return x)"
  by (simp add: returns_def return_def)

lemma returns_throw: "returns P s (throw e)"
  by (simp add: returns_def throw_def)

lemma returns_bind: "(\<And>x s'. m s = (Inr x, s') \<Longrightarrow> returns P s' (f x)) \<Longrightarrow> returns P s (bind m f)"
  by (auto simp: returns_def bind_result)

lemma returns_after: "(\<And>x s'. m s = (Inr x, s') \<Longrightarrow> returns P s' n) \<Longrightarrow> returns P s (after m n)"
  unfolding after_def by (rule returns_bind)

lemma returns_lift: "(\<And>x. r = Inr x \<Longrightarrow> returns P s (f x)) \<Longrightarrow> returns P s (bind (lift r) f)"
  by (rule returns_bind) (simp add: lift_result)

lemma returns_look: "returns P s (f s) \<Longrightarrow> returns P s (look f)"
  by (simp add: returns_def look_def)

lemma returns_if: "(b \<Longrightarrow> returns P s m) \<Longrightarrow> (\<not> b \<Longrightarrow> returns P s n) \<Longrightarrow> returns P s (if b then m else n)"
  by simp

lemma returns_option: "(v = None \<Longrightarrow> returns P s m) \<Longrightarrow> (\<And>x. v = Some x \<Longrightarrow> returns P s (f x)) \<Longrightarrow>
    returns P s (case v of None \<Rightarrow> m | Some x \<Rightarrow> f x)"
  by (simp split: option.split)

lemma returns_catch: "returns P s m \<Longrightarrow> (\<And>e s' n. m s = (Inl e, s') \<Longrightarrow> h e = Some n \<Longrightarrow> returns P s' n) \<Longrightarrow>
    returns P s (catch m h)"
  by (auto simp: returns_def catch_result)

section \<open>The number in the header\<close>

lemma number_of_text: "number_of m = Option.bind (getField_text 34 (msg_header m)) (IntT_parse False)"
  by (auto simp: number_of_def field_ref_def getField_text_def seqnum_value_def converted_def split: option.split)

lemma seqnum_read [simp]: "IntT_parse False (seqnum_text n) = Some n"
  unfolding seqnum_text_def IntT_convert_def by (rule parse_written) simp

lemma number_of_numbered: "fm_ok (msg_header m) \<Longrightarrow> number_of (header_field 34 (seqnum_text n) m) = Some n"
  by (simp add: number_of_text header_field_def get_setField FieldBase_new_def)

lemma header_field_ok: "fm_ok (msg_header m) \<Longrightarrow> fm_ok (msg_header (header_field t v m))"
  by (simp add: header_field_def fm_ok_setField)

section \<open>What sending leaves alone\<close>

definition untouched :: "'a Session \<Rightarrow> 'a Session \<Rightarrow> bool" where
  "untouched s t \<longleftrightarrow> st_store (m_state t) = st_store (m_state s) \<and> x_sent t = x_sent s \<and> m_pResponder t = m_pResponder s \<and>
     m_persistMessages t = m_persistMessages s \<and> isLoggedOn t = isLoggedOn s"

lemma untouched_refl [simp]: "untouched s s"
  by (simp add: untouched_def)

lemma untouched_trans: "untouched s t \<Longrightarrow> untouched t u \<Longrightarrow> untouched s u"
  by (simp add: untouched_def)

lemma timestamper_result: "timestamper E s = (Inr t, s') \<Longrightarrow> s' = s\<lparr>x_clock := x_clock s + 1\<rparr>"
  by (auto simp: timestamper_def)

lemma state_result: "state f s = (Inr u, s') \<Longrightarrow> s' = s\<lparr>m_state := f (m_state s)\<rparr>"
  by (auto simp: state_def modify_def)

lemma callback_result: "callback m s = (Inr x, s') \<Longrightarrow> \<exists>a. m (x_app s) = (Inr x, a) \<and> s' = s\<lparr>x_app := a\<rparr>"
  by (auto simp: callback_def split: prod.splits)

lemma fill_result:
  assumes "fill E h s = (Inr h', s')" and "fm_ok h"
  shows "untouched s s' \<and> fm_ok h' \<and> getField_text 34 h' = Some (seqnum_text (getExpectedSenderNum s))"
proof -
  have "returns (\<lambda>h' s'. untouched s s' \<and> fm_ok h' \<and> getField_text 34 h' = Some (seqnum_text (getExpectedSenderNum s))) s (fill E h)"
    unfolding fill_def insertSendingTime_def stamp_text_def Let_def
  proof (intro returns_bind [of "timestamper E"] returns_after returns_look returns_bind [of "look _"], goal_cases)
    case (1 t s1 u s2 t' s3 out s4)
    have s: "s1 = s\<lparr>x_clock := x_clock s + 1\<rparr>" "s2 = s1\<lparr>m_state := (m_state s1)\<lparr>st_lastSentTime := t\<rparr>\<rparr>"
        "s3 = s2\<lparr>x_clock := x_clock s2 + 1\<rparr>" "s4 = s3"
      using timestamper_result [OF 1(1)] state_result [OF 1(2)] timestamper_result [OF 1(3)] 1(4)
      by (auto simp: look_def throw_def return_def split: option.splits)
    show ?case
      by (rule returns_return) (simp add: s untouched_def isLoggedOn_def getExpectedSenderNum_def getNextSenderMsgSeqNum_def
          fm_ok_setField get_setField assms(2) FieldBase_new_def)
  qed
  with assms(1) show ?thesis by (simp add: returns_def)
qed

lemma fill_message_result:
  assumes "fill_message E m s = (Inr m', s')" and "fm_ok (msg_header m)"
  shows "untouched s s' \<and> fm_ok (msg_header m') \<and> number_of m' = Some (getExpectedSenderNum s)"
  using assms fill_result [of E "msg_header m" s]
  by (auto simp: fill_message_def bind_result return_def number_of_text)

section \<open>Keeping and sending\<close>

lemma message_text_result: "message_text m s = (Inr (out, m'), s') \<Longrightarrow> toString m = Some (out, m') \<and> s' = s"
  by (auto simp: message_text_def return_def throw_def split: option.splits)

lemma number_of_written:
  assumes "fm_ok (msg_header m)" and "toString m = Some (out, m')"
  shows "number_of m' = number_of m"
  using assms by (auto simp: Message_toString_def Let_def number_of_text get_setField FieldBase_new_def split: option.splits)

lemma persist_result:
  assumes "persist m out s = (Inr u, s')" and "m_persistMessages s" and "number_of m = Some n"
  shows "s' = s\<lparr>m_state := incrNextSenderMsgSeqNum (snd (st_set n out (m_state s)))\<rparr>"
  using assms
  by (auto simp: persist_def bind_result lift_result look_def after_def number_of_Some dest!: state_result)

lemma send_text_result:
  "send_text E out s = (Inr b, s') \<Longrightarrow> m_state s' = m_state s \<and> m_pResponder s' = m_pResponder s \<and>
     x_sent s' = (if m_pResponder s then x_sent s @ [out] else x_sent s)"
  by (auto simp: send_text_def look_def after_def bind_result return_def log_add_def modify_def split: if_splits)

text \<open>The message \<open>m'\<close> has gone out as \<open>out\<close>, and is kept under the number of the session.\<close>

definition kept_and_sent :: "'a Session \<Rightarrow> Message \<Rightarrow> 'a Session \<Rightarrow> bool" where
  "kept_and_sent s m' s' \<longleftrightarrow> (\<exists>out m. toString m = Some (out, m') \<and> number_of m = Some (getExpectedSenderNum s) \<and>
     ms_messages (st_store (m_state s')) = map_put (getExpectedSenderNum s) out (ms_messages (st_store (m_state s))) \<and>
     getExpectedSenderNum s' = getExpectedSenderNum s + 1 \<and>
     (x_sent s' = x_sent s @ [out] \<or> x_sent s' = x_sent s \<and> \<not> (m_pResponder s \<and> isLoggedOn s)))"

lemma send_end:
  assumes "untouched s t" and "fm_ok (msg_header m)" and "number_of m = Some (getExpectedSenderNum s)"
    and "m_persistMessages s" and C: "\<And>s. isLoggedOn s \<Longrightarrow> C s"
  shows "returns (\<lambda>(b, m') s'. b \<longrightarrow> kept_and_sent s m' s') t
    (bind (message_text m) (\<lambda>(out, m'). after (only_if True (persist m' out))
      (after (look (\<lambda>s. only_if (C s) (ignore (send_text E out)))) (return (True, m')))))"
proof (rule returns_bind)
  fix x t1
  assume m: "message_text m t = (Inr x, t1)"
  obtain out m' where x: "x = (out, m')" by (cases x)
  note w = message_text_result [OF m [unfolded x], THEN conjunct1] message_text_result [OF m [unfolded x], THEN conjunct2]
  have num: "number_of m' = Some (getExpectedSenderNum s)" using number_of_written [OF assms(2) w(1)] assms(3) by simp
  have "returns (\<lambda>(b, m') s'. b \<longrightarrow> kept_and_sent s m' s') t (after (only_if True (persist m' out))
      (after (look (\<lambda>s. only_if (C s) (ignore (send_text E out)))) (return (True, m'))))"
  proof (intro returns_after returns_return, goal_cases)
    case (1 u t2 v t3)
    then have p: "persist m' out t = (Inr u, t2)" by (simp add: only_if_def)
    have "m_persistMessages t" using assms(1,4) by (simp add: untouched_def)
    from persist_result [OF p this num] have t2: "t2 = t\<lparr>m_state := incrNextSenderMsgSeqNum (snd (st_set (getExpectedSenderNum s) out (m_state t)))\<rparr>" .
    have logged: "isLoggedOn t2 = isLoggedOn s"
      using assms(1) by (simp add: t2 untouched_def isLoggedOn_def incrNextSenderMsgSeqNum_def st_set_def MemoryStore_set_def)
    have sent: "m_state t3 = m_state t2 \<and> (x_sent t3 = x_sent t2 @ [out] \<or> x_sent t3 = x_sent t2 \<and> \<not> (m_pResponder t2 \<and> isLoggedOn t2))"
      using 1(2) C [of t2] send_text_result [of E out t2]
      by (auto simp: look_def only_if_def skip_def return_def ignore_def bind_result split: if_splits)
    have "kept_and_sent s m' t3"
      unfolding kept_and_sent_def
      using w(1) sent assms(1,3) logged
      by (intro exI [of _ out] exI [of _ m])
        (auto simp: t2 untouched_def getExpectedSenderNum_def getNextSenderMsgSeqNum_def store_ops MemoryStore_set_def incrNextSender_def)
    then show ?case by simp
  qed
  then show "returns (\<lambda>(b, m') s'. b \<longrightarrow> kept_and_sent s m' s') t1 (case x of (out, m') \<Rightarrow>
      after (only_if True (persist m' out))
      (after (look (\<lambda>s. only_if (C s) (ignore (send_text E out)))) (return (True, m'))))"
    by (simp add: x w(2))
qed

text \<open>The application may change a message before it goes out, but not its number.\<close>

definition keeps_number :: "'a environment \<Rightarrow> bool" where
  "keeps_number E \<longleftrightarrow> (\<forall>m sid a m' a'. fm_ok (msg_header m) \<longrightarrow>
     (e_toAdmin E m sid a = (Inr m', a') \<or> e_toApp E m sid a = (Inr m', a')) \<longrightarrow>
     fm_ok (msg_header m') \<and> number_of m' = number_of m)"

lemma sendRaw_keeps:
  assumes "fm_ok (msg_header m)" and "keeps_number E" and "m_persistMessages s"
    and "getField_text 35 (msg_header m) \<noteq> Some ''A''"
  shows "returns (\<lambda>(b, m') s'. b \<longrightarrow> kept_and_sent s m' s') s (sendRaw E m 0)"
proof -
  define ty where "ty = (case getFieldIfSet 35 (msg_header m) of None \<Rightarrow> [] | Some f \<Rightarrow> f_string f)"
  have ty: "ty \<noteq> ''A''"
    using assms(4) by (auto simp: ty_def getFieldIfSet_Ref getField_text_def split: option.splits)
  have called: "untouched s s3 \<and> fm_ok (msg_header m2) \<and> number_of m2 = Some (getExpectedSenderNum s)"
    if "fill_message E m s = (Inr m1, s1)" "callback c s1 = (Inr m2, s3)"
      "c = e_toAdmin E m1 (m_sessionID s1) \<or> c = e_toApp E m1 (m_sessionID s1)" for m1 s1 m2 s3 c
  proof -
    note m1 = fill_message_result [OF that(1) assms(1)] and c = that(2,3)
    obtain a where a: "c (x_app s1) = (Inr m2, a)" "s3 = s1\<lparr>x_app := a\<rparr>" using callback_result [OF c(1)] by blast
    have "fm_ok (msg_header m2) \<and> number_of m2 = number_of m1"
      using assms(2) m1 c(2) a(1) unfolding keeps_number_def by metis
    with m1 a(2) show ?thesis by (simp add: untouched_def isLoggedOn_def)
  qed
  let ?finish = "\<lambda>C m. bind (message_text m) (\<lambda>(out, m'). after (only_if True (persist m' out))
      (after (look (\<lambda>s. only_if (C s) (ignore (send_text E out)))) (return (True, m'))))"
  have no_reset: "reset_for_logon E ty m s = (Inr m, s)" for m and s :: "'a Session"
    using ty by (simp add: reset_for_logon_def look_def return_def)
  have admin: "returns (\<lambda>(b, m') s'. b \<longrightarrow> kept_and_sent s m' s') s1
      (bind (look (\<lambda>s. callback (e_toAdmin E m1 (m_sessionID s)))) (\<lambda>m. bind (reset_for_logon E ty m)
        (?finish (\<lambda>s. ty \<in> {''A'', ''5'', ''2'', ''4''} \<or> isLoggedOn s))))"
    if m1: "fill_message E m s = (Inr m1, s1)" for m1 s1
  proof (rule returns_bind)
    fix m2 s2
    assume "look (\<lambda>s. callback (e_toAdmin E m1 (m_sessionID s))) s1 = (Inr m2, s2)"
    then have "untouched s s2 \<and> fm_ok (msg_header m2) \<and> number_of m2 = Some (getExpectedSenderNum s)"
      by (intro called [OF m1 _ disjI1 [OF refl]]) (simp add: look_def)
    then have "returns (\<lambda>(b, m') s'. b \<longrightarrow> kept_and_sent s m' s') s2 (?finish (\<lambda>s. ty \<in> {''A'', ''5'', ''2'', ''4''} \<or> isLoggedOn s) m2)"
      by (intro send_end assms(3)) simp_all
    then show "returns (\<lambda>(b, m') s'. b \<longrightarrow> kept_and_sent s m' s') s2
        (bind (reset_for_logon E ty m2) (?finish (\<lambda>s. ty \<in> {''A'', ''5'', ''2'', ''4''} \<or> isLoggedOn s)))"
      by (simp add: returns_def bind_def no_reset)
  qed
  have application: "returns (\<lambda>(b, m') s'. b \<longrightarrow> kept_and_sent s m' s') s1
      (bind (callback (e_toApp E m1 (m_sessionID s1))) (?finish isLoggedOn))"
    if m1: "fill_message E m s = (Inr m1, s1)" for m1 s1
  proof (rule returns_bind)
    fix m2 s2
    assume "callback (e_toApp E m1 (m_sessionID s1)) s1 = (Inr m2, s2)"
    then have "untouched s s2 \<and> fm_ok (msg_header m2) \<and> number_of m2 = Some (getExpectedSenderNum s)"
      by (intro called [OF m1 _ disjI2 [OF refl]])
    then show "returns (\<lambda>(b, m') s'. b \<longrightarrow> kept_and_sent s m' s') s2 (?finish isLoggedOn m2)"
      by (intro send_end assms(3)) simp_all
  qed
  show ?thesis
    unfolding sendRaw_def Let_def ty_def [symmetric] simp_thms if_False
    by (intro returns_catch returns_bind [of "fill_message _ _"] returns_if returns_look admin application)
      (auto simp: returns_def return_def after_def bind_result split: if_splits)
qed

end
