(* ===== verification/Harjus_Application.thy ===== *)
theory Harjus_Application
  imports Application_Reading Session_Sending
begin

text \<open>
  The application between the sessions and the trading thread (include/HarjusApplication.h,
  src/HarjusApplication.cpp): its members, its callbacks, the dispatch of the messages by their version
  and type (flashfix/include/MessageCracker.h and the one of each version), and the queue of the
  initiator through which orders reach their session
  (flashfix/src/FstackMicroThreadedSSLSocketInitiator.cpp). The callbacks are an environment of the
  session model.
\<close>

section \<open>State\<close>

text \<open>\<open>a_initiator\<close> says whether the pointer is set; \<open>a_sent\<close> is what went to \<^verbatim>\<open>sendToTarget\<close>.\<close>

record Application =
  a_username :: string
  a_privateKeySeed :: string
  a_orderEntrySessionID :: SessionID
  a_symbolMap :: "string set"
  a_symbols :: "string list"
  a_priceUpdateQueue :: "PriceUpdate list"
  a_executionReportQueue :: "ExecutionReport list"
  a_marketSymbols :: "string \<rightharpoonup> string list"
  a_initiator :: bool
  a_outbound :: "(Message \<times> SessionID) list"
  a_sent :: "(Message \<times> SessionID) list"
  a_isShuttingDown :: bool

type_synonym 'r app_act = "(Application, 'r) act"

section \<open>Construction\<close>

definition is_market_data :: "SessionID \<Rightarrow> bool" where
  "is_market_data sid = prefix ''MARKETDATA'' (sid_sessionQualifier sid)"

text \<open>\<open>sessions\<close> are those of the settings in ascending order.\<close>

definition Application_new ::
  "string \<Rightarrow> string \<Rightarrow> string set \<Rightarrow> string list \<Rightarrow> SessionID list \<Rightarrow> throwable + Application" where
  "Application_new username privateKeySeed symbolMap symbols sessions =
     (let sessions = filter is_market_data sessions in
      if length sessions < length symbols div 1000
      then Inl (Std_runtime_error ''Not enough market data sessions available for subscription'')
      else and_then (divideSymbolsEvenly symbols (length sessions)) (\<lambda>dividedSymbols. Inr
          \<lparr>a_username = username, a_privateKeySeed = privateKeySeed, a_orderEntrySessionID = SessionID_default,
           a_symbolMap = symbolMap, a_symbols = symbols, a_priceUpdateQueue = [], a_executionReportQueue = [],
           a_marketSymbols = foldl (\<lambda>m (sid, part). m(sid_sessionQualifier sid \<mapsto> part)) Map.empty (zip sessions dividedSymbols),
           a_initiator = False, a_outbound = [], a_sent = [], a_isShuttingDown = False\<rparr>))"

definition setInitiator :: "bool \<Rightarrow> Application \<Rightarrow> Application" where
  "setInitiator i app = app\<lparr>a_initiator := i\<rparr>"

section \<open>Helpers\<close>

definition push :: "'d app_library \<Rightarrow> nat \<Rightarrow> 'b \<Rightarrow> 'b list \<Rightarrow> 'b list" where
  "push L capacity x q = (if l_room L capacity (length q) then q @ [x] else q)"

definition pure :: "throwable + 'b \<Rightarrow> ('s, 'b) act" where
  "pure r s = (r, s)"

definition header_text :: "int \<Rightarrow> Message \<Rightarrow> throwable + string" where
  "header_text tag m = (case getField_text tag (msg_header m) of
     None \<Rightarrow> Inl (Fix (FieldNotFound tag)) | Some t \<Rightarrow> Inr t)"

section \<open>Subscriptions\<close>

definition entry_types :: FieldMap where
  "entry_types = FieldMap_new (message_order_of_args 269 [0])"

definition related_sym :: FieldMap where
  "related_sym = FieldMap_new (message_order_of_args 55
     [65, 48, 22, 460, 461, 167, 762, 200, 541, 201, 224, 225, 239, 226, 227, 228, 255, 543, 470, 471, 472, 240,
      202, 947, 206, 231, 223, 207, 106, 348, 349, 107, 350, 351, 691, 667, 875, 876, 873, 874, 711, 555, 0])"

definition add_group :: "int \<Rightarrow> FieldMap \<Rightarrow> Message \<Rightarrow> Message" where
  "add_group field grp m = m\<lparr>msg_body := addGroup field grp True (msg_body m)\<rparr>"

definition market_data_request :: "string \<Rightarrow> string list \<Rightarrow> Message" where
  "market_data_request reqId symbols =
     (let m = body_field 264 ''1'' (body_field 263 ''1'' (body_field 262 reqId (Message_of_type ''FIX.4.4'' ''V'')));
          bid = setField_text 269 ''0'' entry_types;
          m = add_group 267 bid m;
          m = add_group 267 (setField_text 269 ''1'' bid) m
      in snd (foldl (\<lambda>(grp, m) symb. let grp = setField_text 55 symb grp in (grp, add_group 146 grp m)) (related_sym, m) symbols))"

text \<open>
  The request goes to its session through the registry; any exception of the library comes out as a
  \<^verbatim>\<open>runtime_error\<close>.
\<close>

definition subscribeMarketSessionToSymbols :: "'d app_library \<Rightarrow> SessionID \<Rightarrow> string list \<Rightarrow> bool app_act" where
  "subscribeMarketSessionToSymbols L sessionID symbols =
     (if symbols = [] then return True
      else catch
        (let marketDataRequest = market_data_request (''MDReq-'' @ to_string (l_time L)) symbols in
         after (modify (\<lambda>app. app\<lparr>a_sent := a_sent app @ [(marketDataRequest, sessionID)]\<rparr>))
         (case l_sendToTarget L marketDataRequest sessionID of None \<Rightarrow> return True | Some e \<Rightarrow> throw e))
        (\<lambda>e. if is_std_exception e
           then Some (throw (Std_runtime_error (''Error sending market data request: '' @ what_of L e))) else None))"

section \<open>Sessions come and go\<close>

definition onCreate :: "SessionID \<Rightarrow> unit app_act" where
  "onCreate sessionID =
     only_if (sid_sessionQualifier sessionID = ''ORDERENTRY'') (modify (\<lambda>app. app\<lparr>a_orderEntrySessionID := sessionID\<rparr>))"

definition onLogon :: "'d app_library \<Rightarrow> SessionID \<Rightarrow> unit app_act" where
  "onLogon L sessionID =
     only_if (is_market_data sessionID) (look (\<lambda>app.
       case a_marketSymbols app (sid_sessionQualifier sessionID) of
         None \<Rightarrow> throw (Std_logic_error ''_Map_base::at'')
       | Some symbols \<Rightarrow> ignore (subscribeMarketSessionToSymbols L sessionID symbols)))"

definition onLogout :: "SessionID \<Rightarrow> unit app_act" where
  "onLogout sessionID = look (\<lambda>app.
     only_if (\<not> a_isShuttingDown app)
       (throw (Std_runtime_error (''FIX session disconnected abnormally: '' @ SessionID_toString sessionID))))"

section \<open>Administrative messages\<close>

definition fromAdmin :: "Message \<Rightarrow> SessionID \<Rightarrow> unit app_act" where
  "fromAdmin message sessionID =
     bind (pure (get_field 35 (msg_header message))) (\<lambda>msgType.
       only_if (f_string msgType = ''3'') (bind (message_text message) (\<lambda>(t, m).
         throw (Std_runtime_error (''Received Reject message: '' @ t)))))"

text \<open>
  The text that is signed. The operands of the sum are evaluated in an order the language does not fix,
  which shows only in the tag of the exception when several fields are missing.
\<close>

definition logon_payload :: "string \<Rightarrow> Message \<Rightarrow> throwable + string" where
  "logon_payload msgType m =
     and_then (header_text 49 m) (\<lambda>sender.
     and_then (header_text 56 m) (\<lambda>target.
     and_then (header_text 34 m) (\<lambda>seqNum.
     and_then (header_text 52 m) (\<lambda>time.
       Inr (msgType @ [SOH] @ sender @ [SOH] @ target @ [SOH] @ seqNum @ [SOH] @ time)))))"

definition toAdmin :: "'d app_library \<Rightarrow> Message \<Rightarrow> SessionID \<Rightarrow> Message app_act" where
  "toAdmin L message sessionID =
     bind (pure (get_field 35 (msg_header message))) (\<lambda>msgType.
       if f_string msgType \<noteq> ''A'' then return message
       else look (\<lambda>app.
         let message = header_field 553 (c_str (a_username app)) (header_field 25035 ''2'' message) in
         bind (pure (logon_payload (f_string msgType) message)) (\<lambda>payload.
         bind (pure (l_sign L (a_privateKeySeed app) payload)) (\<lambda>password.
           return (header_field 95 (Session_State.int_text (int (length password)))
             (header_field 96 (c_str password) message))))))"

section \<open>Application messages\<close>

definition toApp :: "Message \<Rightarrow> SessionID \<Rightarrow> Message app_act" where
  "toApp message sessionID = catch
     (bind (pure (get_field 43 (msg_header message))) (\<lambda>possDupFlag.
      bind (lift (bool_value possDupFlag)) (\<lambda>dup.
        if dup then throw (Fix DoNotSend) else return message)))
     (\<lambda>e. case e of Fix (FieldNotFound _) \<Rightarrow> Some (return message) | _ \<Rightarrow> None)"

definition onMessage_ExecutionReport :: "'d app_library \<Rightarrow> Message \<Rightarrow> unit app_act" where
  "onMessage_ExecutionReport L message =
     bind (pure (parseExecutionReport L (msg_body message))) (\<lambda>execReport.
       modify (\<lambda>app. app\<lparr>a_executionReportQueue := push L 1000 execReport (a_executionReportQueue app)\<rparr>))"

definition onMessage_MarketDataRequestReject :: "Message \<Rightarrow> unit app_act" where
  "onMessage_MarketDataRequestReject message =
     bind (message_text message) (\<lambda>(t, m). throw (Std_runtime_error (''Market Data Request Rejected: '' @ t)))"

definition push_update :: "'d app_library \<Rightarrow> PriceUpdate \<Rightarrow> unit app_act" where
  "push_update L u = modify (\<lambda>app. app\<lparr>a_priceUpdateQueue := push L 1000 u (a_priceUpdateQueue app)\<rparr>)"

definition onMessage_MarketDataSnapshotFullRefresh :: "'d app_library \<Rightarrow> Message \<Rightarrow> unit app_act" where
  "onMessage_MarketDataSnapshotFullRefresh L message = look (\<lambda>app.
     bind (pure (parsePriceUpdateFromMarketDataSnapshotFullRefresh L (a_symbolMap app) (msg_body message)))
       (push_update L))"

definition onMessage_MarketDataIncrementalRefresh :: "'d app_library \<Rightarrow> Message \<Rightarrow> unit app_act" where
  "onMessage_MarketDataIncrementalRefresh L message = look (\<lambda>app.
     bind (pure (parsePriceUpdateFromMarketDataIncrementalRefresh L (a_symbolMap app) (msg_body message)))
       (\<lambda>priceUpdates. block (map (push_update L) priceUpdates)))"

section \<open>Dispatch\<close>

text \<open>
  Each version hands a message to the function for its type. Unless the application has one of its own,
  that function throws \<^verbatim>\<open>UnsupportedMessageType\<close>, and so does the one for unknown types; only those for
  the types in the list do nothing.
\<close>

definition cracked :: "string list \<Rightarrow> Message \<Rightarrow> unit app_act" where
  "cracked ignored message =
     bind (pure (header_text 35 message)) (\<lambda>msgTypeValue.
       if msgTypeValue \<in> set ignored then skip else throw (Fix UnsupportedMessageType))"

definition FIX40_crack :: "Message \<Rightarrow> unit app_act" where
  "FIX40_crack = cracked [''0'', ''1'', ''2'', ''3'', ''4'', ''5'', ''A'']"

definition FIX41_crack :: "Message \<Rightarrow> unit app_act" where
  "FIX41_crack = cracked [''0'', ''1'', ''2'', ''3'', ''4'', ''5'', ''A'']"

definition FIX42_crack :: "Message \<Rightarrow> unit app_act" where
  "FIX42_crack = cracked [''0'', ''1'', ''2'', ''3'', ''4'', ''5'', ''A'', ''j'']"

definition FIX43_crack :: "Message \<Rightarrow> unit app_act" where
  "FIX43_crack = cracked [''0'', ''1'', ''2'', ''3'', ''4'', ''5'', ''A'', ''j'', ''n'']"

definition FIX44_crack :: "'d app_library \<Rightarrow> Message \<Rightarrow> unit app_act" where
  "FIX44_crack L message =
     bind (pure (header_text 35 message)) (\<lambda>msgTypeValue.
       if msgTypeValue = ''8'' then onMessage_ExecutionReport L message
       else if msgTypeValue = ''W'' then onMessage_MarketDataSnapshotFullRefresh L message
       else if msgTypeValue = ''X'' then onMessage_MarketDataIncrementalRefresh L message
       else if msgTypeValue = ''Y'' then onMessage_MarketDataRequestReject message
       else cracked [''0'', ''1'', ''2'', ''3'', ''4'', ''5'', ''A'', ''j'', ''n''] message)"

definition FIX50_crack :: "Message \<Rightarrow> unit app_act" where
  "FIX50_crack = cracked [''j'']"

definition FIX50SP1_crack :: "Message \<Rightarrow> unit app_act" where
  "FIX50SP1_crack = cracked [''j'']"

definition FIX50SP2_crack :: "Message \<Rightarrow> unit app_act" where
  "FIX50SP2_crack = cracked [''j'']"

definition FIXT11_crack :: "Message \<Rightarrow> unit app_act" where
  "FIXT11_crack = cracked [''0'', ''1'', ''2'', ''3'', ''4'', ''5'', ''A'', ''n'']"

definition crack_applVerID :: "'d app_library \<Rightarrow> Message \<Rightarrow> string \<Rightarrow> unit app_act" where
  "crack_applVerID L message applVerID =
     (if applVerID = ''2'' then FIX40_crack message
      else if applVerID = ''3'' then FIX41_crack message
      else if applVerID = ''4'' then FIX42_crack message
      else if applVerID = ''5'' then FIX43_crack message
      else if applVerID = ''6'' then FIX44_crack L message
      else if applVerID = ''7'' then FIX50_crack message
      else if applVerID = ''8'' then FIX50SP1_crack message
      else if applVerID = ''9'' then FIX50SP2_crack message
      else skip)"

text \<open>A message of FIXT 1.1 that names no version has the one its session sends by default.\<close>

definition crack_beginString :: "'d app_library \<Rightarrow> Message \<Rightarrow> SessionID \<Rightarrow> string \<Rightarrow> unit app_act" where
  "crack_beginString L message sessionID beginString =
     (if beginString = ''FIX.4.0'' then FIX40_crack message
      else if beginString = ''FIX.4.1'' then FIX41_crack message
      else if beginString = ''FIX.4.2'' then FIX42_crack message
      else if beginString = ''FIX.4.3'' then FIX43_crack message
      else if beginString = ''FIX.4.4'' then FIX44_crack L message
      else if beginString = ''FIXT.1.1'' then
        if Message_isAdmin message then FIXT11_crack message
        else case getField_text 1128 (msg_header message) of
          Some applVerID \<Rightarrow> crack_applVerID L message applVerID
        | None \<Rightarrow> (case l_senderDefaultApplVerID L sessionID of
            None \<Rightarrow> throw Undefined | Some applVerID \<Rightarrow> crack_applVerID L message applVerID)
      else skip)"

definition crack :: "'d app_library \<Rightarrow> Message \<Rightarrow> SessionID \<Rightarrow> unit app_act" where
  "crack L message sessionID =
     bind (pure (header_text 8 message)) (\<lambda>beginString. crack_beginString L message sessionID beginString)"

definition fromApp :: "'d app_library \<Rightarrow> Message \<Rightarrow> SessionID \<Rightarrow> unit app_act" where
  "fromApp L message sessionID = crack L message sessionID"

section \<open>Orders\<close>

text \<open>\<^verbatim>\<open>qty.toString()\<close>; it throws when the decimal type cannot read the text of the integer.\<close>

definition number_text :: "'d app_library \<Rightarrow> precise_number \<Rightarrow> throwable + string" where
  "number_text L n = (case PreciseNumber_toString (l_decimal L) n of
     None \<Rightarrow> Inl (Std_runtime_error (l_noNumber L (mpz_str (l_decimal L) (smallestUnit n)))) | Some t \<Rightarrow> Inr t)"

definition new_order :: "string \<Rightarrow> string \<Rightarrow> string \<Rightarrow> string \<Rightarrow> Position \<Rightarrow> Message" where
  "new_order ident symb qty price position =
     body_field 59 ''4'' (body_field 44 price (body_field 38 qty (body_field 55 symb
       (body_field 54 (if position = LONG then ''1'' else ''2'')
       (body_field 40 ''2'' (body_field 11 ident (Message_of_type ''FIX.4.4'' ''D'')))))))"

definition queueMessage :: "'d app_library \<Rightarrow> Message \<Rightarrow> SessionID \<Rightarrow> bool app_act" where
  "queueMessage L message sessionID = look (\<lambda>app.
     after (modify (\<lambda>app. app\<lparr>a_outbound := push L 4096 (message, sessionID) (a_outbound app)\<rparr>))
       (return (l_room L 4096 (length (a_outbound app)))))"

definition submitOrder ::
  "'d app_library \<Rightarrow> string \<Rightarrow> string \<Rightarrow> precise_number \<Rightarrow> precise_number \<Rightarrow> Position \<Rightarrow> unit app_act" where
  "submitOrder L ident symb qty price position =
     bind (pure (number_text L qty)) (\<lambda>qty.
     bind (pure (number_text L price)) (\<lambda>price. look (\<lambda>app.
       only_if (a_initiator app)
         (ignore (queueMessage L (new_order ident symb qty price position) (a_orderEntrySessionID app))))))"

section \<open>The application as the environment of a session\<close>

definition harjus_environment ::
  "'d app_library \<Rightarrow> (nat \<Rightarrow> DateTime) \<Rightarrow> (int \<Rightarrow> tm) \<Rightarrow> (string \<Rightarrow> bool) \<Rightarrow> Application environment" where
  "harjus_environment L clock zone responder =
     \<lparr>e_timestamper = clock, e_localtime = zone, e_responder = responder, e_onCreate = onCreate,
      e_onLogon = onLogon L, e_onLogout = onLogout, e_toAdmin = toAdmin L, e_toApp = toApp,
      e_fromAdmin = fromAdmin, e_fromApp = fromApp L\<rparr>"

section \<open>The queue of the initiator\<close>

text \<open>
  The sessions of the registry, under their identities; they share the application. A session works
  on the application the others have left.
\<close>

record Initiator =
  i_sessions :: "(string \<times> Application Session) list"
  i_app :: Application

definition session_of :: "SessionID \<Rightarrow> Initiator \<Rightarrow> Application Session option" where
  "session_of sid i = map_option (\<lambda>s. s\<lparr>x_app := i_app i\<rparr>) (map_of (i_sessions i) (sid_frozenString sid))"

definition with_session :: "SessionID \<Rightarrow> Application Session \<Rightarrow> Initiator \<Rightarrow> Initiator" where
  "with_session sid s i = i\<lparr>i_sessions := map (\<lambda>e. if fst e = sid_frozenString sid then (fst e, s) else e) (i_sessions i),
     i_app := x_app s\<rparr>"

text \<open>Each message is taken off the queue and sent by its session, if that exists; an exception leaves.\<close>

definition send_item :: "Application environment \<Rightarrow> Message \<times> SessionID \<Rightarrow> (Initiator, unit) act" where
  "send_item E item i =
     (case session_of (snd item) i of
        None \<Rightarrow> (Inr (), i)
      | Some s \<Rightarrow> (case send E (fst item) s of
          (Inl e, s) \<Rightarrow> (Inl e, with_session (snd item) s i)
        | (Inr _, s) \<Rightarrow> (Inr (), with_session (snd item) s i)))"

fun outbound_loop :: "Application environment \<Rightarrow> (Message \<times> SessionID) list \<Rightarrow> (Initiator, unit) act" where
  "outbound_loop E [] = skip"
| "outbound_loop E (item # items) =
     after (modify (\<lambda>i. i\<lparr>i_app := (i_app i)\<lparr>a_outbound := items\<rparr>\<rparr>))
     (after (send_item E item) (outbound_loop E items))"

definition processOutboundQueue :: "Application environment \<Rightarrow> (Initiator, unit) act" where
  "processOutboundQueue E = look (\<lambda>i. outbound_loop E (a_outbound (i_app i)))"

end
