(* ===== verification/Application_Laws.thy ===== *)
theory Application_Laws
  imports Harjus_Application
begin

text \<open>
  What the readings of the application amount to: the symbols are divided evenly and completely, the
  fees of a report are summed up by currency, a refresh has one update for each symbol, which is what
  the entries of that symbol alone make of it.
\<close>

section \<open>Readings\<close>

lemma FieldBase_new_sel [simp]: "f_tag (FieldBase_new t v) = t" "f_string (FieldBase_new t v) = v"
  by (simp_all add: FieldBase_new_def)

lemma fixed_Inr: "fixed r = Inr x \<longleftrightarrow> r = Inr x"
  by (cases r) (auto simp: fixed_def)

lemma get_field_text: "get_field t fm = Inr f \<Longrightarrow> getField_text t fm = Some (f_string f)"
  by (auto simp: get_field_def fixed_Inr field_ref_def getField_text_def split: option.splits)

lemma get_field_ex: "getField_text t fm = Some v \<Longrightarrow> \<exists>f. get_field t fm = Inr f \<and> f_string f = v"
  by (auto simp: get_field_def fixed_Inr field_ref_def getField_text_def split: option.splits)

lemma char_value_Inr: "char_value f = Inr c \<longleftrightarrow> f_string f = [c]"
  by (cases "f_string f"; cases "tl (f_string f)")
    (auto simp: char_value_def fixed_Inr converted_def Char_parse_def split: option.splits if_splits)

definition groups_of :: "int \<Rightarrow> FieldMap \<Rightarrow> FieldMap list" where
  "groups_of tag fm = (case map_of (fm_groups fm) tag of None \<Rightarrow> [] | Some gs \<Rightarrow> gs)"

lemma get_group_Inr: "get_group (int k + 1) tag fm = Inr g \<longleftrightarrow> k < length (groups_of tag fm) \<and> g = groups_of tag fm ! k"
  by (auto simp: get_group_def getGroupRef_def groups_of_def nat_add_distrib split: option.splits)

lemma next_index: "int k + 1 + 1 = int (Suc k) + 1"
  by simp

section \<open>Dividing the symbols\<close>

lemma run_at_run: "i + n \<le> length xs \<Longrightarrow> run_at i n xs = Inr (take n (drop i xs))"
  by (simp add: run_at_def)

lemma divide_loop_even:
  assumes "length symbols = (i + left) * q + r" and "r \<le> i + left" and "j = i * q + min i r"
  shows "\<exists>parts. divide_loop symbols q r i left j = Inr parts \<and> concat parts = drop j symbols \<and> length parts = left \<and>
    list_all (\<lambda>p. length p = q \<or> length p = q + 1) parts"
  using assms
proof (induction left arbitrary: i j)
  case 0
  then have "length symbols \<le> j" by simp
  then show ?case by simp
next
  case (Suc left)
  let ?n = "q + (if i < r then 1 else 0)"
  have nxt: "j + ?n = Suc i * q + min (Suc i) r"
    using Suc.prems(3) by (simp add: min_def)
  have fits: "j + ?n \<le> length symbols"
  proof -
    have "Suc i * q \<le> (i + Suc left) * q" by (intro mult_right_mono) simp_all
    moreover have "min (Suc i) r \<le> r" by simp
    ultimately show ?thesis unfolding Suc.prems(1) nxt by (rule add_mono)
  qed
  obtain parts where parts: "divide_loop symbols q r (Suc i) left (j + ?n) = Inr parts" "concat parts = drop (j + ?n) symbols"
    "length parts = left" "list_all (\<lambda>p. length p = q \<or> length p = q + 1) parts"
    using Suc.IH [of "Suc i" "j + ?n", OF _ _ nxt] Suc.prems(1,2) by auto
  have "take ?n (drop j symbols) @ drop (j + ?n) symbols = drop j symbols"
    by (metis add.commute append_take_drop_id drop_drop)
  moreover have "length (take ?n (drop j symbols)) = ?n" using fits by simp
  ultimately show ?case
    unfolding divide_loop.simps Let_def run_at_run [OF fits] and_then_simps parts(1)
    using parts(2-4) by (simp split: if_splits)
qed

text \<open>C23. The symbols are divided among the sessions completely and in their order, into as many runs as
  there are sessions, whose lengths differ by at most one.\<close>

theorem symbols_divided_evenly:
  assumes "0 < n"
  shows "\<exists>parts. divideSymbolsEvenly symbols n = Inr parts \<and> concat parts = symbols \<and> length parts = n \<and>
    list_all (\<lambda>p. length p = length symbols div n \<or> length p = length symbols div n + 1) parts"
proof -
  have "length symbols mod n \<le> n" using assms by (simp add: less_imp_le)
  then show ?thesis
    using assms divide_loop_even [of symbols 0 n "length symbols div n" "length symbols mod n" 0]
    by (simp add: divideSymbolsEvenly_def mult.commute)
qed

theorem symbols_divided_evenly_witness:
  "\<exists>parts. divideSymbolsEvenly [''BTCUSDT'', ''ETHUSDT'', ''ETHBTC''] 2 = Inr parts \<and>
    concat parts = [''BTCUSDT'', ''ETHUSDT'', ''ETHBTC''] \<and> length parts = 2 \<and>
    list_all (\<lambda>p. length p = length [''BTCUSDT'', ''ETHUSDT'', ''ETHBTC''] div 2 \<or>
      length p = length [''BTCUSDT'', ''ETHUSDT'', ''ETHBTC''] div 2 + 1) parts"
  by (rule symbols_divided_evenly) simp

text \<open>Without a session for market data the number of symbols is divided by zero.\<close>

lemma no_market_data_session:
  assumes "filter is_market_data sessions = []" and "length symbols < 1000"
  shows "Application_new user seed symbolMap symbols sessions = Inl Undefined"
  using assms by (simp add: Application_new_def divideSymbolsEvenly_def)

section \<open>Fees\<close>

text \<open>What a fee takes from a currency: its amount when it is an exchange fee in the currency.\<close>

definition charged :: "'d app_library \<Rightarrow> string \<Rightarrow> FieldMap \<Rightarrow> precise_number" where
  "charged L c g =
     (if getField_text 139 g = Some ''4'' \<and> getField_text 138 g = Some c then
        case getField_text 137 g of
          None \<Rightarrow> 0
        | Some t \<Rightarrow> (case PreciseNumber_ofString (l_decimal L) t of None \<Rightarrow> 0 | Some n \<Rightarrow> n)
      else 0)"

lemma amount_Inr: "amount L f = Inr n \<longleftrightarrow> PreciseNumber_ofString (l_decimal L) (f_string f) = Some n"
  by (simp add: amount_def split: option.split)

lemma fee_loop_sum:
  assumes "fee_loop L fm (int k + 1) left d = Inr d'"
  shows "left \<le> length (groups_of 136 fm) - k \<and>
    value_at d' c = value_at d c - sum_list (map (charged L c) (take left (drop k (groups_of 136 fm))))"
  using assms
proof (induction left arbitrary: k d)
  case 0
  then show ?case by simp
next
  case (Suc left)
  let ?gs = "groups_of 136 fm"
  from Suc.prems obtain ty d1 where k: "k < length ?gs" and ty: "get_field 139 (?gs ! k) = Inr ty"
    and d1: "(if f_string ty = ''4'' then
          and_then (get_field 138 (?gs ! k)) (\<lambda>feeCurrency. and_then (get_field 137 (?gs ! k)) (\<lambda>feeAmount.
          and_then (amount L feeAmount) (\<lambda>n. Inr (map_sub_at d (f_string feeCurrency) n)))) else Inr d) = Inr d1"
    and rest: "fee_loop L fm (int k + 1 + 1) left d1 = Inr d'"
    by (auto simp: and_then_Inr get_group_Inr)
  have step: "value_at d1 c = value_at d c - charged L c (?gs ! k)"
    using d1 get_field_text [OF ty]
    by (auto simp: and_then_Inr charged_def amount_Inr value_at_sub dest!: get_field_text split: if_splits)
  have "left \<le> length ?gs - Suc k \<and> value_at d' c = value_at d1 c - sum_list (map (charged L c) (take left (drop (Suc k) ?gs)))"
    using Suc.IH [of "Suc k"] rest by (simp only: next_index)
  moreover have "take (Suc left) (drop k ?gs) = ?gs ! k # take left (drop (Suc k) ?gs)"
    using k by (simp add: Cons_nth_drop_Suc [symmetric])
  moreover have "Suc left \<le> length ?gs - k" if "left \<le> length ?gs - Suc k" using k that by simp
  ultimately show ?case using step by (simp add: algebra_simps)
qed

section \<open>Reports\<close>

text \<open>What the text of the field \<open>tag\<close> is as a number.\<close>

definition number_at :: "'d app_library \<Rightarrow> int \<Rightarrow> FieldMap \<Rightarrow> precise_number option" where
  "number_at L tag fm = Option.bind (getField_text tag fm) (PreciseNumber_ofString (l_decimal L))"

text \<open>The number of groups that the field \<open>tag\<close> announces.\<close>

definition count_at :: "int \<Rightarrow> FieldMap \<Rightarrow> int option" where
  "count_at tag fm = Option.bind (getField_text tag fm) (\<lambda>t. map_option sint (IntT_parse True t :: 32 word option))"

lemma int_value_Inr: "fixed (int_value f) = Inr n \<longleftrightarrow> map_option sint (IntT_parse True (f_string f) :: 32 word option) = Some n"
  by (auto simp: fixed_Inr int_value_def converted_def split: option.split)

lemma count_atI: "get_field tag fm = Inr f \<Longrightarrow> fixed (int_value f) = Inr n \<Longrightarrow> count_at tag fm = Some n"
  by (simp add: count_at_def int_value_Inr get_field_text)

lemma isSetField_text: "isSetField tag fm \<longleftrightarrow> getField_text tag fm \<noteq> None"
  by (simp add: isSetField_def getField_text_def getFieldRef_def split: option.split)

lemma number_atI: "get_field tag fm = Inr f \<Longrightarrow> amount L f = Inr n \<Longrightarrow> number_at L tag fm = Some n"
  by (auto simp: number_at_def amount_Inr dest: get_field_text)

lemma exec_status_Inr:
  assumes "exec_status ty fm = Inr st"
  shows "(ty, st) \<in> {(CHR ''0'', NEW), (CHR ''F'', FILLED), (CHR ''C'', EXPIRED), (CHR ''8'', REJECTED)}"
  using assms by (auto simp: exec_status_def and_then_Inr split: if_splits)

text \<open>C6. A report that is read carries the number of its order and the status that its type means; for a
  bought symbol it used the quote amount and received the base amount, for a sold one the other way round;
  and its change of every currency is the sum of the exchange fees in that currency, taken off: of all the
  fees that its count of fees announces, which are there, and of none when there is no count.\<close>

theorem report_read:
  assumes "parseExecutionReport L fm = Inr r"
  shows "\<exists>ty side base quote n. getField_text 11 fm = Some (er_id r) \<and>
    getField_text 150 fm = Some [ty] \<and>
    (ty, er_status r) \<in> {(CHR ''0'', NEW), (CHR ''F'', FILLED), (CHR ''C'', EXPIRED), (CHR ''8'', REJECTED)} \<and>
    number_at L 14 fm = Some base \<and> number_at L 25017 fm = Some quote \<and> getField_text 54 fm = Some [side] \<and>
    (er_usedQty r, er_recvQty r) = (if side = CHR ''1'' then (quote, base) else (base, quote)) \<and>
    (if getField_text 136 fm = None then n = 0 else count_at 136 fm = Some n) \<and>
    nat n \<le> length (groups_of 136 fm) \<and>
    (\<forall>c. value_at (er_feeDelta r) c = - sum_list (map (charged L c) (take (nat n) (groups_of 136 fm))))"
proof -
  from assms obtain ident ty st base b quote q side sd num fees where
    read: "get_field 11 fm = Inr ident" "get_field 14 fm = Inr base" "amount L base = Inr b"
      "get_field 25017 fm = Inr quote" "amount L quote = Inr q" "get_field 54 fm = Inr side"
    and ty: "char_value ty = Inr st" "get_field 150 fm = Inr ty" "exec_status st fm = Inr (er_status r)"
    and side: "char_value side = Inr sd"
    and num: "(if isSetField 136 fm then and_then (get_field 136 fm) (\<lambda>f. fixed (int_value f)) else Inr 0) = Inr num"
    and fees: "fee_loop L fm 1 (nat num) Map.empty = Inr (er_feeDelta r)"
    and r: "er_id r = f_string ident" "(er_usedQty r, er_recvQty r) = (if sd = CHR ''1'' then (q, b) else (b, q))"
    unfolding parseExecutionReport_def Let_def and_then_Inr by auto
  have "nat num \<le> length (groups_of 136 fm) \<and>
      value_at (er_feeDelta r) c = - sum_list (map (charged L c) (take (nat num) (groups_of 136 fm)))" for c
    using fee_loop_sum [of L fm 0 "nat num" Map.empty "er_feeDelta r" c] fees by simp
  moreover have "if getField_text 136 fm = None then num = 0 else count_at 136 fm = Some num"
    using num by (auto simp: isSetField_text and_then_Inr count_atI split: if_splits)
  ultimately show ?thesis
    using read(1,2,4,6) [THEN get_field_text] r ty side number_atI [OF read(2,3)] number_atI [OF read(4,5)]
      get_field_text [OF ty(2)] exec_status_Inr [OF ty(3)]
    by (intro exI [of _ st] exI [of _ sd] exI [of _ b] exI [of _ q] exI [of _ num]) (simp add: char_value_Inr)
qed

definition example_library :: "int app_library" where
  "example_library = \<lparr>l_decimal = decimal_ref, l_noNumber = (\<lambda>t. t), l_sign = (\<lambda>seed payload. Inr ''c2lnbmF0dXJl''),
     l_time = 1704067200, l_room = (\<lambda>capacity n. n < capacity), l_detail = (\<lambda>e. []),
     l_sendToTarget = (\<lambda>m sid. None), l_senderDefaultApplVerID = (\<lambda>sid. None)\<rparr>"

definition example_fee :: FieldMap where
  "example_fee = setField_text 139 ''4'' (setField_text 138 ''BNB'' (setField_text 137 ''0.0005''
     (FieldMap_new (message_order_of_args 137 [138, 139, 891, 0]))))"

definition example_fill :: FieldMap where
  "example_fill = addGroup 136 example_fee True
     (setField_text 54 ''1'' (setField_text 25017 ''30.5'' (setField_text 14 ''0.001'' (setField_text 150 ''F''
       (setField_text 11 ''a1b2c3d4'' (FieldMap_new (message_order_new normal_mode)))))))"

lemma example_fill_fields:
  "get_field 11 example_fill = Inr (FieldBase_new 11 ''a1b2c3d4'')" "get_field 150 example_fill = Inr (FieldBase_new 150 ''F'')"
  "get_field 14 example_fill = Inr (FieldBase_new 14 ''0.001'')" "get_field 25017 example_fill = Inr (FieldBase_new 25017 ''30.5'')"
  "get_field 54 example_fill = Inr (FieldBase_new 54 ''1'')" "get_field 136 example_fill = Inr (FieldBase_new 136 ''1'')"
  "isSetField 136 example_fill" "get_group 1 136 example_fill = Inr example_fee"
  by code_simp+

lemma example_fee_fields:
  "get_field 139 example_fee = Inr (FieldBase_new 139 ''4'')" "get_field 138 example_fee = Inr (FieldBase_new 138 ''BNB'')"
  "get_field 137 example_fee = Inr (FieldBase_new 137 ''0.0005'')"
  by code_simp+

lemma example_number:
  assumes "all_digits ip" "ip \<noteq> []" "all_digits fp" "length fp \<le> 10" "digits_val ip < 10 ^ 6"
  shows "PreciseNumber_ofString decimal_ref (decimal_text False ip fp) = Some (PreciseNumber (decimal_val False ip fp))"
proof (rule ofString_decimal_text [OF decimal_laws_ref assms(1-4)])
  have "digits_val fp < 10 ^ length fp" using assms(3) by (rule digits_val_less)
  then have "digits_val fp * 10 ^ (10 - length fp) < 10 ^ length fp * 10 ^ (10 - length fp)" by simp
  also have "\<dots> = 10 ^ 10" using assms(4) by (simp flip: power_add)
  finally have "digits_val ip * 10 ^ 10 + digits_val fp * 10 ^ (10 - length fp) < 10 ^ 16 + 10 ^ 10" using assms(5) by simp
  then have "digits_val ip * 10 ^ 10 + digits_val fp * 10 ^ (10 - length fp) < 10 ^ 50" by (rule less_trans) simp
  then have "int (digits_val ip * 10 ^ 10 + digits_val fp * 10 ^ (10 - length fp)) < int (10 ^ 50)"
    by (simp only: of_nat_less_iff)
  then show "\<bar>decimal_val False ip fp\<bar> < 10 ^ 50" by (simp add: decimal_val_def)
qed

lemma example_numbers:
  "PreciseNumber_ofString decimal_ref ''0.001'' \<noteq> None" "PreciseNumber_ofString decimal_ref ''30.5'' \<noteq> None"
  "PreciseNumber_ofString decimal_ref ''0.0005'' \<noteq> None"
  using example_number [of "''0''" "''001''"] example_number [of "''30''" "''5''"] example_number [of "''0''" "''0005''"]
  by (simp_all add: decimal_text_def all_digits_def is_digit_def digits_val_def digit_of_def)

lemma example_count: "int_value (FieldBase_new 136 ''1'') = Inr 1"
  by code_simp

lemma example_fill_read: "\<exists>r. parseExecutionReport example_library example_fill = Inr r"
  using example_numbers
  by (auto simp: example_count parseExecutionReport_def example_fill_fields example_fee_fields example_library_def amount_def fixed_def
      char_value_def converted_def Char_parse_def exec_status_def)

theorem report_read_witness:
  "\<exists>r. parseExecutionReport example_library example_fill = Inr r \<and>
    (\<exists>ty side base quote n. getField_text 11 example_fill = Some (er_id r) \<and>
      getField_text 150 example_fill = Some [ty] \<and>
      (ty, er_status r) \<in> {(CHR ''0'', NEW), (CHR ''F'', FILLED), (CHR ''C'', EXPIRED), (CHR ''8'', REJECTED)} \<and>
      number_at example_library 14 example_fill = Some base \<and> number_at example_library 25017 example_fill = Some quote \<and>
      getField_text 54 example_fill = Some [side] \<and>
      (er_usedQty r, er_recvQty r) = (if side = CHR ''1'' then (quote, base) else (base, quote)) \<and>
      (if getField_text 136 example_fill = None then n = 0 else count_at 136 example_fill = Some n) \<and>
      nat n \<le> length (groups_of 136 example_fill) \<and>
      (\<forall>c. value_at (er_feeDelta r) c = - sum_list (map (charged example_library c) (take (nat n) (groups_of 136 example_fill)))))"
proof -
  obtain r where "parseExecutionReport example_library example_fill = Inr r" using example_fill_read by blast
  with report_read [OF this] show ?thesis by blast
qed

section \<open>Incremental refreshes\<close>

text \<open>
  The entries of a refresh with the symbol each is about, and what the entries of one symbol make of
  an update that starts with zeros.
\<close>

fun carried :: "string \<Rightarrow> FieldMap list \<Rightarrow> (string \<times> FieldMap) list" where
  "carried s [] = []"
| "carried s (g # gs) = (let s' = (case getField_text 55 g of None \<Rightarrow> s | Some t \<Rightarrow> t) in (s', g) # carried s' gs)"

fun changes :: "'d app_library \<Rightarrow> FieldMap list \<Rightarrow> PriceUpdate \<Rightarrow> throwable + PriceUpdate" where
  "changes L [] u = Inr u"
| "changes L (g # gs) u =
     and_then (get_field 269 g) (\<lambda>entryType. and_then (entry_change L g entryType u) (changes L gs))"

definition zero_update :: "string \<Rightarrow> PriceUpdate" where
  "zero_update s = \<lparr>pu_symbol = s, pu_bidPrice = 0, pu_askPrice = 0, pu_bidQty = 0, pu_askQty = 0\<rparr>"

definition first_seen :: "'b list \<Rightarrow> 'b list" where
  "first_seen xs = rev (remdups (rev xs))"

lemma first_seen_snoc: "first_seen (xs @ [x]) = (if x \<in> set xs then first_seen xs else first_seen xs @ [x])"
  by (simp add: first_seen_def)

lemma set_first_seen [simp]: "set (first_seen xs) = set xs" and distinct_first_seen [simp]: "distinct (first_seen xs)"
  by (simp_all add: first_seen_def)

lemma changes_append: "changes L (gs @ hs) u = and_then (changes L gs u) (changes L hs)"
proof (induction gs arbitrary: u)
  case (Cons g gs)
  then show ?case
    by (cases "get_field 269 g") (auto simp: and_then_def split: sum.split)
qed simp

lemma entry_change_symbol: "entry_change L g ty u = Inr u' \<Longrightarrow> pu_symbol u' = pu_symbol u"
  by (auto simp: entry_change_def and_then_Inr split: if_splits)

text \<open>What the entries \<open>es\<close> come to: the updates, and where that of a symbol is.\<close>

definition grouped :: "'d app_library \<Rightarrow> (string \<times> FieldMap) list \<Rightarrow> PriceUpdate list \<Rightarrow> bool" where
  "grouped L es us \<longleftrightarrow> map pu_symbol us = first_seen (map fst es) \<and>
     list_all (\<lambda>u. changes L (map snd (filter (\<lambda>e. fst e = pu_symbol u) es)) (zero_update (pu_symbol u)) = Inr u) us"

definition indexed :: "(string \<rightharpoonup> nat) \<Rightarrow> PriceUpdate list \<Rightarrow> bool" where
  "indexed updates us \<longleftrightarrow> (\<forall>s k. updates s = Some k \<longleftrightarrow> k < length us \<and> pu_symbol (us ! k) = s)"

lemma indexed_snoc:
  assumes "indexed updates us" and "updates s = None"
  shows "indexed (updates(s \<mapsto> length us)) (us @ [zero_update s])"
proof -
  have iff: "updates t = Some j \<longleftrightarrow> j < length us \<and> pu_symbol (us ! j) = t" for t j
    using assms(1) by (simp add: indexed_def)
  have "(updates(s \<mapsto> length us)) t = Some j \<longleftrightarrow> j < length (us @ [zero_update s]) \<and> pu_symbol ((us @ [zero_update s]) ! j) = t" for t j
  proof (cases "j < length us")
    case True
    then show ?thesis using iff [of t j] iff [of s j] assms(2) by (auto simp: nth_append)
  next
    case False
    then show ?thesis using iff [of t j] by (auto simp: nth_append zero_update_def less_Suc_eq)
  qed
  then show ?thesis by (simp add: indexed_def)
qed

lemma grouped_entry:
  assumes "grouped L es us" and "indexed updates us" and "seen_update symbolMap s updates us = Inr (updates', us')"
    and "get_field 269 g = Inr ty" and "entry_change L g ty (us' ! k) = Inr u" and "updates' s = Some k"
  shows "grouped L (es @ [(s, g)]) (us'[k := u]) \<and> indexed updates' (us'[k := u])"
proof -
  have us: "map pu_symbol us = first_seen (map fst es)"
    and made: "\<And>u. u \<in> set us \<Longrightarrow> changes L (map snd (filter (\<lambda>e. fst e = pu_symbol u) es)) (zero_update (pu_symbol u)) = Inr u"
    using assms(1) by (simp_all add: grouped_def list_all_iff)
  have new: "us' = (if updates s = None then us @ [zero_update s] else us)"
      "updates' = (if updates s = None then updates(s \<mapsto> length us) else updates)"
    using assms(3) by (auto simp: seen_update_def symbol_at_def zero_update_def Let_def split: if_splits)
  have seen: "updates s = None \<longleftrightarrow> s \<notin> fst ` set es"
  proof -
    have "fst ` set es = set (map pu_symbol us)" by (simp add: us)
    moreover have "updates s = None \<longleftrightarrow> (\<forall>k. updates s \<noteq> Some k)" by simp
    moreover have "\<dots> \<longleftrightarrow> (\<forall>k < length us. pu_symbol (us ! k) \<noteq> s)" using assms(2) by (auto simp: indexed_def)
    moreover have "\<dots> \<longleftrightarrow> s \<notin> set (map pu_symbol us)" by (simp only: in_set_conv_nth length_map nth_map) (metis nth_map)
    ultimately show ?thesis by simp
  qed
  have idx: "indexed updates' us'"
    using assms(2) indexed_snoc [OF assms(2)] by (simp add: new)
  then have k: "k < length us'" "pu_symbol (us' ! k) = s" using assms(6) by (auto simp: indexed_def)
  have u: "pu_symbol u = s" using entry_change_symbol [OF assms(5)] k(2) by simp
  have syms: "map pu_symbol (us'[k := u]) = map pu_symbol us'"
    using k u by (simp add: map_update list_update_same_conv)
  also have "\<dots> = first_seen (map fst (es @ [(s, g)]))"
    using us seen by (simp add: new first_seen_snoc zero_update_def)
  finally have order: "map pu_symbol (us'[k := u]) = first_seen (map fst (es @ [(s, g)]))" .
  have others: "us' ! j \<in> set us" "pu_symbol (us' ! j) \<noteq> s" if "j < length us'" "j \<noteq> k" for j
  proof -
    show ne: "pu_symbol (us' ! j) \<noteq> s"
    proof
      assume "pu_symbol (us' ! j) = s"
      then have "updates' s = Some j" using idx that(1) by (simp add: indexed_def)
      then show False using assms(6) that(2) by simp
    qed
    show "us' ! j \<in> set us" using that ne by (auto simp: new nth_append zero_update_def split: if_splits)
  qed
  have old: "changes L (map snd (filter (\<lambda>e. fst e = s) es)) (zero_update s) = Inr (us' ! k)"
  proof (cases "updates s = None")
    case True
    then have "k = length us" using assms(6) by (simp add: new)
    moreover have "filter (\<lambda>e. fst e = s) es = []" using seen True by (auto simp: filter_empty_conv)
    ultimately show ?thesis using True by (simp add: new)
  next
    case False
    then have "us' = us" by (simp add: new(1))
    then have "us' ! k \<in> set us" using k(1) by simp
    then show ?thesis using made [of "us' ! k"] k(2) by simp
  qed
  have "changes L (map snd (filter (\<lambda>e. fst e = pu_symbol v) (es @ [(s, g)]))) (zero_update (pu_symbol v)) = Inr v"
    if v: "v \<in> set (us'[k := u])" for v
  proof -
    obtain j where j: "j < length us'" "v = us'[k := u] ! j" using v by (auto simp: in_set_conv_nth)
    show ?thesis
    proof (cases "j = k")
      case True
      then show ?thesis using j k u old assms(4,5) by (simp add: changes_append)
    next
      case False
      then show ?thesis using j others [OF j(1) False] made by simp
    qed
  qed
  moreover have "indexed updates' (us'[k := u])"
    using idx k u by (auto simp: indexed_def nth_list_update)
  ultimately show ?thesis using order by (simp add: grouped_def list_all_iff)
qed

lemma length_carried [simp]: "length (carried s gs) = length gs"
  by (induction gs arbitrary: s) (simp_all add: Let_def)

lemma carried_Nil [simp]: "carried s gs = [] \<longleftrightarrow> gs = []"
  by (cases gs) (simp_all add: Let_def)

lemma carried_snoc:
  "carried s (gs @ [g]) = carried s gs @
     [(case getField_text 55 g of None \<Rightarrow> (if gs = [] then s else fst (last (carried s gs))) | Some t \<Rightarrow> t, g)]"
  by (induction gs arbitrary: s) (auto simp: Let_def split: option.split)

lemma optional_symbol:
  assumes "optional_field 55 (FieldBase_new 55 s) g = Inr f"
  shows "f_string f = (case getField_text 55 g of None \<Rightarrow> s | Some t \<Rightarrow> t)"
proof (cases "isSetField 55 g")
  case True
  then show ?thesis using assms by (auto simp: optional_field_def dest!: get_field_text)
next
  case False
  then have "getField_text 55 g = None" by (simp add: isSetField_def getField_text_def getFieldRef_def)
  then show ?thesis using False assms by (auto simp: optional_field_def)
qed

lemma refresh_loop_grouped:
  assumes "refresh_loop L symbolMap fm (int k + 1) left s updates us = Inr result"
    and "grouped L (carried [] (take k (groups_of 268 fm))) us" and "indexed updates us"
    and "s = (if k = 0 then [] else fst (last (carried [] (take k (groups_of 268 fm)))))"
    and "k \<le> length (groups_of 268 fm)"
  shows "k + left \<le> length (groups_of 268 fm) \<and> grouped L (carried [] (take (k + left) (groups_of 268 fm))) result"
  using assms
proof (induction left arbitrary: k s updates us)
  case 0
  then show ?case by simp
next
  case (Suc left)
  let ?gs = "groups_of 268 fm"
  from Suc.prems(1) obtain ty f updates' us' u where k: "k < length ?gs" and ty: "get_field 269 (?gs ! k) = Inr ty"
    and f: "optional_field 55 (FieldBase_new 55 s) (?gs ! k) = Inr f"
    and seen: "seen_update symbolMap (f_string f) updates us = Inr (updates', us')"
    and u: "entry_change L (?gs ! k) ty (us' ! (case updates' (f_string f) of None \<Rightarrow> 0 | Some k \<Rightarrow> k)) = Inr u"
    and rest: "refresh_loop L symbolMap fm (int k + 1 + 1) left (f_string f) updates'
      (us'[case updates' (f_string f) of None \<Rightarrow> 0 | Some k \<Rightarrow> k := u]) = Inr result"
    by (auto simp: and_then_Inr get_group_Inr Let_def)
  have "updates' (f_string f) \<noteq> None"
    using seen by (auto simp: seen_update_def and_then_Inr Let_def split: if_splits)
  then obtain i where i: "updates' (f_string f) = Some i" by auto
  have last_symbol: "(if take k ?gs = [] then [] else fst (last (carried [] (take k ?gs)))) = s"
    using k Suc.prems(4) by auto
  have "take (Suc k) ?gs = take k ?gs @ [?gs ! k]" using k by (rule take_Suc_conv_app_nth)
  with last_symbol have es: "carried [] (take (Suc k) ?gs) = carried [] (take k ?gs) @ [(f_string f, ?gs ! k)]"
    by (simp only: carried_snoc optional_symbol [OF f])
  have "grouped L (carried [] (take (Suc k) ?gs)) (us'[i := u]) \<and> indexed updates' (us'[i := u])"
    unfolding es using u by (intro grouped_entry [OF Suc.prems(2,3) seen ty _ i]) (simp add: i)
  moreover have "refresh_loop L symbolMap fm (int (Suc k) + 1) left (f_string f) updates' (us'[i := u]) = Inr result"
    using rest by (simp only: next_index i option.case)
  moreover have "f_string f = (if Suc k = 0 then [] else fst (last (carried [] (take (Suc k) ?gs))))"
    by (simp add: es)
  ultimately have "Suc k + left \<le> length ?gs \<and> grouped L (carried [] (take (Suc k + left) ?gs)) result"
    using Suc.IH k by (metis Suc_leI)
  then show ?case by simp
qed

text \<open>
  What an entry quotes for a side, \<open>0\<close> for bids and \<open>1\<close> for offers: the price and the quantity of a new or a
  changed entry of that side that has both; and what a list of entries comes to for a side.
\<close>

definition quote_at :: "'d app_library \<Rightarrow> char \<Rightarrow> FieldMap \<Rightarrow> (precise_number \<times> precise_number) option" where
  "quote_at L side g =
     (if getField_text 279 g \<in> {Some ''0'', Some ''1''} \<and> getField_text 269 g = Some [side] then
        case (number_at L 270 g, number_at L 271 g) of (Some price, Some qty) \<Rightarrow> Some (price, qty) | _ \<Rightarrow> None
      else None)"

definition last_quote :: "'d app_library \<Rightarrow> char \<Rightarrow> precise_number \<times> precise_number \<Rightarrow> FieldMap list \<Rightarrow> precise_number \<times> precise_number" where
  "last_quote L side q gs = last (q # List.map_filter (quote_at L side) gs)"

lemma last_quote_simps [simp]:
  "last_quote L side q [] = q"
  "last_quote L side q (g # gs) = last_quote L side (case quote_at L side g of None \<Rightarrow> q | Some q' \<Rightarrow> q') gs"
  by (simp_all add: last_quote_def List.map_filter_simps split: option.split)

lemma entry_change_quotes:
  assumes "get_field 269 g = Inr ty" and "entry_change L g ty u = Inr u'"
  shows "(pu_bidPrice u', pu_bidQty u') = (case quote_at L (CHR ''0'') g of None \<Rightarrow> (pu_bidPrice u, pu_bidQty u) | Some q \<Rightarrow> q) \<and>
    (pu_askPrice u', pu_askQty u') = (case quote_at L (CHR ''1'') g of None \<Rightarrow> (pu_askPrice u, pu_askQty u) | Some q \<Rightarrow> q)"
proof -
  obtain action a where a: "get_field 279 g = Inr action" "char_value action = Inr a"
    using assms(2) unfolding entry_change_def and_then_Inr by blast
  then have action: "getField_text 279 g = Some [a]" by (simp add: char_value_Inr get_field_text)
  show ?thesis
  proof (cases "(a = CHR ''0'' \<or> a = CHR ''1'') \<and> isSetField 271 g")
    case False
    moreover have "number_at L 271 g = None" if "\<not> isSetField 271 g" using that by (simp add: isSetField_text number_at_def)
    ultimately show ?thesis using assms(2) a action
      by (auto simp: entry_change_def and_then_Inr quote_at_def split: if_splits option.splits)
  next
    case True
    then obtain price qty c where fields: "get_field 270 g = Inr price" "get_field 271 g = Inr qty" and c: "char_value ty = Inr c"
      and u: "(if c = CHR ''0'' then and_then (amount L price) (\<lambda>p. and_then (amount L qty) (\<lambda>q. Inr (u\<lparr>pu_bidPrice := p, pu_bidQty := q\<rparr>)))
        else if c = CHR ''1'' then and_then (amount L price) (\<lambda>p. and_then (amount L qty) (\<lambda>q. Inr (u\<lparr>pu_askPrice := p, pu_askQty := q\<rparr>)))
        else Inr u) = Inr u'"
      using assms(2) unfolding entry_change_def a and_then_simps and_then_Inr by (simp only: if_True simp_thms and_then_Inr) blast
    have side: "getField_text 269 g = Some [c]" using c by (simp add: char_value_Inr get_field_text [OF assms(1)])
    consider "c = CHR ''0''" | "c = CHR ''1''" | "c \<noteq> CHR ''0''" "c \<noteq> CHR ''1''" by blast
    then show ?thesis
    proof cases
      case 1
      then obtain p q where n: "amount L price = Inr p" "amount L qty = Inr q" and "u' = u\<lparr>pu_bidPrice := p, pu_bidQty := q\<rparr>"
        using u by (auto simp: and_then_Inr)
      then show ?thesis using 1 True side action number_atI [OF fields(1) n(1)] number_atI [OF fields(2) n(2)]
        by (simp add: quote_at_def)
    next
      case 2
      then obtain p q where n: "amount L price = Inr p" "amount L qty = Inr q" and "u' = u\<lparr>pu_askPrice := p, pu_askQty := q\<rparr>"
        using u by (auto simp: and_then_Inr)
      then show ?thesis using 2 True side action number_atI [OF fields(1) n(1)] number_atI [OF fields(2) n(2)]
        by (simp add: quote_at_def)
    next
      case 3
      then show ?thesis using u side by (simp add: quote_at_def)
    qed
  qed
qed

lemma changes_quotes:
  assumes "changes L gs u = Inr u'"
  shows "(pu_bidPrice u', pu_bidQty u') = last_quote L (CHR ''0'') (pu_bidPrice u, pu_bidQty u) gs \<and>
    (pu_askPrice u', pu_askQty u') = last_quote L (CHR ''1'') (pu_askPrice u, pu_askQty u) gs"
  using assms
proof (induction gs arbitrary: u)
  case (Cons g gs)
  from Cons.prems obtain ty v where v: "get_field 269 g = Inr ty" "entry_change L g ty u = Inr v" and rest: "changes L gs v = Inr u'"
    by (auto simp: and_then_Inr)
  show ?case using Cons.IH [OF rest] entry_change_quotes [OF v] by (simp del: prod.inject)
qed simp

lemma grouped_quotes:
  assumes "grouped L es us" and "u \<in> set us"
  shows "(pu_bidPrice u, pu_bidQty u) = last_quote L (CHR ''0'') (0, 0) (map snd (filter (\<lambda>e. fst e = pu_symbol u) es)) \<and>
    (pu_askPrice u, pu_askQty u) = last_quote L (CHR ''1'') (0, 0) (map snd (filter (\<lambda>e. fst e = pu_symbol u) es))"
proof -
  have "changes L (map snd (filter (\<lambda>e. fst e = pu_symbol u) es)) (zero_update (pu_symbol u)) = Inr u"
    using assms by (simp add: grouped_def list_all_iff)
  from changes_quotes [OF this] show ?thesis by (simp add: zero_update_def)
qed

text \<open>C7. A refresh that is read has all the entries that its count announces, and one update for each symbol
  they are about, in the order in which the symbols come first, an entry without a symbol being about the one
  before. For each side the update has price and quantity of the last entry of that symbol which is new or
  changed, on that side and with a quantity, and zeros if there is none.\<close>

theorem refresh_by_symbol:
  assumes "parsePriceUpdateFromMarketDataIncrementalRefresh L symbolMap fm = Inr us"
  shows "\<exists>n. count_at 268 fm = Some n \<and> nat n \<le> length (groups_of 268 fm) \<and>
    (let es = carried [] (take (nat n) (groups_of 268 fm)) in
      map pu_symbol us = first_seen (map fst es) \<and>
      list_all (\<lambda>u. let gs = map snd (filter (\<lambda>e. fst e = pu_symbol u) es) in
        (pu_bidPrice u, pu_bidQty u) = last_quote L (CHR ''0'') (0, 0) gs \<and>
        (pu_askPrice u, pu_askQty u) = last_quote L (CHR ''1'') (0, 0) gs) us)"
proof -
  from assms obtain f n where f: "get_field 268 fm = Inr f" "fixed (int_value f) = Inr n"
    and n: "refresh_loop L symbolMap fm (int 0 + 1) (nat n) [] Map.empty [] = Inr us"
    by (auto simp: parsePriceUpdateFromMarketDataIncrementalRefresh_def and_then_Inr)
  have "grouped L (carried [] (take 0 (groups_of 268 fm))) [] \<and> indexed Map.empty []"
    by (simp add: grouped_def first_seen_def indexed_def)
  with refresh_loop_grouped [OF n] have "nat n \<le> length (groups_of 268 fm)"
    and all: "grouped L (carried [] (take (nat n) (groups_of 268 fm))) us" by simp_all
  moreover have "map pu_symbol us = first_seen (map fst (carried [] (take (nat n) (groups_of 268 fm))))"
    using all by (simp add: grouped_def)
  ultimately show ?thesis
    using count_atI [OF f] grouped_quotes [OF all] by (intro exI [of _ n]) (simp add: list_all_iff Let_def)
qed

definition entry :: "string \<Rightarrow> string \<Rightarrow> string \<Rightarrow> FieldMap \<Rightarrow> FieldMap" where
  "entry ty price qty g = setField_text 271 qty (setField_text 270 price (setField_text 269 ty (setField_text 279 ''0'' g)))"

definition example_refresh :: FieldMap where
  "example_refresh = addGroup 268 (entry ''1'' ''42000.7'' ''0.5'' (FieldMap_new (message_order_new normal_mode))) True
     (addGroup 268 (entry ''0'' ''42000.5'' ''1.25'' (setField_text 55 ''BTCUSDT'' (FieldMap_new (message_order_new normal_mode)))) True
     (FieldMap_new (message_order_new normal_mode)))"

lemma example_refresh_fields:
  "get_field 268 example_refresh = Inr (FieldBase_new 268 ''2'')" "int_value (FieldBase_new 268 ''2'') = Inr 2"
  "get_group 1 268 example_refresh =
     Inr (entry ''0'' ''42000.5'' ''1.25'' (setField_text 55 ''BTCUSDT'' (FieldMap_new (message_order_new normal_mode))))"
  "get_group 2 268 example_refresh = Inr (entry ''1'' ''42000.7'' ''0.5'' (FieldMap_new (message_order_new normal_mode)))"
  by code_simp+

lemma example_entry_fields:
  assumes "fm_ok g"
  shows "getField_text 279 (entry ty price qty g) = Some ''0''" "getField_text 269 (entry ty price qty g) = Some ty"
    "getField_text 270 (entry ty price qty g) = Some price" "getField_text 271 (entry ty price qty g) = Some qty"
    "getField_text 55 (entry ty price qty g) = getField_text 55 g"
  using assms by (simp_all add: entry_def setField_text_def get_setField fm_ok_setField)

lemma entry_change_read:
  assumes "getField_text 279 g = Some ''0''" "getField_text 270 g = Some p" "getField_text 271 g = Some q"
    and "PreciseNumber_ofString (l_decimal L) p \<noteq> None" "PreciseNumber_ofString (l_decimal L) q \<noteq> None" "f_string ty = [c]"
  shows "\<exists>u'. entry_change L g ty u = Inr u' \<and> pu_symbol u' = pu_symbol u"
proof -
  obtain a f h where f: "get_field 279 g = Inr a" "get_field 270 g = Inr f" "get_field 271 g = Inr h"
    "f_string a = ''0''" "f_string f = p" "f_string h = q"
    using assms(1-3) [THEN get_field_ex] by blast
  have "isSetField 271 g" using assms(3) by (auto simp: isSetField_def getField_text_def getFieldRef_def split: option.splits)
  moreover have "char_value a = Inr (CHR ''0'')" "char_value ty = Inr c" using f(4) assms(6) by (simp_all add: char_value_Inr)
  moreover obtain n m where "amount L f = Inr n" "amount L h = Inr m" using assms(4,5) f by (auto simp: amount_Inr)
  ultimately show ?thesis using f(1-3) by (auto simp: entry_change_def)
qed

lemma example_refresh_read:
  "\<exists>us. parsePriceUpdateFromMarketDataIncrementalRefresh example_library {''BTCUSDT''} example_refresh = Inr us"
proof -
  let ?o = "FieldMap_new (message_order_new normal_mode)"
  let ?g1 = "entry ''0'' ''42000.5'' ''1.25'' (setField_text 55 ''BTCUSDT'' ?o)" and ?g2 = "entry ''1'' ''42000.7'' ''0.5'' ?o"
  have num: "PreciseNumber_ofString (l_decimal example_library) t \<noteq> None" if "t \<in> {''42000.5'', ''1.25'', ''42000.7'', ''0.5''}" for t
    using that example_number [of "''42000''" "''5''"] example_number [of "''1''" "''25''"]
      example_number [of "''42000''" "''7''"] example_number [of "''0''" "''5''"]
    by (auto simp: example_library_def decimal_text_def all_digits_def is_digit_def digits_val_def digit_of_def)
  have ok: "fm_ok ?o" "fm_ok (setField_text 55 ''BTCUSDT'' ?o)" by (simp_all add: setField_text_def fm_ok_setField)
  obtain a b where ty: "get_field 269 ?g1 = Inr a" "f_string a = ''0''" "get_field 269 ?g2 = Inr b" "f_string b = ''1''"
    using get_field_ex [OF example_entry_fields(2) [OF ok(2)]] get_field_ex [OF example_entry_fields(2) [OF ok(1)]] by blast
  have change: "\<exists>u'. entry_change example_library ?g1 a u = Inr u' \<and> pu_symbol u' = pu_symbol u"
    "\<exists>u'. entry_change example_library ?g2 b u = Inr u' \<and> pu_symbol u' = pu_symbol u" for u
    by (rule entry_change_read [OF example_entry_fields(1,3,4) [OF ok(2)] num num ty(2)]; simp)
      (rule entry_change_read [OF example_entry_fields(1,3,4) [OF ok(1)] num num ty(4)]; simp)
  have "getField_text 55 ?g1 = Some ''BTCUSDT''" "getField_text 55 ?g2 = None" by code_simp+
  then have sym: "\<exists>f. optional_field 55 (FieldBase_new 55 s) ?g1 = Inr f \<and> f_string f = ''BTCUSDT''"
      "optional_field 55 (FieldBase_new 55 s) ?g2 = Inr (FieldBase_new 55 s)" for s
    using get_field_ex [of 55 ?g1]
    by (auto simp: optional_field_def isSetField_def getField_text_def getFieldRef_def split: option.splits)
  obtain f where f: "optional_field 55 (FieldBase_new 55 []) ?g1 = Inr f" "f_string f = ''BTCUSDT''" using sym(1) by blast
  let ?zero = "\<lparr>pu_symbol = ''BTCUSDT'', pu_bidPrice = 0, pu_askPrice = 0, pu_bidQty = 0, pu_askQty = 0\<rparr>"
  obtain u1 where u1: "entry_change example_library ?g1 a ?zero = Inr u1" using change(1) by blast
  obtain u2 where u2: "entry_change example_library ?g2 b u1 = Inr u2" using change(2) by blast
  have "refresh_loop example_library {''BTCUSDT''} example_refresh 1 (Suc (Suc 0)) [] Map.empty [] = Inr [u2]"
    by (simp add: example_refresh_fields ty f sym(2) seen_update_def symbol_at_def u1 u2)
  then show ?thesis
    by (simp add: parsePriceUpdateFromMarketDataIncrementalRefresh_def example_refresh_fields fixed_def numeral_2_eq_2 eval_nat_numeral)
qed

theorem refresh_by_symbol_witness:
  "\<exists>us. parsePriceUpdateFromMarketDataIncrementalRefresh example_library {''BTCUSDT''} example_refresh = Inr us \<and>
    (\<exists>n. count_at 268 example_refresh = Some n \<and> nat n \<le> length (groups_of 268 example_refresh) \<and>
      (let es = carried [] (take (nat n) (groups_of 268 example_refresh)) in
        map pu_symbol us = first_seen (map fst es) \<and>
        list_all (\<lambda>u. let gs = map snd (filter (\<lambda>e. fst e = pu_symbol u) es) in
          (pu_bidPrice u, pu_bidQty u) = last_quote example_library (CHR ''0'') (0, 0) gs \<and>
          (pu_askPrice u, pu_askQty u) = last_quote example_library (CHR ''1'') (0, 0) gs) us))"
  using example_refresh_read refresh_by_symbol by blast

text \<open>
  Entries for one side only leave zeros for the other, and the worker stores all four numbers: after such
  a refresh the symbol has no price on the other side, whatever it had before.
\<close>

lemma changes_keep_ask:
  assumes "changes L gs u = Inr u'" and "list_all (\<lambda>g. getField_text 269 g \<noteq> Some ''1'') gs"
  shows "pu_askPrice u' = pu_askPrice u \<and> pu_askQty u' = pu_askQty u"
  using assms
proof (induction gs arbitrary: u)
  case (Cons g gs)
  from Cons.prems(1) obtain ty u1 where ty: "get_field 269 g = Inr ty" and u1: "entry_change L g ty u = Inr u1"
    and rest: "changes L gs u1 = Inr u'" by (auto simp: and_then_Inr)
  have "f_string ty \<noteq> ''1''" using get_field_text [OF ty] Cons.prems(2) by auto
  then have "pu_askPrice u1 = pu_askPrice u \<and> pu_askQty u1 = pu_askQty u"
    using u1 by (auto simp: entry_change_def and_then_Inr char_value_Inr split: if_splits)
  then show ?case using Cons.IH [OF rest] Cons.prems(2) by simp
qed simp

lemma bid_refresh_clears_ask:
  assumes "changes L gs (zero_update s) = Inr u" and "list_all (\<lambda>g. getField_text 269 g \<noteq> Some ''1'') gs"
  shows "askPrice (update_symbol u m (pu_symbol u)) = 0 \<and> askQty (update_symbol u m (pu_symbol u)) = 0"
  using changes_keep_ask [OF assms] by (simp add: update_symbol_def zero_update_def)

end
