(* ===== verification/Session_Properties.thy ===== *)
theory Session_Properties
  imports Session_Sending
begin

text \<open>
  What the session promises: its states are well formed, working off the queue ends, and the
  application is given a message that asks for both checks only in its turn.
\<close>

section \<open>An example\<close>

definition quiet :: "unit environment" where
  "quiet = \<lparr>e_timestamper = (\<lambda>n. DateTime_of 2460310 3600000000000),
     e_localtime = (\<lambda>t. \<lparr>tm_sec = 0, tm_min = 0, tm_hour = 0, tm_mday = 1, tm_mon = 0, tm_year = 124\<rparr>),
     e_responder = (\<lambda>txt. True), e_onCreate = (\<lambda>sid. return ()), e_onLogon = (\<lambda>sid. return ()),
     e_onLogout = (\<lambda>sid. return ()), e_toAdmin = (\<lambda>m sid. return m), e_toApp = (\<lambda>m sid. return m),
     e_fromAdmin = (\<lambda>m sid. return ()), e_fromApp = (\<lambda>m sid. return ())\<rparr>"

definition example_session :: "unit Session" where
  "example_session = snd (Session_new quiet (SessionID_new ''FIX.4.4'' ''HARJUS'' ''SPOT'' [])
     \<lparr>transportDictionaries = Map.empty, applicationDictionaries = Map.empty\<rparr>
     \<lparr>m_startTime = DateTime_of 0 0, m_endTime = DateTime_of 0 0, m_startDay = -1, m_endDay = -1, m_useLocalTime = False\<rparr>
     30 True ())"

lemma example_reachable: "reachable quiet example_session"
  unfolding example_session_def by (rule constructed [OF prod.collapse [symmetric]])

lemma example_ends: "application_ends quiet"
  by (simp add: application_ends_def quiet_def return_def)

section \<open>Well-formed states\<close>

text \<open>C12. Whatever a session goes through, the messages that wait are in ascending order of their
  numbers, each under the number it carries itself, the stored messages are in ascending order, and
  the precision of the time stamps is between 0 and 9.\<close>

theorem session_well_formed:
  assumes "reachable E s"
  shows "map_ok (st_queue (m_state s)) \<and> list_all (\<lambda>e. number_of (snd e) = Some (fst e)) (st_queue (m_state s)) \<and>
    store_ok (st_store (m_state s)) \<and> 0 \<le> m_timestampPrecision s \<and> m_timestampPrecision s \<le> 9"
  using reachable_well [OF assms] by (simp add: well_formed_def queue_ok_def list_all_iff)

theorem session_well_formed_witness:
  "map_ok (st_queue (m_state example_session)) \<and>
   list_all (\<lambda>e. number_of (snd e) = Some (fst e)) (st_queue (m_state example_session)) \<and>
   store_ok (st_store (m_state example_session)) \<and> 0 \<le> m_timestampPrecision example_session \<and>
   m_timestampPrecision example_session \<le> 9"
  by (rule session_well_formed [OF example_reachable])

section \<open>Termination\<close>

text \<open>C8. Handling a message ends, in every state a session can be in and whatever waits in its queue:
  working off the queue calls the entry point again, and neither a message nor a text ever uses up the
  fuel, two more than the messages that wait.\<close>

theorem session_ends:
  assumes "application_ends E" and "reachable E s"
  shows "fst (next_message E m now queued s) \<noteq> Inl No_fuel \<and> fst (next_text E txt now queued s) \<noteq> Inl No_fuel"
proof -
  have "well_formed s" using assms(2) by (rule reachable_well)
  then show ?thesis
    using next_message_ends [OF assms(1)] next_text_ends [OF assms(1)] by (simp add: well_formed_def)
qed

theorem session_ends_witness:
  "fst (next_message quiet Message_new (DateTime_of 2460310 0) False example_session) \<noteq> Inl No_fuel \<and>
   fst (next_text quiet ''8=FIX.4.4'' (DateTime_of 2460310 0) False example_session) \<noteq> Inl No_fuel"
  by (rule session_ends [OF example_ends example_reachable])

section \<open>In order\<close>

lemma passed_number:
  assumes "bind (lift (field_ref 34 (msg_header m))) (\<lambda>f. return (Some f)) s = (Inr v, s')"
    and "v = Some f" and "seqnum_value f = Inr n" and "isGoodTime E g s' = (r, t)" and "\<not> isTargetTooHigh n t" and "\<not> isTargetTooLow n t"
  shows "number_of m = Some (getExpectedTargetNum s)"
proof -
  have "field_ref 34 (msg_header m) = Inr f" "s' = s" using assms(1,2) by (simp_all add: found_number)
  moreover have "n = getExpectedTargetNum s"
    using assms(5,6) isGoodTime_state [OF assms(4)] \<open>s' = s\<close>
    by (simp add: isTargetTooHigh_def isTargetTooLow_def getExpectedTargetNum_def)
  ultimately show ?thesis using assms(3) by (auto simp: number_of_Some)
qed

lemma verify_checks_passed:
  "returns (\<lambda>r t. r \<noteq> None \<longrightarrow> number_of m = Some (getExpectedTargetNum s)) s (verify_checks E m True True)"
  unfolding verify_checks_def Let_def simp_thms if_True
  by (intro returns_lift returns_bind [of "bind (lift _) _"] returns_bind [of "isGoodTime _ _"] returns_look returns_if
      returns_after returns_option returns_throw returns_return)
    ((rule impI, erule (5) passed_number | force simp: found_number)+)

lemma bind_eq: "(\<And>x s'. m s = (Inr x, s') \<Longrightarrow> f x s' = g x s') \<Longrightarrow> bind m f s = bind m g s"
  by (auto simp: bind_def split: prod.split sum.split)

text \<open>The checks ask no callback for messages that came in.\<close>

abbreviation receiver :: "'a environment \<Rightarrow> (Message \<Rightarrow> SessionID \<Rightarrow> ('a, unit) act) \<Rightarrow> (Message \<Rightarrow> SessionID \<Rightarrow> ('a, unit) act) \<Rightarrow> 'a environment" where
  "receiver E f g \<equiv> E\<lparr>e_fromAdmin := f, e_fromApp := g\<rparr>"

lemma receiver_sel: "e_timestamper (receiver E f g) = e_timestamper E" "e_responder (receiver E f g) = e_responder E"
    "e_onLogout (receiver E f g) = e_onLogout E" "e_toAdmin (receiver E f g) = e_toAdmin E" "e_toApp (receiver E f g) = e_toApp E"
  by simp_all

lemma receiver_time: "timestamper (receiver E f g) = timestamper E"
  by (rule ext) (simp add: timestamper_def)

lemma receiver_send_text: "send_text (receiver E f g) = send_text E"
  unfolding fun_eq_iff send_text_def receiver_sel by simp

lemma receiver_fill: "fill (receiver E f g) = fill E"
  unfolding fun_eq_iff fill_def insertSendingTime_def receiver_time by simp

lemma receiver_fill_message: "fill_message (receiver E f g) = fill_message E"
  unfolding fun_eq_iff fill_message_def receiver_fill by simp

lemma receiver_sendRaw: "sendRaw (receiver E f g) = sendRaw E"
  unfolding fun_eq_iff sendRaw_def reset_for_logon_def receiver_fill_message receiver_time receiver_send_text receiver_sel by simp

lemmas receiver_out = receiver_sel receiver_time receiver_fill_message receiver_sendRaw

lemma receiver_generate: "disconnect (receiver E f g) = disconnect E" "generateLogout (receiver E f g) = generateLogout E"
    "generateReject (receiver E f g) = generateReject E" "generateResendRequest (receiver E f g) = generateResendRequest E"
  unfolding fun_eq_iff disconnect_def generateLogout_def generateReject_def generateResendRequest_def receiver_out by simp_all

lemma receiver_parts: "isGoodTime (receiver E f g) = isGoodTime E" "doBadTime (receiver E f g) = doBadTime E"
    "doBadCompID (receiver E f g) = doBadCompID E" "doPossDup (receiver E f g) = doPossDup E"
    "doTargetTooHigh (receiver E f g) = doTargetTooHigh E"
  unfolding fun_eq_iff isGoodTime_def doBadTime_def doBadCompID_def doPossDup_def doTargetTooHigh_def receiver_time receiver_generate
  by simp_all

lemma receiver_low: "doTargetTooLow (receiver E f g) = doTargetTooLow E"
  unfolding fun_eq_iff doTargetTooLow_def receiver_parts receiver_generate by simp

lemma receiver_checks: "verify_checks (receiver E f g) = verify_checks E"
  unfolding fun_eq_iff verify_checks_def receiver_parts receiver_low by simp

lemma receiver_verify: "verify (receiver E f g) m h l =
    bind (catch (verify_checks E m h l)
       (\<lambda>e. if is_std_exception e then Some (after (log_add (Event_of e)) (after (disconnect E) (return None))) else None))
     (\<lambda>passed. case passed of
        None \<Rightarrow> return False
      | Some msgType \<Rightarrow>
          after (bind (timestamper E) (\<lambda>now. state (\<lambda>st. st\<lparr>st_lastReceivedTime := now\<rparr>)))
          (after (state (\<lambda>st. st\<lparr>st_testRequest := 0\<rparr>))
          (after (fromCallback (receiver E f g) msgType m) (return True))))"
  unfolding verify_def receiver_checks receiver_generate receiver_time by (rule refl)

text \<open>C9. The application gets a message that asks for both checks, as every application message does,
  only when its number is the one expected: with any other number the message is not passed, and what
  happens does not depend on the callbacks for incoming messages, so none of them is called.\<close>

theorem delivered_in_turn:
  assumes "number_of m \<noteq> Some (getExpectedTargetNum s)"
  shows "fst (verify E m True True s) \<noteq> Inr True \<and>
    verify (E\<lparr>e_fromAdmin := f, e_fromApp := g\<rparr>) m True True s = verify E m True True s"
proof -
  let ?rest = "\<lambda>E' passed. case passed of
        None \<Rightarrow> return False
      | Some msgType \<Rightarrow>
          after (bind (timestamper E) (\<lambda>now. state (\<lambda>st. st\<lparr>st_lastReceivedTime := now\<rparr>)))
          (after (state (\<lambda>st. st\<lparr>st_testRequest := 0\<rparr>))
          (after (fromCallback E' msgType m) (return True)))"
  let ?catch = "catch (verify_checks E m True True)
       (\<lambda>e. if is_std_exception e then Some (after (log_add (Event_of e)) (after (disconnect E) (return None))) else None)"
  have v: "verify E' m True True s = bind ?catch (?rest E') s" if "E' = E \<or> E' = E\<lparr>e_fromAdmin := f, e_fromApp := g\<rparr>" for E'
    using that by (elim disjE) (simp_all only: receiver_verify, simp only: verify_def)
  have none: "r = None" if "?catch s = (Inr r, t)" for r t
    using that verify_checks_passed [of m s E] assms
    by (auto simp: catch_result after_def bind_result return_def returns_def split: if_splits)
  have "bind ?catch (?rest E') s = bind ?catch (\<lambda>r. return False) s" for E'
    by (rule bind_eq) (auto dest!: none)
  then show ?thesis using v by (auto simp: bind_def return_def split: prod.split sum.split)
qed

definition example_order :: Message where
  "example_order = header_field 34 ''5'' (header_field 35 ''D'' Message_new)"

theorem delivered_in_turn_witness:
  "fst (verify quiet example_order True True example_session) \<noteq> Inr True \<and>
   verify (quiet\<lparr>e_fromAdmin := (\<lambda>m sid. throw No_fuel), e_fromApp := (\<lambda>m sid. throw No_fuel)\<rparr>) example_order True True
     example_session = verify quiet example_order True True example_session"
proof -
  have "number_of example_order = Some 5" by code_simp
  moreover have "getExpectedTargetNum example_session = 1" by code_simp
  ultimately show ?thesis by (intro delivered_in_turn) simp
qed

section \<open>Sent and kept\<close>

text \<open>C10. Sending a message under the next number keeps, under exactly that number, the text that goes
  out, and uses the number up: nothing else of what is kept changes, the message carries the number,
  and the text is sent when there is a connection and both sides are logged on. It takes an application
  that leaves the number alone; a logon, which may reset the numbers first, is not meant.\<close>

theorem sent_is_kept:
  assumes "fm_ok (msg_header m)" and "keeps_number E" and "m_persistMessages s"
    and "getField_text 35 (msg_header m) \<noteq> Some ''A''" and "sendRaw E m 0 s = (Inr (True, m'), s')"
  shows "\<exists>out m0. toString m0 = Some (out, m') \<and> number_of m0 = Some (getExpectedSenderNum s) \<and>
    ms_messages (st_store (m_state s')) = map_put (getExpectedSenderNum s) out (ms_messages (st_store (m_state s))) \<and>
    getExpectedSenderNum s' = getExpectedSenderNum s + 1 \<and>
    (x_sent s' = x_sent s @ [out] \<or> x_sent s' = x_sent s \<and> \<not> (m_pResponder s \<and> isLoggedOn s))"
  using sendRaw_keeps [OF assms(1-4)] assms(5) by (auto simp: returns_def kept_and_sent_def)

lemma quiet_keeps: "keeps_number quiet"
  by (simp add: keeps_number_def quiet_def return_def)

lemma precision_kept [simp]:
  "getSupportedTimestampPrecision (s\<lparr>x_clock := n\<rparr>) = getSupportedTimestampPrecision s"
  "getSupportedTimestampPrecision (s\<lparr>m_state := st\<rparr>) = getSupportedTimestampPrecision s"
  by (simp_all add: getSupportedTimestampPrecision_def)

lemma fill_message_returns:
  assumes "UtcTimeStamp_convert (e_timestamper E (Suc (x_clock s))) (getSupportedTimestampPrecision s) = Some ts"
  shows "\<exists>m'. fill_message E m s =
    (Inr m', s\<lparr>m_state := (m_state s)\<lparr>st_lastSentTime := e_timestamper E (x_clock s)\<rparr>, x_clock := Suc (Suc (x_clock s))\<rparr>)"
  using assms
  by (simp add: fill_message_def fill_def insertSendingTime_def stamp_text_def timestamper_def state_def Let_def act_defs)

lemma persist_returns: "number_of m = Some n \<Longrightarrow> \<exists>s'. persist m out s = (Inr (), s')"
  by (auto simp: number_of_Some persist_def state_def act_defs)

lemma application_message_returns:
  assumes "fill_message E m s = (Inr m1, s1)" and "fm_ok (msg_header m)"
    and "getFieldIfSet 35 (msg_header m) = Some f" and "\<not> isAdminMsgType (f_string f)"
    and "\<And>m sid. e_toApp E m sid = return m" and "\<not> shouldSendReset s1"
  shows "\<exists>m' s'. sendRaw E m 0 s = (Inr (True, m'), s')"
proof -
  obtain out m' where out: "toString m1 = Some (out, m')" using toString_total [of m1] by auto
  have m1: "fm_ok (msg_header m1)" "number_of m1 = Some (getExpectedSenderNum s)"
    using fill_message_result [OF assms(1,2)] by auto
  obtain t where t: "persist m' out s1 = (Inr (), t)"
    using persist_returns [of m' _ out s1] number_of_written [OF m1(1) out] m1(2) by metis
  have "callback (return m1) s1 = (Inr m1, s1)" by (simp add: callback_def return_def)
  then show ?thesis
    using assms(3,4,6) t
    by (simp add: sendRaw_def assms(1,5) message_text_def out send_text_def log_add_def Let_def act_defs)
qed

theorem sent_is_kept_witness:
  "\<exists>m' s'. sendRaw quiet example_order 0 example_session = (Inr (True, m'), s') \<and>
    (\<exists>out m0. toString m0 = Some (out, m') \<and> number_of m0 = Some (getExpectedSenderNum example_session) \<and>
      ms_messages (st_store (m_state s')) =
        map_put (getExpectedSenderNum example_session) out (ms_messages (st_store (m_state example_session))) \<and>
      getExpectedSenderNum s' = getExpectedSenderNum example_session + 1 \<and>
      (x_sent s' = x_sent example_session @ [out] \<or>
       x_sent s' = x_sent example_session \<and> \<not> (m_pResponder example_session \<and> isLoggedOn example_session)))"
proof -
  have ok: "fm_ok (msg_header example_order)"
    by (simp add: example_order_def header_field_ok Message_new_def Message_orders_def)
  have time: "e_timestamper quiet n = DateTime_of 2460310 3600000000000" for n by (simp add: quiet_def)
  have "getSupportedTimestampPrecision example_session = 3" by code_simp
  moreover have "UtcTimeStamp_convert (DateTime_of 2460310 3600000000000) 3 \<noteq> None" by code_simp
  ultimately obtain m1 where filled: "fill_message quiet example_order example_session = (Inr m1, example_session
      \<lparr>m_state := (m_state example_session)\<lparr>st_lastSentTime := e_timestamper quiet (x_clock example_session)\<rparr>,
       x_clock := Suc (Suc (x_clock example_session))\<rparr>)" (is "_ = (_, ?s1)")
    using fill_message_returns [of quiet example_session] by (auto simp: time)
  have "getFieldIfSet 35 (msg_header example_order) = Some (FieldBase_new 35 ''D'')" by code_simp
  moreover have "\<not> isAdminMsgType (f_string (FieldBase_new 35 ''D''))" by code_simp
  moreover have "\<not> m_resetOnLogon example_session" "\<not> m_resetOnLogout example_session"
    "\<not> m_resetOnDisconnect example_session" by code_simp+
  then have "\<not> shouldSendReset ?s1" by (simp add: shouldSendReset_def)
  moreover have "e_toApp quiet m sid = return m" for m sid by (simp add: quiet_def)
  ultimately obtain m' s' where sent: "sendRaw quiet example_order 0 example_session = (Inr (True, m'), s')"
    using application_message_returns [OF filled ok] by blast
  have "m_persistMessages example_session" by code_simp
  moreover have "getField_text 35 (msg_header example_order) \<noteq> Some ''A''" by code_simp
  ultimately show ?thesis using sent sent_is_kept [OF ok quiet_keeps _ _ sent] by blast
qed

end
