(* ===== verification/Harjus_Properties.thy ===== *)
theory Harjus_Properties
  imports Application_Laws Session_Properties
begin

text \<open>
  The application together with the sessions: its callbacks are an environment of the session model
  that ends and leaves the numbers alone, so what is shown of every session holds of those of the
  program; an order that is submitted goes out on its session and is kept; a logon is signed.
\<close>

section \<open>Callbacks\<close>

lemma pure_simp: "pure r s = (r, s)"
  by (simp add: pure_def)

lemma get_field_missing: "getField_text t fm = None \<Longrightarrow> get_field t fm = Inl (Fix (FieldNotFound t))"
  by (simp add: get_field_def fixed_def field_ref_def getField_text_def split: option.splits)

text \<open>Only a message that says it is a duplicate is held back, and no message is changed.\<close>

lemma toApp_fresh: "getField_text 43 (msg_header m) = None \<Longrightarrow> toApp m sid a = (Inr m, a)"
  by (simp add: toApp_def catch_def bind_def pure_simp get_field_missing return_def)

lemma toApp_duplicate:
  assumes "getField_text 43 (msg_header m) = Some t" and "Bool_parse t = Some True"
  shows "toApp m sid a = (Inl (Fix DoNotSend), a)"
  using get_field_ex [OF assms(1)] assms(2)
  by (auto simp: toApp_def catch_def bind_def pure_simp lift_def bool_value_def converted_def throw_def)

lemma toApp_result:
  assumes "toApp m sid a = (r, a')"
  shows "a' = a \<and> (\<forall>m'. r = Inr m' \<longrightarrow> m' = m)"
proof -
  define h where "h = (\<lambda>e. case e of Fix (FieldNotFound _) \<Rightarrow> Some (return m :: Message app_act) | _ \<Rightarrow> None)"
  have h: "n = return m" if "h e = Some n" for e n
    using that by (simp add: h_def split: throwable.splits fix_exception.splits)
  have "toApp m sid a = catch (bind (pure (get_field 43 (msg_header m))) (\<lambda>possDupFlag.
      bind (lift (bool_value possDupFlag)) (\<lambda>dup. if dup then throw (Fix DoNotSend) else return m))) h a"
    unfolding toApp_def h_def by (rule refl)
  with assms show ?thesis
    by (cases "get_field 43 (msg_header m)")
      (auto simp: catch_def bind_def pure_simp lift_def throw_def return_def dest!: h
        split: sum.splits option.splits if_splits)
qed

lemma header_field_number: "fm_ok (msg_header m) \<Longrightarrow> t \<noteq> 34 \<Longrightarrow> number_of (header_field t v m) = number_of m"
  by (simp add: number_of_text header_field_def get_setField)

lemma toAdmin_number:
  assumes "toAdmin L m sid a = (Inr m', a')" and "fm_ok (msg_header m)"
  shows "fm_ok (msg_header m') \<and> number_of m' = number_of m \<and> a' = a"
  using assms
  by (auto simp: toAdmin_def bind_result pure_simp look_def return_def Let_def header_field_ok header_field_number split: if_splits)

lemma harjus_keeps_number: "keeps_number (harjus_environment L clock zone responder)"
  using toAdmin_number toApp_result
  unfolding keeps_number_def harjus_environment_def environment.select_convs by blast

section \<open>The callbacks end\<close>

text \<open>Readings do not run out of fuel, which no code of the program has.\<close>

definition finishes :: "throwable + 'b \<Rightarrow> bool" where
  "finishes r \<longleftrightarrow> r \<noteq> Inl No_fuel"

lemma finishes_Inr: "finishes (Inr x)"
  by (simp add: finishes_def)

lemma finishes_and_then: "finishes r \<Longrightarrow> (\<And>x. finishes (f x)) \<Longrightarrow> finishes (and_then r f)"
  by (cases r) (simp_all add: finishes_def)

lemma finishes_if: "finishes r \<Longrightarrow> finishes r' \<Longrightarrow> finishes (if b then r else r')"
  by simp

lemma finishes_prod: "(\<And>x y. finishes (f x y)) \<Longrightarrow> finishes (case p of (x, y) \<Rightarrow> f x y)"
  by (simp split: prod.split)

lemma finishes_fixed: "finishes (fixed r)"
  by (simp add: finishes_def fixed_def split: sum.split)

lemma finishes_reading: "finishes (get_field t fm)" "finishes (char_value f)" "finishes (get_group i t fm)" "finishes (amount L f)"
    "finishes (symbol_at M s)" "finishes (header_text t m)" "finishes (number_text L n)"
  by (simp_all add: get_field_def char_value_def finishes_fixed) (simp_all add: finishes_def get_group_def amount_def symbol_at_def
    header_text_def number_text_def split: option.split)

lemmas finishes_rules = finishes_Inr finishes_and_then finishes_if finishes_prod finishes_fixed finishes_reading

lemma finishes_optional: "finishes (optional_field t f fm)"
  unfolding optional_field_def by (intro finishes_rules)

lemma finishes_exec_status: "finishes (exec_status c fm)"
  unfolding exec_status_def by (intro finishes_rules finishes_optional) (simp_all add: finishes_def)

lemma finishes_fee_loop: "finishes (fee_loop L fm i n d)"
  by (induction n arbitrary: i d) (auto intro!: finishes_rules)

lemma finishes_snapshot_loop: "finishes (snapshot_loop L fm i n q)"
  by (induction n arbitrary: i q) (auto intro!: finishes_rules)

lemma finishes_refresh_loop: "finishes (refresh_loop L M fm i n s updates us)"
proof (induction n arbitrary: i s updates us)
  case (Suc n)
  have "finishes (seen_update M x updates us)" "finishes (entry_change L g ty u)" for x g ty u
    unfolding seen_update_def entry_change_def Let_def by (intro finishes_rules)+
  then show ?case unfolding refresh_loop.simps Let_def by (intro finishes_rules finishes_optional Suc)
qed (simp add: finishes_Inr)

lemma finishes_reports:
  "finishes (parseExecutionReport L fm)" "finishes (parsePriceUpdateFromMarketDataSnapshotFullRefresh L M fm)"
  "finishes (parsePriceUpdateFromMarketDataIncrementalRefresh L M fm)" "finishes (logon_payload ty m)"
  unfolding parseExecutionReport_def parsePriceUpdateFromMarketDataSnapshotFullRefresh_def
    parsePriceUpdateFromMarketDataIncrementalRefresh_def logon_payload_def Let_def
  by (intro finishes_rules finishes_exec_status finishes_fee_loop finishes_snapshot_loop finishes_refresh_loop)+

text \<open>A callback changes no setting, and keeps what is in the queues in front of what it adds.\<close>

definition grows :: "Application \<Rightarrow> Application \<Rightarrow> bool" where
  "grows a b \<longleftrightarrow> prefix (a_priceUpdateQueue a) (a_priceUpdateQueue b) \<and>
     prefix (a_executionReportQueue a) (a_executionReportQueue b) \<and> prefix (a_sent a) (a_sent b) \<and>
     (a_username b, a_privateKeySeed b, a_symbolMap b, a_symbols b, a_marketSymbols b, a_initiator b, a_outbound b,
      a_isShuttingDown b) = (a_username a, a_privateKeySeed a, a_symbolMap a, a_symbols a, a_marketSymbols a, a_initiator a,
      a_outbound a, a_isShuttingDown a)"

interpretation app: step_relation grows "\<lambda>a. True" "\<lambda>e. e = No_fuel"
  by unfold_locales (auto simp: grows_def)

lemma app_reaches_pure: "finishes r \<Longrightarrow> app.reaches (pure r)"
  by (auto simp: app.reaches_def app.good_def pure_def finishes_def app.R_refl)

lemma app_reaches_lift: "app.reaches (lift r)"
  by (auto simp: app.reaches_def app.good_def lift_def app.R_refl split: sum.split)

lemma app_reaches_text: "app.reaches (message_text m)"
  unfolding message_text_def by (intro app.reaches_option app.reaches_throw app.reaches_return) simp

lemma grows_push: "prefix q (push L n x q)"
  by (simp add: push_def)

lemma app_reaches_push: "app.reaches (push_update L u)"
  unfolding push_update_def by (rule app.reaches_modify) (simp add: grows_def grows_push)

lemma app_reaches_pushes: "app.reaches (block (map (push_update L) us))"
  by (induction us) (simp_all add: app.reaches_nil app.reaches_cons app_reaches_push app.reach_rules)

lemma app_reaches_report: "app.reaches (modify (\<lambda>app. app\<lparr>a_executionReportQueue := push L n r (a_executionReportQueue app)\<rparr>))"
  by (rule app.reaches_modify) (simp add: grows_def grows_push)

lemmas callback_rules = app.reach_rules app_reaches_pure app_reaches_lift app_reaches_text app_reaches_push app_reaches_pushes app_reaches_report
  finishes_reports finishes_reading

lemma app_reaches_handlers: "app.reaches (onMessage_ExecutionReport L m)" "app.reaches (onMessage_MarketDataRequestReject m)"
    "app.reaches (onMessage_MarketDataSnapshotFullRefresh L m)" "app.reaches (onMessage_MarketDataIncrementalRefresh L m)"
    "app.reaches (cracked ignored m)"
  unfolding onMessage_ExecutionReport_def onMessage_MarketDataRequestReject_def
    onMessage_MarketDataSnapshotFullRefresh_def onMessage_MarketDataIncrementalRefresh_def cracked_def
  by (intro callback_rules app.reaches_throw; simp)+

lemma app_reaches_fromApp: "app.reaches (fromApp L m sid)"
  unfolding fromApp_def crack_def crack_beginString_def crack_applVerID_def FIX44_crack_def FIX40_crack_def FIX41_crack_def
    FIX42_crack_def FIX43_crack_def FIX50_crack_def FIX50SP1_crack_def FIX50SP2_crack_def FIXT11_crack_def
  by (intro callback_rules app_reaches_handlers app.reaches_throw; simp)

lemma app_reaches_fromAdmin: "app.reaches (fromAdmin m sid)"
  unfolding fromAdmin_def by (intro callback_rules app.reaches_throw; simp)

lemma app_reaches_onLogout: "app.reaches (onLogout sid)"
  unfolding onLogout_def by (intro callback_rules app.reaches_throw; simp)

text \<open>What is not part of the sources does not run out of fuel either.\<close>

definition library_ends :: "'d app_library \<Rightarrow> bool" where
  "library_ends L \<longleftrightarrow> (\<forall>m sid. l_sendToTarget L m sid \<noteq> Some No_fuel) \<and> (\<forall>seed payload. finishes (l_sign L seed payload))"

lemma app_reaches_toAdmin: "library_ends L \<Longrightarrow> app.reaches (toAdmin L m sid)"
  unfolding toAdmin_def Let_def by (intro callback_rules) (simp add: library_ends_def)

lemma app_reaches_onLogon:
  assumes "library_ends L"
  shows "app.reaches (onLogon L sid)"
proof -
  define sending :: "Message \<Rightarrow> SessionID \<Rightarrow> bool app_act"
    where "sending m sid = (case l_sendToTarget L m sid of None \<Rightarrow> return True | Some e \<Rightarrow> throw e)" for m sid
  have "app.reaches (sending m sid)" for m sid
    using assms by (auto simp: sending_def library_ends_def split: option.split intro!: app.reaches_return app.reaches_throw)
  moreover have "app.reaches (modify (\<lambda>app. app\<lparr>a_sent := a_sent app @ [x]\<rparr>))" for x
    by (rule app.reaches_modify) (simp add: grows_def)
  ultimately show ?thesis
    unfolding onLogon_def subscribeMarketSessionToSymbols_def Let_def sending_def [symmetric]
    by (intro callback_rules app.reaches_throw; simp)
qed

lemma app_reaches_toApp: "app.reaches (toApp m sid)"
  unfolding toApp_def
  by (rule app.reaches_catch, intro callback_rules app.reaches_throw)
    (auto split: throwable.splits fix_exception.splits intro: app.reaches_return)

lemma callback_ends: "app.reaches m \<Longrightarrow> fst (m a) \<noteq> Inl No_fuel"
  by (auto simp: app.reaches_def app.good_def)

lemma harjus_ends: "library_ends L \<Longrightarrow> application_ends (harjus_environment L clock zone responder)"
  by (simp add: application_ends_def harjus_environment_def callback_ends app_reaches_onLogon app_reaches_onLogout app_reaches_toAdmin
      app_reaches_toApp app_reaches_fromAdmin app_reaches_fromApp)

section \<open>What arrives\<close>

text \<open>
  A message of FIX 4.4: it says so, or it is one of FIXT 1.1 which names this version of the application
  or names none on a session whose default it is.
\<close>

definition speaks_fix44 :: "'d app_library \<Rightarrow> SessionID \<Rightarrow> Message \<Rightarrow> bool" where
  "speaks_fix44 L sid m \<longleftrightarrow> getField_text 8 (msg_header m) = Some ''FIX.4.4'' \<or>
     getField_text 8 (msg_header m) = Some ''FIXT.1.1'' \<and> \<not> Message_isAdmin m \<and>
     (case getField_text 1128 (msg_header m) of None \<Rightarrow> l_senderDefaultApplVerID L sid | Some v \<Rightarrow> Some v) = Some ''6''"

text \<open>The reports and price updates a message holds, or the exception of the one who reads them.\<close>

definition arrivals ::
  "'d app_library \<Rightarrow> string set \<Rightarrow> SessionID \<Rightarrow> Message \<Rightarrow> throwable + ExecutionReport list \<times> PriceUpdate list" where
  "arrivals L symbolMap sid m =
     (let msgType = (if speaks_fix44 L sid m then getField_text 35 (msg_header m) else None) in
      if msgType = Some ''8'' then map_sum id (\<lambda>r. ([r], [])) (parseExecutionReport L (msg_body m))
      else if msgType = Some ''W'' then
        map_sum id (\<lambda>u. ([], [u])) (parsePriceUpdateFromMarketDataSnapshotFullRefresh L symbolMap (msg_body m))
      else if msgType = Some ''X'' then
        map_sum id (\<lambda>us. ([], us)) (parsePriceUpdateFromMarketDataIncrementalRefresh L symbolMap (msg_body m))
      else Inr ([], []))"

text \<open>A queue of a capacity takes elements until it is full.\<close>

definition queues_fill :: "'d app_library \<Rightarrow> bool" where
  "queues_fill L \<longleftrightarrow> (\<forall>capacity n. l_room L capacity n = (n < capacity))"

lemma push_fills: "queues_fill L \<Longrightarrow> push L capacity x q = q @ take (capacity - length q) [x]"
  by (simp add: push_def queues_fill_def take_Cons')

lemma push_updates:
  assumes "queues_fill L"
  shows "block (map (push_update L) us) a =
    (Inr (), a\<lparr>a_priceUpdateQueue := a_priceUpdateQueue a @ take (1000 - length (a_priceUpdateQueue a)) us\<rparr>)"
proof (induction us arbitrary: a)
  case (Cons u us)
  show ?case
  proof (cases "1000 - length (a_priceUpdateQueue a)")
    case 0
    then show ?thesis using Cons.IH by (simp add: after_def bind_def push_update_def modify_def push_fills [OF assms])
  next
    case (Suc k)
    then have "1000 - length (a_priceUpdateQueue a @ [u]) = k" by simp
    with Suc show ?thesis using Cons.IH by (simp add: after_def bind_def push_update_def modify_def push_fills [OF assms])
  qed
qed (simp add: skip_def return_def)

text \<open>What the application is after the arrivals, with the exception there may be.\<close>

definition delivered :: "throwable + ExecutionReport list \<times> PriceUpdate list \<Rightarrow> Application \<Rightarrow> Application" where
  "delivered got a = (case got of Inl e \<Rightarrow> a | Inr (reports, updates) \<Rightarrow>
     a\<lparr>a_executionReportQueue := a_executionReportQueue a @ take (1000 - length (a_executionReportQueue a)) reports,
       a_priceUpdateQueue := a_priceUpdateQueue a @ take (1000 - length (a_priceUpdateQueue a)) updates\<rparr>)"

lemma cracked_keeps: "snd (cracked ignored m a) = a"
  by (simp add: cracked_def act_defs pure_simp split: sum.split)

lemmas other_cracks = FIX40_crack_def FIX41_crack_def FIX42_crack_def FIX43_crack_def FIX50_crack_def FIX50SP1_crack_def
  FIX50SP2_crack_def FIXT11_crack_def

lemma message_text_keeps: "snd (message_text m a) = a"
  by (simp add: message_text_def act_defs split: option.split)

lemma FIX44_crack_result:
  assumes "queues_fill L" and "speaks_fix44 L sid m"
  shows "snd (FIX44_crack L m a) = delivered (arrivals L (a_symbolMap a) sid m) a \<and>
    (\<forall>e. arrivals L (a_symbolMap a) sid m = Inl e \<longrightarrow> fst (FIX44_crack L m a) = Inl e)"
proof (cases "getField_text 35 (msg_header m)")
  case None
  then show ?thesis
    by (simp add: FIX44_crack_def header_text_def bind_def pure_simp arrivals_def delivered_def Let_def)
next
  case (Some t)
  have rejected: "snd (onMessage_MarketDataRequestReject m a) = a"
    using message_text_keeps [of m a]
    by (cases "message_text m a"; cases "fst (message_text m a)") (auto simp: onMessage_MarketDataRequestReject_def bind_def throw_def)
  have at: "speaks_fix44 L sid m = True" using assms(2) by simp
  consider "t = ''8''" | "t = ''W''" | "t = ''X''" | "t \<notin> {''8'', ''W'', ''X''}" by blast
  then show ?thesis
  proof cases
    case 1
    then show ?thesis using Some
      by (simp add: push_fills [OF assms(1)] FIX44_crack_def header_text_def bind_def pure_simp arrivals_def at delivered_def onMessage_ExecutionReport_def
          modify_def split: sum.split)
  next
    case 2
    then show ?thesis using Some
      by (simp add: push_fills [OF assms(1)] FIX44_crack_def header_text_def bind_def pure_simp arrivals_def at delivered_def look_def
          onMessage_MarketDataSnapshotFullRefresh_def push_update_def modify_def split: sum.split)
  next
    case 3
    then show ?thesis using Some push_updates [OF assms(1)]
      by (simp add: FIX44_crack_def header_text_def bind_def pure_simp arrivals_def at delivered_def look_def
          onMessage_MarketDataIncrementalRefresh_def split: sum.split)
  next
    case 4
    then show ?thesis using Some rejected cracked_keeps
      by (simp add: FIX44_crack_def header_text_def bind_def pure_simp arrivals_def at delivered_def)
  qed
qed

lemma not_fix44: "\<not> speaks_fix44 L sid m \<Longrightarrow> arrivals L symbolMap sid m = Inr ([], [])"
  by (simp add: arrivals_def)

lemma delivered_nothing: "delivered (Inr ([], [])) a = a"
  by (simp add: delivered_def)

lemma fromApp_result:
  assumes "queues_fill L"
  shows "snd (fromApp L m sid a) = delivered (arrivals L (a_symbolMap a) sid m) a \<and>
    (\<forall>e. arrivals L (a_symbolMap a) sid m = Inl e \<longrightarrow> fst (fromApp L m sid a) = Inl e)"
proof (cases "speaks_fix44 L sid m")
  case True
  have at: "fromApp L m sid a = crack_beginString L m sid v a" if "getField_text 8 (msg_header m) = Some v" for v
    using that by (simp add: fromApp_def crack_def header_text_def bind_def pure_simp)
  have version: "crack_applVerID L m ''6'' = FIX44_crack L m" by (simp add: crack_applVerID_def)
  have "fromApp L m sid a = FIX44_crack L m a"
  proof (cases "getField_text 8 (msg_header m) = Some ''FIX.4.4''")
    case True
    then show ?thesis by (simp add: at crack_beginString_def)
  next
    case False
    with True have "getField_text 8 (msg_header m) = Some ''FIXT.1.1''" "\<not> Message_isAdmin m"
      and "(case getField_text 1128 (msg_header m) of None \<Rightarrow> l_senderDefaultApplVerID L sid | Some v \<Rightarrow> Some v) = Some ''6''"
      unfolding speaks_fix44_def by blast+
    then show ?thesis
      by (cases "getField_text 1128 (msg_header m)") (simp_all add: at crack_beginString_def version)
  qed
  with FIX44_crack_result [OF assms True] show ?thesis by simp
next
  case False
  note none = not_fix44 [OF False]
  have "snd (fromApp L m sid a) = a"
  proof (cases "getField_text 8 (msg_header m)")
    case None
    then show ?thesis by (simp add: fromApp_def crack_def header_text_def bind_def pure_simp)
  next
    case (Some v)
    then have at: "fromApp L m sid a = crack_beginString L m sid v a"
      by (simp add: fromApp_def crack_def header_text_def bind_def pure_simp)
    have v: "v \<noteq> ''FIX.4.4''" using Some False by (simp add: speaks_fix44_def)
    have older: "snd (FIX40_crack m a) = a" "snd (FIX41_crack m a) = a" "snd (FIX42_crack m a) = a" "snd (FIX43_crack m a) = a"
        "snd (FIX50_crack m a) = a" "snd (FIX50SP1_crack m a) = a" "snd (FIX50SP2_crack m a) = a" "snd (FIXT11_crack m a) = a"
        "snd (skip a) = a"
      by (simp_all add: other_cracks cracked_keeps skip_def return_def)
    have version: "snd (crack_applVerID L m w a) = a" if "w \<noteq> ''6''" for w
      using that older unfolding crack_applVerID_def by simp
    show ?thesis
    proof (cases "v = ''FIXT.1.1'' \<and> \<not> Message_isAdmin m")
      case True
      then have "(case getField_text 1128 (msg_header m) of None \<Rightarrow> l_senderDefaultApplVerID L sid | Some v \<Rightarrow> Some v) \<noteq> Some ''6''"
        using False Some unfolding speaks_fix44_def by blast
      with True version show ?thesis
        by (cases "getField_text 1128 (msg_header m)"; cases "l_senderDefaultApplVerID L sid")
          (simp_all add: at crack_beginString_def throw_def)
    next
      case False
      with v older show ?thesis unfolding at crack_beginString_def by simp
    qed
  qed
  then show ?thesis using none by (simp add: delivered_nothing)
qed

text \<open>The other callbacks.\<close>

definition subscriptions :: "'d app_library \<Rightarrow> SessionID \<Rightarrow> Application \<Rightarrow> (Message \<times> SessionID) list" where
  "subscriptions L sid a =
     (case if is_market_data sid then a_marketSymbols a (sid_sessionQualifier sid) else None of
        Some (s # ss) \<Rightarrow> [(market_data_request (''MDReq-'' @ to_string (l_time L)) (s # ss), sid)]
      | _ \<Rightarrow> [])"

lemma onLogon_result: "snd (onLogon L sid a) = a\<lparr>a_sent := a_sent a @ subscriptions L sid a\<rparr>"
proof (cases "is_market_data sid")
  case True
  show ?thesis
  proof (cases "a_marketSymbols a (sid_sessionQualifier sid)")
    case None
    then show ?thesis using True by (simp add: onLogon_def act_defs subscriptions_def)
  next
    case (Some ss)
    then show ?thesis using True
      by (cases ss)
        (simp_all add: onLogon_def subscribeMarketSessionToSymbols_def act_defs subscriptions_def Let_def split: option.splits if_splits)
  qed
qed (simp add: onLogon_def act_defs subscriptions_def)

lemma toAdmin_keeps: "snd (toAdmin L m sid a) = a"
  by (simp add: toAdmin_def act_defs pure_simp Let_def split: sum.split)

lemma fromAdmin_keeps: "snd (fromAdmin m sid a) = a"
  using message_text_keeps [of m a]
  by (cases "message_text m a"; cases "fst (message_text m a)") (auto simp: fromAdmin_def act_defs pure_simp split: sum.split)

lemma onLogout_keeps: "snd (onLogout sid a) = a"
  by (simp add: onLogout_def act_defs)

lemma toApp_keeps: "snd (toApp m sid a) = a"
  using toApp_result [of m sid a] by (cases "toApp m sid a") simp

text \<open>C11. What arrives is handed to the trading thread, whole and in order: a message for the application adds
  to the two queues, as far as there is room behind what waits there, exactly the report or the price
  updates that are read from it when it is an execution report, a full or an incremental refresh of FIX 4.4,
  and nothing otherwise; and changes nothing else. When the reading throws, its exception leaves and nothing
  changes. Of the other callbacks, the one for a new session keeps its identity if it is the session for
  orders, a logon of a market data session asks for the symbols of that session, if it has any, and
  all the others leave the application as it is.\<close>

theorem messages_reach_queues:
  assumes "queues_fill L"
  shows "snd (fromApp L m sid a) = delivered (arrivals L (a_symbolMap a) sid m) a \<and>
    (\<forall>e. arrivals L (a_symbolMap a) sid m = Inl e \<longrightarrow> fst (fromApp L m sid a) = Inl e) \<and>
    snd (onCreate sid a) = (if sid_sessionQualifier sid = ''ORDERENTRY'' then a\<lparr>a_orderEntrySessionID := sid\<rparr> else a) \<and>
    snd (onLogon L sid a) = a\<lparr>a_sent := a_sent a @ subscriptions L sid a\<rparr> \<and>
    snd (onLogout sid a) = a \<and> snd (toAdmin L m sid a) = a \<and> snd (fromAdmin m sid a) = a \<and> snd (toApp m sid a) = a"
  using fromApp_result [OF assms] onLogon_result [of L] onLogout_keeps toAdmin_keeps [of L] fromAdmin_keeps toApp_keeps
  by (simp add: onCreate_def act_defs)

section \<open>A logon is signed\<close>

text \<open>C17. A logon goes out with the user name, and signed: the signature is that of its type, sender, target,
  number and sending time as they stand in the header, separated by the delimiter; no other field changes.\<close>

theorem logon_is_signed:
  assumes "fm_ok (msg_header m)" and "getField_text 35 (msg_header m) = Some ''A''"
    and "getField_text 49 (msg_header m) = Some sender" and "getField_text 56 (msg_header m) = Some target"
    and "getField_text 34 (msg_header m) = Some num" and "getField_text 52 (msg_header m) = Some time"
    and "l_sign L (a_privateKeySeed a) (''A'' @ [SOH] @ sender @ [SOH] @ target @ [SOH] @ num @ [SOH] @ time) = Inr sig"
  shows "\<exists>m'. toAdmin L m sid a = (Inr m', a) \<and> msg_body m' = msg_body m \<and>
    map (\<lambda>t. getField_text t (msg_header m')) [553, 96, 95, 25035] =
      map Some [c_str (a_username a), c_str sig, Session_State.int_text (int (length sig)), ''2''] \<and>
    (\<forall>t. t \<notin> {553, 96, 95, 25035} \<longrightarrow> getField_text t (msg_header m') = getField_text t (msg_header m))"
proof -
  obtain f where f: "get_field 35 (msg_header m) = Inr f" "f_string f = ''A''" using get_field_ex [OF assms(2)] by blast
  let ?m = "header_field 553 (c_str (a_username a)) (header_field 25035 ''2'' m)"
  have same: "getField_text t (msg_header ?m) = getField_text t (msg_header m)" if "t \<noteq> 553" "t \<noteq> 25035" for t
    using that assms(1) by (simp add: header_field_def get_setField fm_ok_setField)
  have "logon_payload ''A'' ?m = Inr (''A'' @ [SOH] @ sender @ [SOH] @ target @ [SOH] @ num @ [SOH] @ time)"
    using assms(3-6) by (simp add: logon_payload_def header_text_def same)
  then have "toAdmin L m sid a = (Inr (header_field 95 (Session_State.int_text (int (length sig))) (header_field 96 (c_str sig) ?m)), a)"
    using f assms(7) by (simp add: toAdmin_def pure_simp act_defs Let_def)
  then show ?thesis
    using assms(1) by (simp add: header_field_def get_setField fm_ok_setField)
qed

section \<open>An order goes out\<close>

lemma new_order_fields:
  "getField_text 35 (msg_header (new_order ident symb q p pos)) = Some ''D''"
  "map (\<lambda>t. getField_text t (msg_body (new_order ident symb q p pos))) [11, 55, 54, 38, 44, 40, 59] =
     map Some [ident, symb, if pos = LONG then ''1'' else ''2'', q, p, ''2'', ''4'']"
  "fm_ok (msg_header (new_order ident symb q p pos))"
  by (simp_all add: new_order_def body_field_def Message_of_type_def Message_new_def Message_orders_def get_setField fm_ok_setField)

lemma fill_message_sets:
  assumes "fm_ok (msg_header m)"
    and "UtcTimeStamp_convert (e_timestamper E (Suc (x_clock s))) (getSupportedTimestampPrecision s) \<noteq> None"
  shows "\<exists>m1 s1. fill_message E m s = (Inr m1, s1) \<and> msg_body m1 = msg_body m \<and> x_app s1 = x_app s \<and>
    (\<forall>t. t \<notin> {8, 49, 56, 34, 52} \<longrightarrow> getField_text t (msg_header m1) = getField_text t (msg_header m)) \<and>
    m_sessionID s1 = m_sessionID s"
  using assms
  by (auto simp: fill_message_def fill_def insertSendingTime_def stamp_text_def timestamper_def state_def Let_def act_defs
      get_setField fm_ok_setField)

lemma getFieldIfSet_text: "getField_text t fm = Some v \<Longrightarrow> \<exists>f. getFieldIfSet t fm = Some f \<and> f_string f = v"
  by (auto simp: getFieldIfSet_Ref getField_text_def split: option.splits)

text \<open>An application message that the application lets pass is kept and sent.\<close>

lemma passed_message_sent:
  assumes ok: "fm_ok (msg_header m)" and stamp: "UtcTimeStamp_convert (e_timestamper E (Suc (x_clock s))) (getSupportedTimestampPrecision s) \<noteq> None"
    and ty: "getField_text 35 (msg_header m) = Some ty" "\<not> isAdminMsgType ty"
    and pass: "\<And>m1 s1. msg_body m1 = msg_body m \<Longrightarrow>
      (\<forall>t. t \<notin> {8, 49, 56, 34, 52} \<longrightarrow> getField_text t (msg_header m1) = getField_text t (msg_header m)) \<Longrightarrow>
      e_toApp E m1 (m_sessionID s) (x_app s) = (Inr m1, x_app s)"
    and s: "isLoggedOn s" "m_pResponder s" "m_persistMessages s"
  shows "\<exists>m0 m' out s'. sendRaw E m 0 s = (Inr (True, m'), s') \<and> toString m0 = Some (out, m') \<and>
    msg_body m0 = msg_body m \<and> getField_text 35 (msg_header m0) = Some ty \<and> number_of m0 = Some (getExpectedSenderNum s) \<and>
    ms_messages (st_store (m_state s')) = map_put (getExpectedSenderNum s) out (ms_messages (st_store (m_state s))) \<and>
    getExpectedSenderNum s' = getExpectedSenderNum s + 1 \<and> x_sent s' = x_sent s @ [out] \<and> x_app s' = x_app s"
proof -
  obtain m1 s1 where fill: "fill_message E m s = (Inr m1, s1)" and m1: "msg_body m1 = msg_body m" "x_app s1 = x_app s"
    "\<forall>t. t \<notin> {8, 49, 56, 34, 52} \<longrightarrow> getField_text t (msg_header m1) = getField_text t (msg_header m)" "m_sessionID s1 = m_sessionID s"
    using fill_message_sets [OF ok stamp] by blast
  have filled: "untouched s s1" "fm_ok (msg_header m1)" "number_of m1 = Some (getExpectedSenderNum s)"
    using fill_message_result [OF fill ok] by simp_all
  obtain out m' where out: "toString m1 = Some (out, m')" using toString_total [of m1] by auto
  have num: "number_of m' = Some (getExpectedSenderNum s)" using number_of_written [OF filled(2) out] filled(3) by simp
  let ?t = "s1\<lparr>m_state := incrNextSenderMsgSeqNum (snd (st_set (getExpectedSenderNum s) out (m_state s1)))\<rparr>"
  have "persist m' out s1 = (Inr (), ?t)"
    using persist_returns [OF num, of out s1] persist_result [OF _ _ num, of out s1] s(3) filled(1) by (auto simp: untouched_def)
  moreover have "callback (e_toApp E m1 (m_sessionID s1)) s1 = (Inr m1, s1)"
    using pass [OF m1(1,3)] m1 by (simp add: callback_def)
  moreover have "isLoggedOn s1" using s(1) filled(1) by (simp add: untouched_def)
  moreover have on: "isLoggedOn ?t" "m_pResponder ?t"
    using s filled(1) by (simp_all add: untouched_def isLoggedOn_def incrNextSenderMsgSeqNum_def st_set_def MemoryStore_set_def)
  obtain s' where sent: "send_text E out ?t = (Inr (e_responder E out), s')" and s': "m_state s' = m_state ?t" "x_app s' = x_app ?t"
      "x_sent s' = x_sent ?t @ [out]"
    using on by (simp add: send_text_def log_add_def act_defs)
  obtain f where f: "getFieldIfSet 35 (msg_header m) = Some f" "f_string f = ty" using getFieldIfSet_text [OF ty(1)] by blast
  ultimately have "sendRaw E m 0 s = (Inr (True, m'), s')"
    using f ty(2) on sent by (simp add: sendRaw_def fill message_text_def out Let_def act_defs)
  moreover have "ms_messages (st_store (m_state s')) = map_put (getExpectedSenderNum s) out (ms_messages (st_store (m_state s)))"
      "getExpectedSenderNum s' = getExpectedSenderNum s + 1" "x_sent s' = x_sent s @ [out]" "x_app s' = x_app s"
    using s' filled(1) m1(2) by (simp_all add: untouched_def getExpectedSenderNum_def getNextSenderMsgSeqNum_def store_ops
        MemoryStore_set_def incrNextSender_def)
  moreover have "getField_text 35 (msg_header m1) = Some ty" using m1(3) ty(1) by simp
  ultimately show ?thesis using out m1(1) filled(3) by blast
qed

lemma map_of_replace: "map_of es k = Some v \<Longrightarrow> map_of (map (\<lambda>e. if fst e = k then (fst e, w) else e) es) k = Some w"
  by (induction es) auto

lemma session_of_with: "session_of sid i = Some s \<Longrightarrow> session_of sid (with_session sid s' i) = Some s'"
  by (auto simp: session_of_def with_session_def dest: map_of_replace)

lemma submitOrder_result:
  assumes "submitOrder L ident symb qty price pos a = (Inr (), a')" and "a_initiator a" and "l_room L 4096 (length (a_outbound a))"
  shows "\<exists>q p. PreciseNumber_toString (l_decimal L) qty = Some q \<and> PreciseNumber_toString (l_decimal L) price = Some p \<and>
    a' = a\<lparr>a_outbound := a_outbound a @ [(new_order ident symb q p pos, a_orderEntrySessionID a)]\<rparr>"
  using assms
  by (auto simp: submitOrder_def bind_result pure_simp number_text_def queueMessage_def push_def ignore_def after_def look_def
      modify_def return_def only_if_def skip_def split: option.splits)

lemma precision_app [simp]: "getSupportedTimestampPrecision (s\<lparr>x_app := a\<rparr>) = getSupportedTimestampPrecision s"
  by (simp add: getSupportedTimestampPrecision_def)

text \<open>C5. An order that is submitted reaches the wire: when its session is connected and logged on, the queue
  is worked off, one message goes out that is an order with exactly the given number, symbol, side, quantity
  and price, it is kept under the next number of the session, and that number is used up.\<close>

theorem order_goes_out:
  assumes "a_initiator a" and "a_outbound a = []" and "l_room L 4096 0"
    and "submitOrder L ident symb qty price pos a = (Inr (), i_app i)"
    and "session_of (a_orderEntrySessionID a) i = Some s"
    and "isLoggedOn s" and "m_pResponder s" and "m_persistMessages s"
    and "UtcTimeStamp_convert (clock (Suc (x_clock s))) (getSupportedTimestampPrecision s) \<noteq> None"
  shows "\<exists>i' s' m0 m' out q p.
    processOutboundQueue (harjus_environment L clock zone responder) i = (Inr (), i') \<and> a_outbound (i_app i') = [] \<and>
    session_of (a_orderEntrySessionID a) i' = Some s' \<and> x_sent s' = x_sent s @ [out] \<and> toString m0 = Some (out, m') \<and>
    getField_text 35 (msg_header m0) = Some ''D'' \<and> number_of m0 = Some (getExpectedSenderNum s) \<and>
    PreciseNumber_toString (l_decimal L) qty = Some q \<and> PreciseNumber_toString (l_decimal L) price = Some p \<and>
    map (\<lambda>t. getField_text t (msg_body m0)) [11, 55, 54, 38, 44, 40, 59] =
      map Some [ident, symb, if pos = LONG then ''1'' else ''2'', q, p, ''2'', ''4''] \<and>
    ms_messages (st_store (m_state s')) = map_put (getExpectedSenderNum s) out (ms_messages (st_store (m_state s))) \<and>
    getExpectedSenderNum s' = getExpectedSenderNum s + 1"
proof -
  let ?E = "harjus_environment L clock zone responder" and ?sid = "a_orderEntrySessionID a"
  obtain q p where q: "PreciseNumber_toString (l_decimal L) qty = Some q" and p: "PreciseNumber_toString (l_decimal L) price = Some p"
    and app: "i_app i = a\<lparr>a_outbound := [(new_order ident symb q p pos, ?sid)]\<rparr>"
    using submitOrder_result [OF assms(4,1)] assms(2,3) by auto
  define m where "m = (new_order ident symb q p pos)\<lparr>msg_header :=
    removeField 122 (removeField 43 (msg_header (new_order ident symb q p pos)))\<rparr>"
  note new = new_order_fields [of ident symb q p pos]
  have m: "fm_ok (msg_header m)" "getField_text 35 (msg_header m) = Some ''D''" "getField_text 43 (msg_header m) = None"
      "msg_body m = msg_body (new_order ident symb q p pos)"
    using new(1,3) by (simp_all add: m_def get_removeField fm_ok_removeField)
  let ?a = "(i_app i)\<lparr>a_outbound := []\<rparr>"
  let ?i = "i\<lparr>i_app := ?a\<rparr>" and ?s = "s\<lparr>x_app := ?a\<rparr>"
  have s: "session_of ?sid ?i = Some ?s" using assms(5) by (auto simp: session_of_def)
  have stamp: "UtcTimeStamp_convert (e_timestamper ?E (Suc (x_clock ?s))) (getSupportedTimestampPrecision ?s) \<noteq> None"
    using assms(9) by (simp add: harjus_environment_def)
  have pass: "e_toApp ?E m1 (m_sessionID ?s) (x_app ?s) = (Inr m1, x_app ?s)"
    if "\<forall>t. t \<notin> {8, 49, 56, 34, 52} \<longrightarrow> getField_text t (msg_header m1) = getField_text t (msg_header m)" for m1
    using that m(3) by (simp add: harjus_environment_def toApp_fresh)
  have "\<not> isAdminMsgType ''D''" by code_simp
  moreover have "isLoggedOn ?s" using assms(6) by (simp add: isLoggedOn_def)
  ultimately obtain m0 m' out s' where sent: "sendRaw ?E m 0 ?s = (Inr (True, m'), s')" and out: "toString m0 = Some (out, m')"
    "msg_body m0 = msg_body m" "getField_text 35 (msg_header m0) = Some ''D''" "number_of m0 = Some (getExpectedSenderNum ?s)"
    "ms_messages (st_store (m_state s')) = map_put (getExpectedSenderNum ?s) out (ms_messages (st_store (m_state ?s)))"
    "getExpectedSenderNum s' = getExpectedSenderNum ?s + 1" "x_sent s' = x_sent ?s @ [out]" "x_app s' = x_app ?s"
    using passed_message_sent [OF m(1) stamp m(2) _ pass] assms(7,8) by auto
  have "send_item ?E (new_order ident symb q p pos, ?sid) ?i = (Inr (), with_session ?sid s' ?i)"
    using s sent by (simp add: send_item_def send_def m_def [symmetric])
  then have "processOutboundQueue ?E i = (Inr (), with_session ?sid s' ?i)"
    by (simp add: processOutboundQueue_def look_def app after_def bind_def modify_def skip_def return_def)
  moreover have "session_of ?sid (with_session ?sid s' ?i) = Some s'" using session_of_with [OF s] .
  moreover have "a_outbound (i_app (with_session ?sid s' ?i)) = []" using out(8) by (simp add: with_session_def)
  moreover have "getExpectedSenderNum ?s = getExpectedSenderNum s" by (simp add: getExpectedSenderNum_def)
  ultimately show ?thesis using q p out new(2) m(4) by auto
qed

definition still :: "nat \<Rightarrow> DateTime" where
  "still n = DateTime_of 2460310 3600000000000"

definition example_zone :: "int \<Rightarrow> tm" where
  "example_zone t = \<lparr>tm_sec = 0, tm_min = 0, tm_hour = 0, tm_mday = 1, tm_mon = 0, tm_year = 124\<rparr>"

definition order_entry :: SessionID where
  "order_entry = SessionID_new ''FIX.4.4'' ''HARJUS'' ''SPOT'' ''ORDERENTRY''"

definition example_app :: Application where
  "example_app = \<lparr>a_username = ''key'', a_privateKeySeed = ''c2VlZA=='', a_orderEntrySessionID = order_entry,
     a_symbolMap = {''BTCUSDT''}, a_symbols = [''BTCUSDT''], a_priceUpdateQueue = [], a_executionReportQueue = [],
     a_marketSymbols = Map.empty, a_initiator = True, a_outbound = [], a_sent = [], a_isShuttingDown = False\<rparr>"

definition example_environment :: "Application environment" where
  "example_environment = harjus_environment example_library still example_zone (\<lambda>txt. True)"

text \<open>The session for orders, connected and logged on.\<close>

definition example_entry :: "Application Session" where
  "example_entry =
     (let s = snd (Session_new example_environment order_entry
        \<lparr>transportDictionaries = Map.empty, applicationDictionaries = Map.empty\<rparr>
        \<lparr>m_startTime = DateTime_of 0 0, m_endTime = DateTime_of 0 0, m_startDay = -1, m_endDay = -1, m_useLocalTime = False\<rparr>
        30 True example_app)
      in s\<lparr>m_pResponder := True, m_state := (m_state s)\<lparr>st_receivedLogon := True, st_sentLogon := True\<rparr>\<rparr>)"

lemma toString_returns:
  assumes "decimal_laws L" and "\<bar>smallestUnit n\<bar> < 10 ^ 50"
  shows "PreciseNumber_toString L n \<noteq> None"
  using assms by (auto simp: decimal_laws_def PreciseNumber_toString_def)

theorem order_goes_out_witness:
  "\<exists>i s. session_of order_entry i = Some s \<and> (\<exists>i' s' m0 m' out q p.
    processOutboundQueue (harjus_environment example_library still example_zone (\<lambda>txt. True)) i = (Inr (), i') \<and>
    a_outbound (i_app i') = [] \<and>
    session_of (a_orderEntrySessionID example_app) i' = Some s' \<and> x_sent s' = x_sent s @ [out] \<and> toString m0 = Some (out, m') \<and>
    getField_text 35 (msg_header m0) = Some ''D'' \<and> number_of m0 = Some (getExpectedSenderNum s) \<and>
    PreciseNumber_toString (l_decimal example_library) (PreciseNumber 10000000) = Some q \<and>
    PreciseNumber_toString (l_decimal example_library) (PreciseNumber 420000000000000) = Some p \<and>
    map (\<lambda>t. getField_text t (msg_body m0)) [11, 55, 54, 38, 44, 40, 59] =
      map Some [''a1b2c3d4'', ''BTCUSDT'', if LONG = LONG then ''1'' else ''2'', q, p, ''2'', ''4''] \<and>
    ms_messages (st_store (m_state s')) = map_put (getExpectedSenderNum s) out (ms_messages (st_store (m_state s))) \<and>
    getExpectedSenderNum s' = getExpectedSenderNum s + 1)"
proof -
  let ?submit = "submitOrder example_library ''a1b2c3d4'' ''BTCUSDT'' (PreciseNumber 10000000) (PreciseNumber 420000000000000) LONG"
  have "PreciseNumber_toString decimal_ref (PreciseNumber 10000000) \<noteq> None"
    "PreciseNumber_toString decimal_ref (PreciseNumber 420000000000000) \<noteq> None"
    by (rule toString_returns [OF decimal_laws_ref], simp)+
  then obtain q p where "PreciseNumber_toString decimal_ref (PreciseNumber 10000000) = Some q"
    "PreciseNumber_toString decimal_ref (PreciseNumber 420000000000000) = Some p" by auto
  moreover have "a_initiator example_app" by (simp add: example_app_def)
  ultimately obtain a where a: "?submit example_app = (Inr (), a)"
    by (simp add: submitOrder_def example_library_def number_text_def pure_simp queueMessage_def act_defs)
  let ?i = "\<lparr>i_sessions = [(sid_frozenString order_entry, example_entry)], i_app = a\<rparr>" and ?s = "example_entry\<lparr>x_app := a\<rparr>"
  have s: "session_of (a_orderEntrySessionID example_app) ?i = Some ?s" by (simp add: session_of_def example_app_def)
  have "getSupportedTimestampPrecision example_entry = 3" by code_simp
  moreover have "UtcTimeStamp_convert (DateTime_of 2460310 3600000000000) 3 \<noteq> None" by code_simp
  ultimately have stamp: "UtcTimeStamp_convert (still (Suc (x_clock ?s))) (getSupportedTimestampPrecision ?s) \<noteq> None"
    by (simp add: still_def)
  have "isLoggedOn example_entry" "m_pResponder example_entry" "m_persistMessages example_entry" by code_simp+
  then have on: "isLoggedOn ?s" "m_pResponder ?s" "m_persistMessages ?s" by (simp_all add: isLoggedOn_def)
  have free: "a_initiator example_app" "a_outbound example_app = []" "l_room example_library 4096 0"
    by (simp_all add: example_app_def example_library_def)
  have queued: "?submit example_app = (Inr (), i_app ?i)" using a by simp
  have "session_of order_entry ?i = Some ?s" using s by (simp add: example_app_def)
  then show ?thesis
    using order_goes_out [where clock = still and zone = example_zone and responder = "\<lambda>txt. True", OF free queued s on stamp]
    by - (rule exI [of _ ?i], rule exI [of _ ?s], rule conjI)
qed

section \<open>Examples of the callbacks\<close>

text \<open>A message of FIX 4.4 with the report of \<open>report_read_witness\<close>.\<close>

definition example_report_message :: Message where
  "example_report_message = (header_field 35 ''8'' (header_field 8 ''FIX.4.4'' Message_new))\<lparr>msg_body := example_fill\<rparr>"

theorem messages_reach_queues_witness:
  "\<exists>r. parseExecutionReport example_library example_fill = Inr r \<and>
    snd (fromApp example_library example_report_message order_entry example_app) = example_app\<lparr>a_executionReportQueue := [r]\<rparr>"
proof -
  obtain r where r: "parseExecutionReport example_library example_fill = Inr r" using example_fill_read by blast
  have "getField_text 8 (msg_header example_report_message) = Some ''FIX.4.4''"
    "getField_text 35 (msg_header example_report_message) = Some ''8''" "msg_body example_report_message = example_fill"
    by (simp_all add: example_report_message_def header_field_def Message_new_def Message_orders_def get_setField fm_ok_setField)
  then have "arrivals example_library (a_symbolMap example_app) order_entry example_report_message = Inr ([r], [])"
    using r by (simp add: arrivals_def speaks_fix44_def)
  moreover have "queues_fill example_library" by (simp add: queues_fill_def example_library_def)
  ultimately show ?thesis
    using messages_reach_queues [of example_library example_report_message order_entry example_app] r
    by (simp add: delivered_def example_app_def)
qed

definition example_logon :: Message where
  "example_logon = header_field 52 ''20240101-00:00:00.000'' (header_field 34 ''1'' (header_field 56 ''SPOT''
     (header_field 49 ''HARJUS'' (header_field 35 ''A'' Message_new))))"

theorem logon_is_signed_witness:
  "\<exists>m'. toAdmin example_library example_logon order_entry example_app = (Inr m', example_app) \<and> msg_body m' = msg_body example_logon \<and>
    map (\<lambda>t. getField_text t (msg_header m')) [553, 96, 95, 25035] =
      map Some [c_str (a_username example_app), c_str ''c2lnbmF0dXJl'', Session_State.int_text (int (length ''c2lnbmF0dXJl'')), ''2''] \<and>
    (\<forall>t. t \<notin> {553, 96, 95, 25035} \<longrightarrow> getField_text t (msg_header m') = getField_text t (msg_header example_logon))"
  by (rule logon_is_signed [where sender = "''HARJUS''" and target = "''SPOT''" and num = "''1''" and time = "''20240101-00:00:00.000''"])
    (simp_all add: example_logon_def header_field_def Message_new_def Message_orders_def get_setField fm_ok_setField example_library_def)

end
