(* ===== verification/Session_Settings.thy ===== *)
theory Session_Settings
  imports Session_Id Session_State "HOL-Library.List_Lexorder" "HOL-Library.Char_ord"
begin

text \<open>
  The settings of the sessions: the strings they are made of (flashfix/src/Utility.cpp), a section as a
  dictionary of keys and values (flashfix/src/Dictionary.cpp), the file of sections
  (flashfix/src/Settings.cpp), and the settings of each session with their defaults
  (flashfix/src/SessionSettings.cpp). A map is the list of its entries in ascending order of the keys;
  the names of sessions are keyed by their text. The environment variables are a parameter.
\<close>

section \<open>Strings\<close>

definition blanks :: "char set" where
  "blanks = {CHR '' '', CHR 0x09, CHR 0x0D, CHR 0x0A}"

text \<open>Nothing is cut off a string of blanks only.\<close>

definition string_strip :: "string \<Rightarrow> string" where
  "string_strip s =
     (if list_all (\<lambda>c. c \<in> blanks) s then s
      else rev (dropWhile (\<lambda>c. c \<in> blanks) (rev (dropWhile (\<lambda>c. c \<in> blanks) s))))"

definition toupper :: "char \<Rightarrow> char" where
  "toupper c = (if 97 \<le> (of_char c :: nat) \<and> (of_char c :: nat) \<le> 122 then char_of ((of_char c :: nat) - 32) else c)"

definition tolower :: "char \<Rightarrow> char" where
  "tolower c = (if 65 \<le> (of_char c :: nat) \<and> (of_char c :: nat) \<le> 90 then char_of ((of_char c :: nat) + 32) else c)"

definition string_toUpper :: "string \<Rightarrow> string" where
  "string_toUpper s = map toupper s"

text \<open>A piece of one character in front of a delimiter is dropped; \<open>piece\<close> is read since the last one.\<close>

fun split_loop :: "char \<Rightarrow> string \<Rightarrow> string \<Rightarrow> string set" where
  "split_loop delimiter piece [] = (if piece \<noteq> [] then {piece} else {})"
| "split_loop delimiter piece (c # s) =
     (if c = delimiter then (if length piece > 1 then {piece} else {}) \<union> split_loop delimiter [] s
      else split_loop delimiter (piece @ [c]) s)"

definition string_split :: "string \<Rightarrow> char \<Rightarrow> string set" where
  "string_split s delimiter = split_loop delimiter [] s"

section \<open>Dictionaries\<close>

record Dictionary =
  di_name :: string
  di_data :: "(string \<times> string) list"

definition Dictionary_new :: "string \<Rightarrow> Dictionary" where
  "Dictionary_new name = \<lparr>di_name = name, di_data = []\<rparr>"

definition di_has :: "string \<Rightarrow> Dictionary \<Rightarrow> bool" where
  "di_has key d = (map_of (di_data d) (string_toUpper key) \<noteq> None)"

definition getString :: "string \<Rightarrow> bool \<Rightarrow> Dictionary \<Rightarrow> fix_exception + string" where
  "getString key capitalize d =
     (case map_of (di_data d) (string_toUpper key) of
        None \<Rightarrow> Inl (ConfigError (key @ '' not defined''))
      | Some result \<Rightarrow> Inr (if capitalize then map toupper result else result))"

text \<open>A value that does not convert.\<close>

definition illegal :: "string \<Rightarrow> Dictionary \<Rightarrow> fix_exception + 'b" where
  "illegal key d = and_then (getString key False d) (\<lambda>v.
     Inl (ConfigError (''Illegal value '' @ v @ '' for '' @ key)))"

definition getInt :: "string \<Rightarrow> Dictionary \<Rightarrow> fix_exception + int" where
  "getInt key d = and_then (getString key False d) (\<lambda>v.
     case IntT_parse True v :: 32 word option of None \<Rightarrow> illegal key d | Some n \<Rightarrow> Inr (sint n))"

text \<open>The value of a float and its text come from the library of the conversions.\<close>

definition getDouble :: "(string \<Rightarrow> 'd) \<Rightarrow> string \<Rightarrow> Dictionary \<Rightarrow> fix_exception + 'd" where
  "getDouble strtod key d = and_then (getString key False d) (\<lambda>v.
     if Double_accepts v then Inr (strtod v) else illegal key d)"

definition getBool :: "string \<Rightarrow> Dictionary \<Rightarrow> fix_exception + bool" where
  "getBool key d = and_then (getString key False d) (\<lambda>v.
     case Bool_parse v of None \<Rightarrow> illegal key d | Some b \<Rightarrow> Inr b)"

definition di_getDay :: "string \<Rightarrow> Dictionary \<Rightarrow> fix_exception + int" where
  "di_getDay key d = and_then (getString key False d) (\<lambda>v.
     if length v < 2 then illegal key d
     else let abbr = map tolower (take 2 v) in
       if abbr = ''su'' then Inr 1
       else if abbr = ''mo'' then Inr 2
       else if abbr = ''tu'' then Inr 3
       else if abbr = ''we'' then Inr 4
       else if abbr = ''th'' then Inr 5
       else if abbr = ''fr'' then Inr 6
       else if abbr = ''sa'' then Inr 7
       else Inr (-1))"

definition di_setString :: "string \<Rightarrow> string \<Rightarrow> Dictionary \<Rightarrow> Dictionary" where
  "di_setString key val d = d\<lparr>di_data := map_put (string_strip (string_toUpper key)) (string_strip val) (di_data d)\<rparr>"

definition setInt :: "string \<Rightarrow> int \<Rightarrow> Dictionary \<Rightarrow> Dictionary" where
  "setInt key val d = d\<lparr>di_data := map_put (string_strip (string_toUpper key)) (int_text val) (di_data d)\<rparr>"

definition setDouble :: "('d \<Rightarrow> string) \<Rightarrow> string \<Rightarrow> 'd \<Rightarrow> Dictionary \<Rightarrow> Dictionary" where
  "setDouble dtoa key val d = d\<lparr>di_data := map_put (string_strip (string_toUpper key)) (dtoa val) (di_data d)\<rparr>"

definition setBool :: "string \<Rightarrow> bool \<Rightarrow> Dictionary \<Rightarrow> Dictionary" where
  "setBool key val d = d\<lparr>di_data := map_put (string_strip (string_toUpper key)) (Bool_convert val) (di_data d)\<rparr>"

definition setDay :: "string \<Rightarrow> int \<Rightarrow> Dictionary \<Rightarrow> Dictionary" where
  "setDay key val d =
     (if val = 1 then di_setString key ''SU'' d
      else if val = 2 then di_setString key ''MO'' d
      else if val = 3 then di_setString key ''TU'' d
      else if val = 4 then di_setString key ''WE'' d
      else if val = 5 then di_setString key ''TH'' d
      else if val = 6 then di_setString key ''FR'' d
      else if val = 7 then di_setString key ''SA'' d
      else d)"

text \<open>The entries of another dictionary whose keys are missing.\<close>

definition merge_entry :: "string \<times> string \<Rightarrow> Dictionary \<Rightarrow> Dictionary" where
  "merge_entry e d =
     (if map_of (di_data d) (fst e) = None then d\<lparr>di_data := map_put (fst e) (snd e) (di_data d)\<rparr> else d)"

definition di_merge :: "Dictionary \<Rightarrow> Dictionary \<Rightarrow> Dictionary" where
  "di_merge toMerge d = fold merge_entry (di_data toMerge) d"

section \<open>Environment variables\<close>

text \<open>\<^verbatim>\<open>strchr\<close> finds the end of the text as well.\<close>

definition ends_name :: "char \<Rightarrow> bool" where
  "ends_name c = (c = CHR 0x00 \<or> c \<in> set ('' /:;,.='' @ [CHR 0x22, CHR 0x27] @ ''?#+*()[]{}$&%'' @ [CHR 0x09, CHR 0x0A]))"

text \<open>
  After a \<^verbatim>\<open>$\<close>: the name of the variable and the text behind it, \<open>None\<close> when the text ends too early. The
  first character of the name is taken whatever it is.
\<close>

definition variable :: "string \<Rightarrow> (string \<times> string) option" where
  "variable s =
     (let inBraces = (s \<noteq> [] \<and> hd s \<in> {CHR ''('', CHR ''{''});
          s = (if inBraces then tl s else s)
      in if length s < 2 then None
         else let varName = hd s # takeWhile (\<lambda>c. \<not> ends_name c) (tl s);
                  rest = dropWhile (\<lambda>c. \<not> ends_name c) (tl s);
                  rest = (if inBraces \<and> rest \<noteq> [] \<and> hd rest \<in> {CHR '')'', CHR ''}''} then tl rest else rest)
              in Some (varName, rest))"

definition escaped :: "char \<Rightarrow> char" where
  "escaped c = (if c = CHR ''t'' then CHR 0x09 else if c = CHR ''r'' then CHR 0x0D else if c = CHR ''n'' then CHR 0x0A else c)"

lemma variable_shorter: "variable s = Some (name, rest) \<Longrightarrow> length rest < length s"
proof -
  assume *: "variable s = Some (name, rest)"
  have len: "length (dropWhile P xs) \<le> length xs" for P and xs :: string by (rule length_dropWhile_le)
  have tl: "length (tl s) \<le> length s" by simp
  show ?thesis
    using * len [of "\<lambda>c. \<not> ends_name c" "tl (tl s)"] len [of "\<lambda>c. \<not> ends_name c" "tl s"]
    by (auto simp: variable_def Let_def split: if_splits)
qed

function resolveEnvVars :: "(string \<Rightarrow> string option) \<Rightarrow> string \<Rightarrow> string" where
  "resolveEnvVars env [] = []"
| "resolveEnvVars env (c # s) =
     (if s \<noteq> [] \<and> c = CHR 0x5C then escaped (hd s) # resolveEnvVars env (tl s)
      else if s \<noteq> [] \<and> c = CHR ''$'' then
        (case variable s of
           None \<Rightarrow> []
         | Some (varName, rest) \<Rightarrow>
             (case env (takeWhile (\<lambda>c. c \<noteq> CHR 0x00) varName) of None \<Rightarrow> [] | Some varValue \<Rightarrow> varValue) @ resolveEnvVars env rest)
      else c # resolveEnvVars env s)"
  by pat_completeness auto
termination
  by (relation "measure (\<lambda>(env, s). length s)") (auto dest: variable_shorter)

section \<open>Files of sections\<close>

definition isComment :: "string \<Rightarrow> bool" where
  "isComment line = (line \<noteq> [] \<and> hd line = CHR ''#'')"

definition isSection :: "string \<Rightarrow> bool" where
  "isSection line = (line \<noteq> [] \<and> hd line = CHR ''['' \<and> last line = CHR '']'')"

definition splitSection :: "string \<Rightarrow> string" where
  "splitSection line = string_strip (take (length line - 2) (drop 1 line))"

definition isKeyValue :: "string \<Rightarrow> bool" where
  "isKeyValue line = (CHR ''='' \<in> set line)"

definition splitKeyValue :: "string \<Rightarrow> string \<times> string" where
  "splitKeyValue line = (takeWhile (\<lambda>c. c \<noteq> CHR ''='') line, tl (dropWhile (\<lambda>c. c \<noteq> CHR ''='') line))"

text \<open>
  The lines \<^verbatim>\<open>getline\<close> reads into a buffer of 1024 characters: a line that does not fit stops the
  reading for good.
\<close>

function stream_lines :: "string \<Rightarrow> string list" where
  "stream_lines s =
     (if s = [] then []
      else let line = takeWhile (\<lambda>c. c \<noteq> CHR 0x0A) s; rest = dropWhile (\<lambda>c. c \<noteq> CHR 0x0A) s
        in if length line > 1023 then [] else line # stream_lines (tl rest))"
  by pat_completeness auto
termination
proof (relation "measure length", goal_cases)
  case (2 s line rest)
  have "length (dropWhile (\<lambda>c. c \<noteq> CHR 0x0A) s) \<le> length s" by (rule length_dropWhile_le)
  with 2 show ?case by (cases "dropWhile (\<lambda>c. c \<noteq> CHR 0x0A) s") auto
qed simp

declare stream_lines.simps [simp del]

text \<open>A line, as the text up to its first null character, goes to the last section.\<close>

definition settings_line :: "(string \<Rightarrow> string option) option \<Rightarrow> string \<Rightarrow> Dictionary list \<Rightarrow> Dictionary list" where
  "settings_line resolve buffer sections =
     (let line = string_strip (takeWhile (\<lambda>c. c \<noteq> CHR 0x00) buffer) in
      if isComment line then sections
      else if isSection line then sections @ [Dictionary_new (splitSection line)]
      else if isKeyValue line then
        (if sections = [] then sections
         else let (k, v) = splitKeyValue line in
           butlast sections @ [di_setString k (case resolve of None \<Rightarrow> v | Some env \<Rightarrow> resolveEnvVars env v) (last sections)])
      else sections)"

definition Settings_read :: "(string \<Rightarrow> string option) option \<Rightarrow> string \<Rightarrow> Dictionary list" where
  "Settings_read resolve txt = fold (settings_line resolve) (stream_lines txt) []"

definition Settings_get :: "string \<Rightarrow> Dictionary list \<Rightarrow> Dictionary list" where
  "Settings_get name sections = filter (\<lambda>d. di_name d = name) sections"

section \<open>Settings of sessions\<close>

record SessionSettings =
  ss_settings :: "(string \<times> (SessionID \<times> Dictionary)) list"
  ss_defaults :: Dictionary
  ss_resolveEnvVars :: "(string \<Rightarrow> string option) option" \<comment> \<open>the variables, when they are resolved\<close>

definition SessionSettings_new :: "(string \<Rightarrow> string option) option \<Rightarrow> SessionSettings" where
  "SessionSettings_new resolve = \<lparr>ss_settings = [], ss_defaults = Dictionary_new [], ss_resolveEnvVars = resolve\<rparr>"

definition ss_has :: "SessionID \<Rightarrow> SessionSettings \<Rightarrow> bool" where
  "ss_has sid s = (map_of (ss_settings s) (sid_frozenString sid) \<noteq> None)"

definition ss_get :: "SessionID \<Rightarrow> SessionSettings \<Rightarrow> fix_exception + Dictionary" where
  "ss_get sid s = (case map_of (ss_settings s) (sid_frozenString sid) of
     None \<Rightarrow> Inl (ConfigError ''Session not found'') | Some (_, d) \<Rightarrow> Inr d)"

definition quoted :: "string \<Rightarrow> string" where
  "quoted s = [CHR 0x27] @ s @ [CHR 0x27]"

definition ss_validate :: "Dictionary \<Rightarrow> fix_exception + unit" where
  "ss_validate dictionary =
     and_then (getString ''BeginString'' False dictionary) (\<lambda>beginString.
       if beginString \<notin> {''FIX.4.0'', ''FIX.4.1'', ''FIX.4.2'', ''FIX.4.3'', ''FIX.4.4'', ''FIXT.1.1''}
       then Inl (ConfigError ''BeginString must be FIX.4.0 to FIX.4.4 or FIXT.1.1'')
       else and_then (getString ''ConnectionType'' False dictionary) (\<lambda>connectionType.
         if connectionType \<notin> {''initiator'', ''acceptor''}
         then Inl (ConfigError (''ConnectionType must be '' @ quoted ''initiator'' @ '' or '' @ quoted ''acceptor''))
         else Inr ()))"

definition ss_set :: "SessionID \<Rightarrow> Dictionary \<Rightarrow> SessionSettings \<Rightarrow> fix_exception + SessionSettings" where
  "ss_set sid settings s =
     (if ss_has sid s then Inl (ConfigError (''Duplicate Session '' @ SessionID_toString sid))
      else
        let settings = di_setString ''BeginString'' (sid_beginString sid) settings;
            settings = di_setString ''SenderCompID'' (sid_senderCompID sid) settings;
            settings = di_setString ''TargetCompID'' (sid_targetCompID sid) settings;
            settings = di_merge (ss_defaults s) settings
        in and_then (ss_validate settings) (\<lambda>_.
          Inr (s\<lparr>ss_settings := map_put (sid_frozenString sid) (sid, settings) (ss_settings s)\<rparr>)))"

definition ss_set_defaults :: "Dictionary \<Rightarrow> SessionSettings \<Rightarrow> SessionSettings" where
  "ss_set_defaults defaults s =
     s\<lparr>ss_defaults := defaults, ss_settings := map (\<lambda>(k, sid, d). (k, sid, di_merge defaults d)) (ss_settings s)\<rparr>"

definition ss_getSessions :: "SessionSettings \<Rightarrow> SessionID list" where
  "ss_getSessions s = map (\<lambda>(k, sid, d). sid) (ss_settings s)"

text \<open>A section of a session, whose identity is read from it.\<close>

definition read_session :: "Dictionary \<Rightarrow> Dictionary \<Rightarrow> SessionSettings \<Rightarrow> fix_exception + SessionSettings" where
  "read_session def dict s =
     (let dict = di_merge def dict in
      and_then (getString ''BeginString'' False dict) (\<lambda>beginString.
      and_then (getString ''SenderCompID'' False dict) (\<lambda>senderCompID.
      and_then (getString ''TargetCompID'' False dict) (\<lambda>targetCompID.
      and_then (if di_has ''SessionQualifier'' dict then getString ''SessionQualifier'' False dict else Inr [])
        (\<lambda>sessionQualifier.
        ss_set (SessionID_new beginString senderCompID targetCompID sessionQualifier) dict s)))))"

fun read_sessions :: "Dictionary \<Rightarrow> Dictionary list \<Rightarrow> SessionSettings \<Rightarrow> fix_exception + SessionSettings" where
  "read_sessions def [] s = Inr s"
| "read_sessions def (dict # dicts) s = and_then (read_session def dict s) (read_sessions def dicts)"

definition SessionSettings_read :: "string \<Rightarrow> SessionSettings \<Rightarrow> fix_exception + SessionSettings" where
  "SessionSettings_read txt s =
     (let settings = Settings_read (ss_resolveEnvVars s) txt;
          defs = Settings_get ''DEFAULT'' settings;
          def = (if length defs \<noteq> 0 then hd defs else Dictionary_new [])
      in read_sessions def (Settings_get ''SESSION'' settings) (ss_set_defaults def s))"

section \<open>Writing\<close>

definition newline :: string where
  "newline = [CHR 0x0A]"

definition param_text :: "string \<times> string \<Rightarrow> string" where
  "param_text p = fst p @ ''='' @ snd p @ newline"

definition session_text :: "Dictionary \<Rightarrow> Dictionary \<Rightarrow> string" where
  "session_text defaults d =
     ''[SESSION]'' @ newline @
     (if di_data d = [] then []
      else concat (map param_text (filter (\<lambda>p. \<not> (di_has (fst p) defaults \<and> getString (fst p) False defaults = Inr (snd p))) (di_data d)))
        @ newline)"

definition SessionSettings_write :: "SessionSettings \<Rightarrow> string" where
  "SessionSettings_write s =
     (if di_data (ss_defaults s) = [] then []
      else ''[DEFAULT]'' @ newline @ concat (map param_text (di_data (ss_defaults s))) @ newline) @
     concat (map (\<lambda>(k, sid, d). session_text (ss_defaults s) d) (ss_settings s))"

end
