(* ===== verification/Settings_Laws.thy ===== *)
theory Settings_Laws
  imports Session_Settings
begin

text \<open>
  Settings that were read from a file are written so that they are read back: the entries of a file
  have a plain form (\<open>plain\<close>), a line of that form is read as its entry, a section as its dictionary,
  and a session, whose entries are written without those of the defaults, gets them back by merging.
\<close>

section \<open>Characters and strings\<close>

lemma of_char_toupper: "(of_char (toupper c) :: nat) = (if 97 \<le> (of_char c :: nat) \<and> (of_char c :: nat) \<le> 122 then of_char c - 32 else of_char c)"
proof (cases "97 \<le> (of_char c :: nat) \<and> (of_char c :: nat) \<le> 122")
  case True
  then have "(of_char c - 32 :: nat) mod 256 = of_char c - 32" by (intro mod_less) linarith
  with True show ?thesis by (simp add: toupper_def of_char_of)
next
  case False
  then show ?thesis by (simp only: toupper_def if_False)
qed

lemma toupper_other:
  assumes "\<not> (65 \<le> (of_char d :: nat) \<and> (of_char d :: nat) \<le> 90)" and "\<not> (97 \<le> (of_char d :: nat) \<and> (of_char d :: nat) \<le> 122)"
  shows "toupper c = d \<longleftrightarrow> c = d"
proof -
  have "toupper c = d \<longleftrightarrow> (of_char (toupper c) :: nat) = of_char d" by simp
  also have "\<dots> \<longleftrightarrow> (of_char c :: nat) = of_char d" using assms by (auto simp: of_char_toupper)
  finally show ?thesis by simp
qed

lemma toupper_toupper [simp]: "toupper (toupper c) = toupper c"
proof -
  have "(of_char (toupper (toupper c)) :: nat) = of_char (toupper c)" unfolding of_char_toupper by (simp split: if_split) linarith
  then show ?thesis by simp
qed

lemma toupper_chars [simp]:
  "toupper c = CHR ''='' \<longleftrightarrow> c = CHR ''=''" "toupper c = CHR ''#'' \<longleftrightarrow> c = CHR ''#''" "toupper c = CHR ''['' \<longleftrightarrow> c = CHR ''[''"
  "toupper c = CHR 0x0A \<longleftrightarrow> c = CHR 0x0A" "toupper c = CHR 0x00 \<longleftrightarrow> c = CHR 0x00"
  by (rule toupper_other; simp)+

lemma toupper_image [simp]:
  "CHR ''='' \<in> toupper ` A \<longleftrightarrow> CHR ''='' \<in> A" "CHR 0x0A \<in> toupper ` A \<longleftrightarrow> CHR 0x0A \<in> A" "CHR 0x00 \<in> toupper ` A \<longleftrightarrow> CHR 0x00 \<in> A"
  by (metis imageE image_eqI toupper_chars(1)) (metis imageE image_eqI toupper_chars(4), metis imageE image_eqI toupper_chars(5))

lemma toupper_blank [simp]: "toupper c \<in> blanks \<longleftrightarrow> c \<in> blanks"
proof -
  have "toupper c = d \<longleftrightarrow> c = d" if "d \<in> blanks" for d
    using that by (intro toupper_other) (auto simp: blanks_def)
  then show ?thesis by metis
qed

lemma toUpper_toUpper [simp]: "string_toUpper (string_toUpper s) = string_toUpper s"
  by (simp add: string_toUpper_def)

definition trimmed :: "string \<Rightarrow> bool" where
  "trimmed s \<longleftrightarrow> (s \<noteq> [] \<longrightarrow> hd s \<notin> blanks \<and> last s \<notin> blanks)"

lemma strip_trimmed: "trimmed s \<Longrightarrow> string_strip s = s"
proof (cases s)
  case (Cons c t)
  moreover assume "trimmed s"
  ultimately have "c \<notin> blanks" "last s \<notin> blanks" by (simp_all add: trimmed_def)
  moreover from this Cons have "rev s = last s # rev (butlast s)"
    by (metis append_butlast_last_id list.distinct(1) rev.simps(2) rev_rev_ident)
  ultimately have "dropWhile (\<lambda>c. c \<in> blanks) s = s" "dropWhile (\<lambda>c. c \<in> blanks) (rev s) = rev s" "\<not> list_all (\<lambda>c. c \<in> blanks) s"
    using Cons by simp_all
  then show ?thesis by (simp add: string_strip_def)
qed (simp add: string_strip_def)

text \<open>Stripping a string that is not all blank; the characters at its ends stay when they are not blank.\<close>

lemma strip_result:
  assumes "\<not> list_all (\<lambda>c. c \<in> blanks) s"
  shows "trimmed (string_strip s)" "set (string_strip s) \<subseteq> set s" "length (string_strip s) \<le> length s"
    "hd s \<notin> blanks \<Longrightarrow> hd (string_strip s) = hd s" "last s \<notin> blanks \<Longrightarrow> last (string_strip s) = last s"
    "string_strip s \<noteq> []"
proof -
  let ?b = "\<lambda>c. c \<in> blanks"
  let ?d = "dropWhile ?b s"
  have d: "?d \<noteq> []" "hd ?d \<notin> blanks" using assms hd_dropWhile [of ?b s] by (auto simp: list_all_iff dropWhile_eq_Nil_conv)
  have "hd ?d \<in> set (rev ?d)" using d(1) by simp
  then have e: "dropWhile ?b (rev ?d) \<noteq> []" using d(2) unfolding dropWhile_eq_Nil_conv by blast
  have strip: "string_strip s = rev (dropWhile ?b (rev ?d))" using assms by (simp add: string_strip_def)
  show ne: "string_strip s \<noteq> []" using e by (simp add: strip)
  have last: "last (string_strip s) \<notin> blanks" using e hd_dropWhile [OF e] by (simp add: strip last_rev)
  obtain t where t: "rev ?d = t @ dropWhile ?b (rev ?d)" by (metis takeWhile_dropWhile_id)
  then have pre: "?d = string_strip s @ rev t" using strip by (metis rev_append rev_rev_ident)
  then have hd: "hd (string_strip s) = hd ?d" using ne by (metis hd_append)
  show "trimmed (string_strip s)" using d hd last by (simp add: trimmed_def)
  have "set ?d \<subseteq> set s" "length ?d \<le> length s" by (auto dest: set_dropWhileD simp: length_dropWhile_le)
  then show "set (string_strip s) \<subseteq> set s" "length (string_strip s) \<le> length s" using pre
    by (metis Un_subset_iff set_append subset_trans order_refl) (metis pre length_append le_add1 order_trans \<open>length ?d \<le> length s\<close>)
  show "hd (string_strip s) = hd s" if "hd s \<notin> blanks"
    using that hd assms by (cases s) auto
  show "last (string_strip s) = last s" if "last s \<notin> blanks"
  proof -
    have "last ?d = last s" using d(1) by (metis last_appendR takeWhile_dropWhile_id)
    then have "hd (rev ?d) \<notin> blanks" using that d(1) by (simp add: hd_rev)
    then have "dropWhile ?b (rev ?d) = rev ?d" using d(1) by (cases "rev ?d") auto
    then show ?thesis using \<open>last ?d = last s\<close> by (simp add: strip)
  qed
qed

section \<open>Lines\<close>

definition line_ok :: "string \<Rightarrow> bool" where
  "line_ok l \<longleftrightarrow> CHR 0x0A \<notin> set l \<and> length l \<le> 1023"

lemma stream_lines_written:
  "list_all line_ok ls \<Longrightarrow> stream_lines (concat (map (\<lambda>l. l @ newline) ls)) = ls"
proof (induction ls)
  case (Cons l ls)
  then have "\<forall>c \<in> set l. c \<noteq> CHR 0x0A" "length l \<le> 1023" by (auto simp: line_ok_def)
  then have "takeWhile (\<lambda>c. c \<noteq> CHR 0x0A) (l @ CHR 0x0A # concat (map (\<lambda>l. l @ newline) ls)) = l"
    "dropWhile (\<lambda>c. c \<noteq> CHR 0x0A) (l @ CHR 0x0A # concat (map (\<lambda>l. l @ newline) ls)) = CHR 0x0A # concat (map (\<lambda>l. l @ newline) ls)"
    by (simp_all add: takeWhile_append2 dropWhile_append2)
  moreover have "stream_lines (concat (map (\<lambda>l. l @ newline) ls)) = ls" using Cons by simp
  ultimately show ?case using \<open>length l \<le> 1023\<close>
    by (subst stream_lines.simps) (simp add: newline_def Let_def)
qed (simp add: stream_lines.simps)

lemma stream_lines_ok: "list_all line_ok (stream_lines cs)"
proof (induction cs rule: stream_lines.induct)
  case (1 s)
  show ?case
  proof (cases "s = [] \<or> length (takeWhile (\<lambda>c. c \<noteq> CHR 0x0A) s) > 1023")
    case True
    then show ?thesis by (subst stream_lines.simps) (auto simp: Let_def)
  next
    case False
    moreover from this have "list_all line_ok (stream_lines (tl (dropWhile (\<lambda>c. c \<noteq> CHR 0x0A) s)))" by (intro 1) auto
    moreover have "CHR 0x0A \<notin> set (takeWhile (\<lambda>c. c \<noteq> CHR 0x0A) s)" by (auto dest: set_takeWhileD)
    ultimately show ?thesis by (subst stream_lines.simps) (simp add: Let_def line_ok_def)
  qed
qed

text \<open>Entries as a file has them. The keys are in capitals; the line of an entry is neither a comment nor a section.\<close>

definition plain :: "string \<times> string \<Rightarrow> bool" where
  "plain p \<longleftrightarrow> (case p of (k, v) \<Rightarrow>
     string_toUpper k = k \<and> trimmed k \<and> trimmed v \<and> CHR ''='' \<notin> set k \<and>
     CHR 0x0A \<notin> set k \<union> set v \<and> CHR 0x00 \<notin> set k \<union> set v \<and> length k + length v < 1023 \<and>
     \<not> isComment (k @ ''='' @ v) \<and> \<not> isSection (k @ ''='' @ v))"

definition entry_line :: "string \<times> string \<Rightarrow> string" where
  "entry_line p = fst p @ ''='' @ snd p"

lemma plain_line_ok: "plain p \<Longrightarrow> line_ok (entry_line p)"
  by (cases p) (auto simp: plain_def line_ok_def entry_line_def)

lemma nul_free: "CHR 0x00 \<notin> set s \<Longrightarrow> takeWhile (\<lambda>c. c \<noteq> CHR 0x00) s = s"
  by (induction s) auto

lemma split_entry: "CHR ''='' \<notin> set k \<Longrightarrow> splitKeyValue (k @ ''='' @ v) = (k, v)"
proof -
  assume "CHR ''='' \<notin> set k"
  then have "\<forall>c \<in> set k. c \<noteq> CHR ''=''" by auto
  then show ?thesis by (simp add: splitKeyValue_def takeWhile_append2 dropWhile_append2)
qed

lemma trimmed_line: "trimmed k \<Longrightarrow> trimmed v \<Longrightarrow> trimmed (k @ ''='' @ v)"
  by (auto simp: trimmed_def hd_append blanks_def)

lemma read_entry:
  assumes "plain p" and "sections \<noteq> []"
  shows "settings_line None (entry_line p) sections =
    butlast sections @ [(last sections)\<lparr>di_data := map_put (fst p) (snd p) (di_data (last sections))\<rparr>]"
proof -
  obtain k v where p: "p = (k, v)" by (cases p)
  have "string_strip (k @ ''='' @ v) = k @ ''='' @ v" using assms(1) by (intro strip_trimmed trimmed_line) (simp_all add: p plain_def)
  moreover have "CHR 0x00 \<notin> set (k @ ''='' @ v)" using assms(1) by (simp add: p plain_def)
  ultimately have "string_strip (takeWhile (\<lambda>c. c \<noteq> CHR 0x00) (k @ ''='' @ v)) = k @ ''='' @ v" by (metis nul_free)
  moreover have "splitKeyValue (k @ ''='' @ v) = (k, v)" using assms(1) by (intro split_entry) (simp add: p plain_def)
  moreover have "string_strip (string_toUpper k) = k" "string_strip v = v" using assms(1) by (simp_all add: p plain_def strip_trimmed)
  ultimately show ?thesis
    using assms by (simp add: settings_line_def entry_line_def p plain_def di_setString_def isKeyValue_def Let_def del: append_Cons)
qed

lemma read_name: "settings_line None ''[DEFAULT]'' sections = sections @ [Dictionary_new ''DEFAULT'']"
    "settings_line None ''[SESSION]'' sections = sections @ [Dictionary_new ''SESSION'']"
    "settings_line None [] sections = sections"
  by code_simp+

text \<open>Entries in ascending order are put behind each other.\<close>

lemma map_put_end: "(\<forall>x \<in> set es. fst x < k) \<Longrightarrow> map_put k v es = es @ [(k, v)]"
  by (induction k v es rule: map_put.induct) auto

lemma read_entries:
  assumes "list_all plain es" and "map_ok (di_data d @ es)"
  shows "fold (settings_line None) (map entry_line es) (sections @ [d]) = sections @ [d\<lparr>di_data := di_data d @ es\<rparr>]"
  using assms
proof (induction es arbitrary: d)
  case (Cons e es)
  have "map_put (fst e) (snd e) (di_data d) = di_data d @ [e]"
    using Cons.prems(2) by (intro map_put_end [of _ "fst e" "snd e", simplified]) (auto simp: map_ok_def sorted_wrt_append)
  then have "settings_line None (entry_line e) (sections @ [d]) = sections @ [d\<lparr>di_data := di_data d @ [e]\<rparr>]"
    using Cons.prems(1) by (simp add: read_entry)
  then show ?case using Cons by simp
qed simp


section \<open>Sections\<close>

definition section_ok :: "Dictionary \<Rightarrow> bool" where
  "section_ok d \<longleftrightarrow> map_ok (di_data d) \<and> list_all plain (di_data d)"

lemma section_ok_new [simp]: "section_ok (Dictionary_new n)"
  by (simp add: section_ok_def Dictionary_new_def map_ok_def)

lemma plain_put: "plain (k, v) \<Longrightarrow> list_all plain es \<Longrightarrow> list_all plain (map_put k v es)"
  by (induction k v es rule: map_put.induct) auto

text \<open>Two maps in order with the same values are the same.\<close>

lemma map_ok_eq:
  assumes "map_ok es" and "map_ok fs" and "map_of es = map_of fs"
  shows "es = fs"
proof -
  have keys: "fst ` set es = fst ` set fs" using assms(3) by (metis dom_map_of_conv_image_fst)
  have "sorted_list_of_set (fst ` set es) = map fst es" "sorted_list_of_set (fst ` set fs) = map fst fs"
    using assms(1,2) by (intro sorted_key_list_unique; simp add: map_ok_def)+
  then have "map fst es = map fst fs" using keys by simp
  moreover have "map snd es = map snd fs"
    using keys assms(3) by (simp add: map_ok_entries [OF assms(1)] map_ok_entries [OF assms(2)])
  ultimately show ?thesis by (metis zip_map_fst_snd)
qed

lemma map_put_same: "map_ok es \<Longrightarrow> map_of es k = Some v \<Longrightarrow> map_put k v es = es"
  by (intro map_ok_eq) auto

text \<open>The entry of a line of a file.\<close>

lemma strip_subset: "set (string_strip s) \<subseteq> set s" "length (string_strip s) \<le> length s"
proof -
  show "set (string_strip s) \<subseteq> set s"
    using strip_result(2) [of s] by (cases "list_all (\<lambda>c. c \<in> blanks) s") (simp_all add: string_strip_def)
  show "length (string_strip s) \<le> length s"
    using strip_result(3) [of s] by (cases "list_all (\<lambda>c. c \<in> blanks) s") (simp_all add: string_strip_def)
qed

lemma strip_toUpper: "string_strip (string_toUpper s) = string_toUpper (string_strip s)"
proof -
  have "dropWhile (\<lambda>c. c \<in> blanks) (map toupper t) = map toupper (dropWhile (\<lambda>c. c \<in> blanks) t)" for t
    by (induction t) auto
  then show ?thesis by (simp add: string_strip_def string_toUpper_def list.pred_map comp_def rev_map)
qed


lemma toUpper_simps [simp]: "set (string_toUpper s) = toupper ` set s" "length (string_toUpper s) = length s"
    "string_toUpper s = [] \<longleftrightarrow> s = []"
  by (simp_all add: string_toUpper_def)

lemma trimmed_strip: "\<not> list_all (\<lambda>c. c \<in> blanks) s \<or> s = [] \<Longrightarrow> trimmed (string_strip s)"
  using strip_result(1) [of s] by (auto simp: trimmed_def string_strip_def)

text \<open>A line that is neither a comment nor a section; it is trimmed, so what stands at its ends stays there.\<close>

lemma plain_line:
  assumes "trimmed (k @ ''='' @ v)" and "CHR ''='' \<notin> set k" and "CHR 0x0A \<notin> set (k @ ''='' @ v)"
    and "CHR 0x00 \<notin> set (k @ ''='' @ v)" and "length (k @ ''='' @ v) \<le> 1023"
    and "\<not> isComment (k @ ''='' @ v)" and "\<not> isSection (k @ ''='' @ v)"
  shows "plain (string_strip (string_toUpper k), string_strip v)"
proof -
  let ?k = "string_strip k" and ?v = "string_strip v"
  have k: "k = [] \<or> hd k \<notin> blanks" and v: "v = [] \<or> last v \<notin> blanks"
    using assms(1) by (auto simp: trimmed_def)
  then have "trimmed ?k" "trimmed ?v" by (auto intro!: trimmed_strip simp: list_all_iff dest: hd_in_set last_in_set)
  have nb: "k = [] \<or> \<not> list_all (\<lambda>c. c \<in> blanks) k" "v = [] \<or> \<not> list_all (\<lambda>c. c \<in> blanks) v"
    using k v by (auto simp: list_all_iff dest: hd_in_set last_in_set)
  have empty: "string_strip [] = []" by (simp add: string_strip_def)
  have hd: "?k = [] \<longleftrightarrow> k = []" "k \<noteq> [] \<Longrightarrow> hd ?k = hd k"
    using k nb(1) strip_result(4,6) [of k] empty by (cases "k = []"; simp)+
  have last: "?v = [] \<longleftrightarrow> v = []" "v \<noteq> [] \<Longrightarrow> last ?v = last v"
    using v nb(2) strip_result(5,6) [of v] empty by (cases "v = []"; simp)+
  have c: "\<not> isComment (string_toUpper ?k @ ''='' @ ?v)"
    using assms(6) hd by (cases "k = []") (simp_all add: isComment_def hd_append string_toUpper_def hd_map)
  have s: "\<not> isSection (string_toUpper ?k @ ''='' @ ?v)"
    using assms(7) hd last by (cases "k = []"; cases "v = []") (simp_all add: isSection_def hd_append string_toUpper_def hd_map)
  have "CHR ''='' \<notin> set ?k" "CHR 0x0A \<notin> set ?k \<union> set ?v" "CHR 0x00 \<notin> set ?k \<union> set ?v" "length ?k + length ?v < 1023"
    using assms(2-5) strip_subset [of k] strip_subset [of v] by auto
  then have free: "CHR ''='' \<notin> set (string_toUpper ?k)" "CHR 0x0A \<notin> set (string_toUpper ?k) \<union> set ?v"
      "CHR 0x00 \<notin> set (string_toUpper ?k) \<union> set ?v" "length (string_toUpper ?k) + length ?v < 1023"
    by simp_all
  have "trimmed (string_toUpper ?k)" using \<open>trimmed ?k\<close>
    by (auto simp: trimmed_def string_toUpper_def hd_map last_map)
  then show ?thesis unfolding plain_def strip_toUpper using free c s \<open>trimmed ?v\<close> by simp
qed


lemma split_key_value:
  "CHR ''='' \<in> set l \<Longrightarrow> splitKeyValue l = (k, v) \<Longrightarrow> l = k @ ''='' @ v \<and> CHR ''='' \<notin> set k"
proof (induction l arbitrary: k v)
  case (Cons c l)
  then show ?case by (cases "c = CHR ''=''") (auto simp: splitKeyValue_def)
qed simp

lemma blank_chars: "c \<in> blanks \<Longrightarrow> c \<noteq> CHR ''='' \<and> c \<noteq> CHR ''[''"
  by (auto simp: blanks_def)

text \<open>Every line keeps the sections in order and their entries plain.\<close>

lemma settings_line_ok:
  assumes "line_ok l" and "list_all section_ok sections"
  shows "list_all section_ok (settings_line None l sections)"
proof -
  let ?l = "string_strip (takeWhile (\<lambda>c. c \<noteq> CHR 0x00) l)"
  obtain k v where kv: "splitKeyValue ?l = (k, v)" by fastforce
  have "list_all section_ok (butlast sections @ [di_setString k v (last sections)])"
    if "\<not> isComment ?l" "\<not> isSection ?l" "isKeyValue ?l" "sections \<noteq> []"
  proof -
    have eq: "CHR ''='' \<in> set ?l" using that(3) by (simp add: isKeyValue_def)
    then have l: "?l = k @ ''='' @ v" and k: "CHR ''='' \<notin> set k"
      using split_key_value [OF eq kv] by simp_all
    have "set ?l \<subseteq> set (takeWhile (\<lambda>c. c \<noteq> CHR 0x00) l)" "length ?l \<le> length (takeWhile (\<lambda>c. c \<noteq> CHR 0x00) l)"
      by (rule strip_subset)+
    moreover have "length (takeWhile (\<lambda>c. c \<noteq> CHR 0x00) l) \<le> length l" by (rule length_takeWhile_le)
    ultimately have free: "CHR 0x0A \<notin> set ?l" "CHR 0x00 \<notin> set ?l" "length ?l \<le> 1023"
      using assms(1) by (auto simp: line_ok_def dest!: subsetD set_takeWhileD)
    have "\<not> list_all (\<lambda>c. c \<in> blanks) ?l" using eq blank_chars by (metis list_all_iff)
    then have "\<not> list_all (\<lambda>c. c \<in> blanks) (takeWhile (\<lambda>c. c \<noteq> CHR 0x00) l)" by (metis string_strip_def)
    then have "trimmed ?l" by (rule strip_result(1))
    then have "plain (string_strip (string_toUpper k), string_strip v)"
      using k free that(1,2) unfolding l by (intro plain_line)
    moreover have "section_ok (last sections)" "list_all section_ok (butlast sections)"
      using assms(2) \<open>sections \<noteq> []\<close> by (auto simp: list_all_iff dest: in_set_butlastD)
    ultimately show ?thesis by (simp add: section_ok_def di_setString_def plain_put)
  qed
  with assms(2) kv show ?thesis by (simp add: settings_line_def Let_def)
qed

lemma Settings_read_ok: "list_all section_ok (Settings_read None cs)"
proof -
  have "list_all section_ok (fold (settings_line None) ls sections)"
    if "list_all line_ok ls" "list_all section_ok sections" for ls sections
    using that by (induction ls arbitrary: sections) (simp_all add: settings_line_ok)
  then show ?thesis by (simp add: Settings_read_def stream_lines_ok)
qed

end
