(* ===== verification/Settings_Reread.thy ===== *)
theory Settings_Reread
  imports Settings_Laws
begin

text \<open>
  Merging the defaults into a section, the sessions read from a file (\<open>settings_ok\<close>), and reading back
  what was written of them.
\<close>

section \<open>Merging\<close>

text \<open>The value of a key is the one of the section, that of the defaults where it has none.\<close>

lemma merge_entries:
  assumes "map_ok (di_data d)" and "map_ok es"
  shows "map_ok (di_data (fold merge_entry es d)) \<and> di_name (fold merge_entry es d) = di_name d \<and>
    map_of (di_data (fold merge_entry es d)) x = (case map_of (di_data d) x of None \<Rightarrow> map_of es x | Some w \<Rightarrow> Some w)"
  using assms
proof (induction es arbitrary: d)
  case (Cons e es)
  have "map_ok es" using Cons.prems(2) by (simp add: map_ok_def)
  moreover have "map_ok (di_data (merge_entry e d))" "di_name (merge_entry e d) = di_name d"
      "map_of (di_data (merge_entry e d)) x =
        (case map_of (di_data d) x of None \<Rightarrow> (if x = fst e then Some (snd e) else None) | Some w \<Rightarrow> Some w)"
    using Cons.prems(1) by (auto simp: merge_entry_def split: option.splits)
  ultimately show ?case using Cons.IH [of "merge_entry e d"] by (cases e) (auto split: option.splits)
qed (simp split: option.splits)

lemma di_merge_ok:
  assumes "section_ok d" and "section_ok def"
  shows "section_ok (di_merge def d)" "di_name (di_merge def d) = di_name d"
    "map_of (di_data (di_merge def d)) x = (case map_of (di_data d) x of None \<Rightarrow> map_of (di_data def) x | Some w \<Rightarrow> Some w)"
proof -
  note * = merge_entries [of d "di_data def", folded di_merge_def]
  have ok: "map_ok (di_data d)" "map_ok (di_data def)" using assms by (simp_all add: section_ok_def)
  then show "di_name (di_merge def d) = di_name d"
    and of: "\<And>x. map_of (di_data (di_merge def d)) x = (case map_of (di_data d) x of None \<Rightarrow> map_of (di_data def) x | Some w \<Rightarrow> Some w)"
    using * by simp_all
  have "map_ok (di_data (di_merge def d))" using * ok by simp
  moreover have "plain (k, v)" if "(k, v) \<in> set (di_data (di_merge def d))" for k v
  proof -
    have "distinct (map fst (di_data (di_merge def d)))" using \<open>map_ok (di_data (di_merge def d))\<close> by (simp add: map_ok_def strict_sorted_iff)
    then have "map_of (di_data (di_merge def d)) k = Some v" using that by simp
    then have "(k, v) \<in> set (di_data d) \<or> (k, v) \<in> set (di_data def)"
      unfolding of by (auto split: option.splits dest: map_of_SomeD)
    then show ?thesis using assms by (auto simp: section_ok_def list_all_iff)
  qed
  ultimately show "section_ok (di_merge def d)" by (auto simp: section_ok_def list_all_iff)
qed

text \<open>Nothing is merged when the keys of the defaults are there.\<close>

lemma di_merge_none: "(\<And>x. map_of (di_data def) x \<noteq> None \<Longrightarrow> map_of (di_data d) x \<noteq> None) \<Longrightarrow> di_merge def d = d"
proof -
  have "fold merge_entry es d = d" if "\<forall>e \<in> set es. map_of (di_data d) (fst e) \<noteq> None" for es
    using that by (induction es) (auto simp: merge_entry_def)
  moreover assume "\<And>x. map_of (di_data def) x \<noteq> None \<Longrightarrow> map_of (di_data d) x \<noteq> None"
  ultimately show ?thesis unfolding di_merge_def by (metis map_of_eq_None_iff image_eqI)
qed

text \<open>The entries a session is written with, those of the defaults left out, are merged into all of them.\<close>

lemma di_merge_written:
  assumes "section_ok d" and "section_ok def" and "\<And>x. map_of (di_data def) x \<noteq> None \<Longrightarrow> map_of (di_data d) x \<noteq> None"
    and "\<And>p. p \<in> set (di_data d) \<Longrightarrow> \<not> P p \<Longrightarrow> map_of (di_data def) (fst p) = Some (snd p)"
  shows "di_merge def (d\<lparr>di_data := filter P (di_data d)\<rparr>) = d"
proof -
  let ?f = "d\<lparr>di_data := filter P (di_data d)\<rparr>"
  have f: "section_ok ?f" using assms(1) by (auto simp: section_ok_def map_ok_filter list_all_iff)
  have dist: "distinct (map fst (di_data d))" using assms(1) by (simp add: section_ok_def map_ok_def strict_sorted_iff)
  have of: "map_of (filter P (di_data d)) x = Some v \<longleftrightarrow> (x, v) \<in> set (di_data d) \<and> P (x, v)" for x v
    using dist by (simp add: distinct_map_filter)
  have "map_of (di_data (di_merge def ?f)) x = map_of (di_data d) x" for x
  proof (cases "map_of (di_data d) x")
    case None
    then have "map_of (filter P (di_data d)) x = None" using of dist by (metis not_None_eq map_of_is_SomeI)
    moreover have "map_of (di_data def) x = None" using None assms(3) [of x] by blast
    ultimately show ?thesis using None by (simp add: di_merge_ok(3) [OF f assms(2)])
  next
    case (Some v)
    then have v: "(x, v) \<in> set (di_data d)" by (rule map_of_SomeD)
    show ?thesis
    proof (cases "P (x, v)")
      case True
      then have "map_of (filter P (di_data d)) x = Some v" using of v by blast
      then show ?thesis by (simp add: di_merge_ok(3) [OF f assms(2)] Some)
    next
      case False
      then have "map_of (filter P (di_data d)) x = None" using of v dist Some by (metis not_None_eq map_of_is_SomeI option.inject)
      then show ?thesis using assms(4) [OF v False] by (simp add: di_merge_ok(3) [OF f assms(2)] Some)
    qed
  qed
  then have "di_data (di_merge def ?f) = di_data d"
    using di_merge_ok(1) [OF f assms(2)] assms(1) by (intro map_ok_eq) (auto simp: section_ok_def)
  then show ?thesis using di_merge_ok(2) [OF f assms(2)] by (simp add: Dictionary.equality)
qed


section \<open>Sessions\<close>

definition identity :: "Dictionary \<Rightarrow> fix_exception + SessionID" where
  "identity d =
     and_then (getString ''BeginString'' False d) (\<lambda>beginString.
     and_then (getString ''SenderCompID'' False d) (\<lambda>senderCompID.
     and_then (getString ''TargetCompID'' False d) (\<lambda>targetCompID.
     and_then (if di_has ''SessionQualifier'' d then getString ''SessionQualifier'' False d else Inr []) (\<lambda>sessionQualifier.
       Inr (SessionID_new beginString senderCompID targetCompID sessionQualifier)))))"

lemma di_setString_same:
  assumes "section_ok d" and "getString key False d = Inr v" and "string_strip (string_toUpper key) = string_toUpper key"
  shows "di_setString key v d = d"
proof -
  have v: "map_of (di_data d) (string_toUpper key) = Some v" using assms(2) by (simp add: getString_def split: option.splits)
  then have "plain (string_toUpper key, v)" using assms(1) by (auto simp: section_ok_def list_all_iff dest: map_of_SomeD)
  then have "string_strip v = v" by (simp add: plain_def strip_trimmed)
  then show ?thesis using assms(1,3) v by (simp add: di_setString_def section_ok_def map_put_same)
qed

lemma SessionID_new_simps [simp]: "sid_beginString (SessionID_new b s t q) = b" "sid_senderCompID (SessionID_new b s t q) = s"
    "sid_targetCompID (SessionID_new b s t q) = t"
  by (simp_all add: SessionID_new_def sid_freeze_def Let_def)

lemma key_strip: "string_strip (string_toUpper ''BeginString'') = string_toUpper ''BeginString''"
    "string_strip (string_toUpper ''SenderCompID'') = string_toUpper ''SenderCompID''"
    "string_strip (string_toUpper ''TargetCompID'') = string_toUpper ''TargetCompID''"
  by code_simp+

lemma read_session_eq:
  assumes "section_ok d" and "section_ok (ss_defaults s)"
  shows "read_session (ss_defaults s) d s =
    (let d = di_merge (ss_defaults s) d in
     and_then (identity d) (\<lambda>sid.
       if ss_has sid s then Inl (ConfigError (''Duplicate Session '' @ SessionID_toString sid))
       else and_then (ss_validate d) (\<lambda>_.
         Inr (s\<lparr>ss_settings := map_put (sid_frozenString sid) (sid, d) (ss_settings s)\<rparr>))))"
proof -
  let ?d = "di_merge (ss_defaults s) d"
  have ok: "section_ok ?d" using assms by (rule di_merge_ok(1))
  have "map_of (di_data ?d) x \<noteq> None" if "map_of (di_data (ss_defaults s)) x \<noteq> None" for x
    using that by (simp add: di_merge_ok(3) [OF assms] split: option.splits)
  then have again: "di_merge (ss_defaults s) ?d = ?d" by (rule di_merge_none)
  show ?thesis
    unfolding read_session_def identity_def ss_set_def Let_def and_then_def
    by (auto simp: di_setString_same [OF ok _ key_strip(1)] di_setString_same [OF ok _ key_strip(2)] di_setString_same [OF ok _ key_strip(3)] again
        split: sum.splits)
qed


definition session_ok :: "Dictionary \<Rightarrow> string \<times> SessionID \<times> Dictionary \<Rightarrow> bool" where
  "session_ok def e \<longleftrightarrow> (case e of (k, sid, d) \<Rightarrow>
     section_ok d \<and> di_name d = ''SESSION'' \<and> identity d = Inr sid \<and> ss_validate d = Inr () \<and> k = sid_frozenString sid \<and>
     (\<forall>x \<in> fst ` set (di_data def). map_of (di_data d) x \<noteq> None))"

definition settings_ok :: "SessionSettings \<Rightarrow> bool" where
  "settings_ok s \<longleftrightarrow> section_ok (ss_defaults s) \<and> map_ok (ss_settings s) \<and> list_all (session_ok (ss_defaults s)) (ss_settings s) \<and>
     ss_resolveEnvVars s = None"

lemma session_ok_put: "session_ok def (k, x) \<Longrightarrow> list_all (session_ok def) es \<Longrightarrow> list_all (session_ok def) (map_put k x es)"
  by (induction k x es rule: map_put.induct) auto

lemma read_session_ok:
  assumes "section_ok d" and "di_name d = ''SESSION''" and "settings_ok s" and "read_session (ss_defaults s) d s = Inr s'"
  shows "settings_ok s' \<and> ss_defaults s' = ss_defaults s"
proof -
  let ?d = "di_merge (ss_defaults s) d"
  have def: "section_ok (ss_defaults s)" using assms(3) by (simp add: settings_ok_def)
  obtain sid where sid: "identity ?d = Inr sid" "ss_validate ?d = Inr ()"
      "s' = s\<lparr>ss_settings := map_put (sid_frozenString sid) (sid, ?d) (ss_settings s)\<rparr>"
    using assms(4) unfolding read_session_eq [OF assms(1) def] by (auto simp: and_then_Inr Let_def split: if_splits)
  have "map_of (di_data ?d) x \<noteq> None" if "x \<in> fst ` set (di_data (ss_defaults s))" for x
    using that map_of_eq_None_iff [of "di_data (ss_defaults s)" x] by (simp add: di_merge_ok(3) [OF assms(1) def] split: option.splits)
  then have "session_ok (ss_defaults s) (sid_frozenString sid, sid, ?d)"
    using sid di_merge_ok(1,2) [OF assms(1) def] assms(2) by (simp add: session_ok_def)
  then show ?thesis using assms(3) by (simp add: sid(3) settings_ok_def session_ok_put)
qed

lemma read_sessions_ok:
  assumes "list_all section_ok ds" and "list_all (\<lambda>d. di_name d = ''SESSION'') ds" and "settings_ok s"
    and "read_sessions (ss_defaults s) ds s = Inr s'"
  shows "settings_ok s'"
  using assms
proof (induction ds arbitrary: s)
  case (Cons d ds)
  then obtain s1 where s1: "read_session (ss_defaults s) d s = Inr s1" "read_sessions (ss_defaults s) ds s1 = Inr s'"
    by (auto simp: and_then_Inr)
  then have "settings_ok s1 \<and> ss_defaults s1 = ss_defaults s" using Cons.prems by (intro read_session_ok [of d]) simp_all
  then show ?case using Cons.IH [of s1] Cons.prems(1,2) s1(2) by simp
qed simp

lemma defaults_of_new: "ss_set_defaults def (SessionSettings_new None) = \<lparr>ss_settings = [], ss_defaults = def, ss_resolveEnvVars = None\<rparr>"
    "ss_resolveEnvVars (SessionSettings_new None) = None"
  by (simp_all add: ss_set_defaults_def SessionSettings_new_def)

lemma settings_read_ok:
  assumes "SessionSettings_read cs (SessionSettings_new None) = Inr s"
  shows "settings_ok s"
proof -
  let ?all = "Settings_read None cs"
  let ?def = "if length (Settings_get ''DEFAULT'' ?all) \<noteq> 0 then hd (Settings_get ''DEFAULT'' ?all) else Dictionary_new []"
  let ?s = "\<lparr>ss_settings = [], ss_defaults = ?def, ss_resolveEnvVars = None\<rparr>"
  have ok: "list_all section_ok (Settings_get n ?all)" for n
    using Settings_read_ok [of cs] by (auto simp: Settings_get_def list_all_iff)
  then have "section_ok (hd (Settings_get ''DEFAULT'' ?all))" if "Settings_get ''DEFAULT'' ?all \<noteq> []"
    using that by (metis list_all_iff list.set_sel(1))
  then have "settings_ok ?s" by (simp add: settings_ok_def map_ok_def)
  moreover have "read_sessions (ss_defaults ?s) (Settings_get ''SESSION'' ?all) ?s = Inr s"
    using assms by (simp only: SessionSettings_read_def Let_def defaults_of_new SessionSettings.simps)
  moreover have "list_all (\<lambda>d. di_name d = ''SESSION'') (Settings_get ''SESSION'' ?all)"
    by (simp add: Settings_get_def list_all_iff)
  ultimately show ?thesis using ok read_sessions_ok by blast
qed


section \<open>What is written\<close>

definition is_default :: "Dictionary \<Rightarrow> string \<times> string \<Rightarrow> bool" where
  "is_default def p \<longleftrightarrow> di_has (fst p) def \<and> getString (fst p) False def = Inr (snd p)"

definition written :: "Dictionary \<Rightarrow> Dictionary \<Rightarrow> Dictionary" where
  "written def d = d\<lparr>di_data := filter (\<lambda>p. \<not> is_default def p) (di_data d)\<rparr>"

lemma merge_written: "session_ok def (k, sid, d) \<Longrightarrow> section_ok def \<Longrightarrow> section_ok (written def d) \<and> di_merge def (written def d) = d"
proof -
  assume s: "session_ok def (k, sid, d)" and def: "section_ok def"
  then have d: "section_ok d" by (simp add: session_ok_def)
  have "map_of (di_data def) (fst p) = Some (snd p)" if "p \<in> set (di_data d)" "is_default def p" for p
  proof -
    have "plain p" using d that(1) by (auto simp: section_ok_def list_all_iff)
    then have "string_toUpper (fst p) = fst p" by (cases p) (simp add: plain_def)
    then show ?thesis using that(2) by (simp add: is_default_def getString_def split: option.splits)
  qed
  moreover have "map_of (di_data d) x \<noteq> None" if "map_of (di_data def) x \<noteq> None" for x
    using s that map_of_eq_None_iff [of "di_data def" x] by (auto simp: session_ok_def)
  ultimately have "di_merge def (written def d) = d" unfolding written_def using d def by (intro di_merge_written) blast+
  moreover have "section_ok (written def d)" using d by (auto simp: section_ok_def written_def map_ok_filter list_all_iff)
  ultimately show ?thesis by simp
qed

definition session_lines :: "Dictionary \<Rightarrow> Dictionary \<Rightarrow> string list" where
  "session_lines def d = ''[SESSION]'' # (if di_data d = [] then [] else map entry_line (di_data (written def d)) @ [[]])"

lemma param_texts: "concat (map param_text es) = concat (map (\<lambda>l. l @ newline) (map entry_line es))"
  by (induction es) (simp_all add: param_text_def entry_line_def)

lemma session_text_lines: "session_text def d = concat (map (\<lambda>l. l @ newline) (session_lines def d))"
  by (simp add: session_text_def session_lines_def param_texts written_def is_default_def)

lemma read_section:
  assumes "section_ok d"
  shows "fold (settings_line None) (map entry_line (di_data d)) (sections @ [Dictionary_new (di_name d)]) = sections @ [d]"
  using assms read_entries [of "di_data d" "Dictionary_new (di_name d)" sections] by (simp add: section_ok_def Dictionary_new_def)

lemma read_session_lines:
  assumes "session_ok def (k, sid, d)" and "section_ok def"
  shows "fold (settings_line None) (session_lines def d) sections = sections @ [written def d]"
proof -
  have "section_ok (written def d)" using merge_written [OF assms] by simp
  moreover have "di_name (written def d) = ''SESSION''" using assms(1) by (simp add: session_ok_def written_def)
  moreover have "di_data d = [] \<Longrightarrow> di_data (written def d) = []" by (simp add: written_def)
  ultimately show ?thesis using read_section [of "written def d" sections]
    by (auto simp: session_lines_def read_name)
qed

lemma read_all_lines:
  assumes "list_all (session_ok def) es" and "section_ok def"
  shows "fold (settings_line None) (concat (map (\<lambda>(k, sid, d). session_lines def d) es)) sections =
    sections @ map (\<lambda>(k, sid, d). written def d) es"
  using assms
proof (induction es arbitrary: sections)
  case (Cons e es)
  obtain k sid d where "e = (k, sid, d)" by (cases e)
  moreover from this have "session_ok def (k, sid, d)" using Cons.prems(1) by simp
  ultimately show ?case using Cons read_session_lines by simp
qed simp

lemma session_lines_ok: "session_ok def (k, sid, d) \<Longrightarrow> section_ok def \<Longrightarrow> list_all line_ok (session_lines def d)"
proof -
  assume s: "session_ok def (k, sid, d)" "section_ok def"
  then have "list_all plain (di_data (written def d))" using merge_written by (simp add: section_ok_def)
  then have "list_all line_ok (map entry_line (di_data (written def d)))" by (simp add: list_all_iff plain_line_ok)
  moreover have "line_ok ''[SESSION]''" by (simp add: line_ok_def)
  ultimately show ?thesis by (simp add: session_lines_def line_ok_def)
qed

text \<open>The sessions are read back in their order.\<close>

lemma reread_sessions:
  assumes "list_all (session_ok def) es" and "section_ok def" and "ss_defaults s = def" and "map_ok (ss_settings s @ es)"
  shows "read_sessions def (map (\<lambda>(k, sid, d). written def d) es) s = Inr (s\<lparr>ss_settings := ss_settings s @ es\<rparr>)"
  using assms
proof (induction es arbitrary: s)
  case (Cons e es)
  obtain k sid d where e: "e = (k, sid, d)" by (cases e)
  have ok: "session_ok def (k, sid, d)" using Cons.prems(1) by (simp add: e)
  have below: "\<forall>x \<in> set (ss_settings s). fst x < k" using Cons.prems(4) by (auto simp: map_ok_def sorted_wrt_append e)
  moreover have "k = sid_frozenString sid" using ok by (simp add: session_ok_def)
  ultimately have "sid_frozenString sid \<notin> fst ` set (ss_settings s)" by auto
  then have new: "\<not> ss_has sid s" by (simp add: ss_has_def map_of_eq_None_iff)
  have "map_put k (sid, d) (ss_settings s) = ss_settings s @ [(k, sid, d)]" using below by (rule map_put_end)
  then have "read_session def (written def d) s = Inr (s\<lparr>ss_settings := ss_settings s @ [(k, sid, d)]\<rparr>)"
    using merge_written [OF ok Cons.prems(2)] ok new read_session_eq [of "written def d" s] Cons.prems(2,3)
    by (simp add: session_ok_def Let_def)
  then show ?case using Cons.IH [of "s\<lparr>ss_settings := ss_settings s @ [(k, sid, d)]\<rparr>"] Cons.prems by (simp add: e)
qed simp


lemma write_lines:
  assumes "settings_ok s" and "di_data (ss_defaults s) \<noteq> []"
  shows "SessionSettings_write s = concat (map (\<lambda>l. l @ newline)
    (''[DEFAULT]'' # map entry_line (di_data (ss_defaults s)) @ [[]] @
     concat (map (\<lambda>(k, sid, d). session_lines (ss_defaults s) d) (ss_settings s))))"
proof -
  have "concat (map (\<lambda>(k, sid, d). session_text (ss_defaults s) d) es) =
      concat (map (\<lambda>l. l @ newline) (concat (map (\<lambda>(k, sid, d). session_lines (ss_defaults s) d) es)))" for es :: "(string \<times> SessionID \<times> Dictionary) list"
    by (induction es) (auto simp: session_text_lines)
  then show ?thesis using assms(2) by (simp add: SessionSettings_write_def param_texts)
qed

lemma reread_lines:
  assumes "settings_ok s" and "di_data (ss_defaults s) \<noteq> []" and "di_name (ss_defaults s) = ''DEFAULT''"
  shows "Settings_read None (SessionSettings_write s) =
    ss_defaults s # map (\<lambda>(k, sid, d). written (ss_defaults s) d) (ss_settings s)"
proof -
  let ?def = "ss_defaults s"
  let ?rest = "concat (map (\<lambda>(k, sid, d). session_lines ?def d) (ss_settings s))"
  let ?ls = "''[DEFAULT]'' # map entry_line (di_data ?def) @ [[]] @ ?rest"
  have def: "section_ok ?def" and es: "list_all (session_ok ?def) (ss_settings s)" using assms(1) by (simp_all add: settings_ok_def)
  have "line_ok l" if "l \<in> set ?rest" for l
  proof -
    obtain k sid d where "(k, sid, d) \<in> set (ss_settings s)" "l \<in> set (session_lines ?def d)" using \<open>l \<in> set ?rest\<close> by auto
    then show ?thesis using es def session_lines_ok by (metis list_all_iff)
  qed
  moreover have "list_all line_ok (map entry_line (di_data ?def))" using def by (simp add: section_ok_def list_all_iff plain_line_ok)
  moreover have "line_ok ''[DEFAULT]''" "line_ok []" by (simp_all add: line_ok_def)
  ultimately have "list_all line_ok ?ls" by (simp only: list_all_append list.pred_inject) (simp add: list_all_iff)
  then have "Settings_read None (SessionSettings_write s) = fold (settings_line None) ?ls []"
    unfolding Settings_read_def write_lines [OF assms(1,2)] by (simp only: stream_lines_written)
  also have "\<dots> = fold (settings_line None) ?rest ([] @ [?def])"
    using read_section [OF def, of "[]"] assms(3) by (simp add: read_name)
  also have "\<dots> = ([] @ [?def]) @ map (\<lambda>(k, sid, d). written ?def d) (ss_settings s)" using es def by (rule read_all_lines)
  finally show ?thesis by simp
qed

lemma read_session_defaults: "read_session def d t = Inr u \<Longrightarrow> ss_defaults u = ss_defaults t"
  unfolding read_session_def ss_set_def Let_def and_then_def
  by (simp split: sum.splits if_splits) auto

text \<open>The defaults come from a section of that name when they have entries.\<close>

lemma defaults_name:
  assumes "SessionSettings_read cs (SessionSettings_new None) = Inr s" and "di_data (ss_defaults s) \<noteq> []"
  shows "di_name (ss_defaults s) = ''DEFAULT''"
proof -
  let ?defs = "Settings_get ''DEFAULT'' (Settings_read None cs)"
  have keep: "ss_defaults s' = def" if "read_sessions def ds t = Inr s'" "ss_defaults t = def" for def ds t s'
    using that
  proof (induction ds arbitrary: t)
    case (Cons d ds)
    then obtain u where "read_session def d t = Inr u" "read_sessions def ds u = Inr s'" by (auto simp: and_then_Inr)
    then show ?case using Cons.IH [of u] Cons.prems(2) read_session_defaults [of def d t u] by simp
  qed simp
  let ?def = "if length ?defs \<noteq> 0 then hd ?defs else Dictionary_new []"
  have "read_sessions ?def (Settings_get ''SESSION'' (Settings_read None cs))
      \<lparr>ss_settings = [], ss_defaults = ?def, ss_resolveEnvVars = None\<rparr> = Inr s"
    using assms(1) by (simp only: SessionSettings_read_def Let_def defaults_of_new)
  then have "ss_defaults s = ?def" by (rule keep) simp
  then have "?defs \<noteq> []" "ss_defaults s = hd ?defs" using assms(2) by (auto simp: Dictionary_new_def split: if_splits)
  then have "ss_defaults s \<in> set ?defs" by simp
  then show ?thesis by (simp add: Settings_get_def)
qed

section \<open>Reading back\<close>

definition settings_example :: string where
  "settings_example = concat (map (\<lambda>l. l @ newline)
     [''[DEFAULT]'', ''ConnectionType=initiator'', ''# local'', '''', ''[SESSION]'', ''BeginString = FIX.4.4'',
      ''SenderCompID=HARJUS'', ''TargetCompID=SPOT'', ''ConnectionType=initiator''])"
definition settings_of_example :: SessionSettings where
  "settings_of_example = \<lparr>ss_settings =
   [(''FIX.4.4:HARJUS->SPOT'', SessionID_new ''FIX.4.4'' ''HARJUS'' ''SPOT'' [],
      \<lparr>di_name = ''SESSION'', di_data = [(''BEGINSTRING'', ''FIX.4.4''), (''CONNECTIONTYPE'', ''initiator''),
        (''SENDERCOMPID'', ''HARJUS''), (''TARGETCOMPID'', ''SPOT'')]\<rparr>)],
   ss_defaults = \<lparr>di_name = ''DEFAULT'', di_data = [(''CONNECTIONTYPE'', ''initiator'')]\<rparr>, ss_resolveEnvVars = None\<rparr>"

lemma settings_example_read: "SessionSettings_read settings_example (SessionSettings_new None) = Inr settings_of_example"
proof -
  have "case SessionSettings_read settings_example (SessionSettings_new None) of Inl e \<Rightarrow> False
      | Inr s \<Rightarrow> ss_settings s = ss_settings settings_of_example \<and> ss_defaults s = ss_defaults settings_of_example"
    by code_simp
  then obtain s where "SessionSettings_read settings_example (SessionSettings_new None) = Inr s"
      "ss_settings s = ss_settings settings_of_example" "ss_defaults s = ss_defaults settings_of_example"
    by (auto split: sum.splits)
  moreover from this(1) have "ss_resolveEnvVars s = None" using settings_read_ok by (simp add: settings_ok_def)
  ultimately show ?thesis by (simp add: settings_of_example_def)
qed

text \<open>C24. What is written of settings that were read from a text, and have defaults, is read back as the
  same settings: the defaults, and each session with all of its entries, although the ones it shares with
  the defaults are not written.\<close>

theorem settings_reread:
  assumes "SessionSettings_read cs (SessionSettings_new None) = Inr s" and "di_data (ss_defaults s) \<noteq> []"
  shows "SessionSettings_read (SessionSettings_write s) (SessionSettings_new None) = Inr s"
proof -
  let ?def = "ss_defaults s" and ?new = "\<lparr>ss_settings = [], ss_defaults = ss_defaults s, ss_resolveEnvVars = None\<rparr>"
  have s: "settings_ok s" using assms(1) by (rule settings_read_ok)
  then have es: "list_all (session_ok ?def) (ss_settings s)" and def: "section_ok ?def" and none: "ss_resolveEnvVars s = None"
    and ok: "map_ok (ss_settings s)" by (simp_all add: settings_ok_def)
  have name: "di_name ?def = ''DEFAULT''" using assms by (rule defaults_name)
  have "di_name (written ?def d) = ''SESSION''" if "(k, sid, d) \<in> set (ss_settings s)" for k sid d
    using es that by (auto simp: list_all_iff session_ok_def written_def)
  then have names: "\<forall>d \<in> set (map (\<lambda>(k, sid, d). written ?def d) (ss_settings s)). di_name d = ''SESSION''" by auto
  have "Settings_get ''SESSION'' (?def # map (\<lambda>(k, sid, d). written ?def d) (ss_settings s)) = map (\<lambda>(k, sid, d). written ?def d) (ss_settings s)"
    using names name unfolding Settings_get_def by (simp only: filter.simps) (simp add: filter_id_conv)
  moreover have "Settings_get ''DEFAULT'' (?def # map (\<lambda>(k, sid, d). written ?def d) (ss_settings s)) = [?def]"
    using names name unfolding Settings_get_def by (simp only: filter.simps) (auto simp: filter_empty_conv)
  moreover have "read_sessions ?def (map (\<lambda>(k, sid, d). written ?def d) (ss_settings s)) ?new = Inr s"
    using reread_sessions [OF es def, of ?new] ok none by (simp add: SessionSettings.equality)
  ultimately show ?thesis
    by (simp add: SessionSettings_read_def Let_def defaults_of_new reread_lines [OF s assms(2) name])
qed

theorem settings_reread_witness:
  "SessionSettings_read (SessionSettings_write settings_of_example) (SessionSettings_new None) = Inr settings_of_example"
  using settings_reread [OF settings_example_read] by (simp add: settings_of_example_def)

end
