(* ===== verification/Session_Factory.thy ===== *)
theory Session_Factory
  imports Session_Settings Session_Properties Time_Text Application_Reading
begin

text \<open>
  Making a session from its settings (flashfix/src/SessionFactory.cpp), with the setters of a session it
  uses (flashfix/include/Session.h). The factory keeps the dictionaries it loaded, by their path, and the
  application; loading a dictionary from a path is a parameter. A session that throws while it is made
  is destroyed, what it did to the application stays.
\<close>

section \<open>Setters of a session\<close>

definition setLogonTime :: "TimeRange \<Rightarrow> 'a Session \<Rightarrow> 'a Session" where
  "setLogonTime val s = s\<lparr>m_logonTime := val\<rparr>"

definition setSenderDefaultApplVerID :: "string \<Rightarrow> 'a Session \<Rightarrow> 'a Session" where
  "setSenderDefaultApplVerID val s = s\<lparr>m_senderDefaultApplVerID := val\<rparr>"

definition setSendRedundantResendRequests :: "bool \<Rightarrow> 'a Session \<Rightarrow> 'a Session" where
  "setSendRedundantResendRequests val s = s\<lparr>m_sendRedundantResendRequests := val\<rparr>"

definition setCheckCompId :: "bool \<Rightarrow> 'a Session \<Rightarrow> 'a Session" where
  "setCheckCompId val s = s\<lparr>m_checkCompId := val\<rparr>"

definition setCheckLatency :: "bool \<Rightarrow> 'a Session \<Rightarrow> 'a Session" where
  "setCheckLatency val s = s\<lparr>m_checkLatency := val\<rparr>"

definition setMaxLatency :: "int \<Rightarrow> 'a Session \<Rightarrow> 'a Session" where
  "setMaxLatency val s = s\<lparr>m_maxLatency := val\<rparr>"

definition setResetOnLogon :: "bool \<Rightarrow> 'a Session \<Rightarrow> 'a Session" where
  "setResetOnLogon val s = s\<lparr>m_resetOnLogon := val\<rparr>"

definition setResetOnLogout :: "bool \<Rightarrow> 'a Session \<Rightarrow> 'a Session" where
  "setResetOnLogout val s = s\<lparr>m_resetOnLogout := val\<rparr>"

definition setResetOnDisconnect :: "bool \<Rightarrow> 'a Session \<Rightarrow> 'a Session" where
  "setResetOnDisconnect val s = s\<lparr>m_resetOnDisconnect := val\<rparr>"

definition setRefreshOnLogon :: "bool \<Rightarrow> 'a Session \<Rightarrow> 'a Session" where
  "setRefreshOnLogon val s = s\<lparr>m_refreshOnLogon := val\<rparr>"

definition setPersistMessages :: "bool \<Rightarrow> 'a Session \<Rightarrow> 'a Session" where
  "setPersistMessages val s = s\<lparr>m_persistMessages := val\<rparr>"

definition setValidateLengthAndChecksum :: "bool \<Rightarrow> 'a Session \<Rightarrow> 'a Session" where
  "setValidateLengthAndChecksum val s = s\<lparr>m_validateLengthAndChecksum := val\<rparr>"

definition setSendNextExpectedMsgSeqNum :: "bool \<Rightarrow> 'a Session \<Rightarrow> 'a Session" where
  "setSendNextExpectedMsgSeqNum val s = s\<lparr>m_sendNextExpectedMsgSeqNum := val\<rparr>"

definition setIsNonStopSession :: "bool \<Rightarrow> 'a Session \<Rightarrow> 'a Session" where
  "setIsNonStopSession val s = s\<lparr>m_isNonStopSession := val\<rparr>"

definition setAllowedRemoteAddresses :: "string set \<Rightarrow> 'a Session \<Rightarrow> 'a Session" where
  "setAllowedRemoteAddresses val s = s\<lparr>m_allowedRemoteAddresses := val\<rparr>"

section \<open>Optional settings\<close>

text \<open>A setting is used when it is there; \<open>f\<close> is what is done with it.\<close>

definition opt_bool :: "string \<Rightarrow> (bool \<Rightarrow> 'x \<Rightarrow> 'x) \<Rightarrow> Dictionary \<Rightarrow> 'x \<Rightarrow> fix_exception + 'x" where
  "opt_bool key f settings x = (if di_has key settings then and_then (getBool key settings) (\<lambda>v. Inr (f v x)) else Inr x)"

definition opt_int :: "string \<Rightarrow> (int \<Rightarrow> 'x \<Rightarrow> 'x) \<Rightarrow> Dictionary \<Rightarrow> 'x \<Rightarrow> fix_exception + 'x" where
  "opt_int key f settings x = (if di_has key settings then and_then (getInt key settings) (\<lambda>v. Inr (f v x)) else Inr x)"

fun in_turn :: "('x \<Rightarrow> fix_exception + 'x) list \<Rightarrow> 'x \<Rightarrow> fix_exception + 'x" where
  "in_turn [] x = Inr x"
| "in_turn (f # fs) x = and_then (f x) (in_turn fs)"

section \<open>Dictionaries\<close>

record 'a SessionFactory =
  fa_application :: 'a
  fa_dictionaries :: "string \<rightharpoonup> DataDictionary"

type_synonym dictionary_source = "string \<Rightarrow> bool \<Rightarrow> fix_exception + DataDictionary"

definition checks_of :: "Dictionary \<Rightarrow> DataDictionary \<Rightarrow> fix_exception + DataDictionary" where
  "checks_of settings = in_turn
     [opt_bool ''ValidateFieldsOutOfOrder'' (\<lambda>v. with_data (\<lambda>d. d\<lparr>dd_checkFieldsOutOfOrder := v\<rparr>)) settings,
      opt_bool ''ValidateFieldsHaveValues'' (\<lambda>v. with_data (\<lambda>d. d\<lparr>dd_checkFieldsHaveValues := v\<rparr>)) settings,
      opt_bool ''ValidateUserDefinedFields'' (\<lambda>v. with_data (\<lambda>d. d\<lparr>dd_checkUserDefinedFields := v\<rparr>)) settings,
      opt_bool ''AllowUnknownMsgFields'' (\<lambda>v. with_data (\<lambda>d. d\<lparr>dd_allowUnknownMessageFields := v\<rparr>)) settings]"

definition createDataDictionary ::
  "dictionary_source \<Rightarrow> Dictionary \<Rightarrow> string \<Rightarrow> ('a SessionFactory, DataDictionary) act" where
  "createDataDictionary load settings settingsKey =
     bind (lift (getString settingsKey False settings)) (\<lambda>path.
     bind (gets (\<lambda>f. fa_dictionaries f path)) (\<lambda>found.
     bind (case found of
         Some d \<Rightarrow> return d
       | None \<Rightarrow>
           bind (lift (opt_bool ''PreserveMessageFieldsOrder'' (\<lambda>v x. v) settings False)) (\<lambda>preserveMsgFldsOrder.
           bind (lift (load path preserveMsgFldsOrder)) (\<lambda>d.
             after (modify (\<lambda>f. f\<lparr>fa_dictionaries := (fa_dictionaries f)(path \<mapsto> d)\<rparr>)) (return d))))
       (\<lambda>pDD. lift (checks_of settings (DataDictionary_copy pDD)))))"

definition app_dictionary ::
  "dictionary_source \<Rightarrow> Dictionary \<Rightarrow> string \<Rightarrow> DataDictionaryProvider \<Rightarrow> ('a SessionFactory, DataDictionaryProvider) act" where
  "app_dictionary load settings key provider =
     (let APP_DATA_DICTIONARY = ''AppDataDictionary'';
          frontKey = take (length APP_DATA_DICTIONARY) key
      in if frontKey = string_toUpper APP_DATA_DICTIONARY then
           if key = string_toUpper APP_DATA_DICTIONARY then
             bind (lift (getString ''DefaultApplVerID'' False settings)) (\<lambda>v.
             bind (createDataDictionary load settings APP_DATA_DICTIONARY) (\<lambda>d.
               return (addApplicationDataDictionary (toApplVerID v) d provider)))
           else if CHR ''.'' \<notin> set key then
             throw (Fix (ConfigError (''Malformed '' @ APP_DATA_DICTIONARY @ '': '' @ key)))
           else
             let beginStringQualifier = tl (dropWhile (\<lambda>c. c \<noteq> CHR ''.'') key)
             in bind (createDataDictionary load settings key) (\<lambda>d.
                  return (addApplicationDataDictionary (toApplVerID beginStringQualifier) d provider))
         else return provider)"

fun app_dictionaries ::
  "dictionary_source \<Rightarrow> Dictionary \<Rightarrow> (string \<times> string) list \<Rightarrow> DataDictionaryProvider \<Rightarrow>
   ('a SessionFactory, DataDictionaryProvider) act" where
  "app_dictionaries load settings [] provider = return provider"
| "app_dictionaries load settings (e # es) provider =
     bind (app_dictionary load settings (fst e) provider) (app_dictionaries load settings es)"

definition processFixtDataDictionaries ::
  "dictionary_source \<Rightarrow> SessionID \<Rightarrow> Dictionary \<Rightarrow> DataDictionaryProvider \<Rightarrow> ('a SessionFactory, DataDictionaryProvider) act" where
  "processFixtDataDictionaries load sessionID settings provider =
     bind (createDataDictionary load settings ''TransportDataDictionary'') (\<lambda>d.
       app_dictionaries load settings (di_data settings) (addTransportDataDictionary (sid_beginString sessionID) d provider))"

definition processFixDataDictionary ::
  "dictionary_source \<Rightarrow> SessionID \<Rightarrow> Dictionary \<Rightarrow> DataDictionaryProvider \<Rightarrow> ('a SessionFactory, DataDictionaryProvider) act" where
  "processFixDataDictionary load sessionID settings provider =
     bind (createDataDictionary load settings ''DataDictionary'') (\<lambda>d.
       return (addApplicationDataDictionary (toApplVerID (sid_beginString sessionID)) d
         (addTransportDataDictionary (sid_beginString sessionID) d provider)))"

section \<open>Times\<close>

definition midnight :: DateTime where
  "midnight = setHMS 0 0 0 0 (DateTime_of 0 0)"

text \<open>A time that does not convert is reported as an error of the configuration.\<close>

definition time_setting :: "string \<Rightarrow> fix_exception + DateTime" where
  "time_setting v = (case UtcTimeOnly_parse v of
     None \<Rightarrow> Inl (ConfigError (Exception_what ''Could not convert field'' v)) | Some t \<Rightarrow> Inr t)"

text \<open>Every error of a day is swallowed; the second day is not looked at after one of the first.\<close>

definition day_settings :: "string \<Rightarrow> string \<Rightarrow> Dictionary \<Rightarrow> int \<times> int \<Rightarrow> int \<times> int" where
  "day_settings startKey endKey settings days =
     (case di_getDay startKey settings of
        Inl e \<Rightarrow> days
      | Inr startDay \<Rightarrow> (case di_getDay endKey settings of Inl e \<Rightarrow> (startDay, snd days) | Inr endDay \<Rightarrow> (startDay, endDay)))"

definition session_times :: "bool \<Rightarrow> Dictionary \<Rightarrow> fix_exception + DateTime \<times> DateTime" where
  "session_times isNonStopSession settings =
     (case getString ''StartTime'' False settings of
        Inl e \<Rightarrow> if \<not> isNonStopSession then Inl e else Inr (midnight, midnight)
      | Inr v \<Rightarrow> and_then (time_setting v) (\<lambda>startTime.
          case getString ''EndTime'' False settings of
            Inl e \<Rightarrow> if \<not> isNonStopSession then Inl e else Inr (startTime, midnight)
          | Inr v \<Rightarrow> and_then (time_setting v) (\<lambda>endTime. Inr (startTime, endTime))))"

definition logon_time :: "string \<Rightarrow> Dictionary \<Rightarrow> DateTime \<Rightarrow> fix_exception + DateTime" where
  "logon_time key settings time =
     (case getString key False settings of Inl e \<Rightarrow> Inr time | Inr v \<Rightarrow> time_setting v)"

text \<open>A local time is made of hour, minute and second; the fraction is lost.\<close>

definition local_time :: "DateTime \<Rightarrow> DateTime" where
  "local_time t = setHMS (getHour t) (getMinute t) (getSecond t) 0 (DateTime_of 0 0)"

definition time_range :: "bool \<Rightarrow> DateTime \<Rightarrow> DateTime \<Rightarrow> int \<Rightarrow> int \<Rightarrow> TimeRange" where
  "time_range useLocalTime startTime endTime startDay endDay =
     (let utcTime = TimeRange_new False startTime endTime startDay endDay;
          localTime = TimeRange_new True (local_time startTime) (local_time endTime) startDay endDay
      in if useLocalTime then localTime else utcTime)"

definition check_days :: "bool \<Rightarrow> DateTime \<Rightarrow> DateTime \<Rightarrow> int \<Rightarrow> int \<Rightarrow> fix_exception + unit" where
  "check_days isNonStopSession startTime endTime startDay endDay =
     (if startDay \<ge> 0 \<and> endDay < 0 then Inl (ConfigError ''StartDay used without EndDay'')
      else if endDay \<ge> 0 \<and> startDay < 0 then Inl (ConfigError ''EndDay used without StartDay'')
      else if isNonStopSession \<and>
          (startDay \<ge> 0 \<or> endDay \<ge> 0 \<or> \<not> dt_equal startTime midnight \<or> \<not> dt_equal endTime midnight)
        then Inl (ConfigError ''NonStopSession used with StartTime/EndTime/StartDay/EndDay'')
      else Inr ())"

section \<open>Sessions\<close>

definition connection_type :: "Dictionary \<Rightarrow> fix_exception + string" where
  "connection_type settings =
     and_then (getString ''ConnectionType'' False settings) (\<lambda>connectionType.
       if connectionType \<noteq> ''acceptor'' \<and> connectionType \<noteq> ''initiator'' then Inl (ConfigError ''Invalid ConnectionType'')
       else if connectionType = ''acceptor'' \<and> di_has ''SessionQualifier'' settings
         then Inl (ConfigError ''SessionQualifier cannot be used with acceptor.'')
       else Inr connectionType)"

definition default_version :: "SessionID \<Rightarrow> Dictionary \<Rightarrow> fix_exception + string" where
  "default_version sessionID settings =
     (if sid_isFIXT sessionID then
        if \<not> di_has ''DefaultApplVerID'' settings then Inl (ConfigError ''ApplVerID is required for FIXT transport'')
        else and_then (getString ''DefaultApplVerID'' False settings) (\<lambda>v. Inr (toApplVerID v))
      else Inr [])"

definition heartbeat :: "string \<Rightarrow> Dictionary \<Rightarrow> fix_exception + int" where
  "heartbeat connectionType settings =
     (if connectionType = ''initiator'' then
        and_then (getInt ''HeartBtInt'' settings) (\<lambda>heartBtInt.
          if heartBtInt \<le> 0 then Inl (ConfigError ''Heartbeat must be greater than zero'') else Inr heartBtInt)
      else Inr 0)"

definition logon_times ::
  "bool \<Rightarrow> TimeRange \<Rightarrow> DateTime \<Rightarrow> DateTime \<Rightarrow> int \<Rightarrow> int \<Rightarrow> Dictionary \<Rightarrow> 'a Session \<Rightarrow> fix_exception + 'a Session" where
  "logon_times useLocalTime sessionTimeRange startTime endTime startDay endDay settings s =
     (let (logonDay, logoutDay) = day_settings ''LogonDay'' ''LogoutDay'' settings (startDay, endDay) in
      and_then (logon_time ''LogonTime'' settings startTime) (\<lambda>logonTime.
      and_then (logon_time ''LogoutTime'' settings endTime) (\<lambda>logoutTime.
        if \<not> TimeRange_isInRange_day sessionTimeRange logonTime logonDay
        then Inl (ConfigError ''LogonTime must be between StartTime and EndTime'')
        else if \<not> TimeRange_isInRange_day sessionTimeRange logoutTime logoutDay
        then Inl (ConfigError ''LogoutTime must be between StartTime and EndTime'')
        else Inr (setLogonTime (time_range useLocalTime logonTime logoutTime logonDay logoutDay) s))))"

definition session_options :: "bool \<Rightarrow> Dictionary \<Rightarrow> 'a Session \<Rightarrow> fix_exception + 'a Session" where
  "session_options isNonStopSession settings = in_turn
     [opt_bool ''SendRedundantResendRequests'' setSendRedundantResendRequests settings,
      opt_bool ''CheckCompID'' setCheckCompId settings,
      opt_bool ''CheckLatency'' setCheckLatency settings,
      opt_int ''MaxLatency'' setMaxLatency settings,
      opt_int ''LogonTimeout'' setLogonTimeout settings,
      opt_int ''LogoutTimeout'' setLogoutTimeout settings,
      opt_bool ''ResetOnLogon'' setResetOnLogon settings,
      opt_bool ''ResetOnLogout'' setResetOnLogout settings,
      opt_bool ''ResetOnDisconnect'' setResetOnDisconnect settings,
      opt_bool ''RefreshOnLogon'' setRefreshOnLogon settings,
      opt_bool ''MillisecondsInTimeStamp'' setMillisecondsInTimeStamp settings,
      opt_bool ''PersistMessages'' setPersistMessages settings,
      opt_bool ''ValidateLengthAndChecksum'' setValidateLengthAndChecksum settings,
      opt_bool ''SendNextExpectedMsgSeqNum'' setSendNextExpectedMsgSeqNum settings,
      \<lambda>s. Inr (if isNonStopSession then setIsNonStopSession isNonStopSession s else s),
      \<lambda>s. if di_has ''AllowedRemoteAddresses'' settings
          then and_then (getString ''AllowedRemoteAddresses'' False settings) (\<lambda>v.
            Inr (setAllowedRemoteAddresses (string_split v CHR '','') s))
          else Inr s]"

text \<open>The constructor of a session, which calls the application.\<close>

definition new_session ::
  "'a environment \<Rightarrow> SessionID \<Rightarrow> DataDictionaryProvider \<Rightarrow> TimeRange \<Rightarrow> int \<Rightarrow> bool \<Rightarrow> ('a SessionFactory, 'a Session) act" where
  "new_session E sessionID provider sessionTime heartBtInt hasLog f =
     (case Session_new E sessionID provider sessionTime heartBtInt hasLog (fa_application f) of
        (Inl e, s) \<Rightarrow> (Inl e, f\<lparr>fa_application := x_app s\<rparr>)
      | (Inr _, s) \<Rightarrow> (Inr s, f\<lparr>fa_application := x_app s\<rparr>))"

definition SessionFactory_create ::
  "dictionary_source \<Rightarrow> 'a environment \<Rightarrow> bool \<Rightarrow> SessionID \<Rightarrow> Dictionary \<Rightarrow> ('a SessionFactory, 'a Session) act" where
  "SessionFactory_create load E hasLog sessionID settings =
     bind (lift (connection_type settings)) (\<lambda>connectionType.
     bind (lift (opt_bool ''UseDataDictionary'' (\<lambda>v x. v) settings True)) (\<lambda>useDataDictionary.
     bind (lift (default_version sessionID settings)) (\<lambda>defaultApplVerID.
     bind (let provider = \<lparr>transportDictionaries = Map.empty, applicationDictionaries = Map.empty\<rparr> in
           if useDataDictionary then
             if sid_isFIXT sessionID then processFixtDataDictionaries load sessionID settings provider
             else processFixDataDictionary load sessionID settings provider
           else return provider) (\<lambda>dataDictionaryProvider.
     bind (lift (opt_bool ''UseLocalTime'' (\<lambda>v x. v) settings False)) (\<lambda>useLocalTime.
     bind (lift (opt_bool ''NonStopSession'' (\<lambda>v x. v) settings False)) (\<lambda>isNonStopSession.
     let (startDay, endDay) = day_settings ''StartDay'' ''EndDay'' settings (-1, -1) in
     bind (lift (session_times isNonStopSession settings)) (\<lambda>(startTime, endTime).
     let sessionTimeRange = time_range useLocalTime startTime endTime startDay endDay in
     bind (lift (check_days isNonStopSession startTime endTime startDay endDay)) (\<lambda>_.
     bind (lift (heartbeat connectionType settings)) (\<lambda>heartBtInt.
     bind (new_session E sessionID dataDictionaryProvider sessionTimeRange heartBtInt hasLog) (\<lambda>s.
     bind (lift (logon_times useLocalTime sessionTimeRange startTime endTime startDay endDay settings
       (setSenderDefaultApplVerID defaultApplVerID s))) (\<lambda>s.
     lift (session_options isNonStopSession settings s))))))))))))"

end
