(* ===== verification/Session_Initiator.thy ===== *)
theory Session_Initiator
  imports Session_Factory
begin

text \<open>
  The initiator (flashfix/src/Initiator.cpp and the connecting part of
  flashfix/src/FstackMicroThreadedSSLSocketInitiator.cpp): it makes the sessions of its settings and
  keeps which of them are connected. A set of identities is the list of its elements under their texts. The
  sessions of the initiator are those of the registry; they share the application. What the operating system
  and the TLS library answer, and what happens while a thread waits, are parameters.
\<close>

section \<open>Hosts\<close>

record HostDetails =
  hd_address :: string
  hd_port :: "16 word"
  hd_sourceAddress :: string
  hd_sourcePort :: "16 word"

definition HostDetails_new :: HostDetails where
  "HostDetails_new = \<lparr>hd_address = [], hd_port = 0, hd_sourceAddress = [], hd_sourcePort = 0\<rparr>"

text \<open>The details of the host with a number, \<open>None\<close> when the settings have none.\<close>

definition populateHostDetails :: "int \<Rightarrow> Dictionary \<Rightarrow> fix_exception + HostDetails option" where
  "populateHostDetails n d =
     (let suffix = (if n > 0 then to_string n else []);
          host = ''SocketConnectHost'' @ suffix; port = ''SocketConnectPort'' @ suffix;
          sourceHost = ''SocketConnectSourceHost'' @ suffix; sourcePort = ''SocketConnectSourcePort'' @ suffix
      in if di_has host d \<and> di_has port d then
           and_then (getString host False d) (\<lambda>address.
           and_then (getInt port d) (\<lambda>p.
           and_then (if di_has sourceHost d then getString sourceHost False d else Inr []) (\<lambda>sourceAddress.
           and_then (if di_has sourcePort d then getInt sourcePort d else Inr 0) (\<lambda>sp.
             Inr (Some \<lparr>hd_address = address, hd_port = word_of_int p, hd_sourceAddress = sourceAddress,
               hd_sourcePort = word_of_int sp\<rparr>)))))
         else Inr None)"

record LastConnectionAttempt =
  la_hostNumber :: int
  la_time :: int

type_synonym attempts = "string \<rightharpoonup> LastConnectionAttempt"

text \<open>The number of the host for this attempt.\<close>

definition next_attempt :: "string \<Rightarrow> int \<Rightarrow> Dictionary \<Rightarrow> LastConnectionAttempt option \<Rightarrow> fix_exception + LastConnectionAttempt" where
  "next_attempt hostSelectionPolicy now d found =
     (case found of
        None \<Rightarrow> Inr \<lparr>la_hostNumber = 0, la_time = now\<rparr>
      | Some a \<Rightarrow>
          if hostSelectionPolicy = ''PRIORITY'' then
            and_then (if di_has ''HostSelectionPolicyPriorityStartOverInterval'' d
                then getInt ''HostSelectionPolicyPriorityStartOverInterval'' d else Inr 120) (\<lambda>startOverInterval.
              if now - la_time a \<ge> startOverInterval then Inr \<lparr>la_hostNumber = 0, la_time = now\<rparr>
              else Inr \<lparr>la_hostNumber = la_hostNumber a + 1, la_time = now\<rparr>)
          else Inr \<lparr>la_hostNumber = la_hostNumber a + 1, la_time = now\<rparr>)"

text \<open>An exception leaves the attempts as they were, or with the new one when the details do not convert.\<close>

definition getHost :: "int \<Rightarrow> SessionID \<Rightarrow> Dictionary \<Rightarrow> attempts \<Rightarrow> (fix_exception + HostDetails) \<times> attempts" where
  "getHost now s d m =
     (case (if di_has ''HostSelectionPolicy'' d then getString ''HostSelectionPolicy'' False d else Inr []) of
        Inl e \<Rightarrow> (Inl e, m)
      | Inr hostSelectionPolicy \<Rightarrow>
          (case next_attempt hostSelectionPolicy now d (m (sid_frozenString s)) of
             Inl e \<Rightarrow> (Inl e, m)
           | Inr a \<Rightarrow>
               let m = m(sid_frozenString s \<mapsto> a) in
               (case populateHostDetails (la_hostNumber a) d of
                  Inl e \<Rightarrow> (Inl e, m)
                | Inr (Some details) \<Rightarrow> (Inr details, m)
                | Inr None \<Rightarrow>
                    (case populateHostDetails 0 d of
                       Inl e \<Rightarrow> (Inl e, m)
                     | Inr r \<Rightarrow> (Inr (case r of None \<Rightarrow> HostDetails_new | Some details \<Rightarrow> details),
                         m(sid_frozenString s \<mapsto> a\<lparr>la_hostNumber := 0\<rparr>))))))"

section \<open>Sets of identities\<close>

type_synonym SessionIDs = "(string \<times> SessionID) list"

definition sids_insert :: "SessionID \<Rightarrow> SessionIDs \<Rightarrow> SessionIDs" where
  "sids_insert sid ids = (if map_of ids (sid_frozenString sid) = None then map_put (sid_frozenString sid) sid ids else ids)"

definition sids_erase :: "SessionID \<Rightarrow> SessionIDs \<Rightarrow> SessionIDs" where
  "sids_erase sid ids = map_drop (sid_frozenString sid) ids"

definition sids_has :: "SessionID \<Rightarrow> SessionIDs \<Rightarrow> bool" where
  "sids_has sid ids = (map_of ids (sid_frozenString sid) \<noteq> None)"

section \<open>The initiator\<close>

record 'a SessionInitiator =
  in_settings :: SessionSettings
  in_sessionIDs :: SessionIDs
  in_sessions :: "(string \<times> 'a Session) list"
  in_application :: 'a
  in_pending :: SessionIDs
  in_connected :: SessionIDs
  in_disconnected :: SessionIDs
  in_processing :: bool
  in_stop :: bool
  in_hosts :: attempts
  in_lastConnect :: int
  in_reconnectInterval :: int
  in_noDelay :: bool
  in_sendBufSize :: int
  in_rcvBufSize :: int

definition Initiator_empty :: "SessionSettings \<Rightarrow> 'a \<Rightarrow> 'a SessionInitiator" where
  "Initiator_empty settings app =
     \<lparr>in_settings = settings, in_sessionIDs = [], in_sessions = [], in_application = app, in_pending = [], in_connected = [],
      in_disconnected = [], in_processing = False, in_stop = True, in_hosts = Map.empty, in_lastConnect = 0,
      in_reconnectInterval = 30, in_noDelay = False, in_sendBufSize = 0, in_rcvBufSize = 0\<rparr>"

definition setPending :: "SessionID \<Rightarrow> 'a SessionInitiator \<Rightarrow> 'a SessionInitiator" where
  "setPending sid i = i\<lparr>in_pending := sids_insert sid (in_pending i), in_connected := sids_erase sid (in_connected i),
     in_disconnected := sids_erase sid (in_disconnected i)\<rparr>"

definition setConnected :: "SessionID \<Rightarrow> 'a SessionInitiator \<Rightarrow> 'a SessionInitiator" where
  "setConnected sid i = i\<lparr>in_pending := sids_erase sid (in_pending i), in_connected := sids_insert sid (in_connected i),
     in_disconnected := sids_erase sid (in_disconnected i)\<rparr>"

definition setDisconnected :: "SessionID \<Rightarrow> 'a SessionInitiator \<Rightarrow> 'a SessionInitiator" where
  "setDisconnected sid i = i\<lparr>in_pending := sids_erase sid (in_pending i), in_connected := sids_erase sid (in_connected i),
     in_disconnected := sids_insert sid (in_disconnected i)\<rparr>"

definition isPending :: "SessionID \<Rightarrow> 'a SessionInitiator \<Rightarrow> bool" where
  "isPending sid i = sids_has sid (in_pending i)"

definition isConnected :: "SessionID \<Rightarrow> 'a SessionInitiator \<Rightarrow> bool" where
  "isConnected sid i = sids_has sid (in_connected i)"

definition isDisconnected :: "SessionID \<Rightarrow> 'a SessionInitiator \<Rightarrow> bool" where
  "isDisconnected sid i = sids_has sid (in_disconnected i)"

text \<open>A session, on the application as the others left it; a statement of a session that may not exist.\<close>

definition session_at :: "SessionID \<Rightarrow> 'a SessionInitiator \<Rightarrow> 'a Session option" where
  "session_at sid i = map_option (\<lambda>s. s\<lparr>x_app := in_application i\<rparr>) (map_of (in_sessions i) (sid_frozenString sid))"

definition put_session :: "SessionID \<Rightarrow> 'a Session \<Rightarrow> 'a SessionInitiator \<Rightarrow> 'a SessionInitiator" where
  "put_session sid s i = i\<lparr>in_sessions := map_put (sid_frozenString sid) s (in_sessions i), in_application := x_app s\<rparr>"

definition on_session :: "SessionID \<Rightarrow> ('a, unit) session_act \<Rightarrow> ('a SessionInitiator, unit) act" where
  "on_session sid m i =
     (case session_at sid i of
        None \<Rightarrow> (Inr (), i)
      | Some s \<Rightarrow> (case m s of (r, t) \<Rightarrow> (r, put_session sid t i)))"

section \<open>Making the sessions\<close>

fun initialize_loop ::
  "dictionary_source \<Rightarrow> 'a environment \<Rightarrow> bool \<Rightarrow> SessionID list \<Rightarrow> (string \<rightharpoonup> DataDictionary) \<Rightarrow> ('a SessionInitiator, unit) act" where
  "initialize_loop load E hasLog [] dictionaries i = (Inr (), i)"
| "initialize_loop load E hasLog (sid # sids) dictionaries i =
     (case and_then (ss_get sid (in_settings i)) (getString ''ConnectionType'' False) of
        Inl e \<Rightarrow> (Inl (Fix e), i)
      | Inr connectionType \<Rightarrow>
          if connectionType = ''initiator'' then
            let i = i\<lparr>in_sessionIDs := sids_insert sid (in_sessionIDs i)\<rparr> in
            (case bind (lift (ss_get sid (in_settings i))) (SessionFactory_create load E hasLog sid)
                \<lparr>fa_application = in_application i, fa_dictionaries = dictionaries\<rparr> of
               (Inl e, f) \<Rightarrow> (Inl e, i\<lparr>in_application := fa_application f\<rparr>)
             | (Inr s, f) \<Rightarrow> initialize_loop load E hasLog sids (fa_dictionaries f) (setDisconnected sid (put_session sid s i)))
          else initialize_loop load E hasLog sids dictionaries i)"

definition Initiator_initialize :: "dictionary_source \<Rightarrow> 'a environment \<Rightarrow> bool \<Rightarrow> ('a SessionInitiator, unit) act" where
  "Initiator_initialize load E hasLog = look (\<lambda>i.
     let sessions = ss_getSessions (in_settings i) in
     if sessions = [] then throw (Fix (ConfigError ''No sessions defined''))
     else after (initialize_loop load E hasLog sessions Map.empty) (look (\<lambda>i.
       if in_sessions i = [] then throw (Fix (ConfigError ''No sessions defined for initiator'')) else skip)))"

text \<open>The constructor; the log of the initiator itself is not modelled.\<close>

definition Initiator_new ::
  "dictionary_source \<Rightarrow> 'a environment \<Rightarrow> bool \<Rightarrow> SessionSettings \<Rightarrow> 'a \<Rightarrow> (throwable + unit) \<times> 'a SessionInitiator" where
  "Initiator_new load E hasLog settings app = Initiator_initialize load E hasLog (Initiator_empty settings app)"

definition getSession :: "SessionID \<Rightarrow> 'a SessionInitiator \<Rightarrow> 'a Session option" where
  "getSession sid i = session_at sid i"

definition getSession_for :: "'a environment \<Rightarrow> SessionID \<Rightarrow> ('a SessionInitiator, 'a Session option) act" where
  "getSession_for E sid = after (on_session sid (setResponder E True)) (gets (session_at sid))"

definition getSessionSettings :: "SessionID \<Rightarrow> 'a SessionInitiator \<Rightarrow> Dictionary option" where
  "getSessionSettings sid i = (case ss_get sid (in_settings i) of Inl e \<Rightarrow> None | Inr d \<Rightarrow> Some d)"

definition set_bool :: "string \<Rightarrow> (bool \<Rightarrow> 'x \<Rightarrow> 'x) \<Rightarrow> Dictionary \<Rightarrow> ('x, unit) act" where
  "set_bool key f dict = only_if (di_has key dict) (bind (lift (getBool key dict)) (\<lambda>v. modify (f v)))"

definition set_int :: "string \<Rightarrow> (int \<Rightarrow> 'x \<Rightarrow> 'x) \<Rightarrow> Dictionary \<Rightarrow> ('x, unit) act" where
  "set_int key f dict = only_if (di_has key dict) (bind (lift (getInt key dict)) (\<lambda>v. modify (f v)))"

definition onConfigure :: "SessionSettings \<Rightarrow> ('a SessionInitiator, unit) act" where
  "onConfigure s = (let dict = ss_defaults s in block
     [set_int ''ReconnectInterval'' (\<lambda>v i. i\<lparr>in_reconnectInterval := v\<rparr>) dict,
      set_bool ''SocketNodelay'' (\<lambda>v i. i\<lparr>in_noDelay := v\<rparr>) dict,
      set_int ''SocketSendBufferSize'' (\<lambda>v i. i\<lparr>in_sendBufSize := v\<rparr>) dict,
      set_int ''SocketReceiveBufferSize'' (\<lambda>v i. i\<lparr>in_rcvBufSize := v\<rparr>) dict])"

section \<open>Connecting\<close>

text \<open>What an attempt meets: whether the TLS object is made and whether the thread starts.\<close>

record attempt_outcome =
  at_ssl :: bool
  at_thread :: bool

text \<open>The destructor of a connection takes the responder away from its session.\<close>

definition close_connection :: "'a environment \<Rightarrow> SessionID \<Rightarrow> ('a SessionInitiator, unit) act" where
  "close_connection E sid = on_session sid (setResponder E False)"

definition try_connect ::
  "'a environment \<Rightarrow> attempt_outcome \<Rightarrow> int \<Rightarrow> SessionID \<Rightarrow> Dictionary \<Rightarrow> ('a SessionInitiator, unit) act" where
  "try_connect E outcome t sid d =
     bind (\<lambda>i. case getHost t sid d (in_hosts i) of
         (Inl e, m) \<Rightarrow> (Inl (Fix e), i\<lparr>in_hosts := m\<rparr>) | (Inr host, m) \<Rightarrow> (Inr host, i\<lparr>in_hosts := m\<rparr>)) (\<lambda>host.
     block
      [set_int ''ReconnectInterval'' (\<lambda>v i. i\<lparr>in_reconnectInterval := v\<rparr>) d,
       modify (setPending sid),
       look (\<lambda>i. on_session sid (onEvent (''Connecting to '' @ hd_address host @ '' on port '' @
         Session_State.int_text (uint (hd_port host)) @ '' ReconnectInterval='' @ Session_State.int_text (in_reconnectInterval i)))),
       if \<not> at_ssl outcome then on_session sid (onEvent ''Failed to create ssl object'')
       else block
        [on_session sid (setResponder E True),
         if at_thread outcome then skip else block [close_connection E sid, modify (setDisconnected sid)]]])"

text \<open>Every exception of the attempt is swallowed.\<close>

definition doConnect ::
  "'a environment \<Rightarrow> attempt_outcome \<Rightarrow> DateTime \<Rightarrow> int \<Rightarrow> SessionID \<Rightarrow> Dictionary \<Rightarrow> ('a SessionInitiator, unit) act" where
  "doConnect E outcome now t sid d =
     catch (look (\<lambda>i. case session_at sid i of
         None \<Rightarrow> throw Undefined
       | Some s \<Rightarrow> if \<not> isSessionTime E now s then skip else try_connect E outcome t sid d))
       (\<lambda>e. if is_std_exception e then Some skip else None)"

fun connect_loop ::
  "'a environment \<Rightarrow> (SessionID \<Rightarrow> attempt_outcome) \<Rightarrow> DateTime \<Rightarrow> int \<Rightarrow> SessionID list \<Rightarrow> ('a SessionInitiator, unit) act" where
  "connect_loop E outcome now t [] = skip"
| "connect_loop E outcome now t (sid # sids) =
     after (look (\<lambda>i. case session_at sid i of
         None \<Rightarrow> throw Undefined
       | Some s \<Rightarrow>
           if isEnabled s \<and> isSessionTime E now s
           then bind (lift (ss_get sid (in_settings i))) (doConnect E (outcome sid) now t sid)
           else skip))
       (connect_loop E outcome now t sids)"

definition connect :: "'a environment \<Rightarrow> (SessionID \<Rightarrow> attempt_outcome) \<Rightarrow> DateTime \<Rightarrow> int \<Rightarrow> ('a SessionInitiator, unit) act" where
  "connect E outcome now t = look (\<lambda>i. connect_loop E outcome now t (map snd (in_disconnected i)))"

text \<open>The thread of a connection, up to its reading: connection or handshake failed, or both succeeded; and its end.\<close>

definition socketThread_failed :: "'a environment \<Rightarrow> SessionID \<Rightarrow> ('a SessionInitiator, unit) act" where
  "socketThread_failed E sid = block [close_connection E sid, modify (setDisconnected sid)]"

definition socketThread_connected :: "'a environment \<Rightarrow> DateTime \<Rightarrow> SessionID \<Rightarrow> ('a SessionInitiator, unit) act" where
  "socketThread_connected E now sid = block [modify (setConnected sid), on_session sid (next_time E now)]"

definition socketThread_ended :: "'a environment \<Rightarrow> SessionID \<Rightarrow> ('a SessionInitiator, unit) act" where
  "socketThread_ended E sid = block [close_connection E sid, modify (setDisconnected sid)]"

text \<open>A turn of the thread of the initiator; \<open>outbound\<close> works off the queue of messages.\<close>

definition onStart_turn ::
  "'a environment \<Rightarrow> (SessionID \<Rightarrow> attempt_outcome) \<Rightarrow> ('a SessionInitiator, unit) act \<Rightarrow> DateTime \<Rightarrow> int \<Rightarrow> ('a SessionInitiator, unit) act" where
  "onStart_turn E outcome outbound now t = look (\<lambda>i.
     if in_stop i then skip
     else after (if t - in_lastConnect i \<ge> in_reconnectInterval i
         then block [connect E outcome now t, modify (\<lambda>i. i\<lparr>in_lastConnect := t\<rparr>)] else skip) outbound)"

section \<open>Stopping\<close>

definition Initiator_isLoggedOn :: "'a SessionInitiator \<Rightarrow> bool" where
  "Initiator_isLoggedOn i =
     list_ex (\<lambda>(k, sid). case session_at sid i of None \<Rightarrow> False | Some s \<Rightarrow> isLoggedOn s) (in_connected i)"

text \<open>A setter of a session.\<close>

definition set_session :: "SessionID \<Rightarrow> ('a Session \<Rightarrow> 'a Session) \<Rightarrow> 'a SessionInitiator \<Rightarrow> 'a SessionInitiator" where
  "set_session sid f i = (case session_at sid i of None \<Rightarrow> i | Some s \<Rightarrow> put_session sid (f s) i)"

definition session_enabled :: "'a SessionInitiator \<Rightarrow> SessionID \<Rightarrow> bool" where
  "session_enabled i sid = (case session_at sid i of None \<Rightarrow> False | Some s \<Rightarrow> isEnabled s)"

text \<open>The seconds it waits; \<open>others\<close> is what the other threads do meanwhile.\<close>

fun wait_loop :: "(nat \<Rightarrow> 'a SessionInitiator \<Rightarrow> 'a SessionInitiator) \<Rightarrow> nat list \<Rightarrow> 'a SessionInitiator \<Rightarrow> 'a SessionInitiator" where
  "wait_loop others [] i = i"
| "wait_loop others (second # seconds) i =
     (if Initiator_isLoggedOn i then wait_loop others seconds (others second i) else i)"

definition Initiator_stop ::
  "(nat \<Rightarrow> 'a SessionInitiator \<Rightarrow> 'a SessionInitiator) \<Rightarrow> bool \<Rightarrow> 'a SessionInitiator \<Rightarrow> 'a SessionInitiator" where
  "Initiator_stop others force i =
     (if in_stop i then i
      else
        let connected = map snd (in_connected i);
            enabledSessions = filter (session_enabled i) connected;
            i = fold (\<lambda>sid. set_session sid (logout [])) enabledSessions i;
            i = (if \<not> force then wait_loop others [1..<11] i else i);
            i = fold setDisconnected connected i;
            i = others 11 (i\<lparr>in_stop := True\<rparr>)
        in fold (\<lambda>sid. set_session sid logon) enabledSessions i)"

definition Initiator_block ::
  "(SessionSettings \<Rightarrow> fix_exception + unit) \<Rightarrow> ('a SessionInitiator, unit) act \<Rightarrow> ('a SessionInitiator, unit) act" where
  "Initiator_block onInitialize onStart = look (\<lambda>i.
     if in_processing i then throw (Fix (RuntimeError ''Initiator::block called when already processing messages''))
     else (\<lambda>i. case block
         [modify (\<lambda>i. i\<lparr>in_processing := True, in_stop := False\<rparr>),
          look (\<lambda>i. onConfigure (in_settings i)),
          look (\<lambda>i. lift (onInitialize (in_settings i))),
          onStart] i of (r, i) \<Rightarrow> (r, i\<lparr>in_processing := False\<rparr>)))"

end
