(* ===== verification/Factory_Laws.thy ===== *)
theory Factory_Laws
  imports Session_Factory
begin

text \<open>
  A session that is made from settings is one of those the properties of a session are about, and is set
  up as its settings say.
\<close>

section \<open>What setters keep\<close>

lemmas setter_defs = setLogonTime_def setSenderDefaultApplVerID_def setSendRedundantResendRequests_def setCheckCompId_def
  setCheckLatency_def setMaxLatency_def setResetOnLogon_def setResetOnLogout_def setResetOnDisconnect_def setRefreshOnLogon_def
  setPersistMessages_def setValidateLengthAndChecksum_def setSendNextExpectedMsgSeqNum_def setIsNonStopSession_def
  setAllowedRemoteAddresses_def

lemma reachable_setters:
  assumes "reachable E s"
  shows "reachable E (setLogonTime r s)" "reachable E (setSenderDefaultApplVerID t s)" "reachable E (setSendRedundantResendRequests b s)"
    "reachable E (setCheckCompId b s)" "reachable E (setCheckLatency b s)" "reachable E (setMaxLatency i s)"
    "reachable E (setResetOnLogon b s)" "reachable E (setResetOnLogout b s)" "reachable E (setResetOnDisconnect b s)"
    "reachable E (setRefreshOnLogon b s)" "reachable E (setPersistMessages b s)" "reachable E (setValidateLengthAndChecksum b s)"
    "reachable E (setSendNextExpectedMsgSeqNum b s)" "reachable E (setIsNonStopSession b s)" "reachable E (setAllowedRemoteAddresses a s)"
  by (rule setting [OF assms]; simp add: setter_defs)+

text \<open>What makes a session the one its settings ask for.\<close>

definition fixed_part :: "'a Session \<Rightarrow> SessionID \<times> TimeRange \<times> TimeRange \<times> string" where
  "fixed_part s = (m_sessionID s, m_sessionTime s, m_logonTime s, st_heartBtInt (m_state s))"

definition set_up :: "'a environment \<Rightarrow> SessionID \<times> TimeRange \<times> TimeRange \<times> string \<Rightarrow> bool \<Rightarrow> 'a Session \<Rightarrow> bool" where
  "set_up E p isNonStopSession s \<longleftrightarrow> reachable E s \<and> fixed_part s = p \<and> (m_isNonStopSession s \<longrightarrow> isNonStopSession)"

lemma in_turn_keeps:
  assumes "in_turn fs x = Inr y" and "P x" and "\<And>f x y. f \<in> set fs \<Longrightarrow> P x \<Longrightarrow> f x = Inr y \<Longrightarrow> P y"
  shows "P y"
  using assms by (induction fs arbitrary: x) (auto simp: and_then_Inr)

lemma opt_keeps:
  "opt_bool key f settings x = Inr y \<Longrightarrow> P x \<Longrightarrow> (\<And>v x. P x \<Longrightarrow> P (f v x)) \<Longrightarrow> P y"
  "opt_int key g settings x = Inr y \<Longrightarrow> P x \<Longrightarrow> (\<And>v x. P x \<Longrightarrow> P (g v x)) \<Longrightarrow> P y"
  by (auto simp: opt_bool_def opt_int_def and_then_Inr split: if_splits)

lemma set_up_setters:
  assumes "set_up E p n s"
  shows "set_up E p n (setSendRedundantResendRequests b s)"
    "set_up E p n (setCheckCompId b s)" "set_up E p n (setCheckLatency b s)" "set_up E p n (setMaxLatency i s)"
    "set_up E p n (setLogonTimeout i s)" "set_up E p n (setLogoutTimeout i s)"
    "set_up E p n (setResetOnLogon b s)" "set_up E p n (setResetOnLogout b s)" "set_up E p n (setResetOnDisconnect b s)"
    "set_up E p n (setRefreshOnLogon b s)" "set_up E p n (setMillisecondsInTimeStamp b s)" "set_up E p n (setPersistMessages b s)"
    "set_up E p n (setValidateLengthAndChecksum b s)" "set_up E p n (setSendNextExpectedMsgSeqNum b s)"
    "n \<Longrightarrow> set_up E p n (setIsNonStopSession b s)" "set_up E p n (setAllowedRemoteAddresses a s)"
  using assms unfolding set_up_def
  by (auto simp: reachable_setters logon_timeout logout_timeout milliseconds)
    (auto simp: fixed_part_def setter_defs setLogonTimeout_def setLogoutTimeout_def setMillisecondsInTimeStamp_def split: if_splits)

lemma session_options_keep:
  assumes "session_options n settings s = Inr t" and "set_up E p n s"
  shows "set_up E p n t"
  using assms unfolding session_options_def
  by (rule in_turn_keeps)
    (auto simp: and_then_Inr set_up_setters split: if_splits elim!: opt_keeps)

text \<open>The constructor.\<close>

lemma Session_new_kept:
  assumes "Session_new E sessionID provider sessionTime heartBtInt hasLog app = (r, s)"
  shows "m_sessionID s = sessionID \<and> m_sessionTime s = sessionTime \<and> st_heartBtInt (m_state s) = Session_State.int_text heartBtInt \<and> \<not> m_isNonStopSession s"
  using assms unfolding Session_new_def Let_def
  by (auto simp: act_defs callback_def timestamper_def state_def log_add_def st_reset_def split: prod.splits sum.splits if_splits)


section \<open>Made from settings\<close>

lemma lift_Inr: "lift r f = (Inr x, g) \<longleftrightarrow> r = Inr x \<and> f = g"
  by (auto simp: lift_def split: sum.splits)

lemma lift_bind_Inr: "bind (lift r) g f = (Inr y, f') \<longleftrightarrow> (\<exists>x. r = Inr x \<and> g x f = (Inr y, f'))"
  by (auto simp: lift_def bind_def split: sum.splits)

lemma bind_Inr: "bind m g f = (Inr y, f') \<longleftrightarrow> (\<exists>x f1. m f = (Inr x, f1) \<and> g x f1 = (Inr y, f'))"
  by (auto simp: bind_def split: sum.splits prod.splits)

text \<open>The values a session was made with.\<close>

lemma create_parts:
  assumes "SessionFactory_create load E hasLog sessionID settings f = (Inr s, f')"
  obtains connectionType applVerID provider useLocalTime n startDay endDay startTime endTime heartBtInt s0 s1 f0 f1 where
    "connection_type settings = Inr connectionType" "opt_bool ''NonStopSession'' (\<lambda>v x. v) settings False = Inr n"
    "session_times n settings = Inr (startTime, endTime)" "check_days n startTime endTime startDay endDay = Inr ()"
    "heartbeat connectionType settings = Inr heartBtInt"
    "new_session E sessionID provider (time_range useLocalTime startTime endTime startDay endDay) heartBtInt hasLog f0 = (Inr s0, f1)"
    "logon_times useLocalTime (time_range useLocalTime startTime endTime startDay endDay) startTime endTime startDay endDay settings
       (setSenderDefaultApplVerID applVerID s0) = Inr s1"
    "session_options n settings s1 = Inr s"
proof -
  obtain startDay endDay where days: "day_settings ''StartDay'' ''EndDay'' settings (-1, -1) = (startDay, endDay)" by fastforce
  show thesis
    using assms unfolding SessionFactory_create_def Let_def days prod.case
    by (auto simp: lift_bind_Inr lift_Inr bind_Inr split: prod.splits intro: that)
qed


lemma UtcTimeOnly_again: "isInRange_time a b (UtcTimeOnly t) = isInRange_time a b t" "isInRange_day a b c d (UtcTimeOnly t) e = isInRange_day a b c d t e"
  by (simp_all add: isInRange_time_def isInRange_day_def UtcTimeOnly_def clearDate_def Let_def)

text \<open>Cutting a time to seconds, as for a local time, keeps it in a range whose ends are whole seconds.\<close>

lemma sdiv_sdiv: "0 \<le> b \<Longrightarrow> 0 \<le> c \<Longrightarrow> (a sdiv b) sdiv c = a sdiv (b * c)" for a b c :: int
proof (cases "0 \<le> a")
  case True
  assume "0 \<le> b" "0 \<le> c"
  with True show ?thesis by (simp add: sdiv_nonneg_eq div_int_pos_iff zdiv_zmult2_eq)
next
  case False
  assume bc: "0 \<le> b" "0 \<le> c"
  obtain n where n: "a = - n" "0 \<le> n" using False by (intro that [of "- a"]) simp_all
  then have "(n sdiv b) sdiv c = n sdiv (b * c)"
    using bc by (simp add: sdiv_nonneg_eq div_int_pos_iff zdiv_zmult2_eq)
  then show ?thesis unfolding n(1) sdiv_uminus by simp
qed

lemma local_time_cut: "m_date (local_time t) = 0" "m_time (local_time t) = (m_time t sdiv NANOS_PER_SEC) * NANOS_PER_SEC"
proof -
  show "m_date (local_time t) = 0" by (simp add: local_time_def setHMS_def DateTime_of_def)
  let ?s = "m_time t sdiv 1000000000"
  have "?s sdiv 60 = m_time t sdiv 60000000000" "(?s sdiv 60) sdiv 60 = m_time t sdiv 3600000000000"
    by (simp_all add: sdiv_sdiv)
  then have "3600 * (m_time t sdiv 3600000000000) + 60 * ((m_time t sdiv 60000000000) smod 60) + ?s smod 60 = ?s"
    using sdiv_mult_smod_eq [of ?s 60] sdiv_mult_smod_eq [of "?s sdiv 60" 60] by simp
  then show "m_time (local_time t) = (m_time t sdiv NANOS_PER_SEC) * NANOS_PER_SEC"
    by (simp add: local_time_def setHMS_def makeHMS_def getHour_def getMinute_def getSecond_def NANOS_PER_HOUR_def NANOS_PER_MIN_def
        NANOS_PER_SEC_def SECONDS_PER_HOUR_def SECONDS_PER_MIN_def MINUTES_PER_HOUR_def mult.commute)
qed

definition whole_second :: "DateTime \<Rightarrow> bool" where
  "whole_second t \<longleftrightarrow> m_date t = 0 \<and> (m_time t sdiv NANOS_PER_SEC) * NANOS_PER_SEC = m_time t"

lemma whole_second_local: "whole_second (local_time t)" "whole_second (UtcTimeOnly (local_time t))"
proof -
  have "(x sdiv NANOS_PER_SEC * NANOS_PER_SEC) sdiv NANOS_PER_SEC = x sdiv NANOS_PER_SEC" for x
    by (simp add: sdiv_mult_self NANOS_PER_SEC_def)
  then show "whole_second (local_time t)" "whole_second (UtcTimeOnly (local_time t))"
    by (simp_all add: whole_second_def UtcTimeOnly_def clearDate_def local_time_cut)
qed

lemma local_time_mono: "m_time t \<le> m_time u \<Longrightarrow> m_time (local_time t) \<le> m_time (local_time u)"
  unfolding local_time_cut by (intro mult_right_mono sdiv_mono) (simp_all add: NANOS_PER_SEC_def)

lemma local_time_compare:
  assumes "whole_second w"
  shows "\<not> dt_less (UtcTimeOnly t) w \<Longrightarrow> \<not> dt_less (UtcTimeOnly (local_time t)) w"
    "\<not> dt_greater (UtcTimeOnly t) w \<Longrightarrow> \<not> dt_greater (UtcTimeOnly (local_time t)) w"
proof -
  have w: "m_date w = 0" "m_time (local_time w) = m_time w" using assms by (simp_all add: whole_second_def local_time_cut)
  show "\<not> dt_less (UtcTimeOnly t) w \<Longrightarrow> \<not> dt_less (UtcTimeOnly (local_time t)) w"
    using local_time_mono [of w t] by (auto simp: dt_less_def UtcTimeOnly_def clearDate_def w split: if_splits)
  show "\<not> dt_greater (UtcTimeOnly t) w \<Longrightarrow> \<not> dt_greater (UtcTimeOnly (local_time t)) w"
    using local_time_mono [of t w] by (auto simp: dt_greater_def dt_equal_def dt_less_def UtcTimeOnly_def clearDate_def w split: if_splits)
qed

lemma dt_compare: "dt_greater_eq t w \<longleftrightarrow> \<not> dt_less t w" "dt_less_eq t w \<longleftrightarrow> \<not> dt_greater t w"
  by (auto simp: dt_greater_eq_def dt_less_eq_def dt_greater_def dt_equal_def dt_less_def)

lemma isInRange_day_iff:
  "isInRange_day s e sd ed t d \<longleftrightarrow> (sd = ed \<longrightarrow> d = sd \<longrightarrow> isInRange_time s e t) \<and>
     (sd \<noteq> ed \<longrightarrow> (if sd < ed then sd \<le> d \<and> d \<le> ed else sd \<le> d \<or> d \<le> ed) \<and>
       (d = sd \<longrightarrow> \<not> dt_less (UtcTimeOnly t) s) \<and> (d = ed \<longrightarrow> \<not> dt_greater (UtcTimeOnly t) e))"
proof -
  define before after_end where "before = dt_less (UtcTimeOnly t) s" and "after_end = dt_greater (UtcTimeOnly t) e"
  show ?thesis
    unfolding isInRange_day_def Let_def before_def [symmetric] after_end_def [symmetric] by auto
qed

lemma local_time_in_range:
  assumes s: "whole_second (m_startTime r)" and e: "whole_second (m_endTime r)" and "TimeRange_isInRange_day r t d"
  shows "TimeRange_isInRange_day r (local_time t) d"
proof -
  note later = local_time_compare(1) [OF s, of t] and earlier = local_time_compare(2) [OF e, of t]
  have hours: "isInRange_time (m_startTime r) (m_endTime r) (local_time t)" if "isInRange_time (m_startTime r) (m_endTime r) t"
    using that later earlier unfolding isInRange_time_def Let_def dt_compare by argo
  show ?thesis
  proof (cases "m_startDay r < 0 \<and> m_endDay r < 0")
    case True
    then show ?thesis using assms(3) hours by (simp add: TimeRange_isInRange_day_def)
  next
    case False
    then have "isInRange_day (m_startTime r) (m_endTime r) (m_startDay r) (m_endDay r) t d"
      using assms(3) by (simp add: TimeRange_isInRange_day_def)
    then have "isInRange_day (m_startTime r) (m_endTime r) (m_startDay r) (m_endDay r) (local_time t) d"
      using hours later earlier unfolding isInRange_day_iff by blast
    then show ?thesis unfolding TimeRange_isInRange_day_def if_not_P [OF False] .
  qed
qed

text \<open>The hours of the logon: both their ends are in the session time, by both clocks.\<close>

lemma in_range_again: "TimeRange_isInRange_day r (UtcTimeOnly t) d = TimeRange_isInRange_day r t d"
  by (simp add: TimeRange_isInRange_day_def UtcTimeOnly_again)

lemma time_range_ends:
  fixes a b :: DateTime and local :: bool
  defines "rounding \<equiv> if local then local_time else id"
  shows "m_startTime (time_range local a b d e) = UtcTimeOnly (rounding a)" "m_startDay (time_range local a b d e) = d"
    "m_endDay (time_range local a b d e) = e"
    "m_endTime (time_range local a b d e) = UtcTimeOnly (rounding b) \<or> d = e \<and> m_endTime (time_range local a b d e) = UtcTimeOnly (rounding a)"
  by (simp_all add: time_range_def TimeRange_new_def Let_def rounding_def)

lemma time_range_whole: "local \<longrightarrow> whole_second (m_startTime (time_range local a b d e)) \<and> whole_second (m_endTime (time_range local a b d e))"
  using time_range_ends(1,4) [of local a b d e] whole_second_local(2) by auto

lemma logon_times_in_range:
  assumes "logon_times useLocalTime rg startTime endTime startDay endDay settings s = Inr t"
    and "useLocalTime \<longrightarrow> whole_second (m_startTime rg) \<and> whole_second (m_endTime rg)"
  shows "\<exists>r. t = setLogonTime r s \<and> TimeRange_isInRange_day rg (m_startTime r) (m_startDay r) \<and>
    TimeRange_isInRange_day rg (m_endTime r) (m_endDay r)"
proof -
  obtain logonDay logoutDay where days: "day_settings ''LogonDay'' ''LogoutDay'' settings (startDay, endDay) = (logonDay, logoutDay)" by fastforce
  let ?cut = "if useLocalTime then local_time else id"
  obtain logonTime logoutTime where "TimeRange_isInRange_day rg logonTime logonDay" "TimeRange_isInRange_day rg logoutTime logoutDay"
      and t: "t = setLogonTime (time_range useLocalTime logonTime logoutTime logonDay logoutDay) s"
    using assms(1) unfolding logon_times_def Let_def days prod.case by (auto simp: and_then_Inr split: if_splits)
  then have "TimeRange_isInRange_day rg (?cut logonTime) logonDay" "TimeRange_isInRange_day rg (?cut logoutTime) logoutDay"
    using assms(2) local_time_in_range by auto
  then show ?thesis
    using time_range_ends [of useLocalTime logonTime logoutTime logonDay logoutDay] t
    by (intro exI [of _ "time_range useLocalTime logonTime logoutTime logonDay logoutDay"]) (auto simp: in_range_again)
qed

lemma midnight_UtcTimeOnly: "UtcTimeOnly midnight = midnight" "dt_equal t midnight \<Longrightarrow> t = midnight"
  "local_time midnight = midnight"
  by code_simp (auto simp: dt_equal_def, code_simp)

section \<open>An example\<close>

definition example_settings :: Dictionary where
  "example_settings = \<lparr>di_name = ''SESSION'', di_data =
     [(''CONNECTIONTYPE'', ''initiator''), (''ENDTIME'', ''23:00:00''), (''HEARTBTINT'', ''30''), (''LOGONTIMEOUT'', ''5''),
      (''STARTTIME'', ''00:30:00''), (''USEDATADICTIONARY'', ''N'')]\<rparr>"

abbreviation no_dictionaries :: DataDictionaryProvider where
  "no_dictionaries \<equiv> \<lparr>transportDictionaries = Map.empty, applicationDictionaries = Map.empty\<rparr>"

abbreviation example_start :: DateTime where
  "example_start \<equiv> setHMS 0 30 0 0 (DateTime_of 0 0)"

abbreviation example_end :: DateTime where
  "example_end \<equiv> setHMS 23 0 0 0 (DateTime_of 0 0)"

abbreviation example_identity :: SessionID where
  "example_identity \<equiv> SessionID_new ''FIX.4.4'' ''HARJUS'' ''SPOT'' []"

lemma example_head:
  "connection_type example_settings = Inr ''initiator''"
  "opt_bool ''UseDataDictionary'' (\<lambda>v x. v) example_settings True = Inr False"
  "default_version example_identity example_settings = Inr []"
  by code_simp+

lemma example_flags:
  "opt_bool ''UseLocalTime'' (\<lambda>v x. v) example_settings False = Inr False"
  "opt_bool ''NonStopSession'' (\<lambda>v x. v) example_settings False = Inr False"
  "heartbeat ''initiator'' example_settings = Inr 30"
  by code_simp+

lemma example_times:
  "day_settings ''StartDay'' ''EndDay'' example_settings (-1, -1) = (-1, -1)"
  "session_times False example_settings = Inr (example_start, example_end)"
  "check_days False example_start example_end (-1) (-1) = Inr ()"
  by code_simp+

lemma example_logon_times:
  "day_settings ''LogonDay'' ''LogoutDay'' example_settings (-1, -1) = (-1, -1)"
  "logon_time ''LogonTime'' example_settings example_start = Inr example_start"
  "logon_time ''LogoutTime'' example_settings example_end = Inr example_end"
  "TimeRange_isInRange_day (time_range False example_start example_end (-1) (-1)) example_start (-1)"
  "TimeRange_isInRange_day (time_range False example_start example_end (-1) (-1)) example_end (-1)"
  by code_simp+

lemma example_has:
  "\<not> di_has ''SendRedundantResendRequests'' example_settings" "\<not> di_has ''CheckCompID'' example_settings"
  "\<not> di_has ''CheckLatency'' example_settings" "\<not> di_has ''MaxLatency'' example_settings"
  "\<not> di_has ''LogoutTimeout'' example_settings" "\<not> di_has ''ResetOnLogon'' example_settings"
  "\<not> di_has ''ResetOnLogout'' example_settings" "\<not> di_has ''ResetOnDisconnect'' example_settings"
  "\<not> di_has ''RefreshOnLogon'' example_settings" "\<not> di_has ''MillisecondsInTimeStamp'' example_settings"
  "\<not> di_has ''PersistMessages'' example_settings" "\<not> di_has ''ValidateLengthAndChecksum'' example_settings"
  "\<not> di_has ''SendNextExpectedMsgSeqNum'' example_settings" "\<not> di_has ''AllowedRemoteAddresses'' example_settings"
  "di_has ''LogonTimeout'' example_settings" "getInt ''LogonTimeout'' example_settings = Inr 5"
  by code_simp+

lemma example_options: "session_options False example_settings s = Inr (setLogonTimeout 5 s)"
  by (simp add: session_options_def opt_bool_def opt_int_def example_has)

text \<open>The example is made whatever dictionaries there are.\<close>

lemma example_made:
  "\<exists>s f'. SessionFactory_create load quiet True example_identity example_settings f = (Inr s, f') \<and>
     \<not> m_useLocalTime (m_sessionTime s)"
proof -
  let ?range = "time_range False example_start example_end (-1) (-1)"
  obtain s where s: "Session_new quiet example_identity no_dictionaries ?range 30 True (fa_application f) = (Inr (), s)"
    by (cases "Session_new quiet example_identity no_dictionaries ?range 30 True (fa_application f)")
      (auto simp: Session_new_def Let_def quiet_def act_defs callback_def timestamper_def state_def log_add_def split: if_splits)
  have "\<not> m_useLocalTime ?range" by code_simp
  moreover have "\<not> sid_isFIXT example_identity" by code_simp
  ultimately show ?thesis using Session_new_kept [OF s] s
    unfolding SessionFactory_create_def Let_def example_times prod.case
    by (simp add: bind_def lift_def return_def example_head example_flags example_times logon_times_def example_logon_times
        example_options new_session_def setLogonTimeout_def setter_defs Let_def)
qed

section \<open>The sessions that are made\<close>

lemma create_facts:
  assumes "SessionFactory_create load E hasLog sessionID settings f = (Inr s, f')"
  shows "reachable E s \<and> m_sessionID s = sessionID \<and>
    (getString ''ConnectionType'' False settings = Inr ''initiator'' \<longrightarrow>
       (\<exists>n. 0 < n \<and> getInt ''HeartBtInt'' settings = Inr n \<and> st_heartBtInt (m_state s) = Session_State.int_text n)) \<and>
    (0 \<le> m_startDay (m_sessionTime s) \<longleftrightarrow> 0 \<le> m_endDay (m_sessionTime s)) \<and>
    (m_isNonStopSession s \<longrightarrow> m_startDay (m_sessionTime s) < 0 \<and>
       m_startTime (m_sessionTime s) = midnight \<and> m_endTime (m_sessionTime s) = midnight) \<and>
    TimeRange_isInRange_day (m_sessionTime s) (m_startTime (m_logonTime s)) (m_startDay (m_logonTime s)) \<and>
    TimeRange_isInRange_day (m_sessionTime s) (m_endTime (m_logonTime s)) (m_endDay (m_logonTime s))"
  using assms
proof (rule create_parts)
  fix connectionType applVerID provider useLocalTime n startDay endDay startTime endTime heartBtInt s0 s1 f0 f1
  let ?range = "time_range useLocalTime startTime endTime startDay endDay"
  assume type: "connection_type settings = Inr connectionType" and check: "check_days n startTime endTime startDay endDay = Inr ()"
    and hb: "heartbeat connectionType settings = Inr heartBtInt"
    and new: "new_session E sessionID provider ?range heartBtInt hasLog f0 = (Inr s0, f1)"
    and logon: "logon_times useLocalTime ?range startTime endTime startDay endDay settings (setSenderDefaultApplVerID applVerID s0) = Inr s1"
    and options: "session_options n settings s1 = Inr s"
  obtain u where u: "Session_new E sessionID provider ?range heartBtInt hasLog (fa_application f0) = (Inr u, s0)"
    using new by (auto simp: new_session_def split: prod.splits sum.splits)
  obtain r where r: "s1 = setLogonTime r (setSenderDefaultApplVerID applVerID s0)"
      "TimeRange_isInRange_day ?range (m_startTime r) (m_startDay r)" "TimeRange_isInRange_day ?range (m_endTime r) (m_endDay r)"
    using logon_times_in_range [OF logon time_range_whole] by blast
  have "reachable E s1" unfolding r(1) by (intro reachable_setters constructed [OF u])
  moreover have "fixed_part s1 = (sessionID, ?range, r, Session_State.int_text heartBtInt)" "\<not> m_isNonStopSession s1"
    using Session_new_kept [OF u] by (simp_all add: r(1) fixed_part_def setter_defs)
  ultimately have "set_up E (sessionID, ?range, r, Session_State.int_text heartBtInt) n s1" by (simp add: set_up_def)
  then have s: "set_up E (sessionID, ?range, r, Session_State.int_text heartBtInt) n s" by (rule session_options_keep [OF options])
  have days: "0 \<le> startDay \<longleftrightarrow> 0 \<le> endDay" "n \<Longrightarrow> startDay < 0 \<and> startTime = midnight \<and> endTime = midnight"
    using check by (auto simp: check_days_def midnight_UtcTimeOnly split: if_splits)
  have range: "m_startDay ?range = startDay" "m_endDay ?range = endDay" "m_useLocalTime ?range = useLocalTime"
    by (simp_all add: time_range_def TimeRange_new_def Let_def)
  have "n \<Longrightarrow> m_startTime ?range = midnight \<and> m_endTime ?range = midnight"
    using days(2) by (simp add: time_range_def TimeRange_new_def Let_def midnight_UtcTimeOnly)
  moreover have "\<exists>n. 0 < n \<and> getInt ''HeartBtInt'' settings = Inr n \<and> Session_State.int_text heartBtInt = Session_State.int_text n"
    if "getString ''ConnectionType'' False settings = Inr ''initiator''"
    using hb type that by (auto simp: heartbeat_def connection_type_def and_then_Inr split: if_splits)
  ultimately show ?thesis using s days r(2,3) range by (auto simp: set_up_def fixed_part_def)
qed

text \<open>C18. A session that is made from settings is one the other properties hold for: it is reachable, has the
  identity it was asked for, as an initiator the heart beat of the settings, which is positive, a session time
  with both days or none, none and no times when it never stops; and the hours of its logon start and end
  within its session time, whether the times are local or not.\<close>

theorem session_from_settings:
  assumes "SessionFactory_create load E hasLog sessionID settings f = (Inr s, f')"
  shows "reachable E s \<and> m_sessionID s = sessionID \<and>
    (getString ''ConnectionType'' False settings = Inr ''initiator'' \<longrightarrow>
       (\<exists>n. 0 < n \<and> getInt ''HeartBtInt'' settings = Inr n \<and> st_heartBtInt (m_state s) = Session_State.int_text n)) \<and>
    (0 \<le> m_startDay (m_sessionTime s) \<longleftrightarrow> 0 \<le> m_endDay (m_sessionTime s)) \<and>
    (m_isNonStopSession s \<longrightarrow> m_startDay (m_sessionTime s) < 0 \<and>
       m_startTime (m_sessionTime s) = midnight \<and> m_endTime (m_sessionTime s) = midnight) \<and>
    TimeRange_isInRange_day (m_sessionTime s) (m_startTime (m_logonTime s)) (m_startDay (m_logonTime s)) \<and>
    TimeRange_isInRange_day (m_sessionTime s) (m_endTime (m_logonTime s)) (m_endDay (m_logonTime s))"
  by (rule create_facts [OF assms])

theorem session_from_settings_witness:
  "\<exists>s f'. SessionFactory_create (\<lambda>path preserve. Inr DataDictionary_new) quiet True example_identity example_settings
      \<lparr>fa_application = (), fa_dictionaries = Map.empty\<rparr> = (Inr s, f') \<and>
    reachable quiet s \<and> m_sessionID s = example_identity \<and>
    TimeRange_isInRange_day (m_sessionTime s) (m_startTime (m_logonTime s)) (m_startDay (m_logonTime s)) \<and>
    TimeRange_isInRange_day (m_sessionTime s) (m_endTime (m_logonTime s)) (m_endDay (m_logonTime s))"
proof -
  obtain s f' where "SessionFactory_create (\<lambda>path preserve. Inr DataDictionary_new) quiet True example_identity example_settings
      \<lparr>fa_application = (), fa_dictionaries = Map.empty\<rparr> = (Inr s, f')"
    using example_made by blast
  with session_from_settings [OF this] show ?thesis by blast
qed

end
