(* ===== verification/Initiator_Laws.thy ===== *)
theory Initiator_Laws
  imports Session_Initiator Factory_Laws
begin

text \<open>
  Every session of an initiator is in exactly one of its three sets, and is one the properties of sessions
  are about, whatever the threads do and in whatever order: a third interpretation of the locale of
  \<open>Session_Action\<close>.
\<close>

section \<open>The sets\<close>

definition ids_ok :: "SessionIDs \<Rightarrow> bool" where
  "ids_ok ids \<longleftrightarrow> map_ok ids \<and> list_all (\<lambda>(k, sid). k = sid_frozenString sid) ids"

definition keys :: "(string \<times> 'b) list \<Rightarrow> string set" where
  "keys es = fst ` set es"

lemma keys_map_of: "k \<in> keys es \<longleftrightarrow> map_of es k \<noteq> None"
  by (simp add: keys_def map_of_eq_None_iff)

lemma keys_simps [simp]: "keys [] = {}" "keys (map_put k v es) = insert k (keys es)" "keys (map_drop k es) = keys es - {k}"
  by (auto simp: keys_def map_drop_def image_iff)

lemma sids_keys [simp]: "keys (sids_insert sid ids) = insert (sid_frozenString sid) (keys ids)"
    "keys (sids_erase sid ids) = keys ids - {sid_frozenString sid}"
    "sids_has sid ids \<longleftrightarrow> sid_frozenString sid \<in> keys ids"
  using keys_map_of [of "sid_frozenString sid" ids] by (auto simp: sids_insert_def sids_erase_def sids_has_def)

lemma ids_ok_simps [simp]: "ids_ok []" "ids_ok ids \<Longrightarrow> ids_ok (sids_insert sid ids)" "ids_ok ids \<Longrightarrow> ids_ok (sids_erase sid ids)"
proof -
  have put: "list_all (\<lambda>(k, sid). k = sid_frozenString sid) ids \<Longrightarrow>
      list_all (\<lambda>(k, sid). k = sid_frozenString sid) (map_put (sid_frozenString sid) sid ids)" for sid and ids :: SessionIDs
    by (auto simp: list_all_iff dest!: set_map_put)
  show "ids_ok []" by (simp add: ids_ok_def map_ok_def)
  show "ids_ok ids \<Longrightarrow> ids_ok (sids_insert sid ids)" by (simp add: ids_ok_def sids_insert_def put)
  show "ids_ok ids \<Longrightarrow> ids_ok (sids_erase sid ids)" by (auto simp: ids_ok_def sids_erase_def list_all_iff)
qed

lemma ids_ok_keys: "ids_ok ids \<Longrightarrow> sid \<in> snd ` set ids \<Longrightarrow> sid_frozenString sid \<in> keys ids"
  by (force simp: ids_ok_def list_all_iff keys_def)

definition sets_ok :: "'a SessionInitiator \<Rightarrow> bool" where
  "sets_ok i \<longleftrightarrow> ids_ok (in_pending i) \<and> ids_ok (in_connected i) \<and> ids_ok (in_disconnected i) \<and>
     keys (in_sessions i) = keys (in_pending i) \<union> keys (in_connected i) \<union> keys (in_disconnected i) \<and>
     keys (in_pending i) \<inter> keys (in_connected i) = {} \<and> keys (in_pending i) \<inter> keys (in_disconnected i) = {} \<and>
     keys (in_connected i) \<inter> keys (in_disconnected i) = {}"

definition sessions_ok :: "'a environment \<Rightarrow> 'a SessionInitiator \<Rightarrow> bool" where
  "sessions_ok E i \<longleftrightarrow> map_ok (in_sessions i) \<and> (\<forall>e \<in> set (in_sessions i). reachable E (snd e))"

lemma sets_ok_moves:
  assumes "sets_ok i" and "sid_frozenString sid \<in> keys (in_sessions i)"
  shows "sets_ok (setPending sid i)" "sets_ok (setConnected sid i)" "sets_ok (setDisconnected sid i)"
  using assms by (auto simp: sets_ok_def setPending_def setConnected_def setDisconnected_def)

lemma session_at_reachable: "sessions_ok E i \<Longrightarrow> session_at sid i = Some s \<Longrightarrow> reachable E s"
  by (auto simp: sessions_ok_def session_at_def dest!: map_of_SomeD bspec intro: setting)

lemma session_at_keys: "session_at sid i = None \<longleftrightarrow> sid_frozenString sid \<notin> keys (in_sessions i)"
  by (simp add: session_at_def keys_map_of)

lemma put_session_ok:
  assumes "sid_frozenString sid \<in> keys (in_sessions i)" and "reachable E s"
  shows "keys (in_sessions (put_session sid s i)) = keys (in_sessions i)" "sets_ok i \<Longrightarrow> sets_ok (put_session sid s i)"
    "sessions_ok E i \<Longrightarrow> sessions_ok E (put_session sid s i)"
  using assms by (auto simp: put_session_def sets_ok_def sessions_ok_def dest!: set_map_put)

section \<open>What every statement keeps\<close>

text \<open>\<open>K\<close> are the texts of sessions that are moved between the sets.\<close>

definition kept :: "'a environment \<Rightarrow> string set \<Rightarrow> 'a SessionInitiator \<Rightarrow> 'a SessionInitiator \<Rightarrow> bool" where
  "kept E K i j \<longleftrightarrow> keys (in_sessions j) = keys (in_sessions i) \<and>
     (K \<subseteq> keys (in_sessions i) \<and> sets_ok i \<and> sessions_ok E i \<longrightarrow> sets_ok j \<and> sessions_ok E j)"

interpretation ini: step_relation "kept E K" "\<lambda>i. True" "\<lambda>e. False" for E K
  by unfold_locales (auto simp: kept_def)

lemma kept_same: "in_sessions j = in_sessions i \<Longrightarrow> in_pending j = in_pending i \<Longrightarrow> in_connected j = in_connected i \<Longrightarrow>
    in_disconnected j = in_disconnected i \<Longrightarrow> kept E K i j"
  by (simp add: kept_def sets_ok_def sessions_ok_def)

lemma kept_moves: "sid_frozenString sid \<in> K \<Longrightarrow> kept E K i (setPending sid i)" "sid_frozenString sid \<in> K \<Longrightarrow> kept E K i (setConnected sid i)"
    "sid_frozenString sid \<in> K \<Longrightarrow> kept E K i (setDisconnected sid i)"
  using sets_ok_moves [of i sid] by (auto simp: kept_def) (auto simp: setPending_def setConnected_def setDisconnected_def sessions_ok_def)

text \<open>A statement of a session keeps what its state must satisfy when it leads to reachable states.\<close>

lemma reaches_on_session:
  assumes "\<And>s r t. reachable E s \<Longrightarrow> m s = (r, t) \<Longrightarrow> reachable E t"
  shows "ini.reaches E K (on_session sid m)"
proof (rule ini.reachesI)
  fix i
  show "ini.good E K (on_session sid m) i"
  proof (cases "session_at sid i")
    case None
    then show ?thesis by (simp add: ini.good_def on_session_def ini.R_refl)
  next
    case (Some s)
    then have k: "sid_frozenString sid \<in> keys (in_sessions i)" using session_at_keys [of sid i] by simp
    obtain r t where t: "m s = (r, t)" by fastforce
    have "sessions_ok E i \<Longrightarrow> reachable E t" using assms t session_at_reachable Some by blast
    then have "kept E K i (put_session sid t i)" using put_session_ok [OF k, of E t] k
      by (auto simp: kept_def put_session_def keys_def)
    then show ?thesis by (simp add: ini.good_def on_session_def Some t)
  qed
qed

lemma session_steps:
  "ini.reaches E K (on_session sid (log_add l))" "ini.reaches E K (on_session sid (setResponder E b))"
  "ini.reaches E K (on_session sid (next_time E now))"
  by (intro reaches_on_session; auto simp: log_add_def modify_def intro: setting responder timer)+

lemma reaches_move:
  assumes "sid_frozenString sid \<in> K"
  shows "ini.reaches E K (modify (setPending sid))" "ini.reaches E K (modify (setConnected sid))"
    "ini.reaches E K (modify (setDisconnected sid))"
  by (intro ini.reaches_modify kept_moves assms)+

lemma reaches_lift_any: "ini.reaches E K (lift r)"
  by (rule ini.reachesI) (simp add: ini.good_def lift_def ini.R_refl split: sum.split)

lemma reaches_set: "(\<And>v i. kept E K i (f v i)) \<Longrightarrow> ini.reaches E K (set_int key f d)" "(\<And>v i. kept E K i (g v i)) \<Longrightarrow> ini.reaches E K (set_bool key g d)"
  unfolding set_int_def set_bool_def by (intro ini.reach_rules reaches_lift_any ini.reaches_modify; assumption)+

lemma reaches_getHost: "ini.reaches E K (\<lambda>i. case getHost t sid d (in_hosts i) of
    (Inl e, m) \<Rightarrow> (Inl (Fix e), i\<lparr>in_hosts := m\<rparr>) | (Inr host, m) \<Rightarrow> (Inr host, i\<lparr>in_hosts := m\<rparr>))"
  by (rule ini.reachesI) (auto simp: ini.good_def kept_same split: prod.split sum.split)

lemma reaches_close: "ini.reaches E K (close_connection E sid)"
  unfolding close_connection_def by (rule session_steps)

lemma reaches_try_connect: "sid_frozenString sid \<in> K \<Longrightarrow> ini.reaches E K (try_connect E outcome t sid d)"
  unfolding try_connect_def
  by (intro ini.reach_rules reaches_getHost reaches_lift_any session_steps reaches_move reaches_close reaches_set) (simp_all add: kept_same)

lemma reaches_doConnect: "sid_frozenString sid \<in> K \<Longrightarrow> ini.reaches E K (doConnect E outcome now t sid d)"
  unfolding doConnect_def by (intro ini.reach_rules reaches_try_connect ini.reaches_throw) simp_all

lemma reaches_connect_loop: "sid_frozenString ` set sids \<subseteq> K \<Longrightarrow> ini.reaches E K (connect_loop E outcome now t sids)"
proof (induction sids)
  case (Cons sid sids)
  then have "ini.reaches E K (doConnect E (outcome sid) now t sid d)" for d by (intro reaches_doConnect) simp
  with Cons show ?case
    by (simp only: connect_loop.simps) (intro ini.reach_rules reaches_lift_any ini.reaches_throw; simp)
qed (simp add: ini.reaches_skip)

text \<open>The sessions that are tried are sessions of the initiator.\<close>

lemma reaches_connect:
  fixes E :: "'a environment"
  shows "ini.reaches E K (connect E outcome now t)"
proof (rule ini.reachesI)
  fix i :: "'a SessionInitiator"
  let ?K = "sid_frozenString ` snd ` set (in_disconnected i)"
  obtain r j where j: "connect E outcome now t i = (r, j)" by fastforce
  have "ini.reaches E ?K (connect_loop E outcome now t (map snd (in_disconnected i)))" by (rule reaches_connect_loop) simp
  then have kept: "kept E ?K i j" using j by (auto simp: connect_def look_def ini.reaches_def ini.good_def) (metis snd_conv)
  have "sets_ok i \<Longrightarrow> ?K \<subseteq> keys (in_sessions i)" using ids_ok_keys [of "in_disconnected i"] by (auto simp: sets_ok_def)
  with kept have "kept E K i j" by (auto simp: kept_def)
  then show "ini.good E K (connect E outcome now t) i" by (simp add: ini.good_def j)
qed

lemma reaches_thread:
  assumes "sid_frozenString sid \<in> K"
  shows "ini.reaches E K (socketThread_failed E sid)" "ini.reaches E K (socketThread_connected E now sid)"
    "ini.reaches E K (socketThread_ended E sid)"
  unfolding socketThread_failed_def socketThread_connected_def socketThread_ended_def
  by (intro ini.reach_rules reaches_close session_steps reaches_move assms)+

lemma reaches_turn: "ini.reaches E K outbound \<Longrightarrow> ini.reaches E K (onStart_turn E outcome outbound now t)"
  unfolding onStart_turn_def by (intro ini.reach_rules reaches_connect ini.reaches_modify kept_same) simp_all

lemma reaches_configure: "ini.reaches E K (onConfigure s)"
  unfolding onConfigure_def by (intro ini.reach_rules reaches_set kept_same) simp_all

section \<open>Making and stopping\<close>

lemma new_session_ok:
  assumes "sets_ok i" and "sessions_ok E i" and "reachable E s"
  shows "sets_ok (setDisconnected sid (put_session sid s i))" "sessions_ok E (setDisconnected sid (put_session sid s i))"
  using assms by (auto simp: sets_ok_def sessions_ok_def setDisconnected_def put_session_def dest!: set_map_put)

lemma initialize_loop_ok:
  assumes "initialize_loop load E hasLog sids ds i = (r, j)" and "sets_ok i" and "sessions_ok E i"
  shows "sets_ok j \<and> sessions_ok E j"
  using assms
proof (induction sids arbitrary: ds i)
  case (Cons sid sids)
  have same: "sets_ok (i\<lparr>in_sessionIDs := x, in_application := a\<rparr>)" "sessions_ok E (i\<lparr>in_sessionIDs := x, in_application := a\<rparr>)" "sets_ok (i\<lparr>in_sessionIDs := x\<rparr>)" "sessions_ok E (i\<lparr>in_sessionIDs := x\<rparr>)" for x a
    using Cons.prems(2,3) by (simp_all add: sets_ok_def sessions_ok_def)
  show ?case
  proof (cases "and_then (ss_get sid (in_settings i)) (getString ''ConnectionType'' False) = Inr ''initiator''")
    case True
    let ?i = "i\<lparr>in_sessionIDs := sids_insert sid (in_sessionIDs i)\<rparr>"
    let ?f = "\<lparr>fa_application = in_application i, fa_dictionaries = ds\<rparr>"
    let ?m = "bind (lift (ss_get sid (in_settings i))) (SessionFactory_create load E hasLog sid)"
    obtain q f where q: "?m ?f = (q, f)" by fastforce
    show ?thesis
    proof (cases q)
      case (Inl e)
      then show ?thesis using Cons.prems(1) True q same by (auto simp: Let_def)
    next
      case (Inr s)
      then obtain d where "SessionFactory_create load E hasLog sid d ?f = (Inr s, f)" using q by (auto simp: lift_bind_Inr)
      then have "reachable E s" using create_facts by blast
      then have "sets_ok (setDisconnected sid (put_session sid s ?i))" "sessions_ok E (setDisconnected sid (put_session sid s ?i))"
        using new_session_ok same by blast+
      moreover have "initialize_loop load E hasLog sids (fa_dictionaries f) (setDisconnected sid (put_session sid s ?i)) = (r, j)"
        using Cons.prems(1) True q Inr by (simp add: Let_def)
      ultimately show ?thesis using Cons.IH by blast
    qed
  next
    case False
    then have "(r, j) = (case and_then (ss_get sid (in_settings i)) (getString ''ConnectionType'' False) of
        Inl e \<Rightarrow> (Inl (Fix e), i) | Inr t \<Rightarrow> initialize_loop load E hasLog sids ds i)"
      using Cons.prems(1) by (auto split: sum.splits if_splits)
    then show ?thesis using Cons.IH [of ds i] Cons.prems(2,3) by (auto split: sum.splits)
  qed
qed simp

lemma made_ok: "Initiator_new load E hasLog settings app = (Inr (), i) \<Longrightarrow> sets_ok i \<and> sessions_ok E i"
proof -
  have "sets_ok (Initiator_empty settings app)" "sessions_ok E (Initiator_empty settings app)"
    by (simp_all add: Initiator_empty_def sets_ok_def sessions_ok_def map_ok_def)
  moreover assume "Initiator_new load E hasLog settings app = (Inr (), i)"
  then obtain ids j where "initialize_loop load E hasLog ids Map.empty (Initiator_empty settings app) = (Inr (), j)" "i = j"
    by (auto simp: Initiator_new_def Initiator_initialize_def act_defs Let_def split: if_splits prod.splits sum.splits)
  ultimately show ?thesis using initialize_loop_ok by blast
qed

lemma set_session_ok:
  assumes "sets_ok i" and "sessions_ok E i" and "\<And>s. reachable E s \<Longrightarrow> reachable E (f s)"
  shows "sets_ok (set_session sid f i)" "sessions_ok E (set_session sid f i)"
    "keys (in_sessions (set_session sid f i)) = keys (in_sessions i)"
  using assms put_session_ok [of sid i E] session_at_keys [of sid i] session_at_reachable [of E i sid]
  by (auto simp: set_session_def split: option.split)

section \<open>Runs\<close>

text \<open>What the session does with what arrives, with the time and with what is sent through it.\<close>

inductive session_work :: "'a environment \<Rightarrow> 'a Session \<Rightarrow> 'a Session \<Rightarrow> bool" for E where
  arrived: "next_text E txt now False s = (r, t) \<Longrightarrow> session_work E s t"
| timed: "next_time E now s = (r, t) \<Longrightarrow> session_work E s t"
| sent: "send E m s = (r, t) \<Longrightarrow> session_work E s t"
| broken: "disconnect E s = (r, t) \<Longrightarrow> session_work E s t"

lemma session_work_reachable: "session_work E s t \<Longrightarrow> reachable E s \<Longrightarrow> reachable E t"
  by (induction rule: session_work.induct) (auto intro: message_text timer sending disconnecting)

text \<open>
  The statements of an initiator in any order: its own thread, the threads of its connections, the sessions,
  and the parts of stopping, whose waiting lets the others go on.
\<close>

inductive initiator_run ::
  "dictionary_source \<Rightarrow> 'a environment \<Rightarrow> bool \<Rightarrow> SessionSettings \<Rightarrow> 'a \<Rightarrow> 'a SessionInitiator \<Rightarrow> bool"
  for load E hasLog settings app where
  made: "Initiator_new load E hasLog settings app = (Inr (), i) \<Longrightarrow> initiator_run load E hasLog settings app i"
| flags: "initiator_run load E hasLog settings app i \<Longrightarrow> initiator_run load E hasLog settings app (i\<lparr>in_stop := b, in_processing := c\<rparr>)"
| configured: "initiator_run load E hasLog settings app i \<Longrightarrow> onConfigure s i = (r, j) \<Longrightarrow> initiator_run load E hasLog settings app j"
| turn: "initiator_run load E hasLog settings app i \<Longrightarrow> onStart_turn E outcome skip now t i = (r, j) \<Longrightarrow>
    initiator_run load E hasLog settings app j"
| failed: "initiator_run load E hasLog settings app i \<Longrightarrow> session_at sid i \<noteq> None \<Longrightarrow> socketThread_failed E sid i = (r, j) \<Longrightarrow>
    initiator_run load E hasLog settings app j"
| connected: "initiator_run load E hasLog settings app i \<Longrightarrow> session_at sid i \<noteq> None \<Longrightarrow> socketThread_connected E now sid i = (r, j) \<Longrightarrow>
    initiator_run load E hasLog settings app j"
| ended: "initiator_run load E hasLog settings app i \<Longrightarrow> session_at sid i \<noteq> None \<Longrightarrow> socketThread_ended E sid i = (r, j) \<Longrightarrow>
    initiator_run load E hasLog settings app j"
| worked: "initiator_run load E hasLog settings app i \<Longrightarrow> session_at sid i = Some s \<Longrightarrow> session_work E s u \<Longrightarrow>
    initiator_run load E hasLog settings app (put_session sid u i)"
| logged_out: "initiator_run load E hasLog settings app i \<Longrightarrow> initiator_run load E hasLog settings app (set_session sid (logout reason) i)"
| logged_on: "initiator_run load E hasLog settings app i \<Longrightarrow> initiator_run load E hasLog settings app (set_session sid logon i)"
| put_off: "initiator_run load E hasLog settings app i \<Longrightarrow> session_at sid i \<noteq> None \<Longrightarrow>
    initiator_run load E hasLog settings app (setDisconnected sid i)"

lemma kept_result: "ini.reaches E K m \<Longrightarrow> m i = (r, j) \<Longrightarrow> K \<subseteq> keys (in_sessions i) \<Longrightarrow> sets_ok i \<Longrightarrow> sessions_ok E i \<Longrightarrow>
    sets_ok j \<and> sessions_ok E j"
  by (auto simp: ini.reaches_def ini.good_def kept_def dest!: spec [of _ i])

lemma run_ok: "initiator_run load E hasLog settings app i \<Longrightarrow> sets_ok i \<and> sessions_ok E i"
proof (induction rule: initiator_run.induct)
  case (made i)
  then show ?case by (rule made_ok)
next
  case (flags i b c)
  then show ?case by (simp add: sets_ok_def sessions_ok_def)
next
  case (configured i s r j)
  then show ?case using kept_result [where K = "{}" and E = E, OF reaches_configure configured.hyps(2)] by simp
next
  case (turn i outcome now t r j)
  then show ?case using kept_result [where K = "{}" and E = E, OF reaches_turn [OF ini.reaches_skip] turn.hyps(2)] by simp
next
  case (failed i sid r j)
  then show ?case using kept_result [where K = "{sid_frozenString sid}" and E = E, OF reaches_thread(1) failed.hyps(3)] session_at_keys [of sid i] by simp
next
  case (connected i sid now r j)
  then show ?case using kept_result [where K = "{sid_frozenString sid}" and E = E, OF reaches_thread(2) connected.hyps(3)] session_at_keys [of sid i] by simp
next
  case (ended i sid r j)
  then show ?case using kept_result [where K = "{sid_frozenString sid}" and E = E, OF reaches_thread(3) ended.hyps(3)] session_at_keys [of sid i] by simp
next
  case (worked i sid s u)
  then have "reachable E u" using session_work_reachable session_at_reachable by blast
  then show ?case using worked put_session_ok [of sid i E u] session_at_keys [of sid i] by simp
next
  case (logged_out i sid reason)
  then show ?case using set_session_ok(1,2) [of i E "logout reason" sid] by (simp add: logging_out)
next
  case (logged_on i sid)
  then show ?case using set_session_ok(1,2) [of i E logon sid] by (simp add: logging_on)
next
  case (put_off i sid)
  then show ?case using sets_ok_moves(3) [of i sid] session_at_keys [of sid i] by (auto simp: sessions_ok_def setDisconnected_def)
qed

text \<open>A session is never lost on the way.\<close>

lemma session_at_kept: "session_at sid i \<noteq> None \<Longrightarrow> keys (in_sessions j) = keys (in_sessions i) \<Longrightarrow> session_at sid j \<noteq> None"
  using session_at_keys [of sid i] session_at_keys [of sid j] by simp

lemma keys_moved [simp]: "keys (in_sessions (setDisconnected sid i)) = keys (in_sessions i)"
    "keys (in_sessions (set_session sid f i)) = keys (in_sessions i)"
  using session_at_keys [of sid i] by (auto simp: setDisconnected_def set_session_def put_session_def split: option.split)

text \<open>Stopping is a run, when what the others do in the meantime is one and loses no session.\<close>

lemma stop_runs:
  assumes "initiator_run load E hasLog settings app i"
    and others: "\<And>n j. initiator_run load E hasLog settings app j \<Longrightarrow>
      initiator_run load E hasLog settings app (others n j) \<and> keys (in_sessions (others n j)) = keys (in_sessions j)"
  shows "initiator_run load E hasLog settings app (Initiator_stop others force i)"
proof -
  let ?run = "\<lambda>j. initiator_run load E hasLog settings app j \<and> keys (in_sessions j) = keys (in_sessions i)"
  have out: "?run (fold (\<lambda>sid. set_session sid (logout reason)) sids j)" if "?run j" for reason sids j
    using that by (induction sids arbitrary: j) (simp_all add: logged_out)
  have on: "?run (fold (\<lambda>sid. set_session sid logon) sids j)" if "?run j" for sids j
    using that by (induction sids arbitrary: j) (simp_all add: logged_on)
  have wait: "?run (wait_loop others ts j)" if "?run j" for ts j
    using that others by (induction ts arbitrary: j) auto
  have off: "?run (fold setDisconnected sids j)" if "?run j" "\<forall>sid \<in> set sids. session_at sid i \<noteq> None" for sids j
    using that
  proof (induction sids arbitrary: j)
    case (Cons sid sids)
    then have "session_at sid j \<noteq> None" using session_at_kept [of sid i j] by simp
    then have "?run (setDisconnected sid j)" using Cons.prems(1) put_off by fastforce
    then show ?case using Cons by simp
  qed simp
  have known: "\<forall>sid \<in> set (map snd (in_connected i)). session_at sid i \<noteq> None"
    using run_ok [OF assms(1)] ids_ok_keys [of "in_connected i"] session_at_keys [of _ i] by (auto simp: sets_ok_def)
  have stop: "?run (others 11 (j\<lparr>in_stop := True\<rparr>))" if "?run j" for j
  proof -
    have "j\<lparr>in_stop := True, in_processing := in_processing j\<rparr> = j\<lparr>in_stop := True\<rparr>" by simp
    then have "initiator_run load E hasLog settings app (j\<lparr>in_stop := True\<rparr>)"
      using that flags [of load E hasLog settings app j "in_processing j" True] by metis
    then show ?thesis using others [of "j\<lparr>in_stop := True\<rparr>" 11] that by simp
  qed
  show ?thesis using assms(1) out on wait off stop known by (simp add: Initiator_stop_def Let_def)
qed

text \<open>An initiator of one session.\<close>

definition example_sessions :: SessionSettings where
  "example_sessions = \<lparr>ss_settings = [(sid_frozenString example_identity, example_identity, example_settings)],
     ss_defaults = Dictionary_new [], ss_resolveEnvVars = None\<rparr>"

lemma example_run:
  "\<exists>i s. initiator_run (\<lambda>path preserve. Inr DataDictionary_new) quiet True example_sessions () i \<and>
     session_at example_identity i = Some s"
proof -
  let ?load = "\<lambda>path preserve. Inr DataDictionary_new :: fix_exception + DataDictionary"
  obtain s f where s: "SessionFactory_create ?load quiet True example_identity example_settings
      \<lparr>fa_application = (), fa_dictionaries = Map.empty\<rparr> = (Inr s, f)"
    using example_made by blast
  have type: "getString ''ConnectionType'' False example_settings = Inr ''initiator''" by code_simp
  let ?i = "setDisconnected example_identity (put_session example_identity s
      ((Initiator_empty example_sessions ())\<lparr>in_sessionIDs := sids_insert example_identity []\<rparr>))"
  have "Initiator_new ?load quiet True example_sessions () = (Inr (), ?i)"
    using s type by (simp add: Initiator_new_def Initiator_initialize_def Initiator_empty_def example_sessions_def ss_getSessions_def
        ss_get_def Let_def act_defs put_session_def setDisconnected_def)
  then have "initiator_run ?load quiet True example_sessions () ?i" by (rule made)
  moreover have "session_at example_identity ?i \<noteq> None" by (simp add: session_at_def setDisconnected_def put_session_def Initiator_empty_def)
  ultimately show ?thesis by blast
qed

text \<open>C19. Whatever the threads of the initiator and of its connections do, and in whatever order, every session
  of the initiator is in exactly one of the sets of pending, connected and disconnected sessions, and is a
  reachable session.\<close>

theorem sessions_partitioned:
  assumes "initiator_run load E hasLog settings app i" and "session_at sid i = Some s"
  shows "reachable E s \<and> length (filter id [isPending sid i, isConnected sid i, isDisconnected sid i]) = 1"
proof -
  have ok: "sets_ok i" "sessions_ok E i" using run_ok [OF assms(1)] by simp_all
  have "sid_frozenString sid \<in> keys (in_sessions i)" using assms(2) session_at_keys [of sid i] by simp
  then have "length (filter id [isPending sid i, isConnected sid i, isDisconnected sid i]) = 1"
    using ok(1) by (auto simp: sets_ok_def isPending_def isConnected_def isDisconnected_def)
  with ok(2) assms(2) session_at_reachable show ?thesis by blast
qed

theorem sessions_partitioned_witness:
  "\<exists>i s. initiator_run (\<lambda>path preserve. Inr DataDictionary_new) quiet True example_sessions () i \<and>
     session_at example_identity i = Some s \<and> reachable quiet s \<and>
     length (filter id [isPending example_identity i, isConnected example_identity i, isDisconnected example_identity i]) = 1"
proof -
  obtain i s where r: "initiator_run (\<lambda>path preserve. Inr DataDictionary_new) quiet True example_sessions () i"
      and s: "session_at example_identity i = Some s"
    using example_run by blast
  show ?thesis using r s sessions_partitioned [OF r s] by (intro exI [of _ i] exI [of _ s] conjI) simp_all
qed

text \<open>An attempt that fails before its thread starts leaves the session pending, and pending sessions are not tried again.\<close>

lemma attempt_stays_pending:
  assumes "try_connect E \<lparr>at_ssl = False, at_thread = b\<rparr> t sid d i = (Inr (), j)"
  shows "isPending sid j"
proof -
  have on: "isPending sid (snd (on_session sid m k)) = isPending sid k" for m k
    by (simp add: on_session_def put_session_def isPending_def split: option.split prod.split)
  have pend: "isPending sid (setPending sid k)" for k by (simp add: isPending_def setPending_def)
  have look: "isPending sid k \<Longrightarrow> look (\<lambda>i. on_session sid (m i)) k = (r, l) \<Longrightarrow> isPending sid l" for m k r l
    using on [of "m k" k] by (auto simp: look_def)
  have last: "isPending sid k \<Longrightarrow> on_session sid m k = (r, l) \<Longrightarrow> isPending sid l" for m k r l
    using on [of m k] by simp
  show ?thesis using assms unfolding try_connect_def
    by (auto simp: bind_Inr after_def skip_def return_def modify_def) (rule last [OF look [OF pend]]; assumption)
qed

end
