(* ===== verification/Dictionary_Load.thy ===== *)
theory Dictionary_Load
  imports Session_Action Dictionary_Check
begin

text \<open>
  Loading a dictionary from the document of a specification (the reading part of
  flashfix/src/DataDictionary.cpp). The document is the tree of the XML library: the names, attributes
  and children of its nodes; parsing a file into one is a parameter. The dictionary that is loaded
  (\<^verbatim>\<open>this\<close>) and the one that fields are added to (\<^verbatim>\<open>DD\<close>) may be the same object: then there is no
  second one. The components of a specification may refer to each other in a circle, where the code
  recurses until the stack ends; here fuel is spent with every component and group that is entered.
\<close>

section \<open>Documents\<close>

datatype dom = Dom (dom_name: string) (dom_attributes: "(string \<times> string) list") (dom_children: "dom list")

definition attribute :: "string \<Rightarrow> dom \<Rightarrow> string option" where
  "attribute name node = map_of (dom_attributes node) name"

definition is_required :: "dom \<Rightarrow> bool" where
  "is_required node = (case attribute ''required'' node of None \<Rightarrow> False | Some required \<Rightarrow> required = ''Y'' \<or> required = ''y'')"

text \<open>
  The first node on a path of names. A document is the list of its outermost nodes. The name of a component
  goes into a query for the library; names with an apostrophe, which would end it, are left out.
\<close>

definition children_named :: "string \<Rightarrow> dom list \<Rightarrow> dom list" where
  "children_named name nodes = concat (map (\<lambda>n. filter (\<lambda>c. dom_name c = name) (dom_children n)) nodes)"

definition first_of :: "dom list \<Rightarrow> dom option" where
  "first_of nodes = (case nodes of [] \<Rightarrow> None | n # ns \<Rightarrow> Some n)"

definition fix_nodes :: "dom list \<Rightarrow> dom list" where
  "fix_nodes doc = filter (\<lambda>n. dom_name n = ''fix'') doc"

definition find_component :: "string \<Rightarrow> dom list \<Rightarrow> dom option" where
  "find_component name doc = first_of (filter (\<lambda>c. attribute ''name'' c = Some name)
     (children_named ''component'' (children_named ''components'' (fix_nodes doc))))"

section \<open>Statements\<close>

type_synonym loading = "DataDictionary \<times> DataDictionary option"

type_synonym 'b load_act = "(loading, 'b) act"

definition config_error :: "string \<Rightarrow> 'b load_act" where
  "config_error detail = throw (Fix (ConfigError detail))"

definition on_this :: "(DataDictionary \<Rightarrow> DataDictionary) \<Rightarrow> unit load_act" where
  "on_this f = modify (\<lambda>(this, DD). (f this, DD))"

definition on_target :: "(DataDictionary \<Rightarrow> DataDictionary) \<Rightarrow> unit load_act" where
  "on_target f = modify (\<lambda>(this, DD). case DD of None \<Rightarrow> (f this, None) | Some d \<Rightarrow> (this, Some (f d)))"

definition named :: "string \<Rightarrow> string \<Rightarrow> dom \<Rightarrow> string load_act" where
  "named name detail node = (case attribute name node of None \<Rightarrow> config_error detail | Some v \<Rightarrow> return v)"

definition lookupXMLFieldNumber :: "string \<Rightarrow> int load_act" where
  "lookupXMLFieldNumber name = look (\<lambda>(this, DD). case dd_names (dd_data this) name of
     None \<Rightarrow> config_error (''Field '' @ name @ '' not defined in fields section'') | Some num \<Rightarrow> return num)"

definition field_number :: "dom \<Rightarrow> int load_act" where
  "field_number node = bind (named ''name'' ''No name given to field'' node) lookupXMLFieldNumber"

text \<open>A statement on a fresh dictionary, which is handed over.\<close>

definition with_group :: "'b load_act \<Rightarrow> ('b \<times> DataDictionary) load_act" where
  "with_group m = (\<lambda>(this, DD). case m (this, Some DataDictionary_new) of
     (Inl e, this, _) \<Rightarrow> (Inl e, this, DD)
   | (Inr x, this, groupDD) \<Rightarrow> (Inr (x, case groupDD of None \<Rightarrow> DataDictionary_new | Some d \<Rightarrow> d), this, DD))"

section \<open>Components and groups\<close>

text \<open>Required fields of a component go to the dictionary that is loaded, whichever the others go to.\<close>

definition component_field :: "dom \<Rightarrow> string \<Rightarrow> bool \<Rightarrow> int \<Rightarrow> int load_act" where
  "component_field node msgtype componentRequired firstField =
     bind (field_number node) (\<lambda>field.
     after (only_if (is_required node \<and> componentRequired) (on_this (addRequiredField msgtype field)))
     (after (on_target (dd_addField field))
     (after (on_target (addMsgField msgtype field))
       (return (if firstField = 0 then field else firstField)))))"

definition group_field :: "dom \<Rightarrow> string \<Rightarrow> bool \<Rightarrow> int load_act" where
  "group_field node msgtype groupRequired =
     bind (field_number node) (\<lambda>field.
     after (on_target (dd_addField field))
     (after (only_if (is_required node \<and> groupRequired) (on_target (addRequiredField msgtype field)))
       (return field)))"

text \<open>The loops over the children of a component and of a group; \<open>component\<close> and \<open>group\<close> are the calls for one of them.\<close>

fun component_nodes ::
  "(dom \<Rightarrow> bool \<Rightarrow> int load_act) \<Rightarrow> (dom \<Rightarrow> bool \<Rightarrow> unit load_act) \<Rightarrow> string \<Rightarrow> bool \<Rightarrow> dom list \<Rightarrow> int \<Rightarrow> int load_act" where
  "component_nodes component grp msgtype componentRequired [] firstField = return firstField"
| "component_nodes component grp msgtype componentRequired (node # nodes) firstField =
     bind (if dom_name node = ''field'' \<or> dom_name node = ''group''
           then component_field node msgtype componentRequired firstField else return firstField) (\<lambda>firstField.
     after (if dom_name node = ''component'' then ignore (component node (is_required node)) else skip)
     (after (if dom_name node = ''group'' then grp node (is_required node) else skip)
       (component_nodes component grp msgtype componentRequired nodes firstField)))"

fun group_nodes ::
  "(dom \<Rightarrow> bool \<Rightarrow> int load_act) \<Rightarrow> (dom \<Rightarrow> bool \<Rightarrow> unit load_act) \<Rightarrow> string \<Rightarrow> bool \<Rightarrow> dom list \<Rightarrow> int \<Rightarrow> int \<Rightarrow> int load_act" where
  "group_nodes component grp msgtype groupRequired [] delim field = return delim"
| "group_nodes component grp msgtype groupRequired (node # nodes) delim field =
     bind (if dom_name node = ''field'' then group_field node msgtype groupRequired
           else if dom_name node = ''component'' then component node False
           else if dom_name node = ''group'' then
             bind (group_field node msgtype groupRequired) (\<lambda>field. after (grp node (is_required node)) (return field))
           else return field) (\<lambda>field.
       group_nodes component grp msgtype groupRequired nodes (if delim = 0 then field else delim) field)"

fun addXMLComponentFields :: "nat \<Rightarrow> dom list \<Rightarrow> string \<Rightarrow> dom \<Rightarrow> bool \<Rightarrow> int load_act"
  and addXMLGroup :: "nat \<Rightarrow> dom list \<Rightarrow> string \<Rightarrow> dom \<Rightarrow> bool \<Rightarrow> unit load_act" where
  "addXMLComponentFields 0 doc msgtype node componentRequired = throw No_fuel"
| "addXMLComponentFields (Suc fuel) doc msgtype node componentRequired =
     bind (named ''name'' ''No name given to component'' node) (\<lambda>name.
     case find_component name doc of
       None \<Rightarrow> config_error (''Component not found: '' @ name)
     | Some c \<Rightarrow> component_nodes (addXMLComponentFields fuel doc msgtype) (addXMLGroup fuel doc msgtype) msgtype
         componentRequired (dom_children c) 0)"
| "addXMLGroup 0 doc msgtype node groupRequired = throw No_fuel"
| "addXMLGroup (Suc fuel) doc msgtype node groupRequired =
     bind (named ''name'' ''No name given to group'' node) (\<lambda>name.
     bind (lookupXMLFieldNumber name) (\<lambda>field.
     bind (with_group (group_nodes (addXMLComponentFields fuel doc msgtype) (addXMLGroup fuel doc msgtype) msgtype
         groupRequired (dom_children node) 0 0)) (\<lambda>(delim, groupDD).
       only_if (delim \<noteq> 0) (on_target (dd_addGroup msgtype field delim groupDD)))))"

section \<open>Types\<close>

definition XMLTypeToType :: "string \<Rightarrow> string \<Rightarrow> field_type" where
  "XMLTypeToType beginString ty =
     (if \<not> string_le ''FIX.4.2'' beginString \<and> ty = ''CHAR'' then TYPE_String
      else if ty = ''STRING'' then TYPE_String
      else if ty = ''CHAR'' then TYPE_Char
      else if ty = ''PRICE'' then TYPE_Price
      else if ty = ''INT'' then TYPE_Int
      else if ty = ''AMT'' then TYPE_Amt
      else if ty = ''QTY'' then TYPE_Qty
      else if ty = ''CURRENCY'' then TYPE_Currency
      else if ty = ''MULTIPLEVALUESTRING'' then TYPE_MultipleValueString
      else if ty = ''MULTIPLESTRINGVALUE'' then TYPE_MultipleStringValue
      else if ty = ''MULTIPLECHARVALUE'' then TYPE_MultipleCharValue
      else if ty = ''EXCHANGE'' then TYPE_Exchange
      else if ty = ''UTCTIMESTAMP'' then TYPE_UtcTimeStamp
      else if ty = ''BOOLEAN'' then TYPE_Boolean
      else if ty = ''LOCALMKTDATE'' then TYPE_LocalMktDate
      else if ty = ''DATA'' then TYPE_Data
      else if ty = ''FLOAT'' then TYPE_Float
      else if ty = ''PRICEOFFSET'' then TYPE_PriceOffset
      else if ty = ''MONTHYEAR'' then TYPE_MonthYear
      else if ty = ''DAYOFMONTH'' then TYPE_DayOfMonth
      else if ty = ''UTCDATE'' then TYPE_UtcDate
      else if ty = ''UTCDATEONLY'' then TYPE_UtcDate
      else if ty = ''UTCTIMEONLY'' then TYPE_UtcTimeOnly
      else if ty = ''NUMINGROUP'' then TYPE_NumInGroup
      else if ty = ''PERCENTAGE'' then TYPE_Percentage
      else if ty = ''SEQNUM'' then TYPE_SeqNum
      else if ty = ''LENGTH'' then TYPE_Length
      else if ty = ''COUNTRY'' then TYPE_Country
      else if ty = ''TIME'' then TYPE_UtcTimeStamp
      else TYPE_Unknown)"

text \<open>\<^verbatim>\<open>atoi\<close>: blanks, a sign and the digits that follow; what is too large for an \<^verbatim>\<open>int\<close> is undefined there.\<close>

definition atoi :: "string \<Rightarrow> int" where
  "atoi s =
     (let s = dropWhile (\<lambda>c. c = CHR '' '' \<or> (9 \<le> (of_char c :: nat) \<and> (of_char c :: nat) \<le> 13)) s;
          negative = (s \<noteq> [] \<and> hd s = CHR ''-'');
          digits = takeWhile is_digit (if s \<noteq> [] \<and> hd s \<in> {CHR ''-'', CHR ''+''} then tl s else s);
          n = int (digits_val digits)
      in if negative then - n else n)"

section \<open>The document\<close>

fun each :: "(dom \<Rightarrow> unit load_act) \<Rightarrow> dom list \<Rightarrow> unit load_act" where
  "each f [] = skip"
| "each f (node # nodes) = after (f node) (each f nodes)"

definition section_nodes :: "string \<Rightarrow> string \<Rightarrow> string \<Rightarrow> dom list \<Rightarrow> dom list load_act" where
  "section_nodes name missing none doc =
     (case first_of (children_named name (fix_nodes doc)) of
        None \<Rightarrow> config_error missing
      | Some node \<Rightarrow> if dom_children node = [] then config_error none else return (dom_children node))"

definition field_value :: "int \<Rightarrow> string \<Rightarrow> dom \<Rightarrow> unit load_act" where
  "field_value num name node =
     only_if (dom_name node = ''value'')
       (bind (named ''enum'' (''<value> does not have enum attribute in field '' @ name) node) (\<lambda>enumeration.
        after (on_this (addFieldValue num enumeration))
          (case attribute ''description'' node of None \<Rightarrow> skip | Some description \<Rightarrow> on_this (addValueName num enumeration description))))"

definition name_field :: "int \<Rightarrow> string \<Rightarrow> unit load_act" where
  "name_field num name = look (\<lambda>(this, DD). case addFieldName num name this of
     None \<Rightarrow> config_error (''Field named '' @ name @ '' defined multiple times'') | Some d \<Rightarrow> on_this (\<lambda>_. d))"

definition load_field :: "dom \<Rightarrow> unit load_act" where
  "load_field node =
     only_if (dom_name node = ''field'')
       (bind (named ''name'' ''<field> does not have a name attribute'' node) (\<lambda>name.
        bind (named ''number'' (''<field> '' @ name @ '' does not have a number attribute'') node) (\<lambda>number.
        let num = atoi number in
        bind (named ''type'' (''<field> '' @ name @ '' does not have a type attribute'') node) (\<lambda>ty. block
         [on_this (dd_addField num),
          look (\<lambda>(this, DD). on_this (addFieldType num (XMLTypeToType (getVersion this) ty))),
          name_field num name,
          each (field_value num name) (dom_children node)]))))"

text \<open>A field or group of the header, with \<open>add\<close>, or of the trailer.\<close>

definition load_routing ::
  "nat \<Rightarrow> dom list \<Rightarrow> (int \<Rightarrow> bool \<Rightarrow> DataDictionary \<Rightarrow> DataDictionary) \<Rightarrow> string \<Rightarrow> dom \<Rightarrow> unit load_act" where
  "load_routing fuel doc add msgtype node = block
     [only_if (dom_name node = ''field'' \<or> dom_name node = ''group'')
        (bind (named ''name'' ''<field> does not have a name attribute'' node) (\<lambda>name.
         bind (lookupXMLFieldNumber name) (\<lambda>num. on_this (add num (is_required node))))),
      only_if (dom_name node = ''group'') (addXMLGroup fuel doc msgtype node (is_required node))]"

definition message_node :: "nat \<Rightarrow> dom list \<Rightarrow> string \<Rightarrow> dom \<Rightarrow> unit load_act" where
  "message_node fuel doc msgtype node = block
     [if dom_name node = ''field'' \<or> dom_name node = ''group'' then
        bind (named ''name'' ''<field> does not have a name attribute'' node) (\<lambda>name.
        bind (lookupXMLFieldNumber name) (\<lambda>num.
        after (on_this (addMsgField msgtype num)) (only_if (is_required node) (on_this (addRequiredField msgtype num)))))
      else if dom_name node = ''component'' then ignore (addXMLComponentFields fuel doc msgtype node (is_required node))
      else skip,
      only_if (dom_name node = ''group'') (addXMLGroup fuel doc msgtype node (is_required node))]"

definition load_message :: "nat \<Rightarrow> dom list \<Rightarrow> dom \<Rightarrow> unit load_act" where
  "load_message fuel doc node =
     only_if (dom_name node = ''message'')
       (bind (named ''msgtype'' ''<message> does not have a msgtype attribute'' node) (\<lambda>msgtype. block
         [on_this (addMsgType msgtype),
          (case attribute ''name'' node of None \<Rightarrow> skip | Some name \<Rightarrow> on_this (addValueName 35 msgtype name)),
          each (message_node fuel doc msgtype) (dom_children node)]))"

definition read_version :: "dom list \<Rightarrow> (string \<times> string) load_act" where
  "read_version doc =
     (case first_of (fix_nodes doc) of
        None \<Rightarrow> config_error ''Could not parse data dictionary file, or no <fix> node found at root''
      | Some node \<Rightarrow>
          let ty = (case attribute ''type'' node of None \<Rightarrow> ''FIX'' | Some t \<Rightarrow> t) in
          if ty \<noteq> ''FIX'' \<and> ty \<noteq> ''FIXT'' then config_error ''type attribute must be FIX or FIXT''
          else
            bind (named ''major'' ''major attribute not found on <fix>'' node) (\<lambda>major.
            bind (named ''minor'' ''minor attribute not found on <fix>'' node) (\<lambda>minor.
            after (on_this (setVersion (ty @ ''.'' @ major @ ''.'' @ minor))) (return (ty, major)))))"

definition readFromDocument :: "nat \<Rightarrow> dom list \<Rightarrow> unit load_act" where
  "readFromDocument fuel doc =
     bind (read_version doc) (\<lambda>(ty, major).
     let routed = (ty = ''FIXT'' \<or> (ty = ''FIX'' \<and> \<not> string_le ''5'' major)) in block
      [bind (section_nodes ''fields'' ''<fields> section not found in data dictionary'' ''No fields defined'' doc) (each load_field),
       only_if routed (bind (section_nodes ''header'' ''<header> section not found in data dictionary'' ''No header fields defined'' doc)
         (each (load_routing fuel doc addHeaderField ''_header_''))),
       only_if routed (bind (section_nodes ''trailer'' ''<trailer> section not found in data dictionary'' ''No trailer fields defined'' doc)
         (each (load_routing fuel doc addTrailerField ''_trailer_''))),
       bind (section_nodes ''messages'' ''<messages> section not found in data dictionary'' ''No messages defined'' doc)
         (each (load_message fuel doc))])"

text \<open>The constructors: from a file, whose name is put in front of an error, and from a stream.\<close>

definition DataDictionary_stream :: "nat \<Rightarrow> dom list option \<Rightarrow> bool \<Rightarrow> throwable + DataDictionary" where
  "DataDictionary_stream fuel parsed preserveMsgFldsOrder =
     (case parsed of
        None \<Rightarrow> Inl (Fix (ConfigError ''Could not parse data dictionary stream''))
      | Some doc \<Rightarrow> (case readFromDocument fuel doc (preserveMessageFieldsOrder preserveMsgFldsOrder DataDictionary_new, None) of
          (Inl e, _) \<Rightarrow> Inl e | (Inr _, this, _) \<Rightarrow> Inr this))"

definition DataDictionary_url :: "nat \<Rightarrow> (string \<Rightarrow> dom list option) \<Rightarrow> string \<Rightarrow> bool \<Rightarrow> throwable + DataDictionary" where
  "DataDictionary_url fuel load url preserveMsgFldsOrder =
     (case load url of
        None \<Rightarrow> Inl (Fix (ConfigError (url @ '': Could not parse data dictionary file'')))
      | Some doc \<Rightarrow> (case readFromDocument fuel doc (preserveMessageFieldsOrder preserveMsgFldsOrder DataDictionary_new, None) of
          (Inl (Fix (ConfigError detail)), _) \<Rightarrow>
            Inl (Fix (ConfigError (url @ '': '' @ ''Configuration failed'' @ (if detail = [] then [] else '': '' @ detail))))
        | (Inl e, _) \<Rightarrow> Inl e
        | (Inr _, this, _) \<Rightarrow> Inr this))"

end
