(* ===== verification/Load_Laws.thy ===== *)
theory Load_Laws
  imports Dictionary_Load
begin

text \<open>
  What a dictionary that was loaded refers to is declared among its fields, at every level of its groups:
  another interpretation of the locale of \<open>Session_Action\<close>, for the numbers that are known to be declared.
  At the end what the code does with components that the specifications do not have.
\<close>

section \<open>Declared fields\<close>

definition data_declared :: "int set \<Rightarrow> dictionary_data \<Rightarrow> bool" where
  "data_declared F d \<longleftrightarrow> dd_fields d \<subseteq> F \<and> (\<forall>m fs. dd_messageFields d m = Some fs \<longrightarrow> fs \<subseteq> F) \<and>
     (\<forall>m fs. dd_requiredFields d m = Some fs \<longrightarrow> set fs \<subseteq> F) \<and>
     fst ` set (dd_headerFields d) \<subseteq> F \<and> fst ` set (dd_trailerFields d) \<subseteq> F"

fun declared :: "int set \<Rightarrow> DataDictionary \<Rightarrow> bool" where
  "declared F (DataDictionary d gs) \<longleftrightarrow> data_declared F d \<and>
     list_all (\<lambda>(field, presenceMap). field \<in> F \<and> list_all (\<lambda>(msg, delim, g). declared F g) presenceMap) gs"

definition groups_declared :: "int set \<Rightarrow> (int \<times> (string \<times> (int \<times> DataDictionary)) list) list \<Rightarrow> bool" where
  "groups_declared F gs \<longleftrightarrow> (\<forall>field pm. (field, pm) \<in> set gs \<longrightarrow> field \<in> F \<and>
     (\<forall>msg delim g. (msg, delim, g) \<in> set pm \<longrightarrow> declared F g))"

lemma list_all_entries: "list_all (\<lambda>(a, b). Q a b) es \<longleftrightarrow> (\<forall>a b. (a, b) \<in> set es \<longrightarrow> Q a b)"
  by (auto simp: list_all_iff)

lemma list_all_triples: "list_all (\<lambda>(a, b, c). Q a b c) es \<longleftrightarrow> (\<forall>a b c. (a, b, c) \<in> set es \<longrightarrow> Q a b c)"
  by (auto simp: list_all_iff)

lemma declared_iff: "declared F (DataDictionary d gs) \<longleftrightarrow> data_declared F d \<and> groups_declared F gs"
proof -
  have inner: "list_all (\<lambda>(msg, delim, g). declared F g) pm \<longleftrightarrow> (\<forall>msg delim g. (msg, delim, g) \<in> set pm \<longrightarrow> declared F g)" for pm
    by (rule list_all_triples)
  have "list_all (\<lambda>(field, pm). field \<in> F \<and> list_all (\<lambda>(msg, delim, g). declared F g) pm) gs \<longleftrightarrow>
      (\<forall>field pm. (field, pm) \<in> set gs \<longrightarrow> field \<in> F \<and> list_all (\<lambda>(msg, delim, g). declared F g) pm)"
    by (rule list_all_entries)
  then show ?thesis by (simp only: declared.simps groups_declared_def inner)
qed

lemma declared_sel: "declared F d \<longleftrightarrow> data_declared F (dd_data d) \<and> groups_declared F (dd_groups d)"
  using declared_iff [of F "dd_data d" "dd_groups d"] unfolding DataDictionary.collapse .

declare declared.simps [simp del]

lemma data_declared_mono:
  assumes "data_declared F d" and "F \<subseteq> G"
  shows "data_declared G d"
proof -
  have up: "A \<subseteq> F \<Longrightarrow> A \<subseteq> G" for A using assms(2) by (rule subset_trans [rotated])
  show ?thesis using assms(1) up unfolding data_declared_def by simp
qed

text \<open>Induction over the groups of a dictionary.\<close>

lemma size_below_group:
  assumes "(field, pm) \<in> set gs" and "(msg, delim, g) \<in> set pm"
  shows "size g < size (DataDictionary d gs)"
proof -
  let ?entry = "size_prod (\<lambda>x. 0) (size_prod (\<lambda>x. 0) size) :: string \<times> int \<times> DataDictionary \<Rightarrow> nat"
  let ?field = "size_prod (\<lambda>x. 0) (size_list ?entry) :: int \<times> (string \<times> int \<times> DataDictionary) list \<Rightarrow> nat"
  have "size g \<le> ?entry (msg, delim, g)" by simp
  also have "\<dots> \<le> size_list ?entry pm" using assms(2) by (rule size_list_estimation') simp
  also have "\<dots> \<le> ?field (field, pm)" by simp
  also have "\<dots> \<le> size_list ?field gs" using assms(1) by (rule size_list_estimation') simp
  finally show ?thesis by simp
qed

lemma groups_induct [case_names groups]:
  assumes "\<And>d gs. (\<And>field pm msg delim g. (field, pm) \<in> set gs \<Longrightarrow> (msg, delim, g) \<in> set pm \<Longrightarrow> P g) \<Longrightarrow> P (DataDictionary d gs)"
  shows "P d"
proof (induction d rule: measure_induct_rule [of size])
  case (less d)
  show ?case
  proof (cases d)
    case (DataDictionary dat gs)
    show ?thesis unfolding DataDictionary using less size_below_group DataDictionary by (intro assms) blast
  qed
qed

lemma declared_mono: "declared F d \<Longrightarrow> F \<subseteq> G \<Longrightarrow> declared G d"
proof (induction d rule: groups_induct)
  case (groups d gs)
  have "groups_declared G gs" unfolding groups_declared_def
  proof (intro allI impI conjI)
    fix field pm
    assume e: "(field, pm) \<in> set gs"
    have all: "field \<in> F \<and> (\<forall>msg delim g. (msg, delim, g) \<in> set pm \<longrightarrow> declared F g)"
      using groups.prems(1) e unfolding declared_iff groups_declared_def by blast
    then show "field \<in> G" using groups.prems(2) by blast
    fix msg delim g
    assume g: "(msg, delim, g) \<in> set pm"
    then have "declared F g" using all by blast
    then show "declared G g" by (rule groups.IH [OF e g _ groups.prems(2)])
  qed
  then show ?case using groups.prems data_declared_mono unfolding declared_iff by blast
qed

lemma declared_version [simp]: "declared F (setVersion v d) = declared F d"
  by (simp add: setVersion_def declared_sel data_declared_def)

lemma declared_copy: "declared F d \<Longrightarrow> declared F (DataDictionary_copy d)"
proof (induction d rule: groups_induct)
  case (groups d gs)
  have gs: "groups_declared F gs" using groups.prems by (simp add: declared_iff)
  have "groups_declared F (dd_groups (DataDictionary_copy (DataDictionary d gs)))"
    unfolding groups_declared_def
  proof (intro allI impI conjI)
    fix field pm
    assume "(field, pm) \<in> set (dd_groups (DataDictionary_copy (DataDictionary d gs)))"
    then obtain p where p: "(field, p) \<in> set gs"
      "pm = map (\<lambda>(msg, delim, g). (msg, delim, setVersion (dd_beginString d) (DataDictionary_copy g))) p" by auto
    then have all: "field \<in> F \<and> (\<forall>msg delim g. (msg, delim, g) \<in> set p \<longrightarrow> declared F g)"
      using gs unfolding groups_declared_def by blast
    then show "field \<in> F" by blast
    fix msg delim g
    assume "(msg, delim, g) \<in> set pm"
    then obtain h where h: "(msg, delim, h) \<in> set p" "g = setVersion (dd_beginString d) (DataDictionary_copy h)"
      using p(2) by auto
    then have "declared F (DataDictionary_copy h)" using all groups.IH [OF p(1) h(1)] by blast
    then show "declared F g" using h(2) by simp
  qed
  moreover have "data_declared F (dd_data (DataDictionary_copy (DataDictionary d gs)))"
    using groups.prems by (simp add: declared_iff data_declared_def)
  ultimately show ?case unfolding declared_sel by blast
qed

section \<open>Storing keeps what is declared\<close>

lemma set_update: "e \<in> set (AList.update k v es) \<Longrightarrow> e = (k, v) \<or> e \<in> set es"
  by (induction es) (auto split: if_splits)

lemma set_groups_put: "e \<in> set (groups_put k v es) \<Longrightarrow> e = (k, v) \<or> e \<in> set es"
  by (induction k v es rule: groups_put.induct) (auto split: if_splits)

lemma declared_addGroup:
  assumes "declared F d" and "declared F g" and "field \<in> F"
  shows "declared F (dd_addGroup msg field delim g d)"
proof -
  let ?pm = "case map_of (dd_groups d) field of None \<Rightarrow> [] | Some p \<Rightarrow> p"
  let ?new = "AList.update msg (delim, setVersion (getVersion d) (DataDictionary_copy g)) ?pm"
  have gs: "groups_declared F (dd_groups d)" "data_declared F (dd_data d)" using assms(1) by (simp_all add: declared_sel)
  have old: "declared F h" if "(msg', delim', h) \<in> set ?pm" for msg' delim' h
  proof (cases "map_of (dd_groups d) field")
    case (Some p)
    then have "(field, p) \<in> set (dd_groups d)" by (rule map_of_SomeD)
    moreover have "(msg', delim', h) \<in> set p" using that Some by simp
    ultimately show ?thesis using gs(1) unfolding groups_declared_def by blast
  qed (use that in simp)
  have new: "declared F h" if "(msg', delim', h) \<in> set ?new" for msg' delim' h
    using set_update [OF that] old declared_copy [OF assms(2)] by auto
  have "groups_declared F (groups_put field ?new (dd_groups d))"
    unfolding groups_declared_def
  proof (intro allI impI)
    fix f pm assume "(f, pm) \<in> set (groups_put field ?new (dd_groups d))"
    from set_groups_put [OF this]
    consider "f = field" "pm = ?new" | "(f, pm) \<in> set (dd_groups d)" by blast
    then show "f \<in> F \<and> (\<forall>msg delim g. (msg, delim, g) \<in> set pm \<longrightarrow> declared F g)"
    proof cases
      case 1
      then show ?thesis using new assms(3) by blast
    next
      case 2
      then show ?thesis using gs(1) unfolding groups_declared_def by blast
    qed
  qed
  then show ?thesis using gs(2) by (simp add: dd_addGroup_def Let_def declared_iff)
qed

lemma insert_ordered_set: "set (insert_ordered x xs) = insert x (set xs)"
  by (induction x xs rule: insert_ordered.induct) auto

lemma data_declared_put:
  assumes "data_declared F d" and "num \<in> F"
  shows "data_declared F (d\<lparr>dd_headerFields := groups_put num b (dd_headerFields d)\<rparr>)"
    "data_declared F (d\<lparr>dd_trailerFields := groups_put num b (dd_trailerFields d)\<rparr>)"
proof -
  have "fst ` set (groups_put num b es) \<subseteq> F" if "fst ` set es \<subseteq> F" for es :: "(int \<times> bool) list"
    using that assms(2) by (auto dest!: set_groups_put)
  then show "data_declared F (d\<lparr>dd_headerFields := groups_put num b (dd_headerFields d)\<rparr>)"
    "data_declared F (d\<lparr>dd_trailerFields := groups_put num b (dd_trailerFields d)\<rparr>)"
    using assms(1) by (simp_all add: data_declared_def)
qed

lemma declared_with_data: "declared F d \<Longrightarrow> (data_declared F (dd_data d) \<Longrightarrow> data_declared F (f (dd_data d))) \<Longrightarrow> declared F (with_data f d)"
  by (simp add: declared_sel)

lemma declared_number:
  assumes "num \<in> F" and "declared F d"
  shows "declared F (dd_addField num d)" "declared F (addMsgField m num d)" "declared F (addRequiredField m num d)"
    "declared F (addHeaderField num b d)" "declared F (addTrailerField num b d)"
proof -
  show "declared F (dd_addField num d)"
    unfolding dd_addField_def by (rule declared_with_data [OF assms(2)]) (use assms(1) in \<open>simp add: data_declared_def\<close>)
  show "declared F (addMsgField m num d)"
    unfolding addMsgField_def Let_def
    by (rule declared_with_data [OF assms(2)]) (use assms(1) in \<open>auto simp: data_declared_def split: option.splits if_splits\<close>)
  show "declared F (addRequiredField m num d)"
    unfolding addRequiredField_def
  proof (rule declared_with_data [OF assms(2)])
    assume d: "data_declared F (dd_data d)"
    let ?fs = "case dd_requiredFields (dd_data d) m of None \<Rightarrow> [] | Some fs \<Rightarrow> fs"
    have "set ?fs \<subseteq> F" using d by (cases "dd_requiredFields (dd_data d) m") (simp_all add: data_declared_def)
    then have "set (insert_ordered num ?fs) \<subseteq> F" using assms(1) by (simp add: insert_ordered_set)
    then show "data_declared F ((dd_data d)\<lparr>dd_requiredFields := (dd_requiredFields (dd_data d))(m \<mapsto> insert_ordered num ?fs)\<rparr>)"
      using d by (simp add: data_declared_def)
  qed
  show "declared F (addHeaderField num b d)" "declared F (addTrailerField num b d)"
    unfolding addHeaderField_def addTrailerField_def Let_def
    by (rule declared_with_data [OF assms(2)]; use assms(1) data_declared_put in \<open>simp add: data_declared_def\<close>)+
qed

lemma declared_other:
  assumes "declared F d"
  shows "declared F (addMsgType m d)" "declared F (addValueName n v t d)" "declared F (addFieldValue n v d)"
    "declared F (addFieldType n ty d)"
  unfolding addMsgType_def addValueName_def addFieldValue_def addFieldType_def Let_def
  by (rule declared_with_data [OF assms]; simp add: data_declared_def)+

lemma declared_new: "declared F DataDictionary_new"
  by (simp add: DataDictionary_new_def dictionary_data_new_def declared_iff data_declared_def groups_declared_def)

section \<open>The state while loading\<close>

text \<open>The fields of the dictionary that is loaded, and what holds of both dictionaries.\<close>

definition fields_of :: "loading \<Rightarrow> int set" where
  "fields_of s = dd_fields (dd_data (fst s))"

definition loading_ok :: "loading \<Rightarrow> bool" where
  "loading_ok s \<longleftrightarrow> declared (fields_of s) (fst s) \<and> ran (dd_names (dd_data (fst s))) \<subseteq> fields_of s \<and>
     (case snd s of None \<Rightarrow> True | Some d \<Rightarrow> declared (fields_of s) d)"

text \<open>From a state in which the numbers \<open>K\<close> are declared.\<close>

definition loads_kept :: "int set \<Rightarrow> loading \<Rightarrow> loading \<Rightarrow> bool" where
  "loads_kept K s t \<longleftrightarrow> (loading_ok s \<longrightarrow> K \<subseteq> fields_of s \<longrightarrow> loading_ok t \<and> fields_of s \<subseteq> fields_of t)"

interpretation load: step_relation "loads_kept K" "\<lambda>s. True" "\<lambda>e. False" for K
  by unfold_locales (auto simp: loads_kept_def)

lemma load_mono: "load.reaches K m \<Longrightarrow> K \<subseteq> K' \<Longrightarrow> load.reaches K' m"
  by (auto simp: load.reaches_def load.good_def loads_kept_def)

lemma load_throw: "load.reaches K (throw e)" "load.reaches K (config_error detail)"
  by (simp_all add: config_error_def load.reaches_throw)

lemma load_named: "load.reaches K (named name detail node)"
  unfolding named_def by (intro load.reach_rules load_throw)

text \<open>What is looked up is declared.\<close>

lemma load_lookup:
  assumes "\<And>n. load.reaches (insert n K) (f n)"
  shows "load.reaches K (bind (lookupXMLFieldNumber name) f)"
proof (unfold load.reaches_def, rule allI)
  fix s :: loading
  obtain this DD where s: "s = (this, DD)" by (cases s)
  show "load.good K (bind (lookupXMLFieldNumber name) f) s"
  proof (cases "dd_names (dd_data this) name")
    case None
    then show ?thesis
      by (simp add: load.good_def lookupXMLFieldNumber_def look_def bind_def config_error_def throw_def s loads_kept_def)
  next
    case (Some n)
    then have run: "bind (lookupXMLFieldNumber name) f s = f n s"
      by (simp add: lookupXMLFieldNumber_def look_def bind_def return_def s)
    have "n \<in> fields_of s" if "loading_ok s" using that Some by (auto simp: loading_ok_def s ran_def)
    moreover have "load.good (insert n K) (f n) s" using assms [of n] unfolding load.reaches_def by blast
    ultimately show ?thesis unfolding load.good_def run loads_kept_def by blast
  qed
qed

lemma load_field_number: "(\<And>n. load.reaches (insert n K) (f n)) \<Longrightarrow> load.reaches K (bind (field_number node) f)"
proof -
  assume f: "\<And>n. load.reaches (insert n K) (f n)"
  have "bind (field_number node) f = bind (named ''name'' ''No name given to field'' node) (\<lambda>name. bind (lookupXMLFieldNumber name) f)"
    by (rule ext) (simp add: field_number_def bind_def split: prod.split sum.split)
  then show ?thesis using f by (simp add: load.reaches_bind load_named load_lookup)
qed

lemma load_target:
  assumes "\<And>F d. K \<subseteq> F \<Longrightarrow> declared F d \<Longrightarrow> declared F (f d)"
    and "\<And>d. dd_fields (dd_data d) \<subseteq> dd_fields (dd_data (f d))" and "\<And>d. dd_names (dd_data (f d)) = dd_names (dd_data d)"
  shows "load.reaches K (on_this f)" "load.reaches K (on_target f)"
proof -
  have this_ok: "loads_kept K (this, DD) (f this, DD)" for this DD
  proof -
    have "fields_of (this, DD) \<subseteq> fields_of (f this, DD)" using assms(2) by (simp add: fields_of_def)
    then show ?thesis
      using assms(1) declared_mono assms(3) [of this] unfolding loads_kept_def loading_ok_def
      by (auto split: option.splits dest: declared_mono)
  qed
  have target_ok: "loads_kept K (this, Some d) (this, Some (f d))" for this d
    using assms(1) [of "dd_fields (dd_data this)" d] by (simp add: loads_kept_def loading_ok_def fields_of_def)
  show "load.reaches K (on_this f)" unfolding on_this_def
    by (rule load.reaches_modify) (use this_ok in \<open>simp split: prod.split\<close>)
  show "load.reaches K (on_target f)" unfolding on_target_def
    by (rule load.reaches_modify) (use this_ok target_ok in \<open>simp split: prod.split option.split\<close>)
qed


text \<open>A group is filled on its own and handed over.\<close>

lemma load_with_group:
  assumes "load.reaches K m" and "field \<in> K"
  shows "load.reaches K (bind (with_group m) (\<lambda>(delim, groupDD). only_if (delim \<noteq> 0) (on_target (dd_addGroup msgtype field delim groupDD))))"
    (is "load.reaches K ?m")
proof (unfold load.reaches_def, rule allI)
  fix s :: loading
  obtain this DD where s: "s = (this, DD)" by (cases s)
  obtain r this' gDD where run: "m (this, Some DataDictionary_new) = (r, this', gDD)" by (metis prod_cases3)
  let ?F = "fields_of (this', DD)"
  let ?g = "case gDD of None \<Rightarrow> DataDictionary_new | Some d \<Rightarrow> d"
  have "load.good K m (this, Some DataDictionary_new)" using assms(1) unfolding load.reaches_def by blast
  then have inner: "loads_kept K (this, Some DataDictionary_new) (this', gDD)" by (simp add: load.good_def run)
  have ok: "loading_ok (this', DD) \<and> fields_of s \<subseteq> ?F \<and> declared ?F ?g \<and> K \<subseteq> ?F" if "loading_ok s" "K \<subseteq> fields_of s"
  proof -
    have "loading_ok (this, Some DataDictionary_new)" "K \<subseteq> fields_of (this, Some DataDictionary_new)"
      using that by (simp_all add: s loading_ok_def fields_of_def declared_new)
    then have t: "loading_ok (this', gDD)" "fields_of s \<subseteq> ?F"
      using inner by (simp_all add: loads_kept_def s fields_of_def)
    then have "declared ?F ?g" by (cases gDD) (simp_all add: loading_ok_def fields_of_def declared_new)
    moreover have "loading_ok (this', DD)"
      using t that(1) declared_mono by (cases DD) (auto simp: loading_ok_def s fields_of_def)
    ultimately show ?thesis using t that(2) by blast
  qed
  show "load.good K ?m s"
  proof (cases r)
    case (Inl e)
    then show ?thesis using ok by (simp add: load.good_def bind_def with_group_def s run loads_kept_def)
  next
    case (Inr delim)
    then have eq: "?m s = only_if (delim \<noteq> 0) (on_target (dd_addGroup msgtype field delim ?g)) (this', DD)"
      by (simp add: bind_def with_group_def s run)
    have "loads_kept K s (snd (only_if (delim \<noteq> 0) (on_target (dd_addGroup msgtype field delim ?g)) (this', DD)))"
      unfolding loads_kept_def
    proof (intro impI)
      assume ok_s: "loading_ok s" "K \<subseteq> fields_of s"
      have "load.reaches ?F (on_target (dd_addGroup msgtype field delim ?g))"
      proof (rule load_target)
        fix F d assume F: "?F \<subseteq> F" "declared F d"
        have "declared F ?g" using ok [OF ok_s] F(1) declared_mono by blast
        moreover have "field \<in> F" using ok [OF ok_s] F(1) assms(2) by blast
        ultimately show "declared F (dd_addGroup msgtype field delim ?g d)" by (rule declared_addGroup [OF F(2)])
      qed (simp_all add: dd_addGroup_def Let_def)
      then have "load.reaches ?F (only_if (delim \<noteq> 0) (on_target (dd_addGroup msgtype field delim ?g)))"
        by (rule load.reaches_only_if)
      then have "load.good ?F (only_if (delim \<noteq> 0) (on_target (dd_addGroup msgtype field delim ?g))) (this', DD)"
        unfolding load.reaches_def by blast
      then have "loads_kept ?F (this', DD) (snd (only_if (delim \<noteq> 0) (on_target (dd_addGroup msgtype field delim ?g)) (this', DD)))"
        by (simp add: load.good_def)
      then show "loading_ok (snd (only_if (delim \<noteq> 0) (on_target (dd_addGroup msgtype field delim ?g)) (this', DD))) \<and>
          fields_of s \<subseteq> fields_of (snd (only_if (delim \<noteq> 0) (on_target (dd_addGroup msgtype field delim ?g)) (this', DD)))"
        using ok [OF ok_s] unfolding loads_kept_def by blast
    qed
    then show ?thesis by (simp add: load.good_def eq)
  qed
qed

lemma data_of_adds:
  "dd_fields (dd_data (dd_addField num d)) = insert num (dd_fields (dd_data d))"
  "dd_fields (dd_data (addMsgField m num d)) = dd_fields (dd_data d)" "dd_fields (dd_data (addRequiredField m num d)) = dd_fields (dd_data d)"
  "dd_fields (dd_data (addHeaderField num b d)) = dd_fields (dd_data d)" "dd_fields (dd_data (addTrailerField num b d)) = dd_fields (dd_data d)"
  "dd_fields (dd_data (addMsgType m d)) = dd_fields (dd_data d)" "dd_fields (dd_data (addValueName n v t d)) = dd_fields (dd_data d)"
  "dd_fields (dd_data (addFieldValue n v d)) = dd_fields (dd_data d)" "dd_fields (dd_data (addFieldType n ty d)) = dd_fields (dd_data d)"
  "dd_fields (dd_data (setVersion t d)) = dd_fields (dd_data d)"
  "dd_names (dd_data (dd_addField num d)) = dd_names (dd_data d)" "dd_names (dd_data (addMsgField m num d)) = dd_names (dd_data d)"
  "dd_names (dd_data (addRequiredField m num d)) = dd_names (dd_data d)" "dd_names (dd_data (addHeaderField num b d)) = dd_names (dd_data d)"
  "dd_names (dd_data (addTrailerField num b d)) = dd_names (dd_data d)" "dd_names (dd_data (addMsgType m d)) = dd_names (dd_data d)"
  "dd_names (dd_data (addValueName n v t d)) = dd_names (dd_data d)" "dd_names (dd_data (addFieldValue n v d)) = dd_names (dd_data d)"
  "dd_names (dd_data (addFieldType n ty d)) = dd_names (dd_data d)" "dd_names (dd_data (setVersion t d)) = dd_names (dd_data d)"
  by (simp_all add: dd_addField_def addMsgField_def addRequiredField_def addHeaderField_def addTrailerField_def addMsgType_def
      addValueName_def addFieldValue_def addFieldType_def setVersion_def Let_def)

lemma load_adds:
  assumes "num \<in> K"
  shows "load.reaches K (on_target (dd_addField num))" "load.reaches K (on_target (addMsgField m num))"
    "load.reaches K (on_target (addRequiredField m num))" "load.reaches K (on_this (addMsgField m num))"
    "load.reaches K (on_this (addRequiredField m num))" "load.reaches K (on_this (addHeaderField num b))"
    "load.reaches K (on_this (addTrailerField num b))"
  by (rule load_target; use assms declared_number in \<open>auto simp: data_of_adds\<close>)+

lemma load_others:
  "load.reaches K (on_this (addMsgType m))" "load.reaches K (on_this (addValueName n v t))" "load.reaches K (on_this (addFieldValue n v))"
  "load.reaches K (on_this (addFieldType n ty))" "load.reaches K (on_this (setVersion t))"
  by (rule load_target; simp add: data_of_adds declared_other)+

lemma load_new_field:
  assumes "load.reaches (insert num K) rest"
  shows "load.reaches K (after (on_this (dd_addField num)) rest)"
proof (unfold load.reaches_def, rule allI)
  fix s :: loading
  obtain this DD where s: "s = (this, DD)" by (cases s)
  let ?t = "(dd_addField num this, DD)"
  have "load.good (insert num K) rest ?t" using assms unfolding load.reaches_def by blast
  then have rest: "loads_kept (insert num K) ?t (snd (rest ?t))" by (simp add: load.good_def)
  have eq: "after (on_this (dd_addField num)) rest s = rest ?t"
    by (simp add: after_def bind_def on_this_def modify_def s)
  have "loading_ok ?t \<and> fields_of ?t = insert num (fields_of s)" if "loading_ok s"
  proof -
    have F: "fields_of ?t = insert num (fields_of s)" by (simp add: fields_of_def s data_of_adds)
    have "declared (fields_of ?t) this" "case DD of None \<Rightarrow> True | Some d \<Rightarrow> declared (fields_of ?t) d"
      using that unfolding F by (auto simp: loading_ok_def s intro: declared_mono split: option.splits)
    then have "declared (fields_of ?t) (dd_addField num this)" unfolding F by (intro declared_number) simp_all
    then show ?thesis using that F \<open>case DD of None \<Rightarrow> True | Some d \<Rightarrow> declared (fields_of ?t) d\<close>
      by (auto simp: loading_ok_def s data_of_adds)
  qed
  then have "loads_kept K s (snd (rest ?t))" using rest unfolding loads_kept_def by blast
  then show "load.good K (after (on_this (dd_addField num)) rest) s" by (simp add: load.good_def eq)
qed

lemma load_name:
  assumes "num \<in> K"
  shows "load.reaches K (name_field num name)"
proof (unfold load.reaches_def, rule allI)
  fix s :: loading
  obtain this DD where s: "s = (this, DD)" by (cases s)
  show "load.good K (name_field num name) s"
  proof (cases "addFieldName num name this")
    case None
    then show ?thesis by (simp add: name_field_def load.good_def look_def s config_error_def throw_def loads_kept_def)
  next
    case (Some d)
    then have d: "d = with_data (\<lambda>d. d\<lparr>dd_names := (dd_names d)(name \<mapsto> num), dd_fieldNames := (dd_fieldNames d)(num \<mapsto> name)\<rparr>) this"
        "dd_names (dd_data this) name = None"
      by (auto simp: addFieldName_def split: if_splits)
    have F: "fields_of (d, DD) = fields_of s" by (simp add: fields_of_def s d(1))
    have "declared F d = declared F this" for F by (simp add: declared_sel d(1) data_declared_def)
    moreover have "ran (dd_names (dd_data d)) = insert num (ran (dd_names (dd_data this)))" using d(2) by (simp add: d(1))
    ultimately have "loads_kept K s (d, DD)" using assms F by (cases DD) (auto simp: loads_kept_def loading_ok_def s)
    then show ?thesis using Some by (simp add: name_field_def load.good_def look_def s on_this_def modify_def)
  qed
qed

section \<open>Loading keeps it\<close>

lemmas load_rules = load.reach_rules load_throw load_named load_lookup load_field_number load_adds load_others

lemma load_component_field: "load.reaches K (component_field node msgtype componentRequired firstField)"
  unfolding component_field_def by (intro load_rules) simp_all

lemma load_group_field: "load.reaches K (group_field node msgtype groupRequired)"
  unfolding group_field_def by (intro load_rules) simp_all

lemma load_component_nodes:
  assumes "\<And>node b. load.reaches K (component node b)" and "\<And>node b. load.reaches K (grp node b)"
  shows "load.reaches K (component_nodes component grp msgtype componentRequired nodes firstField)"
proof (induction nodes arbitrary: firstField)
  case Nil
  then show ?case by (simp add: load.reaches_return)
next
  case (Cons node nodes)
  show ?case unfolding component_nodes.simps
    by (intro load.reach_rules load_component_field assms Cons.IH)
qed

lemma load_group_nodes:
  assumes "\<And>node b. load.reaches K (component node b)" and "\<And>node b. load.reaches K (grp node b)"
  shows "load.reaches K (group_nodes component grp msgtype groupRequired nodes delim field)"
proof (induction nodes arbitrary: delim field)
  case Nil
  then show ?case by (simp add: load.reaches_return)
next
  case (Cons node nodes)
  show ?case unfolding group_nodes.simps
    by (intro load.reach_rules load_group_field assms Cons.IH)
qed

lemma load_components:
  "load.reaches K (addXMLComponentFields fuel doc msgtype node b) \<and> load.reaches K (addXMLGroup fuel doc msgtype node b)"
proof (induction fuel arbitrary: K node b)
  case 0
  then show ?case by (simp add: load_throw)
next
  case (Suc fuel)
  have below: "load.reaches K (addXMLComponentFields fuel doc msgtype node b)" "load.reaches K (addXMLGroup fuel doc msgtype node b)"
    for K node b using Suc.IH by blast+
  have "load.reaches K (addXMLComponentFields (Suc fuel) doc msgtype node b)"
    unfolding addXMLComponentFields.simps by (intro load.reach_rules load_throw load_named load_component_nodes below)
  moreover have "load.reaches K (addXMLGroup (Suc fuel) doc msgtype node b)"
    unfolding addXMLGroup.simps
    by (intro load.reaches_bind load_named load_lookup load_with_group load_group_nodes below) simp
  ultimately show ?case by blast
qed

lemma load_each: "(\<And>node. load.reaches K (f node)) \<Longrightarrow> load.reaches K (each f nodes)"
  by (induction nodes) (simp_all add: load.reaches_skip load.reaches_after)

lemma load_section: "load.reaches K (section_nodes name missing none doc)"
  unfolding section_nodes_def by (intro load.reach_rules load_throw)

lemma load_field_loads: "load.reaches K (load_field node)"
proof -
  have vals: "load.reaches K (field_value num name node)" for K num name node
    unfolding field_value_def by (intro load_rules)
  have "load.reaches (insert num K) (look (\<lambda>(this, DD). on_this (addFieldType num (XMLTypeToType (getVersion this) ty))))" for num ty
    by (intro load_rules)
  then show ?thesis
    unfolding load_field_def Let_def block.simps
    by (intro load.reaches_only_if load.reaches_bind load_named load_new_field load.reaches_after load_name load_each vals
        load.reaches_skip) simp_all
qed

lemma load_routing_loads:
  assumes "\<And>num b. load.reaches {num} (on_this (add num b))"
  shows "load.reaches K (load_routing fuel doc add msgtype node)"
proof -
  have "load.reaches (insert num K) (on_this (add num b))" for num b K by (rule load_mono [OF assms]) simp
  then show ?thesis unfolding load_routing_def
    by (intro load.reach_rules load_named load_lookup load_components [THEN conjunct2])
qed

lemma load_message_loads: "load.reaches K (load_message fuel doc node)"
proof -
  have "load.reaches K (message_node fuel doc msgtype node)" for K msgtype node
    unfolding message_node_def
    by (intro load_rules load_components [THEN conjunct1] load_components [THEN conjunct2]) simp_all
  then show ?thesis unfolding load_message_def by (intro load_rules load_each)
qed

lemma load_version: "load.reaches K (read_version doc)"
  unfolding read_version_def Let_def by (intro load_rules)

lemma load_document: "load.reaches {} (readFromDocument fuel doc)"
proof -
  have "load.reaches {num} (on_this (addHeaderField num b))" "load.reaches {num} (on_this (addTrailerField num b))" for num b
    by (rule load_adds; simp)+
  then show ?thesis
    unfolding readFromDocument_def Let_def
    by (intro load.reach_rules load_version load_section load_each load_field_loads load_message_loads load_routing_loads)
qed

text \<open>
  Every number a dictionary that was loaded refers to, in its messages, its header and trailer, among its
  required fields and as a group, is one of its fields; and so it is at every level of its groups.
\<close>

lemma loaded_declared:
  assumes "DataDictionary_url fuel load url preserveMsgFldsOrder = Inr d"
  shows "declared (dd_fields (dd_data d)) d"
proof -
  let ?s = "(preserveMessageFieldsOrder preserveMsgFldsOrder DataDictionary_new, None) :: loading"
  obtain doc where doc: "load url = Some doc" using assms by (auto simp: DataDictionary_url_def split: option.splits)
  obtain r this DD where res: "readFromDocument fuel doc ?s = (r, this, DD)" by (metis prod_cases3)
  have "r = Inr () \<and> this = d"
    using assms res unfolding DataDictionary_url_def by (simp add: doc split: sum.splits throwable.splits fix_exception.splits)
  with res have run: "readFromDocument fuel doc ?s = (Inr (), d, DD)" by simp
  have "declared F (preserveMessageFieldsOrder preserveMsgFldsOrder DataDictionary_new)" for F
    unfolding preserveMessageFieldsOrder_def by (rule declared_with_data [OF declared_new]) (simp add: data_declared_def)
  then have "loading_ok ?s"
    by (simp add: loading_ok_def preserveMessageFieldsOrder_def) (simp add: DataDictionary_new_def dictionary_data_new_def)
  moreover have "load.good {} (readFromDocument fuel doc) ?s" using load_document unfolding load.reaches_def by blast
  ultimately have "loading_ok (d, DD)" by (simp add: load.good_def run loads_kept_def)
  then show ?thesis by (simp add: loading_ok_def fields_of_def)
qed

section \<open>Components\<close>

text \<open>A component that refers to itself is entered for ever.\<close>

definition self_reference :: "dom list" where
  "self_reference = [Dom ''fix'' [] [Dom ''components'' [] [Dom ''component'' [(''name'', ''Parties'')]
     [Dom ''component'' [(''name'', ''Parties''), (''required'', ''Y'')] []]]]]"

lemma self_reference_endless:
  "fst (addXMLComponentFields fuel self_reference msgtype (Dom ''component'' [(''name'', ''Parties''), (''required'', ''Y'')] []) b s) = Inl No_fuel"
proof (induction fuel arbitrary: b s)
  case (Suc fuel)
  have "find_component ''Parties'' self_reference =
      Some (Dom ''component'' [(''name'', ''Parties'')] [Dom ''component'' [(''name'', ''Parties''), (''required'', ''Y'')] []])"
    by code_simp
  then show ?case
    using Suc.IH [of True s]
    by (cases "addXMLComponentFields fuel self_reference msgtype
        (Dom ''component'' [(''name'', ''Parties''), (''required'', ''Y'')] []) True s")
      (simp add: named_def attribute_def is_required_def bind_def return_def after_def ignore_def)
qed (simp add: throw_def)

text \<open>
  The required fields of a component that is nested in one of a group go to the message, not to the group:
  here the message requires the field 448, which only the instances of the group can have.
\<close>

definition nested_components :: "dom list" where
  "nested_components = [Dom ''fix'' [] [Dom ''components'' []
     [Dom ''component'' [(''name'', ''Party'')] [Dom ''field'' [(''name'', ''PartyID''), (''required'', ''Y'')] []],
      Dom ''component'' [(''name'', ''Outer'')] [Dom ''component'' [(''name'', ''Party''), (''required'', ''Y'')] []]]]]"

definition parties :: dom where
  "parties = Dom ''group'' [(''name'', ''NoPartyIDs'')]
     [Dom ''field'' [(''name'', ''PartyRole'')] [], Dom ''component'' [(''name'', ''Outer'')] []]"

definition party_names :: DataDictionary where
  "party_names = with_data (\<lambda>d. d\<lparr>dd_names := [''NoPartyIDs'' \<mapsto> 453, ''PartyID'' \<mapsto> 448, ''PartyRole'' \<mapsto> 452]\<rparr>) DataDictionary_new"

lemma component_in_group_requires:
  "case addXMLGroup 3 nested_components ''D'' parties True (party_names, None) of (r, this, DD) \<Rightarrow>
     isRequiredField ''D'' 448 this \<and> \<not> isMsgField ''D'' 448 this \<and>
     (case getGroup ''D'' 453 this of None \<Rightarrow> False | Some (delim, g) \<Rightarrow> isMsgField ''D'' 448 g \<and> \<not> isRequiredField ''D'' 448 g)"
  by code_simp

text \<open>Without the field in front the component gives the group no delimiter, and the group is not there at all.\<close>

lemma nested_component_no_delimiter:
  "case addXMLGroup 3 nested_components ''D'' (Dom ''group'' [(''name'', ''NoPartyIDs'')] [Dom ''component'' [(''name'', ''Outer'')] []])
     True (party_names, None) of (r, this, DD) \<Rightarrow> r = Inr () \<and> \<not> isGroup ''D'' 453 this"
  by code_simp

end
