(* ===== verification/Configuration.thy ===== *)
theory Configuration
  imports Trade_Model
begin

text \<open>
  What the program reads from its environment (src/Configuration.cpp): the check that the required
  variables are set, the list of assets to focus on and the trading paths that are given instead of searched.
  The library \<^verbatim>\<open>dotenv\<close> is the parameter \<open>getenv\<close>, from the name of a variable and a default to a text;
  a \<^verbatim>\<open>runtime_error\<close> is the left value, its text.
\<close>

type_synonym runtime_error = string
type_synonym environment_text = "string \<Rightarrow> string \<Rightarrow> string"

section \<open>Cutting a text\<close>

text \<open>\<^verbatim>\<open>getline\<close> with a delimiter: nothing follows a delimiter that ends the text.\<close>

function tokens_of :: "string \<Rightarrow> char \<Rightarrow> string list" where
  "tokens_of s delimiter =
     (if s = [] then []
      else takeWhile (\<lambda>c. c \<noteq> delimiter) s # tokens_of (drop 1 (dropWhile (\<lambda>c. c \<noteq> delimiter) s)) delimiter)"
  by pat_completeness auto

termination
proof (relation "measure (\<lambda>(s, delimiter). length s)")
  fix s :: string and delimiter :: char
  assume "s \<noteq> []"
  moreover have "length (dropWhile (\<lambda>c. c \<noteq> delimiter) s) \<le> length s"
    by (rule length_dropWhile_le)
  ultimately have "length (dropWhile (\<lambda>c. c \<noteq> delimiter) s) - 1 < length s"
    by (cases s) simp_all
  then show "((drop 1 (dropWhile (\<lambda>c. c \<noteq> delimiter) s), delimiter), s, delimiter)
      \<in> measure (\<lambda>(s, delimiter). length s)"
    by simp
qed simp

declare tokens_of.simps [simp del]

text \<open>A text of tokens with a delimiter between them, the form the variables are written in.\<close>

fun tokens_text :: "char \<Rightarrow> string list \<Rightarrow> string" where
  "tokens_text delimiter [] = ''''"
| "tokens_text delimiter [t] = t"
| "tokens_text delimiter (t # u # ts) = t @ delimiter # tokens_text delimiter (u # ts)"

lemma tokens_of_empty [simp]: "tokens_of [] d = []"
  by (simp add: tokens_of.simps)

lemma takeWhile_token: "d \<notin> set t \<Longrightarrow> takeWhile (\<lambda>c. c \<noteq> d) t = t"
  by (auto simp: takeWhile_eq_all_conv)

lemma dropWhile_token: "d \<notin> set t \<Longrightarrow> dropWhile (\<lambda>c. c \<noteq> d) t = []"
  by (auto simp: dropWhile_eq_Nil_conv)

lemma tokens_of_one: "t \<noteq> [] \<Longrightarrow> d \<notin> set t \<Longrightarrow> tokens_of t d = [t]"
  by (subst tokens_of.simps) (simp add: takeWhile_token dropWhile_token)

lemma tokens_of_more: "d \<notin> set t \<Longrightarrow> tokens_of (t @ d # s) d = t # tokens_of s d"
proof -
  assume d: "d \<notin> set t"
  then have neq: "c \<noteq> d" if "c \<in> set t" for c
    using that by blast
  have "takeWhile (\<lambda>c. c \<noteq> d) (t @ d # s) = t" "dropWhile (\<lambda>c. c \<noteq> d) (t @ d # s) = d # s"
    using neq by (simp_all add: takeWhile_append2 dropWhile_append2)
  then show ?thesis
    by (subst tokens_of.simps) simp
qed

lemma tokens_read_back:
  assumes "\<forall>t \<in> set ts. d \<notin> set t" "ts \<noteq> [] \<Longrightarrow> last ts \<noteq> []"
  shows "tokens_of (tokens_text d ts) d = ts"
  using assms by (induction d ts rule: tokens_text.induct) (auto simp: tokens_of_one tokens_of_more)

lemma tokens_text_chars: "c \<in> set (tokens_text d ts) \<Longrightarrow> c \<noteq> d \<Longrightarrow> \<exists>t \<in> set ts. c \<in> set t"
  by (induction d ts rule: tokens_text.induct) auto

lemma tokens_text_nonempty: "ts \<noteq> [] \<Longrightarrow> last ts \<noteq> [] \<Longrightarrow> tokens_text d ts \<noteq> []"
  by (induction d ts rule: tokens_text.induct) auto

section \<open>The environment\<close>

definition requiredVars :: "string list" where
  "requiredVars = [''BINANCE_REST_API_URI'', ''BINANCE_FIX_API_HOSTNAME_ORDERENTRY'',
     ''BINANCE_FIX_API_HOSTNAME_MARKETDATA'', ''BINANCE_ED25519_SEED'', ''BINANCE_ED25519_API_KEY'']"

fun add_missing :: "environment_text \<Rightarrow> string \<Rightarrow> string list \<Rightarrow> string" where
  "add_missing getenv missingVars [] = missingVars"
| "add_missing getenv missingVars (var # vars) =
     add_missing getenv
       (if getenv var '''' = [] then (if missingVars = [] then missingVars else missingVars @ '', '') @ var
        else missingVars) vars"

definition Configuration_new :: "environment_text \<Rightarrow> runtime_error + unit" where
  "Configuration_new getenv =
     (let missingVars = add_missing getenv '''' requiredVars
      in if missingVars \<noteq> [] then Inl (''Missing required environment variables: '' @ missingVars) else Inr ())"

definition getAssets :: "environment_text \<Rightarrow> string list" where
  "getAssets getenv = tokens_of (getenv ''ASSETS'' '''') CHR '',''"

definition position_named :: "string \<Rightarrow> runtime_error + Position" where
  "position_named positionStr =
     (if positionStr = ''LONG'' then Inr LONG
      else if positionStr = ''SHORT'' then Inr SHORT
      else Inl (''Invalid position in static trading path: '' @ positionStr))"

fun static_path :: "string list \<Rightarrow> runtime_error + (string \<times> Position) list" where
  "static_path [] = Inr []"
| "static_path (tradeString # tradeStrings) =
     (let parts = tokens_of tradeString CHR '':''
      in if length parts \<noteq> 2 then Inl (''Invalid static trading path format: '' @ tradeString)
         else case position_named (parts ! 1) of
             Inl e \<Rightarrow> Inl e
           | Inr position \<Rightarrow> (case static_path tradeStrings of
                 Inl e \<Rightarrow> Inl e
               | Inr path \<Rightarrow> Inr ((parts ! 0, position) # path)))"

fun static_paths :: "string list \<Rightarrow> runtime_error + (string \<times> Position) list list" where
  "static_paths [] = Inr []"
| "static_paths (pathString # pathStrings) =
     (case static_path (tokens_of pathString CHR '','') of
        Inl e \<Rightarrow> Inl e
      | Inr path \<Rightarrow> (case static_paths pathStrings of
            Inl e \<Rightarrow> Inl e
          | Inr paths \<Rightarrow> Inr (path # paths)))"

definition getStaticTradingPaths :: "environment_text \<Rightarrow> runtime_error + (string \<times> Position) list list" where
  "getStaticTradingPaths getenv =
     (let staticPathsEnv = getenv ''STATIC_TRADINGPATHS'' ''''
      in if staticPathsEnv = [] then Inr [] else static_paths (tokens_of staticPathsEnv CHR '';''))"

section \<open>What is read\<close>

lemma add_missing_set: "missing \<noteq> [] \<Longrightarrow> add_missing getenv missing vars \<noteq> []"
  by (induction vars arbitrary: missing) auto

lemma add_missing_none:
  assumes "[] \<notin> set vars"
  shows "add_missing getenv [] vars = [] \<longleftrightarrow> (\<forall>var \<in> set vars. getenv var [] \<noteq> [])"
  using assms by (induction vars) (auto simp: add_missing_set)

text \<open>The program starts exactly when every required variable has a value.\<close>

lemma Configuration_new_ok:
  "Configuration_new getenv = Inr () \<longleftrightarrow> (\<forall>var \<in> set requiredVars. getenv var [] \<noteq> [])"
  using add_missing_none [of requiredVars getenv]
  by (auto simp: Configuration_new_def Let_def requiredVars_def)

text \<open>The text of static paths: trades as symbol and position, commas between them, semicolons between paths.\<close>

fun position_text :: "Position \<Rightarrow> string" where
  "position_text LONG = ''LONG''"
| "position_text SHORT = ''SHORT''"

definition trade_text :: "string \<times> Position \<Rightarrow> string" where
  "trade_text t = tokens_text CHR '':'' [fst t, position_text (snd t)]"

definition paths_text :: "(string \<times> Position) list list \<Rightarrow> string" where
  "paths_text paths = tokens_text CHR '';'' (map (\<lambda>path. tokens_text CHR '','' (map trade_text path)) paths)"

definition plain_symbol :: "string \<Rightarrow> bool" where
  "plain_symbol s \<longleftrightarrow> CHR '':'' \<notin> set s \<and> CHR '','' \<notin> set s \<and> CHR '';'' \<notin> set s"

lemma position_read_back [simp]: "position_named (position_text p) = Inr p"
  by (cases p) (simp_all add: position_named_def)

lemma position_text_nonempty [simp]: "position_text p \<noteq> []"
  by (cases p) simp_all

lemma position_text_chars:
  "CHR '':'' \<notin> set (position_text p) \<and> CHR '','' \<notin> set (position_text p) \<and> CHR '';'' \<notin> set (position_text p)"
  by (cases p) simp_all

lemma trade_text_parts: "plain_symbol (fst t) \<Longrightarrow> tokens_of (trade_text t) CHR '':'' = [fst t, position_text (snd t)]"
  unfolding trade_text_def
  by (rule tokens_read_back) (simp_all add: plain_symbol_def position_text_chars)

lemma trade_text_chars:
  "plain_symbol (fst t) \<Longrightarrow> CHR '','' \<notin> set (trade_text t) \<and> CHR '';'' \<notin> set (trade_text t)"
  by (simp add: trade_text_def plain_symbol_def position_text_chars)

lemma trade_text_nonempty [simp]: "trade_text t \<noteq> []"
  by (simp add: trade_text_def)

lemma static_path_read_back: "\<forall>t \<in> set path. plain_symbol (fst t) \<Longrightarrow> static_path (map trade_text path) = Inr path"
  by (induction path) (simp_all add: trade_text_parts Let_def)

lemma path_text_parts:
  assumes "\<forall>t \<in> set path. plain_symbol (fst t)"
  shows "tokens_of (tokens_text CHR '','' (map trade_text path)) CHR '','' = map trade_text path"
  using assms trade_text_chars by (intro tokens_read_back) (auto simp: last_map)

lemma static_paths_read_back:
  assumes "\<forall>path \<in> set paths. \<forall>t \<in> set path. plain_symbol (fst t)"
  shows "static_paths (map (\<lambda>path. tokens_text CHR '','' (map trade_text path)) paths) = Inr paths"
  using assms by (induction paths) (simp_all add: path_text_parts static_path_read_back)

text \<open>Paths of plain symbols, none of them empty, are read from their text as they are.\<close>

lemma paths_read_back:
  assumes plain: "\<forall>path \<in> set paths. path \<noteq> [] \<and> (\<forall>t \<in> set path. plain_symbol (fst t))"
    and env: "getenv ''STATIC_TRADINGPATHS'' [] = paths_text paths"
  shows "getStaticTradingPaths getenv = Inr paths"
proof -
  let ?text = "\<lambda>path. tokens_text CHR '','' (map trade_text path)"
  have semicolon: "CHR '';'' \<notin> set (?text path)" if "path \<in> set paths" for path
  proof
    assume "CHR '';'' \<in> set (?text path)"
    then have "\<exists>t \<in> set (map trade_text path). CHR '';'' \<in> set t"
      by (rule tokens_text_chars) simp
    then show False
      using that plain trade_text_chars by auto
  qed
  have nonempty: "?text path \<noteq> []" if "path \<in> set paths" for path
    using that plain by (intro tokens_text_nonempty) (auto simp: last_map)
  have "tokens_of (paths_text paths) CHR '';'' = map ?text paths"
    unfolding paths_text_def
  proof (rule tokens_read_back)
    show "\<forall>t \<in> set (map ?text paths). CHR '';'' \<notin> set t"
      using semicolon by simp
    show "last (map ?text paths) \<noteq> []" if "map ?text paths \<noteq> []"
      using that nonempty by (simp add: last_map)
  qed
  then show ?thesis
    using static_paths_read_back [of paths] plain env
    by (cases "paths_text paths = []") (auto simp: getStaticTradingPaths_def Let_def)
qed

end
