(* ===== verification/Exchange.thy ===== *)
theory Exchange
  imports "HOL-Library.Word" Precise_Text Worker_Model Configuration
begin

text \<open>
  What the program asks the exchange before it starts (src/Exchange.cpp) and what it makes of the answers
  (src/Main.cpp): the balance, the symbols, the values of the assets in Bitcoin, and the trading paths that the
  configuration gives. The libraries are parameters: sending a request (\<^verbatim>\<open>cpr\<close>), reading an answer
  (\<^verbatim>\<open>boost::json\<close>), signing, and the decimal type. A JSON value has the kinds the library has; an object has
  every name once. An exception is the left value.
\<close>

section \<open>The libraries\<close>

datatype json = JNull | JBool bool | JInt64 int | JNumber | JString string | JArray "json list" | JObject "(string \<times> json) list"

record http_response =
  r_status_code :: int
  r_error_message :: string
  r_text :: string

record 'd exchange_library =
  x_get :: "string \<Rightarrow> (string \<times> string) list \<Rightarrow> http_response"
  x_parse :: "string \<Rightarrow> string + json"  \<comment> \<open>the left value is the message of the error code\<close>
  x_sign :: "string \<Rightarrow> string \<Rightarrow> string + string"  \<comment> \<open>\<^verbatim>\<open>Ed25519::sign\<close>; the left value is the text of its exception\<close>
  x_decimal :: "'d decimal_lib"

datatype exchange_error =
    Exchange_runtime_error string  \<comment> \<open>\<^verbatim>\<open>std::runtime_error\<close>\<close>
  | Json_error  \<comment> \<open>a value of another kind, or a name that is missing\<close>
  | Number_error  \<comment> \<open>a text that is no number\<close>

definition on_value :: "exchange_error + 'a \<Rightarrow> ('a \<Rightarrow> exchange_error + 'b) \<Rightarrow> exchange_error + 'b" where
  "on_value r k = (case r of Inl e \<Rightarrow> Inl e | Inr v \<Rightarrow> k v)"

fun as_object :: "json \<Rightarrow> exchange_error + (string \<rightharpoonup> json)" where
  "as_object (JObject members) = Inr (map_of members)"
| "as_object v = Inl Json_error"

fun as_array :: "json \<Rightarrow> exchange_error + json list" where
  "as_array (JArray items) = Inr items"
| "as_array v = Inl Json_error"

fun as_bool :: "json \<Rightarrow> exchange_error + bool" where
  "as_bool (JBool b) = Inr b"
| "as_bool v = Inl Json_error"

text \<open>\<open>as_string().c_str()\<close>, as it is used everywhere, and \<open>as_int64()\<close> put into an \<^verbatim>\<open>int\<close>.\<close>

fun as_c_string :: "json \<Rightarrow> exchange_error + string" where
  "as_c_string (JString s) = Inr (c_str s)"
| "as_c_string v = Inl Json_error"

fun as_int :: "json \<Rightarrow> exchange_error + int" where
  "as_int (JInt64 n) = Inr (sint (word_of_int n :: 32 word))"
| "as_int v = Inl Json_error"

text \<open>\<open>operator[]\<close> of an object puts a null under a name that is missing.\<close>

definition json_member :: "(string \<rightharpoonup> json) \<Rightarrow> string \<Rightarrow> json" where
  "json_member members name = (case members name of None \<Rightarrow> JNull | Some v \<Rightarrow> v)"

definition exchange_amount :: "'d exchange_library \<Rightarrow> string \<Rightarrow> exchange_error + precise_number" where
  "exchange_amount L s =
     (case PreciseNumber_ofString (x_decimal L) s of None \<Rightarrow> Inl Number_error | Some a \<Rightarrow> Inr a)"

section \<open>Requests\<close>

text \<open>The checks of an answer; \<open>failed\<close> and \<open>errors\<close> begin the texts of its exceptions.\<close>

definition checked_text :: "string \<Rightarrow> string \<Rightarrow> http_response \<Rightarrow> exchange_error + string" where
  "checked_text failed errors r =
     (if r_status_code r = 0 then Inl (Exchange_runtime_error (failed @ r_error_message r @ '')''))
      else if r_status_code r \<noteq> 200
      then Inl (Exchange_runtime_error (errors @ int_text (r_status_code r) @ ''), '' @ r_text r))
      else Inr (r_text r))"

definition parsed_answer :: "'d exchange_library \<Rightarrow> string \<Rightarrow> exchange_error + json" where
  "parsed_answer L t = (case x_parse L t of
     Inl e \<Rightarrow> Inl (Exchange_runtime_error (''Failed to parse JSON response: '' @ e)) | Inr v \<Rightarrow> Inr v)"

text \<open>The signed part of a request at \<open>now\<close>, the milliseconds of the system clock.\<close>

definition createSignature :: "'d exchange_library \<Rightarrow> int \<Rightarrow> string \<Rightarrow> exchange_error + string" where
  "createSignature L now privateKeySeed =
     (let timestampPart = ''timestamp='' @ int_text now
      in case x_sign L privateKeySeed timestampPart of
           Inl e \<Rightarrow> Inl (Exchange_runtime_error e)
         | Inr signature \<Rightarrow> Inr (timestampPart @ ''&signature='' @ signature))"

definition getBalancesJson :: "'d exchange_library \<Rightarrow> int \<Rightarrow> string \<Rightarrow> string \<Rightarrow> string \<Rightarrow> exchange_error + string" where
  "getBalancesJson L now uri apiKey privateKeySeed =
     on_value (createSignature L now privateKeySeed) (\<lambda>signature.
       checked_text ''CPR Error fetching balances: ('' ''Error fetching balances: (''
         (x_get L (uri @ ''/api/v3/account?'' @ signature)
           [(''Connection'', ''close''), (''X-MBX-APIKEY'', apiKey)]))"

section \<open>The balance\<close>

fun balance_items :: "'d exchange_library \<Rightarrow> json list \<Rightarrow> Balance \<Rightarrow> exchange_error + Balance" where
  "balance_items L [] balance = Inr balance"
| "balance_items L (item # items) balance =
     on_value (as_object item) (\<lambda>itemObj.
     on_value (as_c_string (json_member itemObj ''asset'')) (\<lambda>asset.
     on_value (as_c_string (json_member itemObj ''free'')) (\<lambda>free.
     on_value (exchange_amount L free) (\<lambda>amount.
       balance_items L items (Balance_updateBalance balance asset amount)))))"

definition getBalance :: "'d exchange_library \<Rightarrow> int \<Rightarrow> string \<Rightarrow> string \<Rightarrow> string \<Rightarrow> exchange_error + Balance" where
  "getBalance L now uri apiKey seed =
     on_value (getBalancesJson L now uri apiKey seed) (\<lambda>jsonResponse.
     on_value (parsed_answer L jsonResponse) (\<lambda>json.
     on_value (as_object json) (\<lambda>obj.
     on_value (as_array (json_member obj ''balances'')) (\<lambda>items.
       balance_items L items Map.empty))))"

section \<open>The symbols\<close>

type_synonym symbol_limits = "precise_number \<times> precise_number \<times> precise_number"

fun symbol_filters :: "'d exchange_library \<Rightarrow> json list \<Rightarrow> symbol_limits \<Rightarrow> exchange_error + symbol_limits" where
  "symbol_filters L [] limits = Inr limits"
| "symbol_filters L (item # items) (notional, baseStep, quoteStep) =
     on_value (as_object item) (\<lambda>filterObj.
     on_value (as_c_string (json_member filterObj ''filterType'')) (\<lambda>filterType.
       if filterType = ''NOTIONAL'' then
         on_value (as_c_string (json_member filterObj ''minNotional'')) (\<lambda>t.
         on_value (exchange_amount L t) (\<lambda>a. symbol_filters L items (a, baseStep, quoteStep)))
       else if filterType = ''LOT_SIZE'' then
         on_value (as_c_string (json_member filterObj ''stepSize'')) (\<lambda>t.
         on_value (exchange_amount L t) (\<lambda>a. symbol_filters L items (notional, a, quoteStep)))
       else if filterType = ''PRICE_FILTER'' then
         on_value (as_c_string (json_member filterObj ''tickSize'')) (\<lambda>t.
         on_value (exchange_amount L t) (\<lambda>a. symbol_filters L items (notional, baseStep, a)))
       else symbol_filters L items (notional, baseStep, quoteStep)))"

definition read_symbol :: "'d exchange_library \<Rightarrow> (string \<rightharpoonup> json) \<Rightarrow> exchange_error + Symbol" where
  "read_symbol L symbolObj =
     on_value (as_c_string (json_member symbolObj ''symbol'')) (\<lambda>symbolStr.
     on_value (as_c_string (json_member symbolObj ''baseAsset'')) (\<lambda>base.
     on_value (as_c_string (json_member symbolObj ''quoteAsset'')) (\<lambda>quote.
     on_value (as_int (json_member symbolObj ''baseAssetPrecision'')) (\<lambda>basePrecision.
     on_value (as_int (json_member symbolObj ''quoteAssetPrecision'')) (\<lambda>quotePrecision.
     on_value (as_array (json_member symbolObj ''filters'')) (\<lambda>filters.
     on_value (symbol_filters L filters (PreciseNumber_default, PreciseNumber_default, PreciseNumber_default))
       (\<lambda>(notional, baseStep, quoteStep).
         Inr \<lparr>symbol = symbolStr, baseAsset = base, quoteAsset = quote, minNotional = notional,
              baseAssetIncrement = baseStep, quoteAssetIncrement = quoteStep,
              baseAssetPrecision = basePrecision, quoteAssetPrecision = quotePrecision,
              bidPrice = PreciseNumber_default, askPrice = PreciseNumber_default,
              bidQty = PreciseNumber_default, askQty = PreciseNumber_default\<rparr>)))))))"

text \<open>\<open>insert\<close> keeps what is already under a key.\<close>

fun symbol_items ::
  "'d exchange_library \<Rightarrow> json list \<Rightarrow> (string \<rightharpoonup> Symbol) \<Rightarrow> exchange_error + (string \<rightharpoonup> Symbol)" where
  "symbol_items L [] symbols = Inr symbols"
| "symbol_items L (item # items) symbols =
     on_value (as_object item) (\<lambda>symbolObj.
     on_value (as_bool (json_member symbolObj ''isSpotTradingAllowed'')) (\<lambda>spot.
       if \<not> spot then symbol_items L items symbols
       else on_value (read_symbol L symbolObj) (\<lambda>s.
         symbol_items L items
           (if symbols (symbol s) = None then symbols(symbol s \<mapsto> s) else symbols))))"

definition getSymbols :: "'d exchange_library \<Rightarrow> string \<Rightarrow> exchange_error + (string \<rightharpoonup> Symbol)" where
  "getSymbols L uri =
     on_value (checked_text ''CPR Error fetching exchange info: ('' ''Error fetching exchange info: (''
         (x_get L (uri @ ''/api/v3/exchangeInfo'') [])) (\<lambda>t.
     on_value (parsed_answer L t) (\<lambda>json.
     on_value (as_object json) (\<lambda>obj.
     on_value (as_array (json_member obj ''symbols'')) (\<lambda>items.
       symbol_items L items Map.empty))))"

section \<open>The values of the assets\<close>

fun price_items ::
  "'d exchange_library \<Rightarrow> json list \<Rightarrow> (string \<rightharpoonup> precise_number) \<Rightarrow> exchange_error + (string \<rightharpoonup> precise_number)" where
  "price_items L [] symbolPrices = Inr symbolPrices"
| "price_items L (item # items) symbolPrices =
     on_value (as_object item) (\<lambda>priceObj.
     on_value (as_c_string (json_member priceObj ''symbol'')) (\<lambda>s.
     on_value (as_c_string (json_member priceObj ''price'')) (\<lambda>t.
     on_value (exchange_amount L t) (\<lambda>price.
       price_items L items (symbolPrices(s \<mapsto> price))))))"

text \<open>
  \<open>std::numeric_limits<PreciseNumber>::max()\<close>: the sources do not specialise the template, and for a type it does
  not know the standard library returns a default value.
\<close>

definition limits_max :: precise_number where
  "limits_max = PreciseNumber_default"

text \<open>The two loops over the symbols, in the order in which the hash table is visited.\<close>

fun bitcoin_values ::
  "(string \<rightharpoonup> precise_number) \<Rightarrow> (string \<times> Symbol) list \<Rightarrow> (string \<rightharpoonup> precise_number) \<Rightarrow> precise_number \<Rightarrow>
     (string \<rightharpoonup> precise_number) \<times> precise_number" where
  "bitcoin_values prices [] relativeValues lowestValue = (relativeValues, lowestValue)"
| "bitcoin_values prices ((symbolName, s) # symbols) relativeValues lowestValue =
     (if quoteAsset s = ''BTC'' then
        bitcoin_values prices symbols (relativeValues(baseAsset s \<mapsto> value_at prices symbolName))
          (PreciseNumber_min lowestValue (value_at prices symbolName))
      else if baseAsset s = ''BTC'' then
        (let v = PreciseNumber_of_int 1 div value_at prices symbolName
         in bitcoin_values prices symbols (relativeValues(quoteAsset s \<mapsto> v)) (PreciseNumber_min lowestValue v))
      else bitcoin_values prices symbols relativeValues lowestValue)"

definition assign_lowest :: "precise_number \<Rightarrow> string \<Rightarrow> (string \<rightharpoonup> precise_number) \<Rightarrow> (string \<rightharpoonup> precise_number)" where
  "assign_lowest lowestValue asset relativeValues =
     (if relativeValues asset = None then relativeValues(asset \<mapsto> lowestValue) else relativeValues)"

fun lowest_values ::
  "precise_number \<Rightarrow> (string \<times> Symbol) list \<Rightarrow> (string \<rightharpoonup> precise_number) \<Rightarrow> (string \<rightharpoonup> precise_number)" where
  "lowest_values lowestValue [] relativeValues = relativeValues"
| "lowest_values lowestValue ((symbolName, s) # symbols) relativeValues =
     lowest_values lowestValue symbols
       (assign_lowest lowestValue (quoteAsset s) (assign_lowest lowestValue (baseAsset s) relativeValues))"

definition relative_values :: "(string \<rightharpoonup> precise_number) \<Rightarrow> (string \<times> Symbol) list \<Rightarrow> (string \<rightharpoonup> precise_number)" where
  "relative_values symbolPrices symbols =
     (let (relativeValues, lowestValue) = bitcoin_values symbolPrices symbols Map.empty limits_max
      in (lowest_values lowestValue symbols relativeValues)(''BTC'' \<mapsto> PreciseNumber_of_int 1))"

definition getRelativeValues ::
  "'d exchange_library \<Rightarrow> string \<Rightarrow> (string \<times> Symbol) list \<Rightarrow> exchange_error + (string \<rightharpoonup> precise_number)" where
  "getRelativeValues L uri symbols =
     on_value (checked_text ''CPR Error fetching prices: ('' ''Error fetching symbol prices: (''
         (x_get L (uri @ ''/api/v3/ticker/price'') [])) (\<lambda>t.
     on_value (parsed_answer L t) (\<lambda>json.
     on_value (as_array json) (\<lambda>items.
     on_value (price_items L items Map.empty) (\<lambda>symbolPrices.
       Inr (relative_values symbolPrices symbols)))))"

section \<open>Paths that are given\<close>

fun static_trades ::
  "(string \<rightharpoonup> Symbol) \<Rightarrow> (string \<times> Position) list \<Rightarrow> runtime_error + Trade list" where
  "static_trades symbolMap [] = Inr []"
| "static_trades symbolMap ((symbolStr, position) # path) =
     (case symbolMap symbolStr of
        None \<Rightarrow> Inl (''Symbol not found in symbol map: '' @ symbolStr)
      | Some s \<Rightarrow> (case static_trades symbolMap path of
            Inl e \<Rightarrow> Inl e
          | Inr trades \<Rightarrow> Inr (Trade_new (\<lambda>r. the (symbolMap r)) symbolStr position # trades)))"

fun static_trading_paths ::
  "(string \<rightharpoonup> Symbol) \<Rightarrow> (string \<times> Position) list list \<Rightarrow> runtime_error + Trade list list" where
  "static_trading_paths symbolMap [] = Inr []"
| "static_trading_paths symbolMap (path # paths) =
     (case static_trades symbolMap path of
        Inl e \<Rightarrow> Inl e
      | Inr trades \<Rightarrow> (case static_trading_paths symbolMap paths of
            Inl e \<Rightarrow> Inl e
          | Inr rest \<Rightarrow> Inr (trades # rest)))"

end
