(* ===== verification/Exchange_Laws.thy ===== *)
theory Exchange_Laws
  imports Exchange Worker_Properties
begin

text \<open>
  What the readings of the exchange amount to: the symbols are kept under their names, the balance adds up what is
  listed, every asset of a symbol has a value, and an asset that is not traded against Bitcoin has the value zero,
  so that no cycle that starts with it is ever started.
\<close>

section \<open>Balance and symbols\<close>

lemma on_value_Inr: "on_value r k = Inr v \<longleftrightarrow> (\<exists>u. r = Inr u \<and> k u = Inr v)"
  by (cases r) (simp_all add: on_value_def)

lemma on_value_values [simp]: "on_value (Inr u) k = k u" "on_value (Inl e) k = Inl e"
  by (simp_all add: on_value_def)

text \<open>An item of the account: what is free of an asset.\<close>

definition account_item :: "'d exchange_library \<Rightarrow> string \<Rightarrow> precise_number \<Rightarrow> json \<Rightarrow> bool" where
  "account_item L asset amount item \<longleftrightarrow> (\<exists>o1 free. as_object item = Inr o1 \<and>
     as_c_string (json_member o1 ''asset'') = Inr asset \<and> as_c_string (json_member o1 ''free'') = Inr free \<and>
     exchange_amount L free = Inr amount)"

lemma balance_items_add_up:
  assumes "list_all2 (\<lambda>(asset, amount). account_item L asset amount) entries items"
  shows "\<exists>b'. balance_items L items b = Inr b' \<and>
    (\<forall>j. value_at b' j = value_at b j + sum_list (map snd (filter (\<lambda>e. fst e = j) entries)))"
  using assms
proof (induction entries items arbitrary: b rule: list_all2_induct)
  case (Cons e entries item items)
  obtain asset amount where e: "e = (asset, amount)"
    by (cases e)
  with Cons obtain b' where "balance_items L items (Balance_updateBalance b asset amount) = Inr b'"
    and b': "\<And>j. value_at b' j = value_at (Balance_updateBalance b asset amount) j +
      sum_list (map snd (filter (\<lambda>e. fst e = j) entries))"
    by blast
  then have "balance_items L (item # items) b = Inr b'"
    using Cons.hyps e by (auto simp: account_item_def)
  moreover have "value_at b' j = value_at b j + sum_list (map snd (filter (\<lambda>e. fst e = j) (e # entries)))" for j
    by (simp add: b' e bal.read_credit add.assoc)
  ultimately show ?case
    by blast
qed simp

lemma symbol_items_keys:
  assumes "symbol_items L items symbols = Inr result" "\<And>k s. symbols k = Some s \<Longrightarrow> symbol s = k"
    and "result k = Some s"
  shows "symbol s = k"
  using assms
proof (induction items arbitrary: symbols)
  case (Cons item items)
  obtain o1 spot where o1: "as_object item = Inr o1" "as_bool (json_member o1 ''isSpotTradingAllowed'') = Inr spot"
    using Cons.prems(1) by (auto simp: on_value_Inr)
  show ?case
  proof (cases spot)
    case True
    then obtain s1 where "symbol_items L items
        (if symbols (symbol s1) = None then symbols(symbol s1 \<mapsto> s1) else symbols) = Inr result"
      using Cons.prems(1) o1 by (auto simp: on_value_Inr)
    then show ?thesis
      by (rule Cons.IH) (use Cons.prems(2,3) in \<open>auto split: if_splits\<close>)
  next
    case False
    then have "symbol_items L items symbols = Inr result"
      using Cons.prems(1) o1 by simp
    then show ?thesis
      by (rule Cons.IH) (use Cons.prems(2,3) in auto)
  qed
qed auto

text \<open>Every symbol is kept under its own name, as the trades that point to it rely on.\<close>

lemma getSymbols_keys: "getSymbols L uri = Inr symbols \<Longrightarrow> symbols k = Some s \<Longrightarrow> symbol s = k"
  by (auto simp: getSymbols_def on_value_Inr intro: symbol_items_keys)

section \<open>Values in Bitcoin\<close>

definition in_bitcoin :: "string \<Rightarrow> Symbol \<Rightarrow> bool" where
  "in_bitcoin a s \<longleftrightarrow> (if quoteAsset s = ''BTC'' then baseAsset s = a else baseAsset s = ''BTC'' \<and> quoteAsset s = a)"

definition bitcoin_price :: "(string \<rightharpoonup> precise_number) \<Rightarrow> string \<times> Symbol \<Rightarrow> precise_number" where
  "bitcoin_price prices e =
     (if quoteAsset (snd e) = ''BTC'' then value_at prices (fst e)
      else PreciseNumber_of_int 1 div value_at prices (fst e))"

definition known_assets :: "(string \<times> Symbol) list \<Rightarrow> string set" where
  "known_assets symbols = (\<Union>e \<in> set symbols. {baseAsset (snd e), quoteAsset (snd e)})"

lemma limits_max_zero: "limits_max = 0"
  by (simp add: limits_max_def PreciseNumber_operators)

lemma min_zero: "0 \<le> a \<Longrightarrow> PreciseNumber_min 0 a = 0"
  by (auto simp: PreciseNumber_min_def pn_le_iff pn_eq_iff)

lemma value_at_nonneg: "\<forall>a \<in> ran prices. 0 \<le> a \<Longrightarrow> 0 \<le> value_at prices k" for prices :: "string \<rightharpoonup> precise_number"
  by (cases "prices k") (auto intro: ranI)

lemma inverse_nonneg: "0 \<le> a \<Longrightarrow> 0 \<le> PreciseNumber_of_int 1 div a"
  by (rule pn_div_nonneg) (simp_all add: pn_simps)

lemma bitcoin_values_lowest:
  assumes "\<forall>a \<in> ran prices. 0 \<le> a"
  shows "snd (bitcoin_values prices symbols vals 0) = 0"
  using assms
  by (induction symbols arbitrary: vals)
    (auto simp: min_zero value_at_nonneg inverse_nonneg Let_def)

lemma bitcoin_values_sources:
  "fst (bitcoin_values prices symbols vals lowest) a = Some v \<Longrightarrow>
     vals a = Some v \<or> (\<exists>e \<in> set symbols. in_bitcoin a (snd e) \<and> v = bitcoin_price prices e)"
proof (induction prices symbols vals lowest rule: bitcoin_values.induct)
  case (2 prices symbolName s symbols vals lowest)
  let ?e = "(symbolName, s)"
  have "vals a = Some v \<or> (in_bitcoin a s \<and> v = bitcoin_price prices ?e) \<or>
      (\<exists>e \<in> set symbols. in_bitcoin a (snd e) \<and> v = bitcoin_price prices e)"
  proof (cases "quoteAsset s = ''BTC''")
    case True
    with 2(1) [OF True] 2(4)
    have "(vals(baseAsset s \<mapsto> value_at prices symbolName)) a = Some v \<or>
        (\<exists>e \<in> set symbols. in_bitcoin a (snd e) \<and> v = bitcoin_price prices e)"
      by (simp only: bitcoin_values.simps if_True simp_thms)
    then show ?thesis
      using True unfolding fun_upd_apply in_bitcoin_def [of a s] bitcoin_price_def [of prices ?e] by (simp split: if_splits) blast
  next
    case quote: False
    show ?thesis
    proof (cases "baseAsset s = ''BTC''")
      case True
      with 2(2) [OF quote True refl] 2(4) quote
      have "(vals(quoteAsset s \<mapsto> PreciseNumber_of_int 1 div value_at prices symbolName)) a = Some v \<or>
          (\<exists>e \<in> set symbols. in_bitcoin a (snd e) \<and> v = bitcoin_price prices e)"
        by (simp only: bitcoin_values.simps Let_def if_True if_False simp_thms)
      then show ?thesis
        using quote True unfolding fun_upd_apply in_bitcoin_def [of a s] bitcoin_price_def [of prices ?e] by (simp split: if_splits) blast
    next
      case False
      with 2(3) [OF quote False] 2(4) quote show ?thesis
        by (simp only: bitcoin_values.simps if_False) blast
    qed
  qed
  then show ?case
    by (simp only: set_simps bex_simps snd_conv)
qed simp

lemma bitcoin_values_keeps: "dom vals \<subseteq> dom (fst (bitcoin_values prices symbols vals lowest))"
proof (induction prices symbols vals lowest rule: bitcoin_values.induct)
  case (2 prices symbolName s symbols vals lowest)
  show ?case
  proof (cases "quoteAsset s = ''BTC''")
    case True
    with 2(1) [OF True] show ?thesis
      by (simp only: bitcoin_values.simps simp_thms if_True if_False dom_fun_upd option.simps insert_subset)
  next
    case quote: False
    show ?thesis
    proof (cases "baseAsset s = ''BTC''")
      case True
      with 2(2) [OF quote True refl] quote show ?thesis
        by (simp only: bitcoin_values.simps Let_def simp_thms if_True if_False dom_fun_upd option.simps insert_subset)
    next
      case False
      with 2(3) [OF quote False] quote show ?thesis
        by (simp only: bitcoin_values.simps if_False)
    qed
  qed
qed simp

lemma bitcoin_values_found:
  "e \<in> set symbols \<Longrightarrow> in_bitcoin a (snd e) \<Longrightarrow> a \<in> dom (fst (bitcoin_values prices symbols vals lowest))"
proof (induction prices symbols vals lowest rule: bitcoin_values.induct)
  case (2 prices symbolName s symbols vals lowest)
  have keeps: "a \<in> dom (fst (bitcoin_values prices symbols (vals'(a \<mapsto> v)) l))" for vals' v l
    using bitcoin_values_keeps [of "vals'(a \<mapsto> v)" prices symbols l] by auto
  show ?case
  proof (cases "e \<in> set symbols")
    case True
    show ?thesis
      using 2(1) [OF _ True] 2(2) [OF _ _ refl True] 2(3) [OF _ _ True] 2(5)
      by (cases "quoteAsset s = ''BTC''"; cases "baseAsset s = ''BTC''")
        (simp_all only: bitcoin_values.simps Let_def simp_thms if_True if_False)
  next
    case False
    then have "e = (symbolName, s)"
      using 2(4) by simp
    then have "in_bitcoin a s"
      using 2(5) by simp
    then consider "quoteAsset s = ''BTC''" "a = baseAsset s"
      | "quoteAsset s \<noteq> ''BTC''" "baseAsset s = ''BTC''" "a = quoteAsset s"
      by (auto simp: in_bitcoin_def split: if_splits)
    then show ?thesis
    proof cases
      case 1
      then show ?thesis
        using keeps by (simp only: bitcoin_values.simps if_True simp_thms)
    next
      case 2
      then show ?thesis
        using keeps by (simp only: bitcoin_values.simps Let_def if_True if_False simp_thms)
    qed
  qed
qed simp

lemma lowest_values_at:
  "lowest_values lowest symbols vals a =
     (if vals a = None \<and> a \<in> known_assets symbols then Some lowest else vals a)"
  by (induction lowest symbols vals rule: lowest_values.induct)
    (auto simp: known_assets_def assign_lowest_def)

text \<open>Every asset of a symbol has a value, and Bitcoin is worth one.\<close>

lemma relative_values_known: "dom (relative_values prices symbols) = insert ''BTC'' (known_assets symbols)"
proof -
  have "a \<in> known_assets symbols" if "fst (bitcoin_values prices symbols Map.empty limits_max) a = Some v" for a v
    using bitcoin_values_sources [OF that] by (auto simp: in_bitcoin_def known_assets_def split: if_splits)
  then show ?thesis
    by (auto simp: relative_values_def case_prod_beta lowest_values_at split: if_splits)
qed

lemma relative_values_bitcoin: "relative_values prices symbols ''BTC'' = Some (PreciseNumber_of_int 1)"
  by (simp add: relative_values_def case_prod_beta)

text \<open>An asset traded against Bitcoin has the price of one of the symbols that do so.\<close>

lemma relative_values_traded:
  assumes "a \<noteq> ''BTC''" "e \<in> set symbols" "in_bitcoin a (snd e)"
  shows "\<exists>e \<in> set symbols. in_bitcoin a (snd e) \<and> relative_values prices symbols a = Some (bitcoin_price prices e)"
proof -
  obtain v where v: "fst (bitcoin_values prices symbols Map.empty limits_max) a = Some v"
    using bitcoin_values_found [OF assms(2,3), of prices Map.empty limits_max] by (auto simp: dom_def)
  then have "relative_values prices symbols a = Some v"
    using assms(1) by (simp add: relative_values_def case_prod_beta lowest_values_at)
  then show ?thesis
    using bitcoin_values_sources [OF v] by auto
qed

text \<open>
  The others are meant to have the lowest of the values; the search for it starts from zero, because
  \<open>numeric_limits\<close> does not know the type, and so their value is zero.
\<close>

lemma relative_values_untraded:
  assumes "a \<noteq> ''BTC''" "a \<in> known_assets symbols" "\<forall>e \<in> set symbols. \<not> in_bitcoin a (snd e)"
    and "\<forall>p \<in> ran prices. 0 \<le> p"
  shows "relative_values prices symbols a = Some 0"
proof -
  have "fst (bitcoin_values prices symbols Map.empty limits_max) a = None"
  proof (rule ccontr)
    assume "fst (bitcoin_values prices symbols Map.empty limits_max) a \<noteq> None"
    then obtain v where "fst (bitcoin_values prices symbols Map.empty limits_max) a = Some v"
      by blast
    then show False
      using bitcoin_values_sources assms(3) by fastforce
  qed
  then show ?thesis
    using assms(1,2) bitcoin_values_lowest [OF assms(4), of symbols Map.empty]
    by (simp add: relative_values_def case_prod_beta lowest_values_at limits_max_zero)
qed

text \<open>A cycle without value promises no profit, whatever the prices are, and is never started.\<close>

lemma worthless_profit: "o_relativeValue opp = 0 \<Longrightarrow> o_totalProfit (Opportunity_update m opp budget) = 0"
  by (simp add: Opportunity_update_def Let_def)

lemma worthless_never_wins: "o_relativeValue (w_opportunityList w ! i) = 0 \<Longrightarrow> \<not> cycle_wins u w i"
  by (auto simp: cycle_wins_def wins_def visited_def worthless_profit Let_def pn_simps split: option.splits)

section \<open>Given paths\<close>

lemma static_trades_known:
  "\<forall>t \<in> set path. symbolMap (fst t) \<noteq> None \<Longrightarrow>
     static_trades symbolMap path = Inr (map (\<lambda>(s, p). Trade_new (\<lambda>r. the (symbolMap r)) s p) path)"
  by (induction path) auto

lemma static_trades_need:
  "static_trades symbolMap path = Inr trades \<Longrightarrow> \<forall>t \<in> set path. symbolMap (fst t) \<noteq> None"
  by (induction symbolMap path arbitrary: trades rule: static_trades.induct) (auto split: option.splits sum.splits)

text \<open>The given paths become trades exactly when every symbol they name is one the exchange lists.\<close>

lemma static_trading_paths_known:
  "\<forall>path \<in> set paths. \<forall>t \<in> set path. symbolMap (fst t) \<noteq> None \<Longrightarrow>
     static_trading_paths symbolMap paths =
       Inr (map (map (\<lambda>(s, p). Trade_new (\<lambda>r. the (symbolMap r)) s p)) paths)"
  by (induction paths) (simp_all add: static_trades_known)

lemma static_trading_paths_need:
  "static_trading_paths symbolMap paths = Inr result \<Longrightarrow>
     \<forall>path \<in> set paths. \<forall>t \<in> set path. symbolMap (fst t) \<noteq> None"
proof (induction symbolMap paths arbitrary: result rule: static_trading_paths.induct)
  case (2 symbolMap path paths)
  then obtain trades rest where "static_trades symbolMap path = Inr trades"
    and "static_trading_paths symbolMap paths = Inr rest"
    by (auto split: sum.splits)
  with 2(1) static_trades_need [of symbolMap path trades] show ?case
    by simp
qed simp

end
