(* ===== verification/Spec2Isabelle.thy ===== *)
theory Spec2Isabelle
  imports Precise_Text Worker_Properties Arb_Mapper Message_Roundtrip Time_Range Time_Text Dictionary_Laws Harjus_Properties Settings_Reread Initiator_Laws Load_Laws Exchange_Laws
begin

text \<open>
  Verification library for Harjus, a trading program for triangular arbitrage on the exchange Binance.

  \<^bold>\<open>The program.\<close> Harjus connects to the exchange over FIX. Price updates arrive on market data sessions;
  a trading thread looks through the cycles of three trades that the changed symbol belongs to, sizes each
  for the free balance, starts the most profitable one by handing its first order to the order entry session,
  and follows the reports of the exchange until the cycle is finished. Under \<^verbatim>\<open>src/\<close> and \<^verbatim>\<open>include/\<close> is the
  trading program; under \<^verbatim>\<open>flashfix/\<close> is its FIX engine, which reads and writes messages, checks them
  against a dictionary and runs the sessions. The parts meet in messages: a byte stream is cut into
  frames (\<open>readFixMessage\<close>), a frame is read into a message (\<open>setString\<close>), the session checks and answers it
  (\<open>next_text\<close>, \<open>next_message\<close>) and hands application messages to the callbacks of the program.

  \<^bold>\<open>The trading program.\<close>
  \<^item> \<open>Precise_Number\<close>, \<open>Precise_Text\<close> with \<open>Decimal_Text\<close>: \<^verbatim>\<open>PreciseNumber\<close> (include/PreciseNumber.h,
    src/PreciseNumber.cpp), amounts as integers of a fixed number of decimals, and their text.
  \<^item> \<open>Trade_Model\<close>: \<^verbatim>\<open>Symbol\<close>, \<^verbatim>\<open>Trade\<close>, \<^verbatim>\<open>StaticTrade\<close>. The symbol map that trades point into is a store, a pointer a key.
  \<^item> \<open>Opportunity_Model\<close>: \<^verbatim>\<open>Opportunity\<close>, a cycle of trades sized for a budget in three passes.
  \<^item> \<open>Bookkeeping\<close>: \<^verbatim>\<open>Balance\<close>, \<^verbatim>\<open>ReservedTrades\<close>, \<^verbatim>\<open>Execution\<close>, \<^verbatim>\<open>ExecutionReport\<close>, with the locales the worker uses them through.
  \<^item> \<open>Worker_Model\<close>, \<open>Worker_Invariant\<close>, \<open>Worker_Properties\<close>: \<^verbatim>\<open>Worker\<close> (src/Worker.cpp) as handlers of price updates and
    reports on a record of its members, an inductive step relation over them, its invariant, and its properties.
  \<^item> \<open>Arb_Mapper\<close>: the search for the cycles (src/Arbmapper.cpp); the graph library is a parameter with named laws.
  \<^item> \<open>Configuration\<close> (src/Configuration.cpp), \<open>Exchange\<close>, \<open>Exchange_Laws\<close> (src/Exchange.cpp, src/Main.cpp): what is read from the environment and
    from the exchange before the start: balance, symbols, the values of the assets in Bitcoin, and the paths that are given.

  \<^bold>\<open>The FIX engine.\<close> Below, file names are those of flashfix/include and flashfix/src.
  \<^item> \<open>Fix_Convert\<close> (FieldConvertors.h): integers of every width on machine words, checksums, characters, booleans and the syntax of floats.
    \<open>Fix_Calendar\<close>, \<open>Fix_DateTime\<close> (FieldTypes.h), \<open>Time_Text\<close> (FieldConvertors.h): the calendar, dates and times, their text.
    \<open>Time_Range\<close> (TimeRange.h, TimeRange.cpp): when a session is active.
  \<^item> \<open>Message_Order\<close> (MessageSorters), \<open>Field_Search\<close>, \<open>Field_Map\<close>, \<open>Field_Map_Laws\<close> (Field.h, FieldMap.h, FieldMap.cpp): the ordered store of the
    fields and groups of a part of a message. A map is a value; groups are owned by it.
  \<^item> \<open>Fix_Parser\<close> (Parser.cpp and the loop of the connection), \<open>Fix_Message\<close> (Message.h, Message.cpp): frames and messages.
    \<open>Message_Laws\<close>, \<open>Message_Roundtrip\<close>, \<open>Message_Total\<close>: what is written is a frame, it is read back, reading ends.
  \<^item> \<open>Dictionary_Data\<close>, \<open>Dictionary_Check\<close>, \<open>Dictionary_Laws\<close> (DataDictionary.h, DataDictionary.cpp): what a dictionary stores, the
    validator, and what it accepts. An exception is a value of \<open>fix_exception\<close>.
  \<^item> \<open>Dictionary_Load\<close>, \<open>Load_Laws\<close> (the reading part of DataDictionary.cpp, PUGIXML_DOMDocument.cpp): a dictionary made from the tree of nodes of its
    specification, and that what a loaded dictionary refers to is declared in it.
  \<^item> \<open>Message_Store\<close> (MessageStore), \<open>Session_State\<close> (SessionState.h), \<open>Session_Id\<close> (SessionID.h, the dictionaries and the registry).
  \<^item> \<open>Session_Action\<close>: statements as functions of the state that return a value or an exception and the state they leave,
    also when they throw. \<open>Fix_Session\<close>, \<open>Session_Generate\<close>, \<open>Session_Next\<close> (Session.h, Session.cpp): every member function of a session
    that changes its state, over a record of its members and an environment with the clock, the time zone, the transport and the application.
  \<^item> \<open>Session_Relation\<close>, \<open>Session_Handled\<close>: the locale \<open>session_relation\<close> names the ways a session changes its state, and carries a relation that
    allows them through every statement, handler and entry point. \<open>Session_Invariant\<close> interprets it twice, for well-formedness and for the
    length of the queue, and defines the reachable sessions. \<open>Session_Sending\<close>, \<open>Session_Properties\<close>: what is sent is kept, and the properties.
  \<^item> \<open>Session_Settings\<close> (Dictionary.cpp, Settings.cpp, SessionSettings.cpp, strings of Utility.cpp): sections of keys and values, the settings of
    the sessions and their file. \<open>Settings_Laws\<close>, \<open>Settings_Reread\<close>: entries of a file have a plain form, and what is written is read back.
  \<^item> \<open>Session_Factory\<close>, \<open>Factory_Laws\<close> (SessionFactory.cpp): a session made from its settings, with the dictionaries it uses, is one of the
    reachable sessions. \<open>Session_Initiator\<close>, \<open>Initiator_Laws\<close> (Initiator.cpp, HostDetailsProvider.cpp, FstackMicroThreadedSSLSocketInitiator.cpp): the
    initiator, its three sets of sessions, connecting and stopping, and its runs as an inductive relation.

  \<^bold>\<open>The application between them.\<close>
  \<^item> \<open>Application_Reading\<close> (src/HarjusApplication.cpp, Exceptions.h): the reports and prices read from messages, the division of the symbols.
  \<^item> \<open>Harjus_Application\<close> (include/HarjusApplication.h, src/HarjusApplication.cpp, the MessageCracker.h of every version,
    FstackMicroThreadedSSLSocketInitiator.cpp): the members of the application, its callbacks as an environment of the session model, the orders
    it writes, and the queue through which they reach their session.
  \<^item> \<open>Application_Laws\<close>, \<open>Harjus_Properties\<close>: what the readings amount to; what arrives in a report or a refresh reaches the queue of the trading
    thread, and the callbacks only add to the queues (a second interpretation of the locale of \<open>Session_Action\<close>); an order that is
    submitted goes out and is kept; a logon is signed.

  \<^bold>\<open>What the groups of lemmas show.\<close> Trading: the books of the worker are in order in every reachable state, no lookup fails, the
  best cycle is started on symbols nobody holds, orders stay within the balance, money is neither made nor lost, a stopped worker
  drains; the sizing of a cycle chains its orders, stays within the budget and is maximal; the cycles found are all and only the
  cycles there are. Messages: conversions are exact and round trips hold; a stream is cut into the frames sent however the network
  cuts it; a message without groups is read back as it was written, whatever the dictionaries are; validation accepts exactly what its statement says. Sessions: reachable states are well
  formed, handling a message ends, application messages are delivered in turn, and what is sent is what is kept. The application: reports and refreshes are read for what
  they say, and an order of the worker reaches the wire as one message with its number, symbol, side, quantity and price.

  \<^bold>\<open>Bounds and fuel.\<close> Integers that may wrap around are words: 32 bits for \<^verbatim>\<open>int\<close>, 64 for sequence numbers; amounts are unbounded in the
  code as well. Loops over a text have its length plus one as fuel, and every turn reads a character (\<open>reading_ends\<close>). Working off the queue of
  a session calls the entry point again; its fuel is the number of messages that wait and two, which is enough because a message with
  the expected number is never queued again (\<open>session_ends\<close>). Loading a dictionary spends fuel for every component and group it
  enters; components that refer to each other in a circle end at no fuel (\<open>self_reference_endless\<close>), as in the code. All other recursions are structural or have a termination proof.

  \<^bold>\<open>What is not modelled, and why.\<close> Threads: the queues between them are sequences of what they held, locks have no counterpart. The callbacks
  of a session do not call back into it: the subscription that \<open>onLogon\<close> sends is recorded, and sending it is a parameter. Sockets, TLS, files, the system clock and the network calls of the exchange are input and output;
  \<^verbatim>\<open>boost\<close>, the decimal type, the graph algorithms, \<^verbatim>\<open>pugixml\<close>, \<^verbatim>\<open>dotenv\<close>, \<^verbatim>\<open>libsodium\<close> and \<^verbatim>\<open>double-conversion\<close> are libraries: what
  is used of them is a parameter. The message classes of flashfix/include/fix40 to fix50sp2 are generated. The stores and logs
  in files are not used by the program, which keeps its messages in memory.
\<close>

end
